(* ===== verification/Prelude.thy ===== *)
theory Prelude
  imports Main "HOL-Library.List_Lexorder" "HOL-Library.Char_ord" "HOL-Library.Product_Lexorder"
begin

text \<open>
  Vocabulary shared by every component of the RankLens development.

  \<^item> The exceptions of the Python sources are the constructors of \<open>py_error\<close>; a call that may
    raise has type \<open>'a result\<close>, the error on the left.
  \<^item> A database table is the list of its rows in insertion order.  A query is \<open>filter\<close>,
    \<open>List.find\<close> or \<open>first_by\<close>; an attribute assignment on a loaded row is \<open>upd_where\<close>; a bulk
    \<open>delete\<close> statement is \<open>delete_where\<close>; \<open>session.add\<close> under a primary key or a unique constraint is
    \<open>add_row\<close>, which raises when the constraint is violated.
  \<^item> \<open>begin_txn\<close> is \<open>with sessions.begin()\<close>: it commits on every normal exit, early returns
    included, and rolls back on an exception, also when the block had already assigned to
    rows.

  The two collections below carry the component proofs: \<open>row_simps\<close> for the table
  operations and \<open>txn_simps\<close> for the transaction wrappers.
\<close>

named_theorems row_simps "rewrite rules for operations on tables"
named_theorems txn_simps "rewrite rules for transactions"

section \<open>Exceptions\<close>

datatype py_error =
    ValueError string
  | LookupError string
  | RuntimeError string
  | TypeErr string
  | OverflowErr string
  | ZeroDivisionErr string
  | RunnerError string
  | AssertionErr
  | OSErr string
  | UnicodeErr string
  | AdmissionError (adm_code: string) (adm_message: string) (adm_status: int) (adm_retriable: bool)
  | DeletionHeldError "string list"
  | ObjectIntegrityError string
  | ObjectSizeLimitError string
  | IntegrityViolation string
  | JSONDecodeError
  | SlurmAdapterError string
  | RankAggregateError string
  | TelemetryError string
  | HTTPException int string

type_synonym 'a result = "py_error + 'a"

definition bindE :: "'a result \<Rightarrow> ('a \<Rightarrow> 'b result) \<Rightarrow> 'b result" where
  "bindE m f = (case m of Inl e \<Rightarrow> Inl e | Inr a \<Rightarrow> f a)"

lemma bindE_simps [simp]:
  "bindE (Inl e) f = Inl e"
  "bindE (Inr a) f = f a"
  by (simp_all add: bindE_def)

lemma bindE_Inr_iff: "bindE m f = Inr b \<longleftrightarrow> (\<exists>a. m = Inr a \<and> f a = Inr b)"
  by (cases m) auto

fun mapE :: "('a \<Rightarrow> 'b result) \<Rightarrow> 'a list \<Rightarrow> 'b list result" where
  "mapE f [] = Inr []"
| "mapE f (x # xs) = bindE (f x) (\<lambda>y. bindE (mapE f xs) (\<lambda>ys. Inr (y # ys)))"

lemma mapE_Inr_length: "mapE f xs = Inr ys \<Longrightarrow> length ys = length xs"
  by (induction xs arbitrary: ys) (auto simp: bindE_Inr_iff)

lemma mapE_Inr_nth: "mapE f xs = Inr ys \<Longrightarrow> i < length xs \<Longrightarrow> f (xs ! i) = Inr (ys ! i)"
proof (induction xs arbitrary: ys i)
  case (Cons x xs)
  then show ?case by (cases i) (auto simp: bindE_Inr_iff)
qed simp

lemma mapE_total: "(\<And>x. x \<in> set xs \<Longrightarrow> f x = Inr (g x)) \<Longrightarrow> mapE f xs = Inr (map g xs)"
  by (induction xs) auto

definition opt_ok :: "('a \<Rightarrow> bool) \<Rightarrow> 'a option \<Rightarrow> bool" where
  "opt_ok P x = (case x of None \<Rightarrow> True | Some y \<Rightarrow> P y)"

lemma opt_ok_simps [simp]: "opt_ok P None" "opt_ok P (Some y) = P y"
  by (simp_all add: opt_ok_def)

section \<open>Transactions\<close>

definition begin_txn :: "('s \<Rightarrow> 'a result \<times> 's) \<Rightarrow> 's \<Rightarrow> 'a result \<times> 's" where
  "begin_txn body s = (case body s of (Inl e, s') \<Rightarrow> (Inl e, s) | (Inr a, s') \<Rightarrow> (Inr a, s'))"

lemma begin_txn_Inl [txn_simps]: "body s = (Inl e, s') \<Longrightarrow> begin_txn body s = (Inl e, s)"
  by (simp add: begin_txn_def)

lemma begin_txn_Inr [txn_simps]: "body s = (Inr a, s') \<Longrightarrow> begin_txn body s = (Inr a, s')"
  by (simp add: begin_txn_def)

lemma begin_txn_rollback: "begin_txn body s = (Inl e, s') \<Longrightarrow> s' = s"
  by (auto simp: begin_txn_def split: prod.splits sum.splits)

lemma begin_txn_commit: "begin_txn body s = (Inr a, s') \<longleftrightarrow> body s = (Inr a, s')"
  by (auto simp: begin_txn_def split: prod.splits sum.splits)

lemma begin_txn_invariant:
  assumes "I s" and "\<And>a s'. body s = (Inr a, s') \<Longrightarrow> I s'"
  shows "I (snd (begin_txn body s))"
  using assms by (auto simp: begin_txn_def split: prod.splits sum.splits)

section \<open>Tables\<close>

definition upd_where :: "('r \<Rightarrow> bool) \<Rightarrow> ('r \<Rightarrow> 'r) \<Rightarrow> 'r list \<Rightarrow> 'r list" where
  "upd_where P f rows = map (\<lambda>r. if P r then f r else r) rows"

definition delete_where :: "('r \<Rightarrow> bool) \<Rightarrow> 'r list \<Rightarrow> 'r list" where
  "delete_where P rows = filter (\<lambda>r. \<not> P r) rows"

definition count_where :: "('r \<Rightarrow> bool) \<Rightarrow> 'r list \<Rightarrow> int" where
  "count_where P rows = int (length (filter P rows))"

definition first_by :: "('r \<Rightarrow> 'k::linorder) \<Rightarrow> 'r list \<Rightarrow> 'r option" where
  "first_by key rows = (case sort_key key rows of [] \<Rightarrow> None | r # _ \<Rightarrow> Some r)"

definition add_row :: "('r \<Rightarrow> 'r \<Rightarrow> bool) \<Rightarrow> string \<Rightarrow> 'r \<Rightarrow> 'r list \<Rightarrow> 'r list result" where
  "add_row clash constraint r rows =
     (if list_ex (clash r) rows then Inl (IntegrityViolation constraint) else Inr (rows @ [r]))"

lemma set_delete_where [row_simps]: "set (delete_where P rows) = {r \<in> set rows. \<not> P r}"
  by (simp add: delete_where_def)

lemma set_upd_where [row_simps]: "set (upd_where P f rows) = (\<lambda>r. if P r then f r else r) ` set rows"
  by (simp add: upd_where_def)

lemma length_upd_where [simp]: "length (upd_where P f rows) = length rows"
  by (simp add: upd_where_def)

lemma upd_where_Nil [simp]: "upd_where P f [] = []"
  by (simp add: upd_where_def)

lemma upd_where_Cons [simp]:
  "upd_where P f (r # rows) = (if P r then f r else r) # upd_where P f rows"
  by (simp add: upd_where_def)

lemma delete_where_Nil [simp]: "delete_where P [] = []"
  by (simp add: delete_where_def)

lemma delete_where_Cons [simp]:
  "delete_where P (r # rows) = (if P r then delete_where P rows else r # delete_where P rows)"
  by (simp add: delete_where_def)

lemma upd_where_ident: "(\<And>r. r \<in> set rows \<Longrightarrow> \<not> P r) \<Longrightarrow> upd_where P f rows = rows"
  by (induction rows) auto

lemma map_upd_where: "(\<And>r. P r \<Longrightarrow> k (f r) = k r) \<Longrightarrow> map k (upd_where P f rows) = map k rows"
  by (induction rows) auto

lemma distinct_map_delete_where: "distinct (map k rows) \<Longrightarrow> distinct (map k (delete_where P rows))"
  by (simp add: delete_where_def distinct_map_filter)

lemma count_delete_where:
  "int (length (delete_where P rows)) = int (length rows) - count_where P rows"
  using sum_length_filter_compl[of P rows] by (simp add: delete_where_def count_where_def)

lemma count_where_nonneg [simp]: "0 \<le> count_where P rows"
  by (simp add: count_where_def)

lemma upd_where_member:
  assumes "r \<in> set (upd_where P f rows)"
  obtains r0 where "r0 \<in> set rows" "P r0" "r = f r0" | "r \<in> set rows" "\<not> P r"
  using assms by (auto simp: upd_where_def split: if_splits)

lemma upd_where_hit: "r \<in> set rows \<Longrightarrow> P r \<Longrightarrow> f r \<in> set (upd_where P f rows)"
  by (auto simp: upd_where_def intro!: image_eqI [of _ _ r])

lemma list_ex_upd_where:
  assumes "list_ex Q rows" "\<And>r. Q r \<Longrightarrow> P r \<Longrightarrow> Q (f r)"
  shows "list_ex Q (upd_where P f rows)"
  using assms by (induction rows) auto

lemma first_by_None [simp]: "first_by key rows = None \<longleftrightarrow> rows = []"
  by (cases "sort_key key rows") (auto simp: first_by_def dest: arg_cong [where f = length])

lemma first_by_Some_set: "first_by key rows = Some r \<Longrightarrow> r \<in> set rows"
proof -
  assume a: "first_by key rows = Some r"
  then have "r \<in> set (sort_key key rows)"
    by (cases "sort_key key rows") (auto simp: first_by_def)
  then show ?thesis by simp
qed

lemma first_by_Some_least: "first_by key rows = Some r \<Longrightarrow> y \<in> set rows \<Longrightarrow> key r \<le> key y"
proof -
  assume a: "first_by key rows = Some r" and y: "y \<in> set rows"
  from a obtain rs where s: "sort_key key rows = r # rs"
    by (cases "sort_key key rows") (auto simp: first_by_def)
  have "sorted (map key (sort_key key rows))" by simp
  with s have "\<forall>z \<in> set (r # rs). key r \<le> key z" by auto
  moreover have "y \<in> set (sort_key key rows)" using y by simp
  ultimately show ?thesis using s by auto
qed

lemma first_by_filter_Some:
  "first_by key (filter P rows) = Some r \<Longrightarrow> r \<in> set rows \<and> P r"
  using first_by_Some_set by fastforce

lemma add_row_Inr_iff:
  "add_row clash c r rows = Inr rows' \<longleftrightarrow> (\<forall>x \<in> set rows. \<not> clash r x) \<and> rows' = rows @ [r]"
  by (auto simp: add_row_def list_ex_iff)

lemma add_row_ok: "(\<And>x. x \<in> set rows \<Longrightarrow> \<not> clash r x) \<Longrightarrow> add_row clash c r rows = Inr (rows @ [r])"
  by (auto simp: add_row_def list_ex_iff)

lemma find_Some_iff: "List.find P rows = Some r \<Longrightarrow> r \<in> set rows \<and> P r"
  by (induction rows) (auto split: if_splits)

lemma find_None_all: "List.find P rows = None \<longleftrightarrow> (\<forall>r \<in> set rows. \<not> P r)"
  by (auto simp: find_None_iff)

lemma find_append_None: "List.find P rows = None \<Longrightarrow> List.find P (rows @ [r]) = (if P r then Some r else None)"
  by (induction rows) (auto split: if_splits)

lemma find_append_Some: "List.find P rows = Some x \<Longrightarrow> List.find P (rows @ ys) = Some x"
  by (induction rows) (auto split: if_splits)

lemma find_unique_key:
  assumes "distinct (map k rows)" "r \<in> set rows"
  shows "List.find (\<lambda>x. k x = k r) rows = Some r"
  using assms by (induction rows) (auto simp: image_iff)

lemma find_upd_where:
  assumes "\<And>r. r \<in> set rows \<Longrightarrow> P r \<Longrightarrow> Q (f r) = Q r"
  shows "List.find Q (upd_where P f rows) =
    map_option (\<lambda>r. if P r then f r else r) (List.find Q rows)"
  using assms by (induction rows) auto

lemma find_delete_where_other:
  assumes "\<And>r. r \<in> set rows \<Longrightarrow> Q r \<Longrightarrow> \<not> P r"
  shows "List.find Q (delete_where P rows) = List.find Q rows"
  using assms by (induction rows) auto

lemma find_delete_where_same: "List.find P (delete_where P rows) = None"
  by (simp add: find_None_all set_delete_where)

lemmas row_defs = upd_where_def delete_where_def count_where_def first_by_def add_row_def

end
