(* ===== verification/Python_Base.thy ===== *)
theory Python_Base
  imports Prelude "HOL-Library.AList"
begin

text \<open>
  The parts of the Python language and standard library the sources use: \<open>str\<close> and
  \<open>bytes\<close> (both character lists; a \<open>char\<close> is a byte, so text is restricted to code points
  below 256), identifier patterns, decoded JSON values with the canonical
  \<open>json.dumps(sort_keys=True, separators=(",", ":"))\<close>, and \<open>datetime\<close> values with and
  without an offset.

  A catalogue timestamp is an \<open>instant\<close>, the number of microseconds since the epoch in UTC;
  \<open>timedelta(seconds=n)\<close> is \<open>seconds n\<close>.
\<close>

section \<open>Text and bytes\<close>

type_synonym bytes = "char list"

abbreviation LF :: char where "LF \<equiv> CHR 0x0A"
abbreviation CR :: char where "CR \<equiv> CHR 0x0D"

definition str_space :: "char \<Rightarrow> bool" where
  "str_space c = (let n = (of_char c :: nat) in
     (9 \<le> n \<and> n \<le> 13) \<or> (28 \<le> n \<and> n \<le> 32) \<or> n = 133 \<or> n = 160)"

definition byte_space :: "char \<Rightarrow> bool" where
  "byte_space c = (let n = (of_char c :: nat) in (9 \<le> n \<and> n \<le> 13) \<or> n = 32)"

definition strip_with :: "(char \<Rightarrow> bool) \<Rightarrow> string \<Rightarrow> string" where
  "strip_with sp s = rev (dropWhile sp (rev (dropWhile sp s)))"

definition str_strip :: "string \<Rightarrow> string" where
  "str_strip s = strip_with str_space s"

definition bytes_strip :: "bytes \<Rightarrow> bytes" where
  "bytes_strip s = strip_with byte_space s"

fun join :: "string \<Rightarrow> string list \<Rightarrow> string" where
  "join sep [] = []"
| "join sep [x] = x"
| "join sep (x # y # xs) = x @ sep @ join sep (y # xs)"

text \<open>\<open>s.encode("utf-8")\<close> on code points below 256.\<close>

definition utf8_char :: "char \<Rightarrow> bytes" where
  "utf8_char c = (let n = (of_char c :: nat) in
     if n < 128 then [c] else [char_of (192 + n div 64), char_of (128 + n mod 64)])"

definition utf8 :: "string \<Rightarrow> bytes" where
  "utf8 s = concat (map utf8_char s)"

fun splitlines_from :: "bytes \<Rightarrow> bytes \<Rightarrow> bytes list" where
  "splitlines_from acc [] = (if acc = [] then [] else [rev acc])"
| "splitlines_from acc (c # cs) =
     (if c = LF then rev acc # splitlines_from [] cs
      else if c = CR then
        (case cs of
           d # ds \<Rightarrow> (if d = LF then rev acc # splitlines_from [] ds
                     else rev acc # splitlines_from [] cs)
         | [] \<Rightarrow> [rev acc])
      else splitlines_from (c # acc) cs)"

definition splitlines :: "bytes \<Rightarrow> bytes list" where
  "splitlines s = splitlines_from [] s"

definition digit_char :: "nat \<Rightarrow> char" where
  "digit_char n = char_of (48 + n)"

fun show_nat :: "nat \<Rightarrow> string" where
  "show_nat n = (if n < 10 then [digit_char n] else show_nat (n div 10) @ [digit_char (n mod 10)])"

declare show_nat.simps [simp del]

definition show_int :: "int \<Rightarrow> string" where
  "show_int i = (if i < 0 then CHR ''-'' # show_nat (nat (- i)) else show_nat (nat i))"

section \<open>Identifier patterns\<close>

definition in_range :: "char \<Rightarrow> char \<Rightarrow> char \<Rightarrow> bool" where
  "in_range lo hi c = ((of_char lo :: nat) \<le> of_char c \<and> (of_char c :: nat) \<le> of_char hi)"

definition alnum_char :: "char \<Rightarrow> bool" where
  "alnum_char c = (in_range (CHR ''A'') (CHR ''Z'') c \<or> in_range (CHR ''a'') (CHR ''z'') c
     \<or> in_range (CHR ''0'') (CHR ''9'') c)"

definition safe_char :: "char \<Rightarrow> bool" where
  "safe_char c = (alnum_char c \<or> c \<in> set ''_.:-'')"

text \<open>The pattern \<^verbatim>\<open>^[A-Za-z0-9_.:-]{1,128}$\<close> under \<open>fullmatch\<close>.\<close>

definition safe_identifier :: "string \<Rightarrow> bool" where
  "safe_identifier s = (1 \<le> length s \<and> length s \<le> 128 \<and> list_all safe_char s)"

definition hex_char :: "char \<Rightarrow> bool" where
  "hex_char c = (in_range (CHR ''0'') (CHR ''9'') c \<or> in_range (CHR ''a'') (CHR ''f'') c)"

text \<open>The pattern \<^verbatim>\<open>[0-9a-f]{64}\<close> under \<open>fullmatch\<close>.\<close>

definition sha256_hex :: "string \<Rightarrow> bool" where
  "sha256_hex s = (length s = 64 \<and> list_all hex_char s)"

text \<open>\<open>str(uuid.UUID(s)) == s\<close>: the canonical lower-case 8-4-4-4-12 form.\<close>

definition canonical_uuid :: "string \<Rightarrow> bool" where
  "canonical_uuid s = (length s = 36 \<and>
     list_all (\<lambda>i. if i \<in> {8, 13, 18, 23} then s ! i = CHR ''-'' else hex_char (s ! i)) [0..<36])"

section \<open>Case and integers\<close>

text \<open>The ASCII part of \<open>upper\<close> and \<open>lower\<close>; the results are compared with ASCII words only.\<close>

definition upper_char :: "char \<Rightarrow> char" where
  "upper_char c = (if in_range (CHR ''a'') (CHR ''z'') c then char_of ((of_char c :: nat) - 32) else c)"

definition lower_char :: "char \<Rightarrow> char" where
  "lower_char c = (if in_range (CHR ''A'') (CHR ''Z'') c then char_of ((of_char c :: nat) + 32) else c)"

text \<open>\<open>int(text)\<close>: surrounding space, one sign, decimal digits with single underscores between them.\<close>

definition digit_value :: "char \<Rightarrow> int option" where
  "digit_value c = (if in_range (CHR ''0'') (CHR ''9'') c then Some (of_char c - 48) else None)"

fun digits_from :: "int \<Rightarrow> string \<Rightarrow> int option" where
  "digits_from acc [] = Some acc"
| "digits_from acc (c # cs) =
     (if c = CHR ''_''
      then (case cs of [] \<Rightarrow> None
            | d # ds \<Rightarrow> (case digit_value d of None \<Rightarrow> None | Some v \<Rightarrow> digits_from (acc * 10 + v) ds))
      else (case digit_value c of None \<Rightarrow> None | Some v \<Rightarrow> digits_from (acc * 10 + v) cs))"

definition unsigned_int :: "string \<Rightarrow> int option" where
  "unsigned_int s = (case s of [] \<Rightarrow> None
     | c # cs \<Rightarrow> (case digit_value c of None \<Rightarrow> None | Some v \<Rightarrow> digits_from v cs))"

definition py_int :: "string \<Rightarrow> int option" where
  "py_int raw = (case str_strip raw of
        [] \<Rightarrow> None
      | c # cs \<Rightarrow> if c = CHR ''-'' then map_option uminus (unsigned_int cs)
                 else if c = CHR ''+'' then unsigned_int cs else unsigned_int (c # cs))"

section \<open>Dictionaries\<close>

text \<open>
  A \<open>dict\<close> built by successive assignments: items in the order the keys were first
  assigned, each with the value assigned last.
\<close>

definition dict_of :: "('k \<times> 'v) list \<Rightarrow> ('k \<times> 'v) list" where
  "dict_of items = fold (\<lambda>(k, v) d. AList.update k v d) items []"

lemma dict_of_snoc: "dict_of (items @ [(k, v)]) = AList.update k v (dict_of items)"
  by (simp add: dict_of_def)

lemma set_dict_of: "set (dict_of items) \<subseteq> set items"
proof (induction items rule: rev_induct)
  case (snoc p items)
  obtain k v where p: "p = (k, v)" by fastforce
  have "set (AList.update k v d) \<subseteq> insert (k, v) (set d)" for d :: "('a \<times> 'b) list"
    by (induction d) auto
  with snoc show ?case by (fastforce simp: p dict_of_snoc)
qed (simp add: dict_of_def)

lemma keys_dict_of: "fst ` set (dict_of items) = fst ` set items"
proof (induction items rule: rev_induct)
  case (snoc p items)
  obtain k v where p: "p = (k, v)" by fastforce
  from AList.dom_update [of k v "dict_of items"]
    snoc show ?case by (simp add: p dict_of_snoc)
qed (simp add: dict_of_def)

lemma dict_of_distinct:
  assumes "distinct (map fst items)"
  shows "dict_of items = items"
  using assms
proof (induction items rule: rev_induct)
  case (snoc p items)
  obtain k v where p: "p = (k, v)" by fastforce
  have "AList.update k v d = d @ [(k, v)]" if "k \<notin> fst ` set d" for d :: "('a \<times> 'b) list"
    using that by (induction d) auto
  with snoc p show ?case by (simp add: dict_of_snoc)
qed (simp add: dict_of_def)

lemma length_dict_of: "length (dict_of items) \<le> length items \<and> distinct (map fst (dict_of items))"
proof (induction items rule: rev_induct)
  case (snoc p items)
  obtain k v where p: "p = (k, v)" by fastforce
  have "length (AList.update k v d) \<le> Suc (length d)" for d :: "('a \<times> 'b) list" by (induction d) auto
  from this [of "dict_of items"] snoc show ?case using distinct_update [of "dict_of items" k v] by (simp add: p dict_of_snoc)
qed (simp add: dict_of_def)

lemma dict_of_shorter: "length (dict_of items) = length items \<longleftrightarrow> distinct (map fst items)"
proof
  assume l: "length (dict_of items) = length items"
  have "card (set (map fst (dict_of items))) = length (map fst (dict_of items))"
    by (rule distinct_card) (use length_dict_of in blast)
  then have "card (set (map fst items)) = length (map fst items)" using l keys_dict_of [of items] by simp
  then show "distinct (map fst items)" by (rule card_distinct)
next
  assume "distinct (map fst items)"
  then show "length (dict_of items) = length items" by (simp add: dict_of_distinct)
qed

section \<open>JSON\<close>

text \<open>
  \<open>json\<close> is what \<open>json.loads\<close> returns; an object is the list of its items in document
  order with the last duplicate kept by the decoder.  A \<open>float\<close> is kept as its
  \<open>repr\<close>.
\<close>

datatype json =
    JNull
  | JBool bool
  | JInt int
  | JFloat string
  | JStr string
  | JArr "json list"
  | JObj "(string \<times> json) list"

definition jget :: "(string \<times> json) list \<Rightarrow> string \<Rightarrow> json" where
  "jget items k = (case map_of items k of None \<Rightarrow> JNull | Some v \<Rightarrow> v)"

fun is_jobj :: "json \<Rightarrow> bool" where
  "is_jobj (JObj _) = True"
| "is_jobj _ = False"

definition hex_digit :: "nat \<Rightarrow> char" where
  "hex_digit n = (if n < 10 then char_of (48 + n) else char_of (87 + n))"

definition escape_char :: "char \<Rightarrow> string" where
  "escape_char c = (let n = (of_char c :: nat) in
     if c = CHR 0x22 then [CHR 0x5C, CHR 0x22]
     else if c = CHR 0x5C then [CHR 0x5C, CHR 0x5C]
     else if c = LF then [CHR 0x5C, CHR ''n'']
     else if c = CR then [CHR 0x5C, CHR ''r'']
     else if c = CHR 0x09 then [CHR 0x5C, CHR ''t'']
     else if c = CHR 0x08 then [CHR 0x5C, CHR ''b'']
     else if c = CHR 0x0C then [CHR 0x5C, CHR ''f'']
     else if n < 32 \<or> 127 \<le> n then
       [CHR 0x5C, CHR ''u'', CHR ''0'', CHR ''0'', hex_digit (n div 16), hex_digit (n mod 16)]
     else [c])"

definition dumps_str :: "string \<Rightarrow> string" where
  "dumps_str s = CHR 0x22 # concat (map escape_char s) @ [CHR 0x22]"

primrec json_dumps :: "json \<Rightarrow> string" where
  "json_dumps JNull = ''null''"
| "json_dumps (JBool b) = (if b then ''true'' else ''false'')"
| "json_dumps (JInt i) = show_int i"
| "json_dumps (JFloat r) = r"
| "json_dumps (JStr s) = dumps_str s"
| "json_dumps (JArr xs) = ''['' @ join '','' (map json_dumps xs) @ '']''"
| "json_dumps (JObj kvs) =
     ''{'' @ join '','' (map (\<lambda>(k, d). dumps_str k @ '':'' @ d)
        (sort_key fst (map (map_prod id json_dumps) kvs))) @ ''}''"

section \<open>Library functions taken as parameters\<close>

text \<open>
  \<open>rt_sha256\<close> is \<open>hashlib.sha256(_).hexdigest()\<close>, \<open>rt_hmac_sha256\<close> the keyed digest, \<open>rt_b64decode\<close> is
  \<open>base64.b64decode(_, validate=True)\<close> and \<open>rt_json_loads\<close> is \<open>json.loads\<close>; \<open>None\<close> is
  the decoding error.  Every theorem holds for all of them unless it names a hypothesis.
\<close>

record runtime =
  rt_sha256 :: "bytes \<Rightarrow> string"
  rt_hmac_sha256 :: "bytes \<Rightarrow> bytes \<Rightarrow> string"
  rt_b64decode :: "string \<Rightarrow> bytes option"
  rt_json_loads :: "bytes \<Rightarrow> json option"

section \<open>Dates and times\<close>

type_synonym instant = int

definition seconds :: "int \<Rightarrow> int" where
  "seconds n = n * 1000000"

lemma seconds_mono: "seconds a \<le> seconds b \<longleftrightarrow> a \<le> b"
  by (simp add: seconds_def)

lemma seconds_pos: "0 < seconds n \<longleftrightarrow> 0 < n"
  by (simp add: seconds_def)

record datetime =
  dt_local :: int
  dt_offset :: "int option"

definition utc :: "instant \<Rightarrow> datetime" where
  "utc t = \<lparr>dt_local = t, dt_offset = Some 0\<rparr>"

definition naive_utc :: "instant \<Rightarrow> datetime" where
  "naive_utc t = \<lparr>dt_local = t, dt_offset = None\<rparr>"

text \<open>\<open>value.astimezone(timezone.utc)\<close> of an aware value, as an instant.\<close>

definition dt_instant :: "datetime \<Rightarrow> instant" where
  "dt_instant d = (case dt_offset d of None \<Rightarrow> dt_local d | Some z \<Rightarrow> dt_local d - z)"

text \<open>Ordering two datetimes raises when exactly one of them is aware.\<close>

definition dt_le :: "datetime \<Rightarrow> datetime \<Rightarrow> bool result" where
  "dt_le a b =
     (case (dt_offset a, dt_offset b) of
        (None, None) \<Rightarrow> Inr (dt_local a \<le> dt_local b)
      | (Some za, Some zb) \<Rightarrow> Inr (dt_local a - za \<le> dt_local b - zb)
      | _ \<Rightarrow> Inl (TypeErr ''can't compare offset-naive and offset-aware datetimes''))"

definition dt_replace_tz :: "int option \<Rightarrow> datetime \<Rightarrow> datetime" where
  "dt_replace_tz z d = d\<lparr>dt_offset := z\<rparr>"

text \<open>\<open>isoformat\<close> and \<open>fromisoformat\<close>, and the replacement of a trailing \<open>Z\<close> the callers do first.\<close>

type_synonym iso_writer = "instant \<Rightarrow> string"

type_synonym iso_reader = "string \<Rightarrow> datetime option"

definition replace_Z :: "string \<Rightarrow> string" where
  "replace_Z s = concat (map (\<lambda>c. if c = CHR ''Z'' then ''+00:00'' else [c]) s)"

text \<open>What the code relies on: \<open>isoformat\<close> of a UTC time is read back by \<open>fromisoformat\<close>.\<close>

definition iso_roundtrip :: "iso_writer \<Rightarrow> iso_reader \<Rightarrow> bool" where
  "iso_roundtrip isof fromiso = (\<forall>t. fromiso (replace_Z (isof t)) = Some (utc t))"

lemma dt_instant_utc [simp]: "dt_instant (utc t) = t" "dt_instant (naive_utc t) = t"
  by (simp_all add: dt_instant_def utc_def naive_utc_def)

section \<open>Printing and reading integers\<close>

lemma digit_value_char: "n < 10 \<Longrightarrow> digit_value (digit_char n) = Some (int n)"
proof -
  assume n: "n < 10"
  have "(of_char c :: int) = int (of_char c)" for c by (cases c) (simp add: of_char_def of_bool_def)
  then have "(of_char (digit_char n) :: int) = 48 + int n" using n by (simp add: digit_char_def)
  with n show ?thesis by (simp add: digit_value_def digit_char_def in_range_def)
qed

lemma digit_char_plain: "n < 10 \<Longrightarrow> digit_char n \<noteq> CHR ''_'' \<and> digit_char n \<noteq> CHR ''-''
   \<and> digit_char n \<noteq> CHR ''+'' \<and> \<not> str_space (digit_char n)"
proof -
  assume n: "n < 10"
  have "(of_char (digit_char n) :: nat) = 48 + n" using n by (simp add: digit_char_def)
  then have "digit_char n \<noteq> c" if "(of_char c :: nat) < 48 \<or> 58 \<le> (of_char c :: nat)" for c using n that by auto
  moreover have "\<not> str_space (digit_char n)" using n by (simp add: str_space_def digit_char_def)
  ultimately show ?thesis by simp
qed

lemma digits_from_show: "digits_from acc (show_nat n) = Some (acc * 10 ^ length (show_nat n) + int n)"
proof (induction n arbitrary: acc rule: less_induct)
  case (less n)
  have app: "digits_from a (xs @ [digit_char m]) = map_option (\<lambda>v. v * 10 + int m) (digits_from a xs)"
    if "m < 10" "\<forall>x \<in> set xs. x \<noteq> CHR ''_''" for a xs m
    using that(2)
  proof (induction xs arbitrary: a)
    case Nil
    then show ?case using digit_value_char [OF that(1)] digit_char_plain [OF that(1)] by simp
  qed (simp split: option.splits)
  have plain: "\<forall>x \<in> set (show_nat k). x \<noteq> CHR ''_''" for k
  proof (induction k rule: less_induct)
    case (less k)
    from less.IH [of "k div 10"] have "\<not> k < 10 \<Longrightarrow> \<forall>x \<in> set (show_nat (k div 10)). x \<noteq> CHR ''_''" by simp
    then show ?case using digit_char_plain [of k] digit_char_plain [of "k mod 10"] by (simp add: show_nat.simps [of k])
  qed
  show ?case
  proof (cases "n < 10")
    case True
    then show ?thesis using digit_value_char [OF True] digit_char_plain [OF True]
      by (simp add: show_nat.simps [of n])
  next
    case False
    then have "digits_from acc (show_nat (n div 10) @ [digit_char (n mod 10)])
        = Some ((acc * 10 ^ length (show_nat (n div 10)) + int (n div 10)) * 10 + int (n mod 10))"
      using app [of "n mod 10" "show_nat (n div 10)" acc] plain less.IH [of "n div 10" acc] by simp
    moreover have "int (n div 10) * 10 + int (n mod 10) = int n" by presburger
    ultimately show ?thesis using False by (simp add: show_nat.simps [of n] algebra_simps)
  qed
qed

lemma show_nat_digits: "\<exists>d ds. show_nat n = digit_char d # ds \<and> d < 10 \<and> (\<exists>e es. show_nat n = es @ [digit_char e] \<and> e < 10)"
proof (induction n rule: less_induct)
  case (less n)
  show ?case
  proof (cases "n < 10")
    case True
    then show ?thesis by (auto simp: show_nat.simps [of n])
  next
    case False
    then have "show_nat n = show_nat (n div 10) @ [digit_char (n mod 10)]" by (simp add: show_nat.simps [of n])
    moreover obtain d ds where "show_nat (n div 10) = digit_char d # ds" "d < 10" using less.IH [of "n div 10"] False by auto
    ultimately show ?thesis by (metis append_Cons mod_less_divisor zero_less_numeral)
  qed
qed

lemma strip_with_ident:
  assumes "s \<noteq> []" "\<not> sp (hd s)" "\<not> sp (last s)"
  shows "strip_with sp s = s"
proof -
  have "dropWhile sp s = s" using assms(1,2) by (cases s) simp_all
  moreover have "dropWhile sp (rev s) = rev s" using assms(1,3) by (cases s rule: rev_cases) simp_all
  ultimately show ?thesis by (simp add: strip_with_def)
qed

lemma unsigned_int_show: "unsigned_int (show_nat n) = Some (int n)"
proof -
  obtain d ds where s: "show_nat n = digit_char d # ds" "d < 10" using show_nat_digits by blast
  have "digits_from 0 (show_nat n) = Some (int n)" by (simp add: digits_from_show)
  then show ?thesis using digit_value_char [OF s(2)] digit_char_plain [OF s(2)] by (simp add: s(1) unsigned_int_def)
qed

lemma py_int_show [simp]: "py_int (show_int i) = Some i"
proof -
  obtain d ds e es where s: "show_nat (nat \<bar>i\<bar>) = digit_char d # ds" "d < 10" "show_nat (nat \<bar>i\<bar>) = es @ [digit_char e]" "e < 10"
    using show_nat_digits by blast
  have m: "\<not> str_space (CHR ''-'')" by code_simp
  have l: "last (show_nat (nat \<bar>i\<bar>)) = digit_char e" "show_nat (nat \<bar>i\<bar>) \<noteq> []" "hd (show_nat (nat \<bar>i\<bar>)) = digit_char d"
    subgoal by (simp add: s(3))
    subgoal by (simp add: s(1))
    subgoal by (simp add: s(1))
    done
  show ?thesis
  proof (cases "i < 0")
    case True
    then have "show_int i = CHR ''-'' # show_nat (nat \<bar>i\<bar>)" by (simp add: show_int_def)
    moreover from this have "str_strip (show_int i) = show_int i"
      using l m digit_char_plain [OF s(4)] by (simp add: str_strip_def strip_with_ident)
    ultimately show ?thesis using True by (simp add: py_int_def unsigned_int_show)
  next
    case False
    then have si: "show_int i = show_nat (nat \<bar>i\<bar>)" by (simp add: show_int_def)
    then have "str_strip (show_int i) = digit_char d # ds"
      using l digit_char_plain [OF s(4)] digit_char_plain [OF s(2)] s(1) by (simp add: str_strip_def strip_with_ident)
    then show ?thesis using False digit_char_plain [OF s(2)] unsigned_int_show [of "nat \<bar>i\<bar>", unfolded s(1)]
      by (simp add: py_int_def)
  qed
qed

section \<open>A reader and a writer of instants\<close>

definition demo_iso :: iso_writer where
  "demo_iso t = replicate (nat (if 0 \<le> t then 2 * t else - 2 * t - 1)) (CHR ''x'')"

definition demo_fromiso :: iso_reader where
  "demo_fromiso s = (let n = int (length s) in Some (utc (if even n then n div 2 else - ((n + 1) div 2))))"

lemma demo_iso_roundtrip: "iso_roundtrip demo_iso demo_fromiso"
proof -
  have "replace_Z (replicate n (CHR ''x'')) = replicate n (CHR ''x'')" for n by (induction n) (simp_all add: replace_Z_def)
  moreover have "(- (2 * t) - 1) div 2 = - t - 1" for t :: int by presburger
  ultimately show ?thesis by (auto simp: iso_roundtrip_def demo_iso_def demo_fromiso_def Let_def)
qed

end
