(* ===== verification/Catalog.thy ===== *)
theory Catalog
  imports Python_Base
begin

text \<open>
  The transactional catalogue of \<^verbatim>\<open>database.py\<close>: one record per mapped class, with the
  columns in source order under a table prefix, one enumeration per status column (the
  sources write those columns with string literals only), the constraint-checked inserts,
  and the \<open>catalog\<close> record that holds every table.

  A \<open>payload_json\<close> column is represented by what \<open>json.loads\<close> returns on its text,
  \<open>None\<close> when the text does not decode.  Timestamps are instants in UTC, as a
  \<open>timestamptz\<close> column returns them.
\<close>

section \<open>Status columns\<close>

datatype reservation_state = Reserved | Committed | Expired | Fenced | Conflicted

datatype deletion_state = DPending | DProcessing | DHeld | DCompleted | DFailed

datatype hold_state = HActive | HReleased

datatype gc_state = GPending | GProtected | GDeleted | GMissing | GFailed

datatype outbox_state = OPending | OProcessing | OCompleted | OSuppressed | OFailed

datatype event_kind = SegmentAdmitted | AttemptReportRequested

datatype notification_state = NPending | NProcessing | NDelivered | NFailed

datatype incident_state = IOpen | IResolved

datatype incident_category = Missing | Corrupt

datatype notification_event = IncidentDetected | IncidentResolved

type_synonym attempt_identity = "string \<times> string \<times> string"

section \<open>Tables\<close>

record MachineCredentialRevocation =
  mcr_tenant_id :: string
  mcr_credential_id :: string
  mcr_reason :: string
  mcr_revoked_by_credential_id :: string
  mcr_revoked_at :: instant

record AttemptGeneration =
  ag_tenant_id :: string
  ag_cluster_id :: string
  ag_attempt_id :: string
  ag_generation :: int
  ag_deleted_at :: "instant option"

record AttemptHold =
  ah_hold_id :: string
  ah_tenant_id :: string
  ah_cluster_id :: string
  ah_attempt_id :: string
  ah_reason :: string
  ah_placed_by_credential_id :: string
  ah_released_by_credential_id :: "string option"
  ah_state :: hold_state
  ah_placed_at :: instant
  ah_released_at :: "instant option"

record AttemptDeletion =
  ad_tenant_id :: string
  ad_cluster_id :: string
  ad_attempt_id :: string
  ad_deletion_generation :: int
  ad_state :: deletion_state
  ad_attempts :: int
  ad_lease_owner :: "string option"
  ad_lease_generation :: int
  ad_lease_expires_at :: "instant option"
  ad_deleted_segment_objects :: int
  ad_retained_shared_objects :: int
  ad_deleted_report_objects :: int
  ad_deleted_catalog_rows :: int
  ad_last_error :: "string option"
  ad_requested_at :: instant
  ad_completed_at :: "instant option"

record RestoreTombstoneImport =
  rti_bundle_sha256 :: string
  rti_source_created_at :: instant
  rti_entry_count :: int
  rti_applied_count :: int
  rti_stale_count :: int
  rti_imported_by :: string
  rti_imported_at :: instant

record AttemptRecord =
  ar_tenant_id :: string
  ar_cluster_id :: string
  ar_attempt_id :: string
  ar_workflow_execution_id :: "string option"
  ar_logical_case_id :: "string option"
  ar_scheduler_source_identity :: "string option"
  ar_scheduler_state :: string
  ar_scheduler_observed_at :: "instant option"
  ar_first_admitted_at :: instant
  ar_last_admitted_at :: instant
  ar_retention_expires_at :: "instant option"
  ar_retention_policy_version :: "int option"
  ar_segment_count :: int
  ar_record_count :: int

record RetentionPolicyRevision =
  rpr_tenant_id :: string
  rpr_cluster_id :: string
  rpr_version :: int
  rpr_logical_case_id :: "string option"
  rpr_retention_seconds :: int
  rpr_created_by_credential_id :: string
  rpr_created_at :: instant
  rpr_effective_at :: instant

record RetentionPolicyCancellation =
  rpc_tenant_id :: string
  rpc_cluster_id :: string
  rpc_policy_version :: int
  rpc_reason :: string
  rpc_cancelled_by_credential_id :: string
  rpc_cancelled_at :: instant

record RetentionPolicyBackfill =
  rpb_backfill_id :: string
  rpb_tenant_id :: string
  rpb_cluster_id :: string
  rpb_policy_version :: int
  rpb_source_policy_version :: "int option"
  rpb_reason :: "string option"
  rpb_candidate_digest :: "string option"
  rpb_eligible_attempts :: int
  rpb_due_attempts :: int
  rpb_updated_attempts :: int
  rpb_requested_by_credential_id :: string
  rpb_requested_at :: instant

record RetentionPolicyBackfillItem =
  rpbi_backfill_id :: string
  rpbi_attempt_id :: string
  rpbi_tenant_id :: string
  rpbi_cluster_id :: string
  rpbi_previous_policy_version :: "int option"
  rpbi_previous_expires_at :: "instant option"
  rpbi_new_policy_version :: int
  rpbi_new_expires_at :: "instant option"

record AdmissionReservation =
  res_reservation_id :: string
  res_tenant_id :: string
  res_cluster_id :: string
  res_attempt_id :: string
  res_credential_id :: string
  res_producer_id :: string
  res_transport_epoch :: string
  res_stream_id :: string
  res_first_sequence :: int
  res_last_sequence :: int
  res_payload_sha256 :: string
  res_object_key :: string
  res_deletion_generation :: int
  res_state :: reservation_state
  res_created_at :: instant

record ObjectGcCandidate =
  gc_candidate_id :: string
  gc_object_key :: string
  gc_payload_sha256 :: string
  gc_state :: gc_state
  gc_not_before :: instant
  gc_attempts :: int
  gc_last_error :: "string option"
  gc_created_at :: instant
  gc_completed_at :: "instant option"

record IntegrityIncident =
  inc_incident_id :: string
  inc_candidate_id :: string
  inc_tenant_id :: string
  inc_cluster_id :: string
  inc_attempt_id :: "string option"
  inc_object_key :: string
  inc_payload_sha256 :: string
  inc_category :: incident_category
  inc_state :: incident_state
  inc_details :: string
  inc_occurrences :: int
  inc_first_detected_at :: instant
  inc_last_detected_at :: instant
  inc_resolved_at :: "instant option"
  inc_resolved_by_credential_id :: "string option"
  inc_resolution :: "string option"

record IntegrityIncidentResolution =
  iir_resolution_id :: string
  iir_incident_id :: string
  iir_tenant_id :: string
  iir_cluster_id :: string
  iir_resolved_by_credential_id :: string
  iir_reason :: string
  iir_resolved_at :: instant

record IntegrityNotification =
  ntf_notification_id :: string
  ntf_incident_id :: string
  ntf_tenant_id :: string
  ntf_cluster_id :: string
  ntf_occurrence :: int
  ntf_event_type :: notification_event
  ntf_payload_json :: json
  ntf_state :: notification_state
  ntf_attempts :: int
  ntf_next_attempt_at :: instant
  ntf_lease_owner :: "string option"
  ntf_lease_generation :: int
  ntf_lease_expires_at :: "instant option"
  ntf_last_error :: "string option"
  ntf_created_at :: instant
  ntf_delivered_at :: "instant option"

record IntegrityNotificationRedrive =
  inr_redrive_id :: string
  inr_notification_id :: string
  inr_tenant_id :: string
  inr_cluster_id :: string
  inr_requested_by_credential_id :: string
  inr_reason :: string
  inr_requested_at :: instant

record SegmentManifest =
  mf_receipt_id :: string
  mf_tenant_id :: string
  mf_cluster_id :: string
  mf_attempt_id :: string
  mf_credential_id :: string
  mf_producer_id :: string
  mf_transport_epoch :: string
  mf_stream_id :: string
  mf_first_sequence :: int
  mf_last_sequence :: int
  mf_record_count :: int
  mf_payload_sha256 :: string
  mf_object_key :: string
  mf_deletion_generation :: int
  mf_committed_at :: instant

record OutboxRecord =
  ob_outbox_id :: string
  ob_tenant_id :: string
  ob_event_type :: event_kind
  ob_aggregate_id :: string
  ob_payload_json :: "json option"
  ob_state :: outbox_state
  ob_attempts :: int
  ob_lease_owner :: "string option"
  ob_lease_generation :: int
  ob_lease_expires_at :: "instant option"
  ob_last_error :: "string option"
  ob_created_at :: instant

record NormalizedSegment =
  ns_receipt_id :: string
  ns_tenant_id :: string
  ns_attempt_id :: string
  ns_record_count :: int
  ns_payload_sha256 :: string
  ns_normalizer_version :: string
  ns_normalized_at :: instant

record ReportRevision =
  rr_revision_id :: string
  rr_tenant_id :: string
  rr_cluster_id :: string
  rr_attempt_id :: string
  rr_deletion_generation :: int
  rr_revision_number :: int
  rr_input_fingerprint :: string
  rr_segment_count :: int
  rr_record_count :: int
  rr_report_object_key :: string
  rr_report_sha256 :: string
  rr_parquet_object_key :: "string option"
  rr_parquet_sha256 :: "string option"
  rr_parquet_schema_version :: "string option"
  rr_parquet_row_count :: "int option"
  rr_builder_version :: string
  rr_created_at :: instant

record ReportHead =
  rh_tenant_id :: string
  rh_cluster_id :: string
  rh_attempt_id :: string
  rh_deletion_generation :: int
  rh_revision_number :: int
  rh_revision_id :: string
  rh_input_fingerprint :: string
  rh_updated_at :: instant

record EvidenceDownloadAudit =
  eda_download_id :: string
  eda_tenant_id :: string
  eda_cluster_id :: string
  eda_attempt_id :: string
  eda_revision_id :: string
  eda_revision_number :: int
  eda_artifact_kind :: string
  eda_payload_sha256 :: string
  eda_payload_bytes :: int
  eda_downloaded_by_credential_id :: string
  eda_downloaded_at :: instant

record SchedulerObservation =
  so_observation_id :: string
  so_tenant_id :: string
  so_cluster_id :: string
  so_adapter :: string
  so_adapter_version :: string
  so_source_identity :: string
  so_job_id :: string
  so_array_job_id :: "string option"
  so_array_task_id :: "string option"
  so_step_id :: "string option"
  so_restart_count :: int
  so_state :: string
  so_state_reason :: "string option"
  so_submitted_at :: "instant option"
  so_started_at :: "instant option"
  so_ended_at :: "instant option"
  so_allocated_nodes :: "int option"
  so_allocated_cpus :: "int option"
  so_account :: "string option"
  so_partition :: "string option"
  so_user_ref :: "string option"
  so_observed_at :: instant
  so_raw_json :: string
  so_first_seen_at :: instant

record SchedulerPollCursor =
  spc_tenant_id :: string
  spc_cluster_id :: string
  spc_adapter :: string
  spc_cursor_at :: "instant option"
  spc_next_poll_at :: instant
  spc_lease_owner :: "string option"
  spc_lease_generation :: int
  spc_lease_expires_at :: "instant option"
  spc_consecutive_failures :: int
  spc_last_success_at :: "instant option"
  spc_last_error :: "string option"
  spc_created_at :: instant
  spc_updated_at :: instant

section \<open>The catalogue\<close>

record catalog =
  revocations :: "MachineCredentialRevocation list"
  generations :: "AttemptGeneration list"
  holds :: "AttemptHold list"
  deletions :: "AttemptDeletion list"
  tombstone_imports :: "RestoreTombstoneImport list"
  attempt_records :: "AttemptRecord list"
  policies :: "RetentionPolicyRevision list"
  policy_cancellations :: "RetentionPolicyCancellation list"
  policy_backfills :: "RetentionPolicyBackfill list"
  policy_backfill_items :: "RetentionPolicyBackfillItem list"
  reservations :: "AdmissionReservation list"
  gc_candidates :: "ObjectGcCandidate list"
  incidents :: "IntegrityIncident list"
  incident_resolutions :: "IntegrityIncidentResolution list"
  notifications :: "IntegrityNotification list"
  notification_redrives :: "IntegrityNotificationRedrive list"
  manifests :: "SegmentManifest list"
  outbox :: "OutboxRecord list"
  normalized_segments :: "NormalizedSegment list"
  report_revisions :: "ReportRevision list"
  report_heads :: "ReportHead list"
  download_audits :: "EvidenceDownloadAudit list"
  observations :: "SchedulerObservation list"
  poll_cursors :: "SchedulerPollCursor list"

definition empty_catalog :: catalog where
  "empty_catalog = \<lparr>revocations = [], generations = [], holds = [], deletions = [],
     tombstone_imports = [], attempt_records = [], policies = [], policy_cancellations = [],
     policy_backfills = [], policy_backfill_items = [], reservations = [], gc_candidates = [],
     incidents = [], incident_resolutions = [], notifications = [], notification_redrives = [],
     manifests = [], outbox = [], normalized_segments = [], report_revisions = [],
     report_heads = [], download_audits = [], observations = [], poll_cursors = []\<rparr>"

section \<open>Identities\<close>

definition ag_identity :: "AttemptGeneration \<Rightarrow> attempt_identity" where
  "ag_identity g = (ag_tenant_id g, ag_cluster_id g, ag_attempt_id g)"

definition ah_identity :: "AttemptHold \<Rightarrow> attempt_identity" where
  "ah_identity h = (ah_tenant_id h, ah_cluster_id h, ah_attempt_id h)"

definition ad_identity :: "AttemptDeletion \<Rightarrow> attempt_identity" where
  "ad_identity d = (ad_tenant_id d, ad_cluster_id d, ad_attempt_id d)"

definition ar_identity :: "AttemptRecord \<Rightarrow> attempt_identity" where
  "ar_identity r = (ar_tenant_id r, ar_cluster_id r, ar_attempt_id r)"

definition res_identity :: "AdmissionReservation \<Rightarrow> attempt_identity" where
  "res_identity r = (res_tenant_id r, res_cluster_id r, res_attempt_id r)"

definition mf_identity :: "SegmentManifest \<Rightarrow> attempt_identity" where
  "mf_identity m = (mf_tenant_id m, mf_cluster_id m, mf_attempt_id m)"

definition rr_identity :: "ReportRevision \<Rightarrow> attempt_identity" where
  "rr_identity r = (rr_tenant_id r, rr_cluster_id r, rr_attempt_id r)"

definition rh_identity :: "ReportHead \<Rightarrow> attempt_identity" where
  "rh_identity h = (rh_tenant_id h, rh_cluster_id h, rh_attempt_id h)"

lemmas identity_defs = ag_identity_def ah_identity_def ad_identity_def ar_identity_def
  res_identity_def mf_identity_def rr_identity_def rh_identity_def

type_synonym stream_key = "string \<times> string \<times> string \<times> string \<times> string"

definition mf_stream :: "SegmentManifest \<Rightarrow> stream_key" where
  "mf_stream m = (mf_tenant_id m, mf_cluster_id m, mf_producer_id m, mf_transport_epoch m,
     mf_stream_id m)"

definition res_stream :: "AdmissionReservation \<Rightarrow> stream_key" where
  "res_stream r = (res_tenant_id r, res_cluster_id r, res_producer_id r, res_transport_epoch r,
     res_stream_id r)"

section \<open>Primary keys and unique constraints\<close>

definition add_generation :: "AttemptGeneration \<Rightarrow> AttemptGeneration list \<Rightarrow> AttemptGeneration list result" where
  "add_generation = add_row (\<lambda>a b. ag_identity a = ag_identity b) ''attempt_generations_pkey''"

definition add_hold :: "AttemptHold \<Rightarrow> AttemptHold list \<Rightarrow> AttemptHold list result" where
  "add_hold = add_row (\<lambda>a b. ah_hold_id a = ah_hold_id b) ''attempt_holds_pkey''"

definition add_deletion :: "AttemptDeletion \<Rightarrow> AttemptDeletion list \<Rightarrow> AttemptDeletion list result" where
  "add_deletion = add_row (\<lambda>a b. ad_identity a = ad_identity b) ''attempt_deletions_pkey''"

text \<open>A unique constraint ignores rows with a NULL column.\<close>

definition ar_clash :: "AttemptRecord \<Rightarrow> AttemptRecord \<Rightarrow> bool" where
  "ar_clash a b = (ar_identity a = ar_identity b
     \<or> (ar_tenant_id a = ar_tenant_id b \<and> ar_cluster_id a = ar_cluster_id b
        \<and> ar_scheduler_source_identity a \<noteq> None
        \<and> ar_scheduler_source_identity a = ar_scheduler_source_identity b))"

definition add_attempt_record :: "AttemptRecord \<Rightarrow> AttemptRecord list \<Rightarrow> AttemptRecord list result" where
  "add_attempt_record = add_row ar_clash ''uq_attempt_record_scheduler_identity''"

definition add_policy :: "RetentionPolicyRevision \<Rightarrow> RetentionPolicyRevision list \<Rightarrow> RetentionPolicyRevision list result" where
  "add_policy = add_row (\<lambda>a b. rpr_tenant_id a = rpr_tenant_id b \<and> rpr_cluster_id a = rpr_cluster_id b
     \<and> rpr_version a = rpr_version b) ''retention_policy_revisions_pkey''"

definition res_clash :: "AdmissionReservation \<Rightarrow> AdmissionReservation \<Rightarrow> bool" where
  "res_clash a b = (res_reservation_id a = res_reservation_id b
     \<or> (res_stream a = res_stream b \<and> res_first_sequence a = res_first_sequence b
        \<and> res_last_sequence a = res_last_sequence b))"

definition add_reservation :: "AdmissionReservation \<Rightarrow> AdmissionReservation list \<Rightarrow> AdmissionReservation list result" where
  "add_reservation = add_row res_clash ''uq_reservation_stream_range''"

definition gc_clash :: "ObjectGcCandidate \<Rightarrow> ObjectGcCandidate \<Rightarrow> bool" where
  "gc_clash a b = (gc_candidate_id a = gc_candidate_id b \<or> gc_object_key a = gc_object_key b)"

definition add_candidate :: "ObjectGcCandidate \<Rightarrow> ObjectGcCandidate list \<Rightarrow> ObjectGcCandidate list result" where
  "add_candidate = add_row gc_clash ''uq_object_gc_candidate_key''"

definition mf_clash :: "SegmentManifest \<Rightarrow> SegmentManifest \<Rightarrow> bool" where
  "mf_clash a b = (mf_receipt_id a = mf_receipt_id b
     \<or> (mf_stream a = mf_stream b \<and> mf_first_sequence a = mf_first_sequence b
        \<and> mf_last_sequence a = mf_last_sequence b))"

definition add_manifest :: "SegmentManifest \<Rightarrow> SegmentManifest list \<Rightarrow> SegmentManifest list result" where
  "add_manifest = add_row mf_clash ''uq_manifest_stream_range''"

definition add_outbox :: "OutboxRecord \<Rightarrow> OutboxRecord list \<Rightarrow> OutboxRecord list result" where
  "add_outbox = add_row (\<lambda>a b. ob_outbox_id a = ob_outbox_id b) ''outbox_records_pkey''"

lemmas add_defs = add_generation_def add_hold_def add_deletion_def add_attempt_record_def
  add_policy_def add_reservation_def add_candidate_def add_manifest_def add_outbox_def

end
