(* ===== verification/Object_Store.thy ===== *)
theory Object_Store
  imports Catalog
begin

text \<open>
  \<^verbatim>\<open>storage.py\<close>: the \<open>ImmutableObjectStore\<close> protocol as a locale, and
  \<open>LocalObjectStore\<close> as definitions over an explicit file system, a map from resolved
  absolute paths to files.  The digest function is the parameter \<open>H\<close> of every operation
  (the sources call \<open>hashlib.sha256(payload).hexdigest()\<close>).  Symbolic links below the root and
  \<open>OSError\<close> from writes are not modelled; a path that exists but cannot be read as a regular file is
  \<open>Unreadable\<close> with the text of the operating-system error, a device or a socket is \<open>Special\<close>.
\<close>

section \<open>Paths\<close>

type_synonym path = "string list"

fun split_path :: "string \<Rightarrow> string list" where
  "split_path [] = [[]]"
| "split_path (c # cs) =
     (if c = CHR ''/'' then [] # split_path cs
      else (case split_path cs of p # ps \<Rightarrow> (c # p) # ps | [] \<Rightarrow> [[c]]))"

fun resolve_parts :: "path \<Rightarrow> string list \<Rightarrow> path" where
  "resolve_parts base [] = base"
| "resolve_parts base (p # ps) =
     resolve_parts (if p = '''' \<or> p = ''.'' then base
                    else if p = ''..'' then butlast base else base @ [p]) ps"

definition resolve_key :: "path \<Rightarrow> string \<Rightarrow> path" where
  "resolve_key root key =
     (case key of
        [] \<Rightarrow> root
      | c # _ \<Rightarrow> (if c = CHR ''/'' then resolve_parts [] (split_path key)
                 else resolve_parts root (split_path key)))"

section \<open>LocalObjectStore\<close>

datatype fs_entry = Content bytes | Unreadable string | Special

record local_store =
  ls_root :: path
  ls_files :: "path \<Rightarrow> fs_entry option"

definition ls_path :: "local_store \<Rightarrow> string \<Rightarrow> path result" where
  "ls_path st key =
     (let candidate = resolve_key (ls_root st) key in
      if length (ls_root st) < length candidate \<and> take (length (ls_root st)) candidate = ls_root st
      then Inr candidate
      else Inl (ObjectIntegrityError ''object key escapes configured root''))"

definition read_bytes :: "local_store \<Rightarrow> path \<Rightarrow> string + bytes" where
  "read_bytes st p =
     (case ls_files st p of
        None \<Rightarrow> Inl ''No such file or directory''
      | Some (Content c) \<Rightarrow> Inr c
      | Some (Unreadable e) \<Rightarrow> Inl e
      | Some Special \<Rightarrow> Inl ''not a regular file'')"

definition exists_verified ::
  "(bytes \<Rightarrow> string) \<Rightarrow> local_store \<Rightarrow> string \<Rightarrow> string \<Rightarrow> bool result" where
  "exists_verified H st key sha256 = bindE (ls_path st key) (\<lambda>target.
     if ls_files st target = None then Inr False
     else (case read_bytes st target of
        Inl e \<Rightarrow> Inl (ObjectIntegrityError (''cannot verify existing object: '' @ e))
      | Inr actual \<Rightarrow>
          if H actual \<noteq> sha256
          then Inl (ObjectIntegrityError ''existing object digest does not match its content key'')
          else Inr True))"

definition read_verified ::
  "(bytes \<Rightarrow> string) \<Rightarrow> local_store \<Rightarrow> string \<Rightarrow> string \<Rightarrow> bytes result" where
  "read_verified H st key sha256 = bindE (ls_path st key) (\<lambda>target.
     case read_bytes st target of
       Inl e \<Rightarrow> Inl (ObjectIntegrityError (''cannot read object: '' @ e))
     | Inr payload \<Rightarrow>
         if H payload \<noteq> sha256
         then Inl (ObjectIntegrityError ''stored object failed checksum verification'')
         else Inr payload)"

text \<open>
  The read loop of \<open>read_verified_bounded\<close>: chunks of at most one mebibyte until end of
  file or until \<open>remaining\<close> bytes were taken.
\<close>

function read_chunks :: "nat \<Rightarrow> bytes \<Rightarrow> bytes list" where
  "read_chunks remaining data =
     (if remaining = 0 \<or> data = [] then []
      else (let chunk = take (min 1048576 remaining) data in
            chunk # read_chunks (remaining - length chunk) (drop (length chunk) data)))"
  by pat_completeness auto
termination
  by (relation "measure fst") (auto simp: Let_def min_def neq_Nil_conv)

declare read_chunks.simps [simp del]

definition read_verified_bounded ::
  "(bytes \<Rightarrow> string) \<Rightarrow> local_store \<Rightarrow> string \<Rightarrow> string \<Rightarrow> int \<Rightarrow> bytes result" where
  "read_verified_bounded H st key sha256 max_bytes =
     (if max_bytes < 1 then Inl (ValueError ''max_bytes must be positive'')
      else bindE (ls_path st key) (\<lambda>target.
        case ls_files st target of
          None \<Rightarrow> Inl (ObjectIntegrityError ''cannot read object: No such file or directory'')
        | Some (Unreadable e) \<Rightarrow> Inl (ObjectIntegrityError (''cannot read object: '' @ e))
        | Some Special \<Rightarrow> Inl (ObjectIntegrityError ''stored object is not a regular file'')
        | Some (Content c) \<Rightarrow>
            (if int (length c) > max_bytes
             then Inl (ObjectSizeLimitError ''stored object exceeds the read limit'')
             else (let payload = concat (read_chunks (nat (max_bytes + 1)) c) in
               if int (length payload) > max_bytes
               then Inl (ObjectSizeLimitError ''stored object exceeds the read limit'')
               else if H payload \<noteq> sha256
               then Inl (ObjectIntegrityError ''stored object failed checksum verification'')
               else Inr payload))))"

definition set_file :: "path \<Rightarrow> fs_entry \<Rightarrow> local_store \<Rightarrow> local_store" where
  "set_file p f st = st\<lparr>ls_files := (ls_files st)(p := Some f)\<rparr>"

definition drop_file :: "path \<Rightarrow> local_store \<Rightarrow> local_store" where
  "drop_file p st = st\<lparr>ls_files := (ls_files st)(p := None)\<rparr>"

text \<open>
  \<open>put_trace\<close> lists the file systems \<open>put_verified\<close> goes through, the last one being its
  final state: the temporary file is created empty, written and synchronised, and then
  renamed over the target.  \<open>tmp\<close> is the name \<open>tempfile.mkstemp\<close> chose.
\<close>

definition put_trace ::
  "(bytes \<Rightarrow> string) \<Rightarrow> string \<Rightarrow> local_store \<Rightarrow> string \<Rightarrow> bytes \<Rightarrow> string \<Rightarrow> unit result \<times> local_store list" where
  "put_trace H tmp st key payload sha256 =
     (if H payload \<noteq> sha256 then (Inl (ObjectIntegrityError ''payload digest mismatch''), [st])
      else (case ls_path st key of
          Inl e \<Rightarrow> (Inl e, [st])
        | Inr target \<Rightarrow>
            (case exists_verified H st key sha256 of
               Inl e \<Rightarrow> (Inl e, [st])
             | Inr True \<Rightarrow> (Inr (), [st])
             | Inr False \<Rightarrow>
                 (let temporary = butlast target @ [tmp];
                      created = set_file temporary (Content []) st;
                      written = set_file temporary (Content payload) created
                  in (case read_bytes written temporary of
                        Inl e \<Rightarrow> (Inl (ObjectIntegrityError e), [st, created, written, drop_file temporary written])
                      | Inr stored \<Rightarrow>
                          if H stored \<noteq> sha256
                          then (Inl (ObjectIntegrityError ''temporary object failed checksum verification''),
                                [st, created, written, drop_file temporary written])
                          else (Inr (), [st, created, written,
                                 set_file target (Content stored) (drop_file temporary written)]))))))"

definition put_verified ::
  "(bytes \<Rightarrow> string) \<Rightarrow> string \<Rightarrow> local_store \<Rightarrow> string \<Rightarrow> bytes \<Rightarrow> string \<Rightarrow> unit result \<times> local_store" where
  "put_verified H tmp st key payload sha256 =
     (let (r, trace) = put_trace H tmp st key payload sha256 in (r, last trace))"

definition delete_verified ::
  "(bytes \<Rightarrow> string) \<Rightarrow> local_store \<Rightarrow> string \<Rightarrow> string \<Rightarrow> bool result \<times> local_store" where
  "delete_verified H st key sha256 =
     (case ls_path st key of
        Inl e \<Rightarrow> (Inl e, st)
      | Inr target \<Rightarrow>
          (if ls_files st target = None then (Inr False, st)
           else (case read_bytes st target of
               Inl e \<Rightarrow> (Inl (ObjectIntegrityError (''cannot verify object before deletion: '' @ e)), st)
             | Inr payload \<Rightarrow>
                 if H payload \<noteq> sha256
                 then (Inl (ObjectIntegrityError
                         ''object scheduled for deletion failed checksum verification''), st)
                 else (Inr True, drop_file target st))))"

section \<open>Clean keys\<close>

text \<open>
  The services build keys from path-safe components only.  On such keys resolution appends
  the components to the root, so distinct keys name distinct files.
\<close>

definition clean_key :: "string \<Rightarrow> bool" where
  "clean_key key = list_all (\<lambda>p. p \<noteq> '''' \<and> p \<noteq> ''.'' \<and> p \<noteq> ''..'') (split_path key)"

lemma split_path_nonempty [simp]: "split_path key \<noteq> []"
  by (induction key) (auto split: list.splits)

lemma split_path_inj: "split_path a = split_path b \<Longrightarrow> a = b"
proof (induction a arbitrary: b)
  case Nil
  then show ?case by (cases b) (auto split: list.splits if_splits)
next
  case (Cons c cs)
  then show ?case by (cases b) (auto split: list.splits if_splits)
qed

lemma resolve_parts_clean:
  "list_all (\<lambda>p. p \<noteq> '''' \<and> p \<noteq> ''.'' \<and> p \<noteq> ''..'') ps \<Longrightarrow> resolve_parts base ps = base @ ps"
  by (induction ps arbitrary: base) auto

lemma clean_key_not_absolute: "clean_key (c # cs) \<Longrightarrow> c \<noteq> CHR ''/''"
  by (auto simp: clean_key_def)

lemma resolve_key_clean: "clean_key key \<Longrightarrow> resolve_key root key = root @ split_path key"
proof -
  assume c: "clean_key key"
  then have parts: "resolve_parts base (split_path key) = base @ split_path key" for base
    by (simp only: clean_key_def resolve_parts_clean)
  show ?thesis
  proof (cases key)
    case Nil
    with c show ?thesis by (simp add: clean_key_def)
  next
    case (Cons a as)
    with c have "a \<noteq> CHR ''/''" using clean_key_not_absolute by blast
    with Cons show ?thesis unfolding resolve_key_def using parts by (simp only: list.case if_False)
  qed
qed

lemma ls_path_clean: "clean_key key \<Longrightarrow> ls_path st key = Inr (ls_root st @ split_path key)"
  by (simp add: ls_path_def resolve_key_clean Let_def)

lemma ls_path_clean_inj:
  "clean_key a \<Longrightarrow> clean_key b \<Longrightarrow> ls_path st a = ls_path st b \<longleftrightarrow> a = b"
  by (auto simp: ls_path_clean dest: split_path_inj)

lemma split_path_plain: "CHR ''/'' \<notin> set a \<Longrightarrow> split_path a = [a]"
  by (induction a) auto

lemma split_path_append:
  "CHR ''/'' \<notin> set a \<Longrightarrow> split_path (a @ CHR ''/'' # b) = a # split_path b"
  by (induction a) auto

section \<open>Laws of the local store\<close>

lemma read_bytes_set_file [simp]:
  "read_bytes (set_file p (Content c) st) q = (if q = p then Inr c else read_bytes st q)"
  by (simp add: read_bytes_def set_file_def)

lemma ls_files_set_file [simp]:
  "ls_files (set_file p f st) q = (if q = p then Some f else ls_files st q)"
  by (simp add: set_file_def)

lemma ls_files_drop_file [simp]:
  "ls_files (drop_file p st) q = (if q = p then None else ls_files st q)"
  by (simp add: drop_file_def)

lemma ls_root_set_file [simp]: "ls_root (set_file p f st) = ls_root st" "ls_root (drop_file p st) = ls_root st"
  by (simp_all add: set_file_def drop_file_def)

lemma ls_path_root: "ls_root st' = ls_root st \<Longrightarrow> ls_path st' key = ls_path st key"
  by (simp add: ls_path_def Let_def)

lemma ls_path_set_file [simp]:
  "ls_path (set_file p f st) key = ls_path st key" "ls_path (drop_file p st) key = ls_path st key"
  by (simp_all add: ls_path_def)

text \<open>\<open>stored st key\<close> is the content of the object at \<open>key\<close>, if it can be read.\<close>

definition stored :: "local_store \<Rightarrow> string \<Rightarrow> bytes option" where
  "stored st key = (case ls_path st key of Inl _ \<Rightarrow> None
     | Inr p \<Rightarrow> (case read_bytes st p of Inl _ \<Rightarrow> None | Inr c \<Rightarrow> Some c))"

text \<open>\<open>intact H st key sha\<close>: the object is present and its digest is the recorded one.\<close>

definition intact :: "(bytes \<Rightarrow> string) \<Rightarrow> local_store \<Rightarrow> string \<Rightarrow> string \<Rightarrow> bool" where
  "intact H st key sha256 = (case stored st key of None \<Rightarrow> False | Some c \<Rightarrow> H c = sha256)"

lemma exists_verified_iff: "exists_verified H st key sha256 = Inr True \<longleftrightarrow> intact H st key sha256"
  by (auto simp: exists_verified_def intact_def stored_def read_bytes_def bindE_def
      split: sum.splits option.splits fs_entry.splits)

lemma read_verified_iff:
  "read_verified H st key sha256 = Inr c \<longleftrightarrow> stored st key = Some c \<and> H c = sha256"
  by (auto simp: read_verified_def stored_def bindE_def split: sum.splits)

lemma read_verified_intact: "(\<exists>c. read_verified H st key sha256 = Inr c) \<longleftrightarrow> intact H st key sha256"
  by (auto simp: read_verified_iff intact_def split: option.splits)

lemma read_bytes_None: "ls_files st p = None \<Longrightarrow> \<exists>e. read_bytes st p = Inl e"
  by (simp add: read_bytes_def)

lemma read_bytes_drop_file [simp]:
  "q \<noteq> p \<Longrightarrow> read_bytes (drop_file p st) q = read_bytes st q"
  "read_bytes (drop_file p st) p = Inl ''No such file or directory''"
  by (simp_all add: read_bytes_def)

definition tmp_fresh :: "string \<Rightarrow> local_store \<Rightarrow> string \<Rightarrow> bool" where
  "tmp_fresh tmp st key =
     (case ls_path st key of Inl _ \<Rightarrow> True | Inr p \<Rightarrow> ls_files st (butlast p @ [tmp]) = None)"

lemma read_chunks_concat: "concat (read_chunks n data) = take n data"
proof (induction n data rule: read_chunks.induct)
  case (1 n data)
  show ?case
  proof (cases "n = 0 \<or> data = []")
    case True
    then show ?thesis by (auto simp: read_chunks.simps [of n data])
  next
    case False
    let ?m = "min 1048576 n"
    let ?k = "length (take ?m data)"
    have ih: "concat (read_chunks (n - ?k) (drop ?k data)) = take (n - ?k) (drop ?k data)"
      using "1.IH" False by (auto simp: Let_def)
    have "?k \<le> n" by simp
    then have "take n data = take ?k data @ take (n - ?k) (drop ?k data)"
      by (metis append_take_drop_id take_add le_add_diff_inverse)
    moreover have "take ?m data = take ?k data"
      by (simp add: min_def)
    ultimately show ?thesis
      using False ih by (simp add: read_chunks.simps [of n data] Let_def)
  qed
qed

text \<open>The four outcomes of \<open>put_verified\<close>; only the last one changes a file.\<close>

lemma put_trace_cases:
  obtains (err) e where "put_trace H tmp st key payload sha256 = (Inl e, [st])"
    | (same) "put_trace H tmp st key payload sha256 = (Inr (), [st])"
        "H payload = sha256" "intact H st key sha256"
    | (new) target where "H payload = sha256" "ls_path st key = Inr target" "ls_files st target = None"
        "put_trace H tmp st key payload sha256 =
          (let t = butlast target @ [tmp];
               c = set_file t (Content []) st; w = set_file t (Content payload) c
           in (Inr (), [st, c, w, set_file target (Content payload) (drop_file t w)]))"
proof (cases "H payload = sha256")
  case False
  then show ?thesis by (auto simp: put_trace_def intro: err)
next
  case H: True
  show ?thesis
  proof (cases "ls_path st key")
    case (Inl e)
    with H show ?thesis by (auto simp: put_trace_def intro: err)
  next
    case p: (Inr target)
    show ?thesis
    proof (cases "exists_verified H st key sha256")
      case (Inl e)
      with H p show ?thesis by (auto simp: put_trace_def intro: err)
    next
      case e: (Inr b)
      show ?thesis
      proof (cases b)
        case True
        with H p e show ?thesis
          by (intro same) (simp_all add: put_trace_def exists_verified_iff [symmetric])
      next
        case False
        with e p have none: "ls_files st target = None"
          by (auto simp: exists_verified_def split: if_splits sum.splits)
        with H p e False show ?thesis
          by (intro new) (simp_all add: put_trace_def Let_def)
      qed
    qed
  qed
qed

lemma put_verified_intact:
  assumes "put_verified H tmp st key payload sha256 = (Inr (), st')"
  shows "H payload = sha256 \<and> intact H st' key sha256"
  using assms
  by (cases rule: put_trace_cases [of H tmp st key payload sha256])
     (auto simp: put_verified_def Let_def intact_def stored_def)

lemma put_verified_frame:
  assumes "tmp_fresh tmp st key" "put_verified H tmp st key payload sha256 = (r, st')"
    "ls_path st key \<noteq> ls_path st key'"
  shows "stored st' key' = stored st key'"
proof (cases rule: put_trace_cases [of H tmp st key payload sha256])
  case (new target)
  let ?t = "butlast target @ [tmp]"
  from assms(1) new(2) have fresh: "ls_files st ?t = None" by (simp add: tmp_fresh_def)
  from assms(2) new(4) have st': "st' = set_file target (Content payload)
      (drop_file ?t (set_file ?t (Content payload) (set_file ?t (Content []) st)))"
    by (simp add: put_verified_def Let_def)
  show ?thesis
  proof (cases "ls_path st key'")
    case (Inl e)
    then show ?thesis by (simp add: st' stored_def)
  next
    case (Inr q)
    with assms(3) new(2) have "q \<noteq> target" by simp
    with Inr fresh show ?thesis
      by (cases "q = ?t") (simp_all add: st' stored_def read_bytes_def)
  qed
qed (use assms in \<open>auto simp: put_verified_def\<close>)

lemma put_verified_immutable:
  assumes "stored st key = Some c" "put_verified H tmp st key payload sha256 = (r, st')"
  shows "st' = st"
proof (cases rule: put_trace_cases [of H tmp st key payload sha256])
  case (new target)
  with assms(1) show ?thesis by (simp add: stored_def read_bytes_def)
qed (use assms in \<open>auto simp: put_verified_def\<close>)

lemma put_verified_root: "put_verified H tmp st key payload sha256 = (r, st') \<Longrightarrow> ls_root st' = ls_root st"
  by (cases rule: put_trace_cases [of H tmp st key payload sha256])
     (auto simp: put_verified_def Let_def)

lemma delete_verified_gone:
  "delete_verified H st key sha256 = (Inr b, st') \<Longrightarrow> stored st' key = None"
  by (auto simp: delete_verified_def stored_def read_bytes_def
      split: sum.splits if_splits option.splits fs_entry.splits)

lemma delete_verified_frame:
  assumes "delete_verified H st key sha256 = (r, st')" "ls_path st key \<noteq> ls_path st key'"
  shows "stored st' key' = stored st key'"
proof -
  consider "st' = st" | p where "ls_path st key = Inr p" "st' = drop_file p st"
    using assms(1) by (auto simp: delete_verified_def split: sum.splits if_splits)
  then show ?thesis
  proof cases
    case 2
    with assms(2) show ?thesis by (auto simp: stored_def split: sum.splits)
  qed simp
qed

lemma delete_verified_mismatch:
  "stored st key = Some c \<Longrightarrow> H c \<noteq> sha256 \<Longrightarrow> \<exists>e. delete_verified H st key sha256 = (Inl e, st)"
  by (auto simp: delete_verified_def stored_def read_bytes_def
      split: sum.splits option.splits fs_entry.splits)

lemma delete_verified_hit:
  "intact H st key sha256 \<Longrightarrow> \<exists>st'. delete_verified H st key sha256 = (Inr True, st')"
  by (auto simp: delete_verified_def intact_def stored_def read_bytes_def
      split: sum.splits option.splits fs_entry.splits)

lemma delete_verified_root: "delete_verified H st key sha256 = (r, st') \<Longrightarrow> ls_root st' = ls_root st"
  by (auto simp: delete_verified_def split: sum.splits if_splits)

section \<open>The ImmutableObjectStore protocol\<close>

text \<open>
  What the services rely on: a verified read succeeds exactly on an object whose recorded
  digest matches, a write never changes an object that is already stored, a delete removes only
  the object whose digest was given, and neither disturbs objects under other keys.  \<open>same_obj\<close>
  says when two keys name the same object and \<open>ready\<close> when a temporary name is available.
\<close>

locale object_store =
  fixes put :: "'st \<Rightarrow> string \<Rightarrow> bytes \<Rightarrow> string \<Rightarrow> unit result \<times> 'st"
    and exi :: "'st \<Rightarrow> string \<Rightarrow> string \<Rightarrow> bool result"
    and rd :: "'st \<Rightarrow> string \<Rightarrow> string \<Rightarrow> bytes result"
    and del :: "'st \<Rightarrow> string \<Rightarrow> string \<Rightarrow> bool result \<times> 'st"
    and content :: "'st \<Rightarrow> string \<Rightarrow> bytes option"
    and same_obj :: "'st \<Rightarrow> string \<Rightarrow> string \<Rightarrow> bool"
    and ready :: "'st \<Rightarrow> string \<Rightarrow> bool"
    and digest :: "bytes \<Rightarrow> string"
  assumes same_obj_content: "same_obj st k k' \<Longrightarrow> content st k = content st k'"
    and exi_iff: "exi st k d = Inr True \<longleftrightarrow> (\<exists>c. content st k = Some c \<and> digest c = d)"
    and rd_iff: "rd st k d = Inr c \<longleftrightarrow> content st k = Some c \<and> digest c = d"
    and put_stores: "put st k c d = (Inr (), st') \<Longrightarrow> \<exists>c'. content st' k = Some c' \<and> digest c' = d"
    and put_immutable: "content st k = Some c0 \<Longrightarrow> put st k c d = (r, st') \<Longrightarrow> st' = st"
    and put_frame: "ready st k \<Longrightarrow> put st k c d = (r, st') \<Longrightarrow> \<not> same_obj st k k'
      \<Longrightarrow> content st' k' = content st k'"
    and del_removes: "del st k d = (Inr b, st') \<Longrightarrow> content st' k = None"
    and del_exact: "content st k = Some c \<Longrightarrow> digest c \<noteq> d \<Longrightarrow> \<exists>e. del st k d = (Inl e, st)"
    and del_frame: "del st k d = (r', st') \<Longrightarrow> \<not> same_obj st k k' \<Longrightarrow> content st' k' = content st k'"
begin

lemma read_after_put: "put st k c d = (Inr (), st') \<Longrightarrow> \<exists>c'. rd st' k d = Inr c' \<and> digest c' = d"
  using put_stores rd_iff by blast

lemma exists_after_put: "put st k c d = (Inr (), st') \<Longrightarrow> exi st' k d = Inr True"
  using put_stores exi_iff by blast

lemma read_after_put_exact:
  assumes "inj digest" "put st k c (digest c) = (Inr (), st')"
  shows "rd st' k (digest c) = Inr c"
  using put_stores [OF assms(2)] assms(1) rd_iff by (metis injD)

lemma put_keeps_readable:
  assumes "rd st k' d' = Inr c'" "ready st k" "put st k c d = (r, st')"
  shows "rd st' k' d' = Inr c'"
proof (cases "same_obj st k k'")
  case False
  with assms(1) put_frame [OF assms(2,3) False] show ?thesis by (simp add: rd_iff)
next
  case True
  show ?thesis
  proof (cases "content st k")
    case (Some c0)
    with assms show ?thesis using put_immutable by blast
  next
    case None
    with True have "content st k' = None" using same_obj_content by metis
    with assms(1) show ?thesis by (simp add: rd_iff)
  qed
qed

lemma not_exists_after_delete: "del st k d = (Inr b, st') \<Longrightarrow> exi st' k d' \<noteq> Inr True"
  using del_removes [of st k d b st'] by (simp add: exi_iff)

lemma delete_keeps_readable:
  "rd st k' d' = Inr c' \<Longrightarrow> del st k d = (r, st') \<Longrightarrow> \<not> same_obj st k k' \<Longrightarrow> rd st' k' d' = Inr c'"
  using del_frame [of st k d r st' k'] by (simp add: rd_iff)

lemma delete_never_removes_other_content:
  "rd st k d' = Inr c' \<Longrightarrow> d' \<noteq> d \<Longrightarrow> \<exists>e. del st k d = (Inl e, st)"
  using del_exact [of st k c' d] by (auto simp: rd_iff)

end


interpretation ls: object_store "put_verified H tmp" "exists_verified H" "read_verified H"
  "delete_verified H" stored "\<lambda>st a b. ls_path st a = ls_path st b" "tmp_fresh tmp" H
  for H :: "bytes \<Rightarrow> string" and tmp :: string
proof unfold_locales
  fix st k k' assume "ls_path st k = ls_path st k'"
  then show "stored st k = stored st k'" by (simp add: stored_def)
next
  fix st k d
  show "exists_verified H st k d = Inr True \<longleftrightarrow> (\<exists>c. stored st k = Some c \<and> H c = d)"
    by (auto simp: exists_verified_iff intact_def split: option.splits)
next
  fix st k d c
  show "read_verified H st k d = Inr c \<longleftrightarrow> stored st k = Some c \<and> H c = d"
    by (rule read_verified_iff)
next
  fix st k c d st'
  assume "put_verified H tmp st k c d = (Inr (), st')"
  from put_verified_intact [OF this] show "\<exists>c'. stored st' k = Some c' \<and> H c' = d"
    by (auto simp: intact_def split: option.splits)
next
  fix st k c0 c d r st'
  assume "stored st k = Some c0" "put_verified H tmp st k c d = (r, st')"
  then show "st' = st" by (rule put_verified_immutable)
next
  fix st k c d r st' k'
  assume "tmp_fresh tmp st k" "put_verified H tmp st k c d = (r, st')" "ls_path st k \<noteq> ls_path st k'"
  then show "stored st' k' = stored st k'" by (rule put_verified_frame)
next
  fix st k d b st'
  assume "delete_verified H st k d = (Inr b, st')"
  then show "stored st' k = None" by (rule delete_verified_gone)
next
  fix st k c d
  assume "stored st k = Some c" "H c \<noteq> d"
  then show "\<exists>e. delete_verified H st k d = (Inl e, st)" by (rule delete_verified_mismatch)
next
  fix st k d r st' k'
  assume "delete_verified H st k d = (r, st')" "ls_path st k \<noteq> ls_path st k'"
  then show "stored st' k' = stored st k'" by (rule delete_verified_frame)
qed

lemma put_keeps_intact:
  assumes "intact H st key' sha'" "tmp_fresh tmp st key" "put_verified H tmp st key payload sha256 = (r, st')"
  shows "intact H st' key' sha'"
proof -
  from assms(1) obtain c where "read_verified H st key' sha' = Inr c"
    by (metis read_verified_intact)
  from ls.put_keeps_readable [OF this assms(2,3)] show ?thesis
    by (metis read_verified_intact)
qed

lemma delete_keeps_intact:
  assumes "intact H st key' sha'" "delete_verified H st key sha256 = (r, st')"
    "clean_key key" "clean_key key'" "key \<noteq> key'"
  shows "intact H st' key' sha'"
proof -
  from assms(3,4,5) have "ls_path st key \<noteq> ls_path st key'" by (simp add: ls_path_clean_inj)
  with assms(2) have "stored st' key' = stored st key'" by (rule delete_verified_frame)
  with assms(1) show ?thesis by (simp add: intact_def)
qed

section \<open>Services: a catalogue and an object store\<close>

text \<open>
  The object store does not take part in a database transaction: a rollback restores the
  catalogue and keeps whatever the block did to the store.
\<close>

record world =
  cat :: catalog
  objs :: local_store

definition world_txn :: "(world \<Rightarrow> 'a result \<times> world) \<Rightarrow> world \<Rightarrow> 'a result \<times> world" where
  "world_txn body w =
     (case body w of
        (Inl e, w') \<Rightarrow> (Inl e, w'\<lparr>cat := cat w\<rparr>)
      | (Inr a, w') \<Rightarrow> (Inr a, w'))"

lemma world_txn_commit: "world_txn body w = (Inr a, w') \<longleftrightarrow> body w = (Inr a, w')"
  by (auto simp: world_txn_def split: prod.splits sum.splits)

lemma world_txn_rollback: "world_txn body w = (Inl e, w') \<Longrightarrow> cat w' = cat w"
  by (auto simp: world_txn_def split: prod.splits sum.splits)

section \<open>Properties\<close>

text \<open>
  Crash safety of \<^verbatim>\<open>put_verified\<close>: in every file system the write goes
  through, at whatever point it is cut off, the target is either exactly as before or holds
  the complete payload with the declared digest, and the only other path touched is the
  temporary file.
\<close>

lemma put_trace_states:
  assumes "s \<in> set (snd (put_trace H tmp st key payload sha256))" "ls_path st key = Inr target"
    "q \<noteq> butlast target @ [tmp]"
  shows "ls_files s q = ls_files st q
     \<or> (q = target \<and> ls_files s q = Some (Content payload) \<and> H payload = sha256)"
  using assms
  by (cases rule: put_trace_cases [of H tmp st key payload sha256]) (auto simp: Let_def split: if_splits)

end
