(* ===== verification/Contracts.thy ===== *)
theory Contracts
  imports Object_Store
begin

text \<open>
  The request and response models of \<^verbatim>\<open>contracts.py\<close> used by segment admission, with the
  field constraints pydantic enforces before a handler runs, and the machine principal of
  \<^verbatim>\<open>settings.py\<close>.  A frozen set of strings is a list whose membership is all that is used.
\<close>

section \<open>Principals\<close>

record MachinePrincipal =
  mp_tenant_id :: string
  mp_clusters :: "string list"
  mp_credential_id :: string
  mp_permissions :: "string list"

section \<open>Segment uploads\<close>

record SegmentUpload =
  su_envelope_major :: int
  su_cluster_id :: string
  su_attempt_id :: string
  su_workflow_execution_id :: "string option"
  su_logical_case_id :: "string option"
  su_scheduler_source_identity :: "string option"
  su_producer_id :: string
  su_transport_epoch :: string
  su_stream_id :: string
  su_first_sequence :: int
  su_last_sequence :: int
  su_record_count :: int
  su_deletion_generation :: int
  su_compression :: string
  su_content_type :: string
  su_expanded_size_bytes :: int
  su_payload_sha256 :: string
  su_payload_base64 :: string

definition scheduler_identity_ok :: "string \<Rightarrow> bool" where
  "scheduler_identity_ok s = (1 \<le> length s \<and> length s \<le> 256
     \<and> list_all (\<lambda>c. safe_char c \<or> c = CHR ''='' \<or> c = CHR '','') s)"

definition max_bigint :: int where
  "max_bigint = 2 ^ 63 - 1"

definition validate_range :: "SegmentUpload \<Rightarrow> unit result" where
  "validate_range s =
     (if su_last_sequence s < su_first_sequence s
      then Inl (ValueError ''last_sequence must be greater than or equal to first_sequence'')
      else if su_record_count s > su_last_sequence s - su_first_sequence s + 1
      then Inl (ValueError ''record_count cannot exceed the declared sequence range'')
      else Inr ())"

definition segment_fields_ok :: "SegmentUpload \<Rightarrow> bool" where
  "segment_fields_ok s = (su_envelope_major s = 2
     \<and> safe_identifier (su_cluster_id s) \<and> safe_identifier (su_attempt_id s)
     \<and> opt_ok safe_identifier (su_workflow_execution_id s)
     \<and> opt_ok safe_identifier (su_logical_case_id s)
     \<and> opt_ok scheduler_identity_ok (su_scheduler_source_identity s)
     \<and> safe_identifier (su_producer_id s) \<and> safe_identifier (su_transport_epoch s)
     \<and> safe_identifier (su_stream_id s)
     \<and> 0 \<le> su_first_sequence s \<and> su_first_sequence s \<le> max_bigint
     \<and> 0 \<le> su_last_sequence s \<and> su_last_sequence s \<le> max_bigint
     \<and> 1 \<le> su_record_count s \<and> su_record_count s \<le> 10000000
     \<and> 0 \<le> su_deletion_generation s \<and> su_deletion_generation s \<le> max_bigint
     \<and> su_compression s = ''identity'' \<and> su_content_type s = ''application/x-ndjson''
     \<and> 1 \<le> su_expanded_size_bytes s \<and> su_expanded_size_bytes s \<le> 8388608
     \<and> sha256_hex (su_payload_sha256 s)
     \<and> 4 \<le> length (su_payload_base64 s) \<and> int (length (su_payload_base64 s)) \<le> 12582912)"

text \<open>\<open>str_strip_whitespace=True\<close>: every text field is stripped before it is validated.\<close>

definition strip_segment :: "SegmentUpload \<Rightarrow> SegmentUpload" where
  "strip_segment s = s\<lparr>su_cluster_id := str_strip (su_cluster_id s),
     su_attempt_id := str_strip (su_attempt_id s),
     su_workflow_execution_id := map_option str_strip (su_workflow_execution_id s),
     su_logical_case_id := map_option str_strip (su_logical_case_id s),
     su_scheduler_source_identity := map_option str_strip (su_scheduler_source_identity s),
     su_producer_id := str_strip (su_producer_id s),
     su_transport_epoch := str_strip (su_transport_epoch s),
     su_stream_id := str_strip (su_stream_id s),
     su_payload_sha256 := str_strip (su_payload_sha256 s),
     su_payload_base64 := str_strip (su_payload_base64 s)\<rparr>"

definition validate_segment :: "SegmentUpload \<Rightarrow> SegmentUpload result" where
  "validate_segment raw = (let s = strip_segment raw in
     if \<not> segment_fields_ok s then Inl (ValueError ''validation error for SegmentUpload'')
     else bindE (validate_range s) (\<lambda>_. Inr s))"

section \<open>Receipts\<close>

record DurableReceipt =
  dr_receipt_id :: string
  dr_status :: string
  dr_replayed :: bool
  dr_object_key :: string
  dr_payload_sha256 :: string
  dr_committed_at :: instant

record ReceiptView = DurableReceipt +
  rv_tenant_id :: string
  rv_cluster_id :: string
  rv_attempt_id :: string
  rv_admitted_by_credential_id :: string
  rv_producer_id :: string
  rv_transport_epoch :: string
  rv_stream_id :: string
  rv_first_sequence :: int
  rv_last_sequence :: int

definition segment_ok :: "SegmentUpload \<Rightarrow> bool" where
  "segment_ok s = (segment_fields_ok s \<and> su_first_sequence s \<le> su_last_sequence s
     \<and> su_record_count s \<le> su_last_sequence s - su_first_sequence s + 1)"

lemma validate_segment_ok: "validate_segment raw = Inr s \<Longrightarrow> segment_ok s"
  by (auto simp: validate_segment_def validate_range_def segment_ok_def Let_def bindE_Inr_iff
      split: if_splits)

end
