(* ===== verification/Admission.thy ===== *)
theory Admission
  imports Contracts
begin

text \<open>
  Segment admission, the first half of \<^verbatim>\<open>ingestion.py\<close>: payload preparation, the attempt
  record, and the two transactions of \<open>IngestionService.admit\<close> with the object write
  between them.

  A transaction body maps a catalogue to a result and the catalogue at the point where the
  block was left; \<open>begin_txn\<close> discards the latter when the result is an exception.  The advisory locks
  taken by \<open>lock_stream\<close> serialise the blocks that touch an attempt, a stream or an object, so that a
  block is one atomic step; between the two blocks of \<open>admit\<close> any other operation may run.  The identifiers
  drawn by \<open>uuid.uuid4\<close>, the temporary file name and the clock readings are the record
  \<open>admission_inputs\<close>.
\<close>

section \<open>Configuration and inputs\<close>

record IngestionService =
  ig_max_expanded :: int
  ig_default_retention_seconds :: int

definition retention_seconds_ok :: "int \<Rightarrow> bool" where
  "retention_seconds_ok n = (n = 0 \<or> (3600 \<le> n \<and> n \<le> 315360000))"

definition make_ingestion_service :: "int \<Rightarrow> int \<Rightarrow> IngestionService result" where
  "make_ingestion_service max_expanded default_retention =
     (if \<not> retention_seconds_ok default_retention
      then Inl (ValueError ''default_retention_seconds must be 0 or within [3600, 315360000]'')
      else Inr \<lparr>ig_max_expanded = max_expanded, ig_default_retention_seconds = default_retention\<rparr>)"

record admission_inputs =
  ai_reservation_id :: string
  ai_reserved_at :: instant
  ai_tmp :: string
  ai_receipt_id :: string
  ai_outbox_id :: string
  ai_committed_at :: instant

abbreviation AdmissionConflict :: "string \<Rightarrow> string \<Rightarrow> bool \<Rightarrow> py_error" where
  "AdmissionConflict code message retriable \<equiv> AdmissionError code message 409 retriable"

section \<open>Payload preparation\<close>

record PreparedPayload =
  pp_content :: bytes
  pp_object_key :: string

fun count_records :: "runtime \<Rightarrow> nat \<Rightarrow> int \<Rightarrow> bytes list \<Rightarrow> int result" where
  "count_records R line_number records [] = Inr records"
| "count_records R line_number records (line # lines) =
     (if bytes_strip line = [] then count_records R (line_number + 1) records lines
      else (case rt_json_loads R line of
          None \<Rightarrow> Inl (AdmissionError ''invalid_ndjson''
                    (''payload record '' @ show_nat line_number @ '' is not valid JSON'') 400 False)
        | Some v \<Rightarrow>
            if \<not> is_jobj v
            then Inl (AdmissionError ''invalid_ndjson_record''
                    (''payload record '' @ show_nat line_number @ '' must be an object'') 400 False)
            else count_records R (line_number + 1) (records + 1) lines))"

definition segment_object_key :: "runtime \<Rightarrow> string \<Rightarrow> string \<Rightarrow> string \<Rightarrow> string" where
  "segment_object_key R tenant_id cluster_id digest =
     (let tenant_bucket = take 16 (rt_sha256 R (utf8 tenant_id));
          cluster_bucket = take 16 (rt_sha256 R (utf8 cluster_id))
      in ''v2/'' @ tenant_bucket @ ''/'' @ cluster_bucket @ ''/'' @ take 2 digest @ ''/'' @ digest @ ''.segment'')"

definition prepare_payload ::
  "runtime \<Rightarrow> IngestionService \<Rightarrow> string \<Rightarrow> SegmentUpload \<Rightarrow> PreparedPayload result" where
  "prepare_payload R sv tenant_id s =
     (if su_expanded_size_bytes s > ig_max_expanded sv
      then Inl (AdmissionError ''segment_too_large'' ''expanded segment exceeds site policy'' 413 False)
      else (case rt_b64decode R (su_payload_base64 s) of
          None \<Rightarrow> Inl (AdmissionError ''invalid_payload_encoding'' ''payload_base64 is invalid'' 400 False)
        | Some payload \<Rightarrow>
            if int (length payload) \<noteq> su_expanded_size_bytes s
            then Inl (AdmissionError ''expanded_size_mismatch''
                   ''expanded_size_bytes does not match payload'' 400 False)
            else (let digest = rt_sha256 R payload in
              if digest \<noteq> su_payload_sha256 s
              then Inl (AdmissionError ''payload_digest_mismatch''
                     ''payload_sha256 does not match payload'' 400 False)
              else bindE (count_records R 1 0 (splitlines payload)) (\<lambda>records.
                if records \<noteq> su_record_count s
                then Inl (AdmissionError ''record_count_mismatch''
                       ''record_count does not match nonempty NDJSON records'' 400 False)
                else Inr \<lparr>pp_content = payload,
                       pp_object_key = segment_object_key R tenant_id (su_cluster_id s) digest\<rparr>))))"

definition assert_scope :: "MachinePrincipal \<Rightarrow> SegmentUpload \<Rightarrow> unit result" where
  "assert_scope prin s =
     (if su_cluster_id s \<notin> set (mp_clusters prin)
      then Inl (AdmissionError ''cluster_forbidden''
             ''machine principal is not authorized for this cluster'' 403 False)
      else Inr ())"

section \<open>Generations, filters and receipts\<close>

definition seg_identity :: "string \<Rightarrow> SegmentUpload \<Rightarrow> attempt_identity" where
  "seg_identity tenant_id s = (tenant_id, su_cluster_id s, su_attempt_id s)"

definition seg_stream :: "string \<Rightarrow> SegmentUpload \<Rightarrow> stream_key" where
  "seg_stream tenant_id s = (tenant_id, su_cluster_id s, su_producer_id s, su_transport_epoch s,
     su_stream_id s)"

definition get_generation :: "catalog \<Rightarrow> attempt_identity \<Rightarrow> AttemptGeneration option" where
  "get_generation c i = List.find (\<lambda>g. ag_identity g = i) (generations c)"

definition make_generation :: "attempt_identity \<Rightarrow> int \<Rightarrow> instant option \<Rightarrow> AttemptGeneration" where
  "make_generation i n deleted_at = \<lparr>ag_tenant_id = fst i, ag_cluster_id = fst (snd i),
     ag_attempt_id = snd (snd i), ag_generation = n, ag_deleted_at = deleted_at\<rparr>"

definition current_generation :: "catalog \<Rightarrow> string \<Rightarrow> SegmentUpload \<Rightarrow> int result \<times> catalog" where
  "current_generation c tenant_id s =
     (case get_generation c (seg_identity tenant_id s) of
        None \<Rightarrow> (Inr 0, c\<lparr>generations := generations c
                   @ [make_generation (seg_identity tenant_id s) 0 None]\<rparr>)
      | Some g \<Rightarrow>
          if ag_deleted_at g \<noteq> None
          then (Inl (AdmissionConflict ''attempt_deleted'' ''attempt no longer accepts telemetry'' False), c)
          else (Inr (ag_generation g), c))"

definition range_filter :: "string \<Rightarrow> SegmentUpload \<Rightarrow> SegmentManifest \<Rightarrow> bool" where
  "range_filter tenant_id s m = (mf_stream m = seg_stream tenant_id s)"

definition exact_filter :: "string \<Rightarrow> SegmentUpload \<Rightarrow> SegmentManifest \<Rightarrow> bool" where
  "exact_filter tenant_id s m = (range_filter tenant_id s m
     \<and> mf_first_sequence m = su_first_sequence s \<and> mf_last_sequence m = su_last_sequence s)"

definition overlap_filter :: "string \<Rightarrow> SegmentUpload \<Rightarrow> SegmentManifest \<Rightarrow> bool" where
  "overlap_filter tenant_id s m = (range_filter tenant_id s m
     \<and> mf_first_sequence m \<le> su_last_sequence s \<and> mf_last_sequence m \<ge> su_first_sequence s)"

definition receipt :: "SegmentManifest \<Rightarrow> bool \<Rightarrow> DurableReceipt" where
  "receipt m replayed = \<lparr>dr_receipt_id = mf_receipt_id m, dr_status = ''DURABLE'', dr_replayed = replayed,
     dr_object_key = mf_object_key m, dr_payload_sha256 = mf_payload_sha256 m,
     dr_committed_at = mf_committed_at m\<rparr>"

section \<open>The attempt record\<close>

definition policy_cancelled :: "catalog \<Rightarrow> RetentionPolicyRevision \<Rightarrow> bool" where
  "policy_cancelled c p = list_ex (\<lambda>x. rpc_tenant_id x = rpr_tenant_id p
     \<and> rpc_cluster_id x = rpr_cluster_id p \<and> rpc_policy_version x = rpr_version p) (policy_cancellations c)"

definition policy_applies :: "catalog \<Rightarrow> string \<Rightarrow> SegmentUpload \<Rightarrow> instant \<Rightarrow> RetentionPolicyRevision \<Rightarrow> bool" where
  "policy_applies c tenant_id s committed_at p = (rpr_tenant_id p = tenant_id
     \<and> rpr_cluster_id p = su_cluster_id s \<and> rpr_effective_at p \<le> committed_at
     \<and> (rpr_logical_case_id p = None
        \<or> (su_logical_case_id s \<noteq> None \<and> rpr_logical_case_id p = su_logical_case_id s))
     \<and> \<not> policy_cancelled c p)"

definition select_policy :: "catalog \<Rightarrow> string \<Rightarrow> SegmentUpload \<Rightarrow> instant \<Rightarrow> RetentionPolicyRevision option" where
  "select_policy c tenant_id s committed_at =
     first_by (\<lambda>p. (rpr_logical_case_id p = None, - rpr_version p))
       (filter (policy_applies c tenant_id s committed_at) (policies c))"

definition retention_deadline :: "instant \<Rightarrow> int \<Rightarrow> instant option" where
  "retention_deadline start retention_seconds =
     (if retention_seconds > 0 then Some (start + seconds retention_seconds) else None)"

definition merge_binding :: "string \<Rightarrow> string option \<Rightarrow> string option \<Rightarrow> string option result" where
  "merge_binding field existing supplied =
     (if supplied \<noteq> None \<and> existing \<noteq> None \<and> supplied \<noteq> existing
      then Inl (AdmissionConflict ''attempt_identity_conflict''
             (field @ '' conflicts with the durable attempt identity'') False)
      else Inr (if existing = None then supplied else existing))"

definition get_attempt_record :: "catalog \<Rightarrow> attempt_identity \<Rightarrow> AttemptRecord option" where
  "get_attempt_record c i = List.find (\<lambda>r. ar_identity r = i) (attempt_records c)"

definition new_attempt_record ::
  "IngestionService \<Rightarrow> catalog \<Rightarrow> string \<Rightarrow> SegmentUpload \<Rightarrow> instant \<Rightarrow> AttemptRecord" where
  "new_attempt_record sv c tenant_id s committed_at =
     (let policy = select_policy c tenant_id s committed_at;
          retention_seconds = (case policy of Some p \<Rightarrow> rpr_retention_seconds p
                               | None \<Rightarrow> ig_default_retention_seconds sv)
      in \<lparr>ar_tenant_id = tenant_id, ar_cluster_id = su_cluster_id s, ar_attempt_id = su_attempt_id s,
          ar_workflow_execution_id = su_workflow_execution_id s,
          ar_logical_case_id = su_logical_case_id s,
          ar_scheduler_source_identity = su_scheduler_source_identity s,
          ar_scheduler_state = ''unknown'', ar_scheduler_observed_at = None,
          ar_first_admitted_at = committed_at, ar_last_admitted_at = committed_at,
          ar_retention_expires_at = retention_deadline committed_at retention_seconds,
          ar_retention_policy_version = map_option rpr_version policy,
          ar_segment_count = 1, ar_record_count = su_record_count s\<rparr>)"

definition update_attempt_record ::
  "AttemptRecord \<Rightarrow> SegmentUpload \<Rightarrow> instant \<Rightarrow> AttemptRecord result" where
  "update_attempt_record r s committed_at =
     bindE (merge_binding ''workflow_execution_id'' (ar_workflow_execution_id r) (su_workflow_execution_id s)) (\<lambda>w.
     bindE (merge_binding ''logical_case_id'' (ar_logical_case_id r) (su_logical_case_id s)) (\<lambda>l.
     bindE (merge_binding ''scheduler_source_identity'' (ar_scheduler_source_identity r)
              (su_scheduler_source_identity s)) (\<lambda>x.
     Inr (r\<lparr>ar_workflow_execution_id := w, ar_logical_case_id := l, ar_scheduler_source_identity := x,
            ar_last_admitted_at := committed_at, ar_segment_count := ar_segment_count r + 1,
            ar_record_count := ar_record_count r + su_record_count s\<rparr>))))"

definition record_admission ::
  "IngestionService \<Rightarrow> catalog \<Rightarrow> string \<Rightarrow> SegmentUpload \<Rightarrow> instant \<Rightarrow> AttemptRecord list result" where
  "record_admission sv c tenant_id s committed_at =
     (case get_attempt_record c (seg_identity tenant_id s) of
        None \<Rightarrow> add_attempt_record (new_attempt_record sv c tenant_id s committed_at) (attempt_records c)
      | Some r \<Rightarrow> bindE (update_attempt_record r s committed_at) (\<lambda>r'.
          if list_ex (\<lambda>x. ar_identity x \<noteq> ar_identity r \<and> ar_clash r' x) (attempt_records c)
          then Inl (IntegrityViolation ''uq_attempt_record_scheduler_identity'')
          else Inr (upd_where (\<lambda>x. ar_identity x = ar_identity r) (\<lambda>_. r') (attempt_records c))))"

section \<open>Reservation\<close>

datatype reserve_outcome = Replay DurableReceipt | Reservation string

definition res_exact :: "string \<Rightarrow> SegmentUpload \<Rightarrow> AdmissionReservation \<Rightarrow> bool" where
  "res_exact tenant_id s r = (res_stream r = seg_stream tenant_id s
     \<and> res_first_sequence r = su_first_sequence s \<and> res_last_sequence r = su_last_sequence s)"

definition new_reservation ::
  "MachinePrincipal \<Rightarrow> SegmentUpload \<Rightarrow> string \<Rightarrow> int \<Rightarrow> admission_inputs \<Rightarrow> AdmissionReservation" where
  "new_reservation prin s key generation inp =
     \<lparr>res_reservation_id = ai_reservation_id inp, res_tenant_id = mp_tenant_id prin,
      res_cluster_id = su_cluster_id s, res_attempt_id = su_attempt_id s,
      res_credential_id = mp_credential_id prin, res_producer_id = su_producer_id s,
      res_transport_epoch = su_transport_epoch s, res_stream_id = su_stream_id s,
      res_first_sequence = su_first_sequence s, res_last_sequence = su_last_sequence s,
      res_payload_sha256 = su_payload_sha256 s, res_object_key = key,
      res_deletion_generation = generation, res_state = Reserved,
      res_created_at = ai_reserved_at inp\<rparr>"

definition insert_reservation ::
  "MachinePrincipal \<Rightarrow> SegmentUpload \<Rightarrow> string \<Rightarrow> int \<Rightarrow> admission_inputs \<Rightarrow> catalog
   \<Rightarrow> reserve_outcome result \<times> catalog" where
  "insert_reservation prin s key generation inp c =
     (case add_reservation (new_reservation prin s key generation inp) (reservations c) of
        Inl e \<Rightarrow> (Inl e, c)
      | Inr rows \<Rightarrow> (Inr (Reservation (ai_reservation_id inp)), c\<lparr>reservations := rows\<rparr>))"

definition reserve_range ::
  "MachinePrincipal \<Rightarrow> SegmentUpload \<Rightarrow> string \<Rightarrow> int \<Rightarrow> admission_inputs \<Rightarrow> catalog
   \<Rightarrow> reserve_outcome result \<times> catalog" where
  "reserve_range prin s key generation inp c =
     (case List.find (res_exact (mp_tenant_id prin) s) (reservations c) of
        None \<Rightarrow> insert_reservation prin s key generation inp c
      | Some r \<Rightarrow>
          (if res_state r = Committed
           then (Inl (AdmissionConflict ''catalog_inconsistent''
                   ''committed reservation is missing its manifest'' True), c)
           else if res_state r = Reserved
           then (if res_payload_sha256 r \<noteq> su_payload_sha256 s
                 then (Inl (AdmissionConflict ''reservation_digest_conflict''
                         ''active range has different content'' False), c)
                 else (Inr (Reservation (res_reservation_id r)), c))
           else insert_reservation prin s key generation inp
                  (c\<lparr>reservations := delete_where (\<lambda>x. res_reservation_id x = res_reservation_id r)
                      (reservations c)\<rparr>)))"

definition admit_reserve ::
  "MachinePrincipal \<Rightarrow> SegmentUpload \<Rightarrow> string \<Rightarrow> admission_inputs \<Rightarrow> catalog
   \<Rightarrow> reserve_outcome result \<times> catalog" where
  "admit_reserve prin s key inp c0 =
     (case current_generation c0 (mp_tenant_id prin) s of
        (Inl e, c) \<Rightarrow> (Inl e, c)
      | (Inr generation, c) \<Rightarrow>
          if generation \<noteq> su_deletion_generation s
          then (Inl (AdmissionConflict ''stale_deletion_generation''
                  ''segment was captured under an obsolete deletion generation'' False), c)
          else (case List.find (exact_filter (mp_tenant_id prin) s) (manifests c) of
              Some m \<Rightarrow>
                if mf_payload_sha256 m \<noteq> su_payload_sha256 s
                then (Inl (AdmissionConflict ''range_digest_conflict''
                        ''sequence range already has different content'' False), c)
                else (Inr (Replay (receipt m True)), c)
            | None \<Rightarrow>
                if list_ex (overlap_filter (mp_tenant_id prin) s) (manifests c)
                then (Inl (AdmissionConflict ''sequence_overlap''
                        ''segment overlaps an admitted sequence range'' False), c)
                else reserve_range prin s key generation inp c))"

section \<open>Commit\<close>

definition new_manifest ::
  "MachinePrincipal \<Rightarrow> SegmentUpload \<Rightarrow> string \<Rightarrow> int \<Rightarrow> AdmissionReservation \<Rightarrow> admission_inputs
   \<Rightarrow> SegmentManifest" where
  "new_manifest prin s key generation r inp =
     \<lparr>mf_receipt_id = ai_receipt_id inp, mf_tenant_id = mp_tenant_id prin,
      mf_cluster_id = su_cluster_id s, mf_attempt_id = su_attempt_id s,
      mf_credential_id = res_credential_id r, mf_producer_id = su_producer_id s,
      mf_transport_epoch = su_transport_epoch s, mf_stream_id = su_stream_id s,
      mf_first_sequence = su_first_sequence s, mf_last_sequence = su_last_sequence s,
      mf_record_count = su_record_count s, mf_payload_sha256 = su_payload_sha256 s,
      mf_object_key = key, mf_deletion_generation = generation,
      mf_committed_at = ai_committed_at inp\<rparr>"

definition admitted_event :: "MachinePrincipal \<Rightarrow> SegmentUpload \<Rightarrow> admission_inputs \<Rightarrow> OutboxRecord" where
  "admitted_event prin s inp =
     \<lparr>ob_outbox_id = ai_outbox_id inp, ob_tenant_id = mp_tenant_id prin,
      ob_event_type = SegmentAdmitted, ob_aggregate_id = ai_receipt_id inp,
      ob_payload_json = Some (JObj [(''attempt_id'', JStr (su_attempt_id s)),
        (''receipt_id'', JStr (ai_receipt_id inp))]),
      ob_state = OPending, ob_attempts = 0, ob_lease_owner = None, ob_lease_generation = 0,
      ob_lease_expires_at = None, ob_last_error = None, ob_created_at = ai_committed_at inp\<rparr>"

definition set_reservation_state :: "string \<Rightarrow> reservation_state \<Rightarrow> catalog \<Rightarrow> catalog" where
  "set_reservation_state rid st c = c\<lparr>reservations :=
     upd_where (\<lambda>r. res_reservation_id r = rid) (\<lambda>r. r\<lparr>res_state := st\<rparr>) (reservations c)\<rparr>"

definition commit_manifest ::
  "IngestionService \<Rightarrow> MachinePrincipal \<Rightarrow> SegmentUpload \<Rightarrow> string \<Rightarrow> int \<Rightarrow> AdmissionReservation
   \<Rightarrow> admission_inputs \<Rightarrow> catalog \<Rightarrow> DurableReceipt result \<times> catalog" where
  "commit_manifest sv prin s key generation r inp c =
     (let m = new_manifest prin s key generation r inp in
      case add_manifest m (manifests c) of
        Inl e \<Rightarrow> (Inl e, c)
      | Inr ms \<Rightarrow>
          (case record_admission sv c (mp_tenant_id prin) s (ai_committed_at inp) of
             Inl e \<Rightarrow> (Inl e, c)
           | Inr rs \<Rightarrow>
               (case add_outbox (admitted_event prin s inp) (outbox c) of
                  Inl e \<Rightarrow> (Inl e, c)
                | Inr os \<Rightarrow>
                    (Inr (receipt m False),
                     set_reservation_state (res_reservation_id r) Committed
                       (c\<lparr>manifests := ms, attempt_records := rs, outbox := os\<rparr>)))))"

definition admit_commit ::
  "runtime \<Rightarrow> IngestionService \<Rightarrow> MachinePrincipal \<Rightarrow> SegmentUpload \<Rightarrow> string \<Rightarrow> string
   \<Rightarrow> admission_inputs \<Rightarrow> local_store \<Rightarrow> catalog \<Rightarrow> DurableReceipt result \<times> catalog" where
  "admit_commit R sv prin s key reservation_id inp st c0 =
     (case current_generation c0 (mp_tenant_id prin) s of
        (Inl e, c) \<Rightarrow> (Inl e, c)
      | (Inr generation, c) \<Rightarrow>
          (case List.find (\<lambda>r. res_reservation_id r = reservation_id) (reservations c) of
             None \<Rightarrow> (Inl (AdmissionConflict ''reservation_expired''
                       ''admission reservation is no longer valid'' True), c)
           | Some r \<Rightarrow>
               if res_state r \<noteq> Reserved
               then (Inl (AdmissionConflict ''reservation_expired''
                       ''admission reservation is no longer valid'' True), c)
               else
               if generation \<noteq> res_deletion_generation r \<or> generation \<noteq> su_deletion_generation s
               then (Inl (AdmissionConflict ''deletion_fenced_admission''
                       ''deletion policy changed while the object was being stored'' False),
                     set_reservation_state reservation_id Fenced c)
               else (case exists_verified (rt_sha256 R) st key (su_payload_sha256 s) of
                   Inl e \<Rightarrow> (Inl e, c)
                 | Inr False \<Rightarrow> (Inl (AdmissionError ''object_missing''
                       ''verified object is unavailable'' 503 True), c)
                 | Inr True \<Rightarrow>
                     (case List.find (overlap_filter (mp_tenant_id prin) s) (manifests c) of
                        Some m \<Rightarrow>
                          if mf_first_sequence m = su_first_sequence s
                            \<and> mf_last_sequence m = su_last_sequence s
                            \<and> mf_payload_sha256 m = su_payload_sha256 s
                          then (Inr (receipt m True), set_reservation_state reservation_id Committed c)
                          else (Inl (AdmissionConflict ''sequence_overlap''
                                  ''segment overlaps an admitted sequence range'' False),
                                set_reservation_state reservation_id Conflicted c)
                      | None \<Rightarrow> commit_manifest sv prin s key generation r inp c))))"

section \<open>The composed operation\<close>

text \<open>
  \<open>admit\<close> on an undisturbed world: the reservation block, the object write and the commit
  block one after the other.
\<close>

definition put_object ::
  "runtime \<Rightarrow> string \<Rightarrow> PreparedPayload \<Rightarrow> SegmentUpload \<Rightarrow> local_store \<Rightarrow> unit result \<times> local_store" where
  "put_object R tmp prepared s st =
     (case put_verified (rt_sha256 R) tmp st (pp_object_key prepared) (pp_content prepared) (su_payload_sha256 s) of
        (Inl (ObjectIntegrityError msg), st') \<Rightarrow>
          (Inl (AdmissionError ''object_integrity_error'' msg 503 True), st')
      | (r, st') \<Rightarrow> (r, st'))"

definition admit ::
  "runtime \<Rightarrow> IngestionService \<Rightarrow> MachinePrincipal \<Rightarrow> SegmentUpload \<Rightarrow> admission_inputs \<Rightarrow> world
   \<Rightarrow> DurableReceipt result \<times> world" where
  "admit R sv prin s inp w =
     (case assert_scope prin s of
        Inl e \<Rightarrow> (Inl e, w)
      | Inr _ \<Rightarrow>
          (case prepare_payload R sv (mp_tenant_id prin) s of
             Inl e \<Rightarrow> (Inl e, w)
           | Inr prepared \<Rightarrow>
               (case begin_txn (admit_reserve prin s (pp_object_key prepared) inp) (cat w) of
                  (Inl e, c1) \<Rightarrow> (Inl e, w\<lparr>cat := c1\<rparr>)
                | (Inr (Replay r), c1) \<Rightarrow> (Inr r, w\<lparr>cat := c1\<rparr>)
                | (Inr (Reservation rid), c1) \<Rightarrow>
                    (case put_object R (ai_tmp inp) prepared s (objs w) of
                       (Inl e, st) \<Rightarrow> (Inl e, \<lparr>cat = c1, objs = st\<rparr>)
                     | (Inr _, st) \<Rightarrow>
                         (case begin_txn (admit_commit R sv prin s (pp_object_key prepared) rid inp st) c1 of
                            (r, c2) \<Rightarrow> (r, \<lparr>cat = c2, objs = st\<rparr>))))))"

definition get_receipt :: "catalog \<Rightarrow> string \<Rightarrow> string \<Rightarrow> ReceiptView option" where
  "get_receipt c tenant_id receipt_id =
     map_option (\<lambda>m.
       \<lparr>dr_receipt_id = mf_receipt_id m, dr_status = ''DURABLE'', dr_replayed = False,
        dr_object_key = mf_object_key m, dr_payload_sha256 = mf_payload_sha256 m,
        dr_committed_at = mf_committed_at m,
        rv_tenant_id = mf_tenant_id m, rv_cluster_id = mf_cluster_id m, rv_attempt_id = mf_attempt_id m,
        rv_admitted_by_credential_id = mf_credential_id m, rv_producer_id = mf_producer_id m,
        rv_transport_epoch = mf_transport_epoch m, rv_stream_id = mf_stream_id m,
        rv_first_sequence = mf_first_sequence m, rv_last_sequence = mf_last_sequence m\<rparr>)
       (List.find (\<lambda>m. mf_receipt_id m = receipt_id \<and> mf_tenant_id m = tenant_id) (manifests c))"

section \<open>Payload preparation\<close>

definition is_record :: "runtime \<Rightarrow> bytes \<Rightarrow> bool" where
  "is_record R line = (case rt_json_loads R line of None \<Rightarrow> False | Some v \<Rightarrow> is_jobj v)"

definition nonblank :: "bytes list \<Rightarrow> bytes list" where
  "nonblank lines = filter (\<lambda>l. bytes_strip l \<noteq> []) lines"

lemma count_records_Inr:
  "count_records R n k lines = Inr m \<longleftrightarrow>
     list_all (is_record R) (nonblank lines) \<and> m = k + int (length (nonblank lines))"
  by (induction lines arbitrary: n k)
     (auto simp: nonblank_def is_record_def split: option.splits)

lemma prepare_payload_key:
  "prepare_payload R sv t s = Inr p \<Longrightarrow>
     pp_object_key p = segment_object_key R t (su_cluster_id s) (su_payload_sha256 s)
     \<and> rt_sha256 R (pp_content p) = su_payload_sha256 s"
  by (auto simp: prepare_payload_def Let_def bindE_Inr_iff split: if_splits option.splits)

section \<open>Outcomes of the transactions\<close>

text \<open>What reading the generation may do to the generation table: nothing, or the row with generation 0 is added.\<close>

definition touched_generations :: "catalog \<Rightarrow> attempt_identity \<Rightarrow> AttemptGeneration list \<Rightarrow> bool" where
  "touched_generations c i gs = (gs = generations c
     \<or> (get_generation c i = None \<and> gs = generations c @ [make_generation i 0 None]))"

lemma ag_identity_make [simp]: "ag_identity (make_generation i n d) = i"
  by (simp add: ag_identity_def make_generation_def)

lemma make_generation_simps [simp]:
  "ag_generation (make_generation i n d) = n" "ag_deleted_at (make_generation i n d) = d"
  by (simp_all add: make_generation_def)

lemma current_generation_Inr:
  assumes "current_generation c t s = (Inr n, c')"
  obtains gs g where "c' = c\<lparr>generations := gs\<rparr>" "touched_generations c (seg_identity t s) gs"
    "get_generation c' (seg_identity t s) = Some g" "ag_deleted_at g = None" "ag_generation g = n"
proof (cases "get_generation c (seg_identity t s)")
  case None
  from None have "List.find (\<lambda>g. ag_identity g = seg_identity t s)
      (generations c @ [make_generation (seg_identity t s) 0 None])
      = Some (make_generation (seg_identity t s) 0 None)"
    by (simp add: get_generation_def find_append_None)
  with None assms that show ?thesis
    by (auto simp: current_generation_def touched_generations_def get_generation_def)
next
  case (Some g)
  with assms that [of "generations c" g] show ?thesis
    by (auto simp: current_generation_def touched_generations_def split: if_splits)
qed

lemma current_generation_Inl:
  "current_generation c t s = (Inl e, c') \<Longrightarrow> c' = c \<and> adm_code e = ''attempt_deleted''
     \<and> (\<exists>g. get_generation c (seg_identity t s) = Some g \<and> ag_deleted_at g \<noteq> None)"
  by (auto simp: current_generation_def split: option.splits if_splits)

lemma current_generation_known:
  "get_generation c (seg_identity t s) = Some g \<Longrightarrow> ag_deleted_at g = None
     \<Longrightarrow> current_generation c t s = (Inr (ag_generation g), c)"
  by (simp add: current_generation_def)

lemma insert_reservation_Inr:
  assumes "insert_reservation prin s key n inp c = (Inr out, c')"
  shows "out = Reservation (ai_reservation_id inp)"
    "c' = c\<lparr>reservations := reservations c @ [new_reservation prin s key n inp]\<rparr>"
    "\<forall>r \<in> set (reservations c). \<not> res_clash (new_reservation prin s key n inp) r"
  using assms
  by (auto simp: insert_reservation_def add_reservation_def add_row_Inr_iff split: sum.splits)

lemma admit_reserve_Inr:
  assumes "admit_reserve prin s key inp c = (Inr out, c')"
  obtains
    (replay) gs m where "touched_generations c (seg_identity (mp_tenant_id prin) s) gs"
      "c' = c\<lparr>generations := gs\<rparr>"
      "List.find (exact_filter (mp_tenant_id prin) s) (manifests c) = Some m"
      "mf_payload_sha256 m = su_payload_sha256 s" "out = Replay (receipt m True)"
  | (reuse) gs r where "touched_generations c (seg_identity (mp_tenant_id prin) s) gs"
      "c' = c\<lparr>generations := gs\<rparr>" "r \<in> set (reservations c)" "res_exact (mp_tenant_id prin) s r"
      "res_state r = Reserved" "res_payload_sha256 r = su_payload_sha256 s"
      "out = Reservation (res_reservation_id r)"
      "\<forall>m \<in> set (manifests c). \<not> overlap_filter (mp_tenant_id prin) s m"
  | (fresh) gs P where "touched_generations c (seg_identity (mp_tenant_id prin) s) gs"
      "c' = c\<lparr>generations := gs, reservations := delete_where P (reservations c)
              @ [new_reservation prin s key (su_deletion_generation s) inp]\<rparr>"
      "\<forall>r \<in> set (delete_where P (reservations c)).
         \<not> res_clash (new_reservation prin s key (su_deletion_generation s) inp) r"
      "out = Reservation (ai_reservation_id inp)"
      "\<forall>m \<in> set (manifests c). \<not> overlap_filter (mp_tenant_id prin) s m"
proof -
  let ?t = "mp_tenant_id prin"
  obtain n c1 where cg: "current_generation c ?t s = (Inr n, c1)"
    using assms by (auto simp: admit_reserve_def split: prod.splits sum.splits)
  then obtain gs where gs: "c1 = c\<lparr>generations := gs\<rparr>" "touched_generations c (seg_identity ?t s) gs"
    by (rule current_generation_Inr)
  from assms cg have n: "n = su_deletion_generation s" by (auto simp: admit_reserve_def split: if_splits)
  show ?thesis
  proof (cases "List.find (exact_filter ?t s) (manifests c)")
    case (Some m)
    with assms cg gs show ?thesis by (intro replay) (auto simp: admit_reserve_def split: if_splits)
  next
    case None
    with assms cg gs n have free: "\<forall>m \<in> set (manifests c). \<not> overlap_filter ?t s m"
      and rr: "reserve_range prin s key n inp c1 = (Inr out, c')"
      by (auto simp: admit_reserve_def list_ex_iff split: if_splits)
    show ?thesis
    proof (cases "List.find (res_exact ?t s) (reservations c)")
      case None
      with rr gs have "insert_reservation prin s key n inp c1 = (Inr out, c')"
        by (simp add: reserve_range_def)
      from insert_reservation_Inr [OF this] gs n free show ?thesis
        by (intro fresh [of gs "\<lambda>_. False"]) (auto simp: delete_where_def)
    next
      case (Some r)
      show ?thesis
      proof (cases "res_state r = Reserved")
        case True
        with rr Some gs free show ?thesis
          by (intro reuse [of gs r]) (auto simp: reserve_range_def dest: find_Some_iff split: if_splits)
      next
        case False
        let ?P = "\<lambda>x. res_reservation_id x = res_reservation_id r"
        from False rr Some gs have "insert_reservation prin s key n inp
            (c1\<lparr>reservations := delete_where ?P (reservations c)\<rparr>) = (Inr out, c')"
          by (auto simp: reserve_range_def split: if_splits)
        from insert_reservation_Inr [OF this] gs n free show ?thesis
          by (intro fresh [of gs ?P]) auto
      qed
    qed
  qed
qed

lemma commit_manifest_Inr:
  assumes "commit_manifest sv prin s key n r inp c = (Inr out, c')"
  obtains rs where
    "out = receipt (new_manifest prin s key n r inp) False"
    "\<forall>m \<in> set (manifests c). \<not> mf_clash (new_manifest prin s key n r inp) m"
    "record_admission sv c (mp_tenant_id prin) s (ai_committed_at inp) = Inr rs"
    "\<forall>x \<in> set (outbox c). ob_outbox_id (admitted_event prin s inp) \<noteq> ob_outbox_id x"
    "c' = set_reservation_state (res_reservation_id r) Committed
       (c\<lparr>manifests := manifests c @ [new_manifest prin s key n r inp], attempt_records := rs,
          outbox := outbox c @ [admitted_event prin s inp]\<rparr>)"
  using assms
  by (auto simp: commit_manifest_def Let_def add_manifest_def add_outbox_def add_row_Inr_iff
      split: sum.splits)

lemma admit_commit_Inr:
  assumes "admit_commit R sv prin s key rid inp st c = (Inr out, c')"
  obtains
    (again) gs m where "touched_generations c (seg_identity (mp_tenant_id prin) s) gs"
      "c' = set_reservation_state rid Committed (c\<lparr>generations := gs\<rparr>)"
      "m \<in> set (manifests c)" "exact_filter (mp_tenant_id prin) s m"
      "mf_payload_sha256 m = su_payload_sha256 s" "out = receipt m True"
      "intact (rt_sha256 R) st key (su_payload_sha256 s)"
  | (commit) gs r g where "touched_generations c (seg_identity (mp_tenant_id prin) s) gs"
      "r \<in> set (reservations c)" "res_reservation_id r = rid" "res_state r = Reserved"
      "get_generation (c\<lparr>generations := gs\<rparr>) (seg_identity (mp_tenant_id prin) s) = Some g"
      "ag_deleted_at g = None" "ag_generation g = su_deletion_generation s"
      "res_deletion_generation r = su_deletion_generation s"
      "intact (rt_sha256 R) st key (su_payload_sha256 s)"
      "\<forall>m \<in> set (manifests c). \<not> overlap_filter (mp_tenant_id prin) s m"
      "commit_manifest sv prin s key (su_deletion_generation s) r inp (c\<lparr>generations := gs\<rparr>) = (Inr out, c')"
proof -
  let ?t = "mp_tenant_id prin"
  obtain n c1 where cg: "current_generation c ?t s = (Inr n, c1)"
    using assms by (auto simp: admit_commit_def split: prod.splits sum.splits)
  then obtain gs g where gs: "c1 = c\<lparr>generations := gs\<rparr>" "touched_generations c (seg_identity ?t s) gs"
    and g: "get_generation c1 (seg_identity ?t s) = Some g" "ag_deleted_at g = None" "ag_generation g = n"
    by (rule current_generation_Inr)
  from assms cg gs obtain r where f: "List.find (\<lambda>r. res_reservation_id r = rid) (reservations c) = Some r"
    by (auto simp: admit_commit_def split: option.splits)
  from find_Some_iff [OF f] have r: "r \<in> set (reservations c)" "res_reservation_id r = rid" by auto
  from assms cg gs f have ok: "res_state r = Reserved" "n = res_deletion_generation r"
    "n = su_deletion_generation s" "exists_verified (rt_sha256 R) st key (su_payload_sha256 s) = Inr True"
    by (auto simp: admit_commit_def split: if_splits sum.splits bool.splits)
  show ?thesis
  proof (cases "List.find (overlap_filter ?t s) (manifests c)")
    case (Some m)
    with find_Some_iff [OF this] assms cg gs f r ok show ?thesis
      by (intro again [of gs m])
         (auto simp: admit_commit_def exact_filter_def overlap_filter_def exists_verified_iff split: if_splits)
  next
    case None
    with assms cg gs f r ok g show ?thesis
      by (intro commit [of gs r g])
         (auto simp: admit_commit_def find_None_all exists_verified_iff)
  qed
qed

section \<open>Sequence ranges of a stream\<close>

definition ranges_disjoint :: "SegmentManifest \<Rightarrow> SegmentManifest \<Rightarrow> bool" where
  "ranges_disjoint a b = (mf_last_sequence a < mf_first_sequence b \<or> mf_last_sequence b < mf_first_sequence a)"

definition streams_ok :: "SegmentManifest list \<Rightarrow> bool" where
  "streams_ok ms = (distinct (map mf_receipt_id ms)
     \<and> (\<forall>m \<in> set ms. mf_first_sequence m \<le> mf_last_sequence m)
     \<and> (\<forall>a \<in> set ms. \<forall>b \<in> set ms. a \<noteq> b \<and> mf_stream a = mf_stream b \<longrightarrow> ranges_disjoint a b))"

lemma streams_ok_delete: "streams_ok ms \<Longrightarrow> streams_ok (delete_where P ms)"
  by (auto simp: streams_ok_def set_delete_where distinct_map_delete_where)

lemma mf_stream_new [simp]: "mf_stream (new_manifest prin s key n r inp) = seg_stream (mp_tenant_id prin) s"
  by (simp add: mf_stream_def seg_stream_def new_manifest_def)

lemma mf_identity_new [simp]: "mf_identity (new_manifest prin s key n r inp) = seg_identity (mp_tenant_id prin) s"
  by (simp add: mf_identity_def seg_identity_def new_manifest_def)

lemma streams_ok_append:
  assumes "streams_ok ms" "su_first_sequence s \<le> su_last_sequence s"
    "\<forall>m \<in> set ms. \<not> overlap_filter (mp_tenant_id prin) s m"
    "\<forall>m \<in> set ms. \<not> mf_clash (new_manifest prin s key n r inp) m"
  shows "streams_ok (ms @ [new_manifest prin s key n r inp])"
proof -
  let ?m = "new_manifest prin s key n r inp"
  have new: "mf_first_sequence ?m = su_first_sequence s" "mf_last_sequence ?m = su_last_sequence s"
    by (simp_all add: new_manifest_def)
  have sep: "ranges_disjoint a ?m \<and> ranges_disjoint ?m a"
    if "a \<in> set ms" "mf_stream a = mf_stream ?m" for a
    using that assms(3) new by (auto simp: ranges_disjoint_def overlap_filter_def range_filter_def)
  have "mf_receipt_id ?m \<notin> mf_receipt_id ` set ms" using assms(4) by (auto simp: mf_clash_def)
  with assms(1) have d: "distinct (map mf_receipt_id (ms @ [?m]))" by (simp add: streams_ok_def)
  have range: "\<forall>m \<in> set (ms @ [?m]). mf_first_sequence m \<le> mf_last_sequence m"
    using assms(1,2) by (auto simp: streams_ok_def new)
  show ?thesis unfolding streams_ok_def
  proof (intro conjI ballI impI)
    fix a b assume ab: "a \<in> set (ms @ [?m])" "b \<in> set (ms @ [?m])" "a \<noteq> b \<and> mf_stream a = mf_stream b"
    show "ranges_disjoint a b"
    proof (cases "a = ?m")
      case True
      with ab sep [of b] show ?thesis by auto
    next
      case a: False
      show ?thesis
      proof (cases "b = ?m")
        case True
        with a ab sep [of a] show ?thesis by auto
      next
        case False
        with a ab have "a \<in> set ms" "b \<in> set ms" by auto
        with ab assms(1) show ?thesis by (simp add: streams_ok_def)
      qed
    qed
  qed (use d range in auto)
qed

section \<open>Attempt totals\<close>

definition attempt_totals_ok :: "catalog \<Rightarrow> bool" where
  "attempt_totals_ok c = (distinct (map ar_identity (attempt_records c))
     \<and> (\<forall>m \<in> set (manifests c). \<exists>r \<in> set (attempt_records c). ar_identity r = mf_identity m)
     \<and> (\<forall>r \<in> set (attempt_records c).
          ar_segment_count r = count_where (\<lambda>m. mf_identity m = ar_identity r) (manifests c)
        \<and> ar_record_count r =
            sum_list (map mf_record_count (filter (\<lambda>m. mf_identity m = ar_identity r) (manifests c)))))"

lemma update_attempt_record_Inr:
  "update_attempt_record r s at = Inr r' \<Longrightarrow> ar_identity r' = ar_identity r
     \<and> ar_segment_count r' = ar_segment_count r + 1
     \<and> ar_record_count r' = ar_record_count r + su_record_count s
     \<and> ar_first_admitted_at r' = ar_first_admitted_at r
     \<and> ar_retention_expires_at r' = ar_retention_expires_at r
     \<and> ar_retention_policy_version r' = ar_retention_policy_version r
     \<and> ar_last_admitted_at r' = at"
  by (auto simp: update_attempt_record_def bindE_Inr_iff ar_identity_def)

lemma ar_identity_new [simp]: "ar_identity (new_attempt_record sv c t s at) = seg_identity t s"
  by (simp add: ar_identity_def seg_identity_def new_attempt_record_def Let_def)

lemma record_admission_Inr:
  assumes "record_admission sv c t s at = Inr rs"
  obtains (first) "get_attempt_record c (seg_identity t s) = None"
      "rs = attempt_records c @ [new_attempt_record sv c t s at]"
  | (later) r r' where "get_attempt_record c (seg_identity t s) = Some r"
      "update_attempt_record r s at = Inr r'"
      "rs = upd_where (\<lambda>x. ar_identity x = seg_identity t s) (\<lambda>_. r') (attempt_records c)"
proof (cases "get_attempt_record c (seg_identity t s)")
  case None
  with assms show ?thesis
    by (intro first) (auto simp: record_admission_def add_attempt_record_def add_row_Inr_iff)
next
  case (Some r)
  then have "ar_identity r = seg_identity t s" by (auto simp: get_attempt_record_def dest: find_Some_iff)
  with Some assms later [of r] show ?thesis
    by (auto simp: record_admission_def bindE_Inr_iff split: if_splits)
qed

lemma attempt_totals_commit:
  assumes ok: "attempt_totals_ok c"
    and ra: "record_admission sv c (mp_tenant_id prin) s at = Inr rs"
    and c': "manifests c' = manifests c @ [new_manifest prin s key n res inp]" "attempt_records c' = rs"
  shows "attempt_totals_ok c'"
proof -
  let ?t = "mp_tenant_id prin"
  let ?i = "seg_identity ?t s"
  let ?m = "new_manifest prin s key n res inp"
  have rc: "mf_record_count ?m = su_record_count s" by (simp add: new_manifest_def)
  from ra show ?thesis
  proof (cases rule: record_admission_Inr)
    case first
    then have no: "\<forall>r \<in> set (attempt_records c). ar_identity r \<noteq> ?i"
      by (simp add: get_attempt_record_def find_None_all)
    with ok have none: "\<forall>m \<in> set (manifests c). mf_identity m \<noteq> ?i"
      by (metis attempt_totals_ok_def)
    then have empty: "filter (\<lambda>m. mf_identity m = ?i) (manifests c) = []" by (simp add: filter_empty_conv)
    have "ar_segment_count (new_attempt_record sv c ?t s at) = 1"
      "ar_record_count (new_attempt_record sv c ?t s at) = su_record_count s"
      by (simp_all add: new_attempt_record_def Let_def)
    with ok no empty show ?thesis
      by (auto simp: attempt_totals_ok_def c' first(2) count_where_def rc)
  next
    case (later r r')
    from find_Some_iff [of "\<lambda>r. ar_identity r = ?i" "attempt_records c" r] later(1)
    have r: "r \<in> set (attempt_records c)" "ar_identity r = ?i" by (auto simp: get_attempt_record_def)
    note r' = update_attempt_record_Inr [OF later(2)]
    have ids: "map ar_identity rs = map ar_identity (attempt_records c)"
      unfolding later(3) by (rule map_upd_where) (simp add: r' r(2))
    have cover: "\<forall>m \<in> set (manifests c'). \<exists>x \<in> set rs. ar_identity x = mf_identity m"
    proof
      fix m assume "m \<in> set (manifests c')"
      then have "mf_identity m \<in> ar_identity ` set (attempt_records c)"
        using ok r by (auto simp: c' attempt_totals_ok_def image_iff) metis+
      also have "\<dots> = ar_identity ` set rs" using ids by (metis set_map)
      finally show "\<exists>x \<in> set rs. ar_identity x = mf_identity m" by auto
    qed
    have tot: "ar_segment_count x = count_where (\<lambda>m. mf_identity m = ar_identity x) (manifests c')
        \<and> ar_record_count x = sum_list (map mf_record_count
            (filter (\<lambda>m. mf_identity m = ar_identity x) (manifests c')))" if "x \<in> set rs" for x
      using that unfolding later(3)
    proof (cases rule: upd_where_member)
      case (1 r0)
      then have "x = r'" by simp
      with ok r r' show ?thesis by (auto simp: attempt_totals_ok_def c' count_where_def rc)
    next
      case 2
      with ok show ?thesis by (auto simp: attempt_totals_ok_def c' count_where_def)
    qed
    from ids ok cover tot show ?thesis
      by (simp add: attempt_totals_ok_def c'(2) del: count_where_nonneg)
  qed
qed

section \<open>Outcomes of admit\<close>

lemma set_reservation_state_simps [simp]:
  "manifests (set_reservation_state rid st c) = manifests c"
  "generations (set_reservation_state rid st c) = generations c"
  "attempt_records (set_reservation_state rid st c) = attempt_records c"
  "outbox (set_reservation_state rid st c) = outbox c"
  "get_generation (set_reservation_state rid st c) i = get_generation c i"
  by (simp_all add: set_reservation_state_def get_generation_def)

lemma admit_Inr:
  assumes "admit R sv prin s inp w = (Inr out, w')"
  obtains
    (replay) p c1 where "prepare_payload R sv (mp_tenant_id prin) s = Inr p"
      "su_cluster_id s \<in> set (mp_clusters prin)" "w' = w\<lparr>cat := c1\<rparr>"
      "admit_reserve prin s (pp_object_key p) inp (cat w) = (Inr (Replay out), c1)"
  | (stored) p rid c1 st c2 where "prepare_payload R sv (mp_tenant_id prin) s = Inr p"
      "su_cluster_id s \<in> set (mp_clusters prin)" "w' = \<lparr>cat = c2, objs = st\<rparr>"
      "admit_reserve prin s (pp_object_key p) inp (cat w) = (Inr (Reservation rid), c1)"
      "put_verified (rt_sha256 R) (ai_tmp inp) (objs w) (pp_object_key p) (pp_content p)
         (su_payload_sha256 s) = (Inr (), st)"
      "admit_commit R sv prin s (pp_object_key p) rid inp st c1 = (Inr out, c2)"
proof -
  from assms have scope: "su_cluster_id s \<in> set (mp_clusters prin)"
    by (auto simp: admit_def assert_scope_def split: if_splits)
  then have sc: "assert_scope prin s = Inr ()" by (simp add: assert_scope_def)
  from assms sc obtain p where p: "prepare_payload R sv (mp_tenant_id prin) s = Inr p"
    by (auto simp: admit_def split: sum.splits)
  from assms sc p obtain o1 c1 where
    ar: "admit_reserve prin s (pp_object_key p) inp (cat w) = (Inr o1, c1)"
    by (auto simp: admit_def begin_txn_def split: prod.splits sum.splits)
  show ?thesis
  proof (cases o1)
    case (Replay r)
    with assms sc p ar replay [OF p scope] show ?thesis by (auto simp: admit_def begin_txn_Inr)
  next
    case (Reservation rid)
    with assms sc p ar obtain st where
      put: "put_verified (rt_sha256 R) (ai_tmp inp) (objs w) (pp_object_key p) (pp_content p)
         (su_payload_sha256 s) = (Inr (), st)"
      by (auto simp: admit_def begin_txn_Inr put_object_def split: prod.splits sum.splits py_error.splits)
    with assms sc p ar Reservation stored [OF p scope] show ?thesis
      by (auto simp: admit_def begin_txn_Inr put_object_def begin_txn_commit split: prod.splits)
  qed
qed

lemma find_exact_overlap:
  assumes "su_first_sequence s \<le> su_last_sequence s" "exact_filter t s m"
  shows "overlap_filter t s m"
  using assms by (simp add: exact_filter_def overlap_filter_def)

lemma exact_filter_new [simp]: "exact_filter (mp_tenant_id prin) s (new_manifest prin s key n r inp)"
  by (simp add: exact_filter_def range_filter_def) (simp add: new_manifest_def)

lemma get_generation_cong: "generations c' = generations c \<Longrightarrow> get_generation c' i = get_generation c i"
  by (simp add: get_generation_def)

lemma admit_reserve_generation:
  assumes "admit_reserve prin s key inp c = (Inr out, c')"
  obtains g where "get_generation c' (seg_identity (mp_tenant_id prin) s) = Some g"
    "ag_deleted_at g = None" "ag_generation g = su_deletion_generation s"
proof -
  from assms obtain n c1 where cg: "current_generation c (mp_tenant_id prin) s = (Inr n, c1)"
    and n: "n = su_deletion_generation s"
    by (auto simp: admit_reserve_def split: prod.splits sum.splits if_splits)
  from cg obtain g where g: "get_generation c1 (seg_identity (mp_tenant_id prin) s) = Some g"
    "ag_deleted_at g = None" "ag_generation g = n" by (rule current_generation_Inr)
  from assms cg n have "generations c' = generations c1"
    by (auto simp: admit_reserve_def reserve_range_def insert_reservation_def
        split: option.splits if_splits sum.splits)
  with g n that show ?thesis by (metis get_generation_cong)
qed

text \<open>A world in which a segment has its manifest: every further \<open>admit\<close> of it is a replay.\<close>

lemma admit_replays:
  assumes "prepare_payload R sv (mp_tenant_id prin) s = Inr p" "su_cluster_id s \<in> set (mp_clusters prin)"
    "get_generation (cat w) (seg_identity (mp_tenant_id prin) s) = Some g" "ag_deleted_at g = None"
    "ag_generation g = su_deletion_generation s"
    "List.find (exact_filter (mp_tenant_id prin) s) (manifests (cat w)) = Some m"
    "mf_payload_sha256 m = su_payload_sha256 s"
  shows "admit R sv prin s inp w = (Inr (receipt m True), w)"
proof -
  have "admit_reserve prin s (pp_object_key p) inp (cat w) = (Inr (Replay (receipt m True)), cat w)"
    using assms(3-7) by (simp add: admit_reserve_def current_generation_known)
  with assms(1,2) show ?thesis by (simp add: admit_def assert_scope_def begin_txn_Inr)
qed

text \<open>The manifest a successful \<open>admit\<close> stands for.\<close>

lemma admit_manifest:
  assumes a: "admit R sv prin s inp w = (Inr out, w')" and le: "su_first_sequence s \<le> su_last_sequence s"
  obtains m g p where "List.find (exact_filter (mp_tenant_id prin) s) (manifests (cat w')) = Some m"
    "mf_payload_sha256 m = su_payload_sha256 s" "out = receipt m (dr_replayed out)"
    "get_generation (cat w') (seg_identity (mp_tenant_id prin) s) = Some g" "ag_deleted_at g = None"
    "ag_generation g = su_deletion_generation s"
    "prepare_payload R sv (mp_tenant_id prin) s = Inr p" "su_cluster_id s \<in> set (mp_clusters prin)"
    "\<not> dr_replayed out \<longrightarrow> mf_object_key m = pp_object_key p
       \<and> intact (rt_sha256 R) (objs w') (mf_object_key m) (mf_payload_sha256 m)"
  using a
proof (cases rule: admit_Inr)
  case (replay p c1)
  from replay(4) obtain g where "get_generation c1 (seg_identity (mp_tenant_id prin) s) = Some g"
    "ag_deleted_at g = None" "ag_generation g = su_deletion_generation s" by (rule admit_reserve_generation)
  moreover from replay(4) obtain m gs where
    "List.find (exact_filter (mp_tenant_id prin) s) (manifests c1) = Some m"
    "mf_payload_sha256 m = su_payload_sha256 s" "out = receipt m True"
    by (cases rule: admit_reserve_Inr) auto
  ultimately show ?thesis using replay that by (auto simp: receipt_def)
next
  case (stored p rid c1 st c2)
  let ?t = "mp_tenant_id prin"
  from stored(4) have free: "\<forall>m \<in> set (manifests c1). \<not> overlap_filter ?t s m"
    by (cases rule: admit_reserve_Inr) auto
  from stored(6) show ?thesis
  proof (cases rule: admit_commit_Inr)
    case (again gs m)
    with free le show ?thesis using find_exact_overlap by blast
  next
    case (commit gs r g)
    from commit(11) obtain rs where out: "out = receipt (new_manifest prin s (pp_object_key p)
        (su_deletion_generation s) r inp) False"
      and c2: "c2 = set_reservation_state (res_reservation_id r) Committed
       (c1\<lparr>generations := gs, manifests := manifests c1 @ [new_manifest prin s (pp_object_key p)
         (su_deletion_generation s) r inp], attempt_records := rs,
          outbox := outbox c1 @ [admitted_event prin s inp]\<rparr>)"
      by (rule commit_manifest_Inr) auto
    let ?m = "new_manifest prin s (pp_object_key p) (su_deletion_generation s) r inp"
    from free le have "List.find (exact_filter ?t s) (manifests c1) = None"
      by (auto simp: find_None_all dest: find_exact_overlap [of s ?t])
    then have "List.find (exact_filter ?t s) (manifests c2) = Some ?m"
      by (simp add: c2 find_append_None)
    moreover have "get_generation c2 (seg_identity ?t s) = Some g"
      using commit(5) by (simp add: c2 get_generation_def)
    moreover have "mf_payload_sha256 ?m = su_payload_sha256 s" "mf_object_key ?m = pp_object_key p"
      by (simp_all add: new_manifest_def)
    ultimately show ?thesis using stored commit out that by (auto simp: receipt_def)
  qed
qed

section \<open>A concrete deployment\<close>

text \<open>A small site used to exhibit the hypotheses of the properties on actual values.\<close>

definition demo_runtime :: runtime where
  "demo_runtime = \<lparr>
     rt_sha256 = (\<lambda>b. replicate 63 (CHR ''0'') @ [hex_digit (length b mod 16)]),
     rt_hmac_sha256 = (\<lambda>k b. replicate 63 (CHR ''1'') @ [hex_digit (length b mod 16)]),
     rt_b64decode = (\<lambda>s. if s = ''e30='' then Some ''{}'' else None),
     rt_json_loads = (\<lambda>b. if b = ''{}'' then Some (JObj []) else None)\<rparr>"

definition demo_digest :: string where
  "demo_digest = rt_sha256 demo_runtime ''{}''"

definition demo_service :: IngestionService where
  "demo_service = \<lparr>ig_max_expanded = 8388608, ig_default_retention_seconds = 86400\<rparr>"

definition demo_principal :: MachinePrincipal where
  "demo_principal = \<lparr>mp_tenant_id = ''site'', mp_clusters = [''alpha''], mp_credential_id = ''agent-1'',
     mp_permissions = [''ingest:write'']\<rparr>"

definition demo_segment :: SegmentUpload where
  "demo_segment = \<lparr>su_envelope_major = 2, su_cluster_id = ''alpha'', su_attempt_id = ''run-7'',
     su_workflow_execution_id = None, su_logical_case_id = Some ''case-a'',
     su_scheduler_source_identity = None, su_producer_id = ''p0'', su_transport_epoch = ''e0'',
     su_stream_id = ''s0'', su_first_sequence = 0, su_last_sequence = 9, su_record_count = 1,
     su_deletion_generation = 0, su_compression = ''identity'', su_content_type = ''application/x-ndjson'',
     su_expanded_size_bytes = 2, su_payload_sha256 = demo_digest, su_payload_base64 = ''e30=''\<rparr>"

definition demo_inputs :: admission_inputs where
  "demo_inputs = \<lparr>ai_reservation_id = ''r1'', ai_reserved_at = 10, ai_tmp = ''.t1'',
     ai_receipt_id = ''c1'', ai_outbox_id = ''o1'', ai_committed_at = 20\<rparr>"

definition demo_world :: world where
  "demo_world = \<lparr>cat = empty_catalog, objs = \<lparr>ls_root = [''objects''], ls_files = (\<lambda>_. None)\<rparr>\<rparr>"

lemma demo_segment_ok: "segment_ok demo_segment"
  by code_simp

definition demo_receipt :: DurableReceipt where
  "demo_receipt = \<lparr>dr_receipt_id = ''c1'', dr_status = ''DURABLE'', dr_replayed = False,
     dr_object_key = segment_object_key demo_runtime ''site'' ''alpha'' demo_digest,
     dr_payload_sha256 = demo_digest, dr_committed_at = 20\<rparr>"

definition demo_admitted :: world where
  "demo_admitted = snd (admit demo_runtime demo_service demo_principal demo_segment demo_inputs demo_world)"

lemma demo_admit_ok: "fst (admit demo_runtime demo_service demo_principal demo_segment demo_inputs demo_world)
    = Inr demo_receipt"
  by code_simp

lemma demo_admit: "admit demo_runtime demo_service demo_principal demo_segment demo_inputs demo_world
    = (Inr demo_receipt, demo_admitted)"
  by (simp add: prod_eq_iff demo_admit_ok demo_admitted_def)

section \<open>Properties of admission\<close>

text \<open>A payload is accepted exactly when the declared size is within policy and is the
  size of the decoded bytes, the declared digest is their digest, every nonblank line decodes
  to a JSON object and there are \<open>record_count\<close> of them; the object key is then the
  content-addressed key of that digest.\<close>

theorem prepare_payload_accepts:
  "prepare_payload R sv t s = Inr p \<longleftrightarrow>
     su_expanded_size_bytes s \<le> ig_max_expanded sv
     \<and> rt_b64decode R (su_payload_base64 s) = Some (pp_content p)
     \<and> int (length (pp_content p)) = su_expanded_size_bytes s
     \<and> rt_sha256 R (pp_content p) = su_payload_sha256 s
     \<and> list_all (is_record R) (nonblank (splitlines (pp_content p)))
     \<and> int (length (nonblank (splitlines (pp_content p)))) = su_record_count s
     \<and> pp_object_key p = segment_object_key R t (su_cluster_id s) (su_payload_sha256 s)"
  by (cases p) (auto simp: prepare_payload_def Let_def bindE_Inr_iff count_records_Inr
      split: option.splits)

text \<open>C10. A receipt is durable: when \<open>admit\<close> returns a receipt, the catalogue holds the
  manifest of exactly that stream, range and digest, the receipt names it, and, unless the
  receipt is a replay, the object it names is stored intact.\<close>

theorem admit_durable:
  assumes "admit R sv prin s inp w = (Inr out, w')" "segment_ok s"
  shows "\<exists>m \<in> set (manifests (cat w')).
     exact_filter (mp_tenant_id prin) s m \<and> mf_payload_sha256 m = su_payload_sha256 s
     \<and> out = receipt m (dr_replayed out)
     \<and> (dr_replayed out \<or> intact (rt_sha256 R) (objs w') (mf_object_key m) (mf_payload_sha256 m))"
proof -
  from assms(2) have "su_first_sequence s \<le> su_last_sequence s" by (simp add: segment_ok_def)
  with assms(1) show ?thesis by (rule admit_manifest) (auto dest: find_Some_iff)
qed

theorem admit_durable_witness:
  "\<exists>m \<in> set (manifests (cat demo_admitted)). demo_receipt = receipt m False
     \<and> intact (rt_sha256 demo_runtime) (objs demo_admitted) (mf_object_key m) (mf_payload_sha256 m)"
  using admit_durable [OF demo_admit demo_segment_ok] by (auto simp: demo_receipt_def)

text \<open>C11. Admission is idempotent: repeating a successful \<open>admit\<close>, with whatever fresh
  identifiers and clock readings, returns the same receipt marked as replayed and changes
  neither the catalogue nor the object store.\<close>

theorem admit_idempotent:
  assumes "admit R sv prin s inp w = (Inr out, w')" "segment_ok s"
  shows "admit R sv prin s inp' w' = (Inr (out\<lparr>dr_replayed := True\<rparr>), w')"
proof -
  from assms(2) have "su_first_sequence s \<le> su_last_sequence s" by (simp add: segment_ok_def)
  with assms(1) obtain m g p where m: "List.find (exact_filter (mp_tenant_id prin) s) (manifests (cat w')) = Some m"
    "mf_payload_sha256 m = su_payload_sha256 s" "out = receipt m (dr_replayed out)"
    and g: "get_generation (cat w') (seg_identity (mp_tenant_id prin) s) = Some g" "ag_deleted_at g = None"
    "ag_generation g = su_deletion_generation s"
    and p: "prepare_payload R sv (mp_tenant_id prin) s = Inr p" "su_cluster_id s \<in> set (mp_clusters prin)"
    by (rule admit_manifest)
  from m(3) have "out\<lparr>dr_replayed := True\<rparr> = receipt m True"
    by (cases out) (simp add: receipt_def)
  with admit_replays [OF p g m(1,2)] show ?thesis by simp
qed

theorem admit_idempotent_witness:
  "admit demo_runtime demo_service demo_principal demo_segment
     (demo_inputs\<lparr>ai_receipt_id := ''c2'', ai_committed_at := 99\<rparr>) demo_admitted
   = (Inr (demo_receipt\<lparr>dr_replayed := True\<rparr>), demo_admitted)"
  by (rule admit_idempotent [OF demo_admit demo_segment_ok])

text \<open>A rejected segment leaves no trace a reader could see: when \<open>admit\<close> raises, every
  table is unchanged except for generation rows and reservations, and every object stored
  before is still stored with the same content.\<close>

theorem admit_error_frame:
  assumes "admit R sv prin s inp w = (Inl e, w')"
    "tmp_fresh (ai_tmp inp) (objs w) (segment_object_key R (mp_tenant_id prin) (su_cluster_id s) (su_payload_sha256 s))"
  shows "(\<exists>gs rs. cat w' = (cat w)\<lparr>generations := gs, reservations := rs\<rparr>)
     \<and> (\<forall>k d. intact (rt_sha256 R) (objs w) k d \<longrightarrow> intact (rt_sha256 R) (objs w') k d)"
proof -
  let ?t = "mp_tenant_id prin"
  have same: "\<exists>gs rs. c = c\<lparr>generations := gs, reservations := rs\<rparr>" for c :: catalog
    by (intro exI [of _ "generations c"] exI [of _ "reservations c"]) simp
  show ?thesis
  proof (cases "\<exists>p. assert_scope prin s = Inr () \<and> prepare_payload R sv ?t s = Inr p")
    case False
    with assms(1) same [of "cat w"] show ?thesis
      by (auto simp: admit_def assert_scope_def split: sum.splits if_splits)
  next
    case True
    then obtain p where sc: "assert_scope prin s = Inr ()" and p: "prepare_payload R sv ?t s = Inr p" by blast
    show ?thesis
    proof (cases "begin_txn (admit_reserve prin s (pp_object_key p) inp) (cat w)")
      case (Pair r c1)
      show ?thesis
      proof (cases r)
        case (Inl e1)
        with Pair have "c1 = cat w" by (auto dest: begin_txn_rollback)
        with assms(1) sc p Pair Inl same [of "cat w"] show ?thesis by (auto simp: admit_def)
      next
        case (Inr o1)
        with Pair have ar: "admit_reserve prin s (pp_object_key p) inp (cat w) = (Inr o1, c1)"
          by (simp add: begin_txn_commit)
        then have c1: "\<exists>gs rs. c1 = (cat w)\<lparr>generations := gs, reservations := rs\<rparr>"
        proof (cases rule: admit_reserve_Inr)
          case (replay gs m)
          then show ?thesis by (intro exI [of _ gs] exI [of _ "reservations (cat w)"]) simp
        next
          case (reuse gs r)
          then show ?thesis by (intro exI [of _ gs] exI [of _ "reservations (cat w)"]) simp
        qed auto
        from assms(1) sc p Pair Inr obtain rid where o1: "o1 = Reservation rid"
          by (cases o1) (auto simp: admit_def)
        obtain q st where put: "put_object R (ai_tmp inp) p s (objs w) = (q, st)" by fastforce
        then obtain q' where "put_verified (rt_sha256 R) (ai_tmp inp) (objs w) (pp_object_key p)
            (pp_content p) (su_payload_sha256 s) = (q', st)"
          by (auto simp: put_object_def split: prod.splits sum.splits py_error.splits)
        then have keep: "\<forall>k d. intact (rt_sha256 R) (objs w) k d \<longrightarrow> intact (rt_sha256 R) st k d"
          using put_keeps_intact assms(2) prepare_payload_key [OF p] by metis
        from assms(1) sc p Pair Inr o1 put have "objs w' = st \<and> cat w' = c1"
          by (auto simp: admit_def dest: begin_txn_rollback split: sum.splits prod.splits)
        with c1 keep show ?thesis by simp
      qed
    qed
  qed
qed

theorem admit_error_frame_witness:
  "\<exists>e w' gs rs. admit demo_runtime demo_service demo_principal (demo_segment\<lparr>su_deletion_generation := 3\<rparr>)
      demo_inputs demo_world = (Inl e, w') \<and> cat w' = (cat demo_world)\<lparr>generations := gs, reservations := rs\<rparr>"
proof -
  let ?s = "demo_segment\<lparr>su_deletion_generation := 3\<rparr>"
  let ?w = "snd (admit demo_runtime demo_service demo_principal ?s demo_inputs demo_world)"
  have "isl (fst (admit demo_runtime demo_service demo_principal ?s demo_inputs demo_world))" by code_simp
  then obtain e where e: "admit demo_runtime demo_service demo_principal ?s demo_inputs demo_world = (Inl e, ?w)"
    by (metis isl_def prod.collapse)
  have "tmp_fresh (ai_tmp demo_inputs) (objs demo_world)
      (segment_object_key demo_runtime (mp_tenant_id demo_principal) (su_cluster_id ?s) (su_payload_sha256 ?s))"
    by (simp add: tmp_fresh_def demo_world_def split: sum.splits)
  from admit_error_frame [OF e this] e show ?thesis by blast
qed

text \<open>Deletion fences admission for good: for an attempt whose generation row is marked
  deleted, neither block of \<open>admit\<close> succeeds, whatever the segment declares and whatever
  reservation it still holds.\<close>

theorem deleted_attempt_rejected:
  assumes "get_generation c (seg_identity (mp_tenant_id prin) s) = Some g" "ag_deleted_at g = Some d"
  shows "begin_txn (admit_reserve prin s key inp) c =
       (Inl (AdmissionConflict ''attempt_deleted'' ''attempt no longer accepts telemetry'' False), c)
     \<and> begin_txn (admit_commit R sv prin s key rid inp st) c =
       (Inl (AdmissionConflict ''attempt_deleted'' ''attempt no longer accepts telemetry'' False), c)"
  using assms by (simp add: admit_reserve_def admit_commit_def current_generation_def begin_txn_def)

theorem deleted_attempt_rejected_witness:
  "fst (begin_txn (admit_reserve demo_principal demo_segment ''k'' demo_inputs)
     (empty_catalog\<lparr>generations := [make_generation (''site'', ''alpha'', ''run-7'') 1 (Some 5)]\<rparr>))
   = Inl (AdmissionConflict ''attempt_deleted'' ''attempt no longer accepts telemetry'' False)"
proof -
  let ?c = "empty_catalog\<lparr>generations := [make_generation (''site'', ''alpha'', ''run-7'') 1 (Some 5)]\<rparr>"
  have "get_generation ?c (seg_identity (mp_tenant_id demo_principal) demo_segment)
      = Some (make_generation (''site'', ''alpha'', ''run-7'') 1 (Some 5))"
    by (simp add: get_generation_def seg_identity_def demo_principal_def demo_segment_def)
  from deleted_attempt_rejected [OF this, of 5] show ?thesis by simp
qed

lemma scope_order: "(a, - v) \<le> (b, - w) \<Longrightarrow> (a \<longrightarrow> b) \<and> (a = b \<longrightarrow> w \<le> (v::int))"
  by (cases a; cases b) (auto simp: less_eq_prod_def)

text \<open>The retention policy applied to a first admission is the best one: it is in
  force at the commit time, not cancelled and matches the segment's case; a policy scoped to
  the case beats a cluster-wide one, and among equally scoped ones the latest version wins.
  The default applies only when no policy does.\<close>

theorem select_policy_best:
  "case select_policy c t s at of
     None \<Rightarrow> \<forall>q \<in> set (policies c). \<not> policy_applies c t s at q
   | Some p \<Rightarrow> p \<in> set (policies c) \<and> policy_applies c t s at p
       \<and> (\<forall>q \<in> set (policies c). policy_applies c t s at q \<longrightarrow>
            (rpr_logical_case_id p = None \<longrightarrow> rpr_logical_case_id q = None)
          \<and> ((rpr_logical_case_id p = None) = (rpr_logical_case_id q = None) \<longrightarrow> rpr_version q \<le> rpr_version p))"
proof (cases "select_policy c t s at")
  case None
  then have "\<forall>q \<in> set (policies c). \<not> policy_applies c t s at q"
    by (simp add: select_policy_def filter_empty_conv)
  with None show ?thesis by simp
next
  case (Some p)
  let ?key = "\<lambda>p. (rpr_logical_case_id p = None, - rpr_version p)"
  from Some have p: "p \<in> set (policies c)" "policy_applies c t s at p"
    by (auto simp: select_policy_def dest: first_by_filter_Some)
  have "(rpr_logical_case_id p = None \<longrightarrow> rpr_logical_case_id q = None)
      \<and> ((rpr_logical_case_id p = None) = (rpr_logical_case_id q = None) \<longrightarrow> rpr_version q \<le> rpr_version p)"
    if q: "q \<in> set (policies c)" "policy_applies c t s at q" for q
  proof -
    have "?key p \<le> ?key q"
      using first_by_Some_least [of ?key _ p q] Some q by (simp add: select_policy_def)
    then show ?thesis by (rule scope_order)
  qed
  note best = this
  show ?thesis unfolding Some option.case by (intro conjI p) (rule ballI, rule impI, rule best)
qed

definition demo_policies :: "RetentionPolicyRevision list" where
  "demo_policies = map (\<lambda>(v, k, eff). \<lparr>rpr_tenant_id = ''site'', rpr_cluster_id = ''alpha'', rpr_version = v,
       rpr_logical_case_id = k, rpr_retention_seconds = 3600 * v, rpr_created_by_credential_id = ''admin'',
       rpr_created_at = 0, rpr_effective_at = eff\<rparr>)
     [(1, Some ''case-a'', 5), (2, Some ''case-a'', 10), (3, None, 10), (4, Some ''case-a'', 99)]"

theorem select_policy_best_witness:
  "\<exists>p. select_policy (empty_catalog\<lparr>policies := demo_policies\<rparr>) ''site'' demo_segment 20 = Some p
     \<and> p \<in> set demo_policies \<and> rpr_version p = 2
     \<and> policy_applies (empty_catalog\<lparr>policies := demo_policies\<rparr>) ''site'' demo_segment 20 p"
proof -
  let ?c = "empty_catalog\<lparr>policies := demo_policies\<rparr>"
  have "map_option rpr_version (select_policy ?c ''site'' demo_segment 20) = Some 2" by code_simp
  then obtain p where p: "select_policy ?c ''site'' demo_segment 20 = Some p" "rpr_version p = 2" by auto
  from select_policy_best [of ?c "''site''" demo_segment 20, unfolded p(1) option.case] p show ?thesis by simp
qed

end
