(* ===== verification/Retention.thy ===== *)
theory Retention
  imports Admission
begin

text \<open>
  Retention policies, the middle part of \<^verbatim>\<open>ingestion.py\<close>: versioned policy revisions, their
  cancellation before they take effect, and the two-step backfill that moves existing
  attempts to a policy under a digest of the previewed candidates.
\<close>

section \<open>Deadlines\<close>

text \<open>\<open>_retention_deadline_is_due\<close> reconciles a naive column with an aware clock, and conversely.\<close>

definition retention_deadline_is_due_dt :: "datetime \<Rightarrow> datetime \<Rightarrow> bool result" where
  "retention_deadline_is_due_dt deadline now =
     (if dt_offset deadline = None \<and> dt_offset now \<noteq> None then dt_le deadline (dt_replace_tz None now)
      else if dt_offset deadline \<noteq> None \<and> dt_offset now = None
      then dt_le deadline (dt_replace_tz (dt_offset deadline) now)
      else dt_le deadline now)"

definition retention_deadline_is_due :: "instant \<Rightarrow> instant \<Rightarrow> bool" where
  "retention_deadline_is_due deadline now = (deadline \<le> now)"

section \<open>Policy revisions\<close>

record RetentionPolicyDecision =
  rpd_tenant_id :: string
  rpd_cluster_id :: string
  rpd_version :: int
  rpd_logical_case_id :: "string option"
  rpd_retention_seconds :: int
  rpd_created_by_credential_id :: string
  rpd_created_at :: instant
  rpd_effective_at :: instant

definition resolve_effective_at :: "instant \<Rightarrow> datetime option \<Rightarrow> instant result" where
  "resolve_effective_at now effective_at =
     (case effective_at of
        None \<Rightarrow> Inr now
      | Some d \<Rightarrow> (if dt_offset d = None then Inl (ValueError ''effective_at must include a UTC offset'')
                  else Inr (dt_instant d)))"

definition in_scope :: "string \<Rightarrow> string \<Rightarrow> RetentionPolicyRevision \<Rightarrow> bool" where
  "in_scope t cl p = (rpr_tenant_id p = t \<and> rpr_cluster_id p = cl)"

definition latest_version :: "catalog \<Rightarrow> string \<Rightarrow> string \<Rightarrow> int option" where
  "latest_version c tenant_id cluster_id =
     map_option rpr_version (first_by (\<lambda>p. - rpr_version p)
       (filter (in_scope tenant_id cluster_id) (policies c)))"

definition insert_policy_revision ::
  "string \<Rightarrow> string \<Rightarrow> int \<Rightarrow> string \<Rightarrow> instant \<Rightarrow> instant \<Rightarrow> string option \<Rightarrow> catalog
   \<Rightarrow> RetentionPolicyDecision result \<times> catalog" where
  "insert_policy_revision tenant_id cluster_id retention_seconds actor now effective_at case_id c =
     (let version = (case latest_version c tenant_id cluster_id of None \<Rightarrow> 1 | Some v \<Rightarrow> v + 1);
          policy = \<lparr>rpr_tenant_id = tenant_id, rpr_cluster_id = cluster_id, rpr_version = version,
            rpr_logical_case_id = case_id, rpr_retention_seconds = retention_seconds,
            rpr_created_by_credential_id = actor, rpr_created_at = now, rpr_effective_at = effective_at\<rparr>
      in case add_policy policy (policies c) of
           Inl e \<Rightarrow> (Inl e, c)
         | Inr rows \<Rightarrow>
             (Inr \<lparr>rpd_tenant_id = tenant_id, rpd_cluster_id = cluster_id, rpd_version = version,
                rpd_logical_case_id = case_id, rpd_retention_seconds = retention_seconds,
                rpd_created_by_credential_id = actor, rpd_created_at = now,
                rpd_effective_at = effective_at\<rparr>, c\<lparr>policies := rows\<rparr>))"

definition create_retention_policy_revision ::
  "string \<Rightarrow> string \<Rightarrow> int \<Rightarrow> string \<Rightarrow> datetime option \<Rightarrow> string option \<Rightarrow> instant \<Rightarrow> catalog
   \<Rightarrow> RetentionPolicyDecision result \<times> catalog" where
  "create_retention_policy_revision tenant_id cluster_id retention_seconds actor effective_at case_id now c =
     (if \<not> retention_seconds_ok retention_seconds
      then (Inl (ValueError ''retention_seconds must be 0 or within [3600, 315360000]''), c)
      else if \<not> safe_identifier actor
      then (Inl (ValueError ''retention policy credential ID is invalid''), c)
      else if cluster_id = [] \<or> length cluster_id > 128 then (Inl (ValueError ''cluster ID is invalid''), c)
      else if \<not> opt_ok safe_identifier case_id then (Inl (ValueError ''logical case ID is invalid''), c)
      else (case resolve_effective_at now effective_at of
          Inl e \<Rightarrow> (Inl e, c)
        | Inr eff \<Rightarrow>
            (if eff > now + seconds (366 * 86400)
             then (Inl (ValueError ''effective_at cannot be more than 366 days in the future''), c)
             else begin_txn (insert_policy_revision tenant_id cluster_id retention_seconds actor now eff case_id) c)))"

section \<open>Cancellation\<close>

definition get_policy :: "catalog \<Rightarrow> string \<Rightarrow> string \<Rightarrow> int \<Rightarrow> RetentionPolicyRevision option" where
  "get_policy c tenant_id cluster_id version =
     List.find (\<lambda>p. rpr_tenant_id p = tenant_id \<and> rpr_cluster_id p = cluster_id \<and> rpr_version p = version)
       (policies c)"

definition get_cancellation :: "catalog \<Rightarrow> string \<Rightarrow> string \<Rightarrow> int \<Rightarrow> RetentionPolicyCancellation option" where
  "get_cancellation c tenant_id cluster_id version =
     List.find (\<lambda>x. rpc_tenant_id x = tenant_id \<and> rpc_cluster_id x = cluster_id
       \<and> rpc_policy_version x = version) (policy_cancellations c)"

definition cancel_policy_txn ::
  "string \<Rightarrow> string \<Rightarrow> int \<Rightarrow> string \<Rightarrow> string \<Rightarrow> instant \<Rightarrow> catalog
   \<Rightarrow> RetentionPolicyCancellation result \<times> catalog" where
  "cancel_policy_txn tenant_id cluster_id version reason actor now c =
     (case get_policy c tenant_id cluster_id version of
        None \<Rightarrow> (Inl (ValueError ''retention policy revision does not exist''), c)
      | Some policy \<Rightarrow>
          (case get_cancellation c tenant_id cluster_id version of
             Some existing \<Rightarrow>
               if rpc_reason existing \<noteq> reason \<or> rpc_cancelled_by_credential_id existing \<noteq> actor
               then (Inl (ValueError ''retention policy revision already has a different cancellation''), c)
               else (Inr existing, c)
           | None \<Rightarrow>
               if retention_deadline_is_due (rpr_effective_at policy) now
               then (Inl (ValueError ''retention policy revision cannot be cancelled after it is effective''), c)
               else (let x = \<lparr>rpc_tenant_id = tenant_id, rpc_cluster_id = cluster_id,
                       rpc_policy_version = version, rpc_reason = reason,
                       rpc_cancelled_by_credential_id = actor, rpc_cancelled_at = now\<rparr>
                     in (Inr x, c\<lparr>policy_cancellations := policy_cancellations c @ [x]\<rparr>))))"

definition cancel_retention_policy_revision ::
  "string \<Rightarrow> string \<Rightarrow> int \<Rightarrow> string \<Rightarrow> string \<Rightarrow> instant \<Rightarrow> catalog
   \<Rightarrow> RetentionPolicyCancellation result \<times> catalog" where
  "cancel_retention_policy_revision tenant_id cluster_id version raw_reason actor now c =
     (let reason = str_strip raw_reason in
      if reason = [] \<or> length reason > 512
      then (Inl (ValueError ''cancellation reason must contain between 1 and 512 characters''), c)
      else if \<not> safe_identifier actor then (Inl (ValueError ''cancelling credential ID is invalid''), c)
      else begin_txn (cancel_policy_txn tenant_id cluster_id version reason actor now) c)"

section \<open>Backfill\<close>

definition retention_backfill_policy ::
  "catalog \<Rightarrow> string \<Rightarrow> string \<Rightarrow> int \<Rightarrow> instant \<Rightarrow> RetentionPolicyRevision result" where
  "retention_backfill_policy c tenant_id cluster_id version now =
     (case get_policy c tenant_id cluster_id version of
        None \<Rightarrow> Inl (ValueError ''retention policy revision does not exist'')
      | Some policy \<Rightarrow>
          if get_cancellation c tenant_id cluster_id version \<noteq> None
          then Inl (ValueError ''retention policy revision is cancelled'')
          else if \<not> retention_deadline_is_due (rpr_effective_at policy) now
          then Inl (ValueError ''retention policy revision is not yet effective'')
          else Inr policy)"

definition backfill_eligible ::
  "catalog \<Rightarrow> string \<Rightarrow> string \<Rightarrow> string option \<Rightarrow> int option \<Rightarrow> AttemptRecord \<Rightarrow> bool" where
  "backfill_eligible c tenant_id cluster_id case_id source_version r =
     (ar_tenant_id r = tenant_id \<and> ar_cluster_id r = cluster_id
      \<and> \<not> list_ex (\<lambda>d. ad_identity d = ar_identity r) (deletions c)
      \<and> ar_retention_policy_version r = source_version
      \<and> (case_id = None \<or> ar_logical_case_id r = case_id))"

definition retention_backfill_candidates ::
  "catalog \<Rightarrow> string \<Rightarrow> string \<Rightarrow> int \<Rightarrow> string option \<Rightarrow> int option \<Rightarrow> AttemptRecord list result" where
  "retention_backfill_candidates c tenant_id cluster_id max_attempts case_id source_version =
     (let attempts = take (nat (max_attempts + 1)) (sort_key ar_attempt_id
            (filter (backfill_eligible c tenant_id cluster_id case_id source_version) (attempt_records c)))
      in if int (length attempts) > max_attempts
         then Inl (ValueError ''eligible attempts exceed max_attempts; increase the explicit bound'')
         else Inr attempts)"

text \<open>
  The digest is taken over the canonical JSON of the candidates; \<open>isoformat\<close>, the text of an
  instant, is a parameter.
\<close>

definition candidate_json :: "(instant \<Rightarrow> string) \<Rightarrow> AttemptRecord \<Rightarrow> json" where
  "candidate_json isoformat r = JObj
     [(''attempt_id'', JStr (ar_attempt_id r)),
      (''first_admitted_at'', JStr (isoformat (ar_first_admitted_at r))),
      (''retention_policy_version'', (case ar_retention_policy_version r of None \<Rightarrow> JNull | Some v \<Rightarrow> JInt v)),
      (''retention_expires_at'',
        (case ar_retention_expires_at r of None \<Rightarrow> JNull | Some t \<Rightarrow> JStr (isoformat t)))]"

definition retention_backfill_candidate_digest ::
  "runtime \<Rightarrow> (instant \<Rightarrow> string) \<Rightarrow> AttemptRecord list \<Rightarrow> string" where
  "retention_backfill_candidate_digest R isoformat attempts =
     rt_sha256 R (utf8 (json_dumps (JArr (map (candidate_json isoformat) attempts))))"

definition check_backfill_source ::
  "catalog \<Rightarrow> string \<Rightarrow> string \<Rightarrow> RetentionPolicyRevision \<Rightarrow> int option \<Rightarrow> string option \<Rightarrow> unit result" where
  "check_backfill_source c tenant_id cluster_id policy source_version reason =
     (case source_version of
        None \<Rightarrow> if reason \<noteq> None then Inl (ValueError ''legacy backfill cannot include a migration reason'')
               else Inr ()
      | Some v \<Rightarrow>
          if (case reason of None \<Rightarrow> True | Some r \<Rightarrow> str_strip r = [] \<or> length (str_strip r) > 512)
          then Inl (ValueError ''versioned migration requires a reason between 1 and 512 characters'')
          else (case get_policy c tenant_id cluster_id v of
              None \<Rightarrow> Inl (ValueError ''source retention policy revision does not exist'')
            | Some source \<Rightarrow>
                if rpr_logical_case_id source \<noteq> rpr_logical_case_id policy
                then Inl (ValueError ''source and target policy revisions must have the same scope'')
                else Inr ()))"

definition retention_backfill_decision ::
  "runtime \<Rightarrow> (instant \<Rightarrow> string) \<Rightarrow> catalog \<Rightarrow> string \<Rightarrow> string \<Rightarrow> int \<Rightarrow> int \<Rightarrow> instant \<Rightarrow> int option
   \<Rightarrow> string option \<Rightarrow> (RetentionPolicyRevision \<times> AttemptRecord list \<times> int \<times> string) result" where
  "retention_backfill_decision R isoformat c tenant_id cluster_id version max_attempts now source_version reason =
     (if \<not> (1 \<le> max_attempts \<and> max_attempts \<le> 1000)
      then Inl (ValueError ''max_attempts must be within [1, 1000]'')
      else bindE (retention_backfill_policy c tenant_id cluster_id version now) (\<lambda>policy.
        if source_version = Some version
        then Inl (ValueError ''source and target policy revisions must differ'')
        else bindE (check_backfill_source c tenant_id cluster_id policy source_version reason) (\<lambda>_.
          bindE (retention_backfill_candidates c tenant_id cluster_id max_attempts
                   (rpr_logical_case_id policy) source_version) (\<lambda>attempts.
          let due_attempts = (if rpr_retention_seconds policy > 0
                then count_where (\<lambda>r. retention_deadline_is_due
                       (ar_first_admitted_at r + seconds (rpr_retention_seconds policy)) now) attempts
                else 0)
          in Inr (policy, attempts, due_attempts,
                  retention_backfill_candidate_digest R isoformat attempts)))))"

record RetentionPolicyBackfillDecision =
  bd_tenant_id :: string
  bd_cluster_id :: string
  bd_policy_version :: int
  bd_logical_case_id :: "string option"
  bd_candidate_digest :: string
  bd_eligible_attempts :: int
  bd_due_attempts :: int
  bd_updated_attempts :: int
  bd_source_policy_version :: "int option"
  bd_reason :: "string option"
  bd_backfill_id :: "string option"
  bd_requested_by_credential_id :: "string option"
  bd_requested_at :: "instant option"

definition preview_retention_policy_backfill ::
  "runtime \<Rightarrow> (instant \<Rightarrow> string) \<Rightarrow> catalog \<Rightarrow> string \<Rightarrow> string \<Rightarrow> int \<Rightarrow> int \<Rightarrow> int option
   \<Rightarrow> string option \<Rightarrow> instant \<Rightarrow> RetentionPolicyBackfillDecision result" where
  "preview_retention_policy_backfill R isoformat c tenant_id cluster_id version max_attempts source_version reason now =
     bindE (retention_backfill_decision R isoformat c tenant_id cluster_id version max_attempts now source_version reason)
       (\<lambda>(policy, attempts, due, digest).
         Inr \<lparr>bd_tenant_id = tenant_id, bd_cluster_id = cluster_id, bd_policy_version = version,
              bd_logical_case_id = rpr_logical_case_id policy, bd_candidate_digest = digest,
              bd_eligible_attempts = int (length attempts), bd_due_attempts = due, bd_updated_attempts = 0,
              bd_source_policy_version = source_version, bd_reason = map_option str_strip reason,
              bd_backfill_id = None, bd_requested_by_credential_id = None, bd_requested_at = None\<rparr>)"

definition new_expires_at :: "RetentionPolicyRevision \<Rightarrow> AttemptRecord \<Rightarrow> instant option" where
  "new_expires_at policy r = retention_deadline (ar_first_admitted_at r) (rpr_retention_seconds policy)"

definition backfill_item :: "string \<Rightarrow> string \<Rightarrow> string \<Rightarrow> RetentionPolicyRevision \<Rightarrow> AttemptRecord \<Rightarrow> RetentionPolicyBackfillItem" where
  "backfill_item bid tenant_id cluster_id policy r =
     \<lparr>rpbi_backfill_id = bid, rpbi_attempt_id = ar_attempt_id r, rpbi_tenant_id = tenant_id,
      rpbi_cluster_id = cluster_id, rpbi_previous_policy_version = ar_retention_policy_version r,
      rpbi_previous_expires_at = ar_retention_expires_at r, rpbi_new_policy_version = rpr_version policy,
      rpbi_new_expires_at = new_expires_at policy r\<rparr>"

definition rebase_attempt :: "RetentionPolicyRevision \<Rightarrow> AttemptRecord \<Rightarrow> AttemptRecord" where
  "rebase_attempt policy r = r\<lparr>ar_retention_policy_version := Some (rpr_version policy),
     ar_retention_expires_at := new_expires_at policy r\<rparr>"

definition apply_backfill_txn ::
  "runtime \<Rightarrow> (instant \<Rightarrow> string) \<Rightarrow> string \<Rightarrow> string \<Rightarrow> int \<Rightarrow> int \<Rightarrow> int \<Rightarrow> int \<Rightarrow> string \<Rightarrow> string
   \<Rightarrow> int option \<Rightarrow> string option \<Rightarrow> string \<Rightarrow> instant \<Rightarrow> catalog
   \<Rightarrow> RetentionPolicyBackfillDecision result \<times> catalog" where
  "apply_backfill_txn R isoformat tenant_id cluster_id version max_attempts expected_eligible expected_due
       expected_digest actor source_version reason bid now c =
     (case retention_backfill_decision R isoformat c tenant_id cluster_id version max_attempts now source_version reason of
        Inl e \<Rightarrow> (Inl e, c)
      | Inr (policy, attempts, due, digest) \<Rightarrow>
          if int (length attempts) \<noteq> expected_eligible \<or> due \<noteq> expected_due \<or> digest \<noteq> expected_digest
          then (Inl (ValueError ''retention policy backfill preview is stale; preview again''), c)
          else
            (Inr \<lparr>bd_tenant_id = tenant_id, bd_cluster_id = cluster_id, bd_policy_version = rpr_version policy,
                  bd_logical_case_id = rpr_logical_case_id policy, bd_candidate_digest = digest,
                  bd_eligible_attempts = int (length attempts), bd_due_attempts = due,
                  bd_updated_attempts = int (length attempts), bd_source_policy_version = source_version,
                  bd_reason = map_option str_strip reason, bd_backfill_id = Some bid,
                  bd_requested_by_credential_id = Some actor, bd_requested_at = Some now\<rparr>,
             c\<lparr>attempt_records := upd_where (\<lambda>r. ar_identity r \<in> set (map ar_identity attempts))
                   (rebase_attempt policy) (attempt_records c),
               policy_backfill_items := policy_backfill_items c
                   @ map (backfill_item bid tenant_id cluster_id policy) attempts,
               policy_backfills := policy_backfills c @
                 [\<lparr>rpb_backfill_id = bid, rpb_tenant_id = tenant_id, rpb_cluster_id = cluster_id,
                   rpb_policy_version = rpr_version policy, rpb_source_policy_version = source_version,
                   rpb_reason = map_option str_strip reason, rpb_candidate_digest = Some digest,
                   rpb_eligible_attempts = int (length attempts), rpb_due_attempts = due,
                   rpb_updated_attempts = int (length attempts), rpb_requested_by_credential_id = actor,
                   rpb_requested_at = now\<rparr>]\<rparr>))"

definition apply_retention_policy_backfill ::
  "runtime \<Rightarrow> (instant \<Rightarrow> string) \<Rightarrow> string \<Rightarrow> string \<Rightarrow> int \<Rightarrow> int \<Rightarrow> int \<Rightarrow> int \<Rightarrow> string \<Rightarrow> string
   \<Rightarrow> int option \<Rightarrow> string option \<Rightarrow> string \<Rightarrow> instant \<Rightarrow> catalog
   \<Rightarrow> RetentionPolicyBackfillDecision result \<times> catalog" where
  "apply_retention_policy_backfill R isoformat tenant_id cluster_id version max_attempts expected_eligible
       expected_due expected_digest actor source_version reason bid now c =
     (if \<not> safe_identifier actor then (Inl (ValueError ''retention policy credential ID is invalid''), c)
      else if expected_eligible < 0 \<or> expected_due < 0
      then (Inl (ValueError ''expected attempt counts cannot be negative''), c)
      else if \<not> sha256_hex expected_digest
      then (Inl (ValueError ''expected candidate digest must be a lowercase SHA-256''), c)
      else begin_txn (apply_backfill_txn R isoformat tenant_id cluster_id version max_attempts
             expected_eligible expected_due expected_digest actor source_version reason bid now) c)"

section \<open>Versions\<close>

definition scope_versions :: "catalog \<Rightarrow> string \<Rightarrow> string \<Rightarrow> int list" where
  "scope_versions c t cl = map rpr_version (filter (in_scope t cl) (policies c))"

definition versions_contiguous :: "catalog \<Rightarrow> bool" where
  "versions_contiguous c = (\<forall>p \<in> set (policies c).
     let vs = scope_versions c (rpr_tenant_id p) (rpr_cluster_id p) in vs = upto 1 (int (length vs)))"

lemma latest_version_None: "latest_version c t cl = None \<longleftrightarrow> scope_versions c t cl = []"
  by (simp add: latest_version_def scope_versions_def)

lemma latest_version_Some:
  assumes "latest_version c t cl = Some v"
  shows "v \<in> set (scope_versions c t cl)" "\<forall>u \<in> set (scope_versions c t cl). u \<le> v"
proof -
  let ?rows = "filter (in_scope t cl) (policies c)"
  from assms obtain p where p: "first_by (\<lambda>p. - rpr_version p) ?rows = Some p" "v = rpr_version p"
    by (auto simp: latest_version_def)
  from first_by_Some_set [OF p(1)] p(2) show "v \<in> set (scope_versions c t cl)"
    by (auto simp: scope_versions_def)
  from first_by_Some_least [OF p(1)] p(2) show "\<forall>u \<in> set (scope_versions c t cl). u \<le> v"
    by (auto simp: scope_versions_def)
qed

lemma insert_policy_revision_Inr:
  assumes "insert_policy_revision t cl n actor now eff k c = (Inr d, c')"
  obtains p where "c' = c\<lparr>policies := policies c @ [p]\<rparr>" "in_scope t cl p"
    "rpr_version p = (case latest_version c t cl of None \<Rightarrow> 1 | Some v \<Rightarrow> v + 1)"
    "rpr_version p = rpd_version d" "rpr_effective_at p = eff" "rpr_retention_seconds p = n"
    "rpr_logical_case_id p = k"
  using assms
  by (auto simp: insert_policy_revision_def Let_def add_policy_def add_row_Inr_iff in_scope_def
      split: sum.splits)

lemma create_policy_Inr:
  assumes "create_retention_policy_revision t cl n actor eff k now c = (Inr d, c')"
  obtains e where "insert_policy_revision t cl n actor now e k c = (Inr d, c')"
    "retention_seconds_ok n" "e \<le> now + seconds (366 * 86400)" "resolve_effective_at now eff = Inr e"
  using assms
  by (auto simp: create_retention_policy_revision_def begin_txn_commit split: if_splits sum.splits)

lemma scope_versions_upto:
  assumes "versions_contiguous c"
  shows "scope_versions c t cl = upto 1 (int (length (scope_versions c t cl)))"
proof (cases "\<exists>p \<in> set (policies c). in_scope t cl p")
  case True
  with assms show ?thesis by (auto simp: versions_contiguous_def in_scope_def Let_def)
next
  case False
  then have "scope_versions c t cl = []" by (auto simp: scope_versions_def filter_empty_conv)
  then show ?thesis by simp
qed

lemma latest_version_count:
  assumes "versions_contiguous c"
  shows "(case latest_version c t cl of None \<Rightarrow> 1 | Some v \<Rightarrow> v + 1)
    = int (length (scope_versions c t cl)) + 1"
proof (cases "latest_version c t cl")
  case None
  then have "scope_versions c t cl = []" by (simp add: latest_version_None)
  with None show ?thesis by simp
next
  case (Some v)
  let ?n = "int (length (scope_versions c t cl))"
  have "set (scope_versions c t cl) = {1..?n}"
    by (subst scope_versions_upto [OF assms]) simp
  moreover from latest_version_Some [OF Some] have "v \<in> set (scope_versions c t cl)"
    "\<forall>u \<in> set (scope_versions c t cl). u \<le> v" by auto
  ultimately have "v = ?n" by (cases "scope_versions c t cl = []") force+
  with Some show ?thesis by simp
qed

section \<open>Properties of retention policies\<close>

text \<open>Comparing a deadline with the clock gives the same answer whether the database
  returned the column as a naive UTC value or as an aware one, for either form of clock,
  and never raises the naive/aware comparison error.\<close>

theorem retention_deadline_naive_aware:
  assumes "dt_offset deadline \<in> {None, Some 0}" "dt_offset now \<in> {None, Some 0}"
  shows "retention_deadline_is_due_dt deadline now
    = Inr (retention_deadline_is_due (dt_instant deadline) (dt_instant now))"
  using assms
  by (auto simp: retention_deadline_is_due_dt_def retention_deadline_is_due_def dt_le_def
      dt_replace_tz_def dt_instant_def)

theorem retention_deadline_naive_aware_witness:
  "retention_deadline_is_due_dt (naive_utc 5) (utc 7) = Inr True
   \<and> retention_deadline_is_due_dt (utc 9) (naive_utc 7) = Inr False"
  using retention_deadline_naive_aware [of "naive_utc 5" "utc 7"]
    retention_deadline_naive_aware [of "utc 9" "naive_utc 7"]
  by (simp add: retention_deadline_is_due_def naive_utc_def utc_def dt_instant_def)

text \<open>Policy revisions of a tenant and cluster are numbered 1, 2, 3, ... in the order they
  were created, without gaps or reuse, and creating one leaves the earlier ones untouched.\<close>

theorem create_policy_contiguous:
  assumes "versions_contiguous c" "create_retention_policy_revision t cl n actor eff k now c = (Inr d, c')"
  shows "versions_contiguous c' \<and> rpd_version d = int (length (scope_versions c t cl)) + 1
    \<and> (\<exists>p. c' = c\<lparr>policies := policies c @ [p]\<rparr>)"
proof -
  from assms(2) obtain e where "insert_policy_revision t cl n actor now e k c = (Inr d, c')"
    by (rule create_policy_Inr)
  then obtain p where c': "c' = c\<lparr>policies := policies c @ [p]\<rparr>" "in_scope t cl p"
    and v: "rpr_version p = (case latest_version c t cl of None \<Rightarrow> 1 | Some v \<Rightarrow> v + 1)"
    and d: "rpr_version p = rpd_version d"
    by (rule insert_policy_revision_Inr)
  note v' = v [unfolded latest_version_count [OF assms(1)]]
  have vs: "scope_versions c' t' cl' = scope_versions c t' cl'
      @ (if in_scope t' cl' p then [int (length (scope_versions c t cl)) + 1] else [])" for t' cl'
    by (simp add: scope_versions_def c' v')
  have upto: "upto 1 (1 + int k) = upto 1 (int k) @ [1 + int k]" for k
    by (subst upto_rec2) auto
  have "scope_versions c' t' cl' = upto 1 (int (length (scope_versions c' t' cl')))" for t' cl'
  proof (cases "in_scope t' cl' p")
    case True
    with c'(2) have "t' = t" "cl' = cl" by (auto simp: in_scope_def)
    with True scope_versions_upto [OF assms(1), of t cl] show ?thesis
      by (simp add: vs upto)
  next
    case False
    with scope_versions_upto [OF assms(1), of t' cl'] show ?thesis by (simp add: vs)
  qed
  then have "versions_contiguous c'" by (simp add: versions_contiguous_def Let_def)
  with c'(1) v' d show ?thesis by auto
qed

definition demo_policy :: RetentionPolicyRevision where
  "demo_policy = \<lparr>rpr_tenant_id = ''site'', rpr_cluster_id = ''alpha'', rpr_version = 1,
     rpr_logical_case_id = None, rpr_retention_seconds = 7200, rpr_created_by_credential_id = ''admin'',
     rpr_created_at = 0, rpr_effective_at = 10\<rparr>"

theorem create_policy_contiguous_witness:
  "\<exists>d c'. create_retention_policy_revision ''site'' ''alpha'' 3600 ''admin'' None None 5
       (empty_catalog\<lparr>policies := [demo_policy]\<rparr>) = (Inr d, c') \<and> rpd_version d = 2 \<and> versions_contiguous c'"
proof -
  let ?c = "empty_catalog\<lparr>policies := [demo_policy]\<rparr>"
  let ?x = "create_retention_policy_revision ''site'' ''alpha'' 3600 ''admin'' None None 5 ?c"
  have "\<not> isl (fst ?x)" by code_simp
  then obtain d c' where x: "?x = (Inr d, c')" by (metis isl_def sum.exhaust_sel prod.collapse)
  have "versions_contiguous ?c" by code_simp
  moreover have "length (scope_versions ?c ''site'' ''alpha'') = 1" by code_simp
  ultimately show ?thesis using create_policy_contiguous [OF _ x] x by auto
qed

text \<open>A policy revision can be withdrawn only before it takes effect: once
  \<open>effective_at\<close> is reached the call raises or repeats a cancellation made in time, and the
  catalogue is unchanged.  A cancelled revision is never selected by an admission.\<close>

theorem cancel_only_before_effective:
  assumes "cancel_retention_policy_revision t cl v reason actor now c = (r, c')"
    "get_policy c t cl v = Some p"
  shows "(rpr_effective_at p \<le> now \<longrightarrow> c' = c)
    \<and> (\<forall>x. r = Inr x \<longrightarrow> (\<forall>s at q. select_policy c' t s at = Some q \<longrightarrow> su_cluster_id s = cl \<longrightarrow> rpr_version q \<noteq> v))"
proof -
  have unsel: "rpr_version q \<noteq> v"
    if "x \<in> set (policy_cancellations c')" "rpc_tenant_id x = t" "rpc_cluster_id x = cl"
      "rpc_policy_version x = v" "select_policy c' t s at = Some q" "su_cluster_id s = cl" for x s at q
  proof -
    from that(5) have "policy_applies c' t s at q"
      by (auto simp: select_policy_def dest: first_by_filter_Some)
    with that show ?thesis by (auto simp: policy_applies_def policy_cancelled_def list_ex_iff)
  qed
  have keep: "rpr_effective_at p \<le> now \<longrightarrow> c' = c"
    using assms by (auto simp: cancel_retention_policy_revision_def cancel_policy_txn_def begin_txn_def
      retention_deadline_is_due_def Let_def split: if_splits option.splits)
  have row: "\<exists>x \<in> set (policy_cancellations c'). rpc_tenant_id x = t \<and> rpc_cluster_id x = cl \<and> rpc_policy_version x = v"
    if "r = Inr y" for y
    using assms that
    by (auto simp: cancel_retention_policy_revision_def cancel_policy_txn_def begin_txn_def Let_def
        get_cancellation_def split: if_splits option.splits dest: find_Some_iff)
  show ?thesis using keep row unsel by blast
qed

theorem cancel_only_before_effective_witness:
  "\<exists>r. cancel_retention_policy_revision ''site'' ''alpha'' 1 ''typo'' ''admin'' 12
       (empty_catalog\<lparr>policies := [demo_policy]\<rparr>) = (r, empty_catalog\<lparr>policies := [demo_policy]\<rparr>)"
proof -
  let ?c = "empty_catalog\<lparr>policies := [demo_policy]\<rparr>"
  obtain r c' where x: "cancel_retention_policy_revision ''site'' ''alpha'' 1 ''typo'' ''admin'' 12 ?c = (r, c')"
    by fastforce
  have p: "get_policy ?c ''site'' ''alpha'' 1 = Some demo_policy"
    by (simp add: get_policy_def demo_policy_def)
  from cancel_only_before_effective [OF x p] x show ?thesis by (auto simp: demo_policy_def)
qed

section \<open>Backfill\<close>

lemma backfill_decision_Inr:
  assumes "retention_backfill_decision R isof c t cl v mx now src reason = Inr (policy, attempts, due, digest)"
  shows "get_policy c t cl v = Some policy" "rpr_effective_at policy \<le> now" "src \<noteq> Some v"
    "get_cancellation c t cl v = None" "int (length attempts) \<le> mx" "mx \<le> 1000"
    "attempts = sort_key ar_attempt_id
       (filter (backfill_eligible c t cl (rpr_logical_case_id policy) src) (attempt_records c))"
    "digest = retention_backfill_candidate_digest R isof attempts"
proof -
  from assms have p: "retention_backfill_policy c t cl v now = Inr policy"
    and cands: "retention_backfill_candidates c t cl mx (rpr_logical_case_id policy) src = Inr attempts"
    and mx: "1 \<le> mx" "mx \<le> 1000" "src \<noteq> Some v"
    and dg: "digest = retention_backfill_candidate_digest R isof attempts"
    by (auto simp: retention_backfill_decision_def bindE_Inr_iff Let_def split: if_splits)
  from p show "get_policy c t cl v = Some policy" "rpr_effective_at policy \<le> now"
    "get_cancellation c t cl v = None"
    by (auto simp: retention_backfill_policy_def retention_deadline_is_due_def split: option.splits if_splits)
  let ?all = "sort_key ar_attempt_id
       (filter (backfill_eligible c t cl (rpr_logical_case_id policy) src) (attempt_records c))"
  from cands have a: "attempts = take (nat (mx + 1)) ?all" "int (length attempts) \<le> mx"
    by (auto simp: retention_backfill_candidates_def Let_def split: if_splits)
  then have "length ?all \<le> nat (mx + 1)" using mx by (auto simp: min_def split: if_splits)
  with a(1) show "attempts = ?all" by simp
  show "int (length attempts) \<le> mx" "src \<noteq> Some v" "mx \<le> 1000"
    "digest = retention_backfill_candidate_digest R isof attempts" using a(2) mx dg by auto
qed

lemma get_policy_version: "get_policy c t cl v = Some p \<Longrightarrow> rpr_version p = v"
  by (auto simp: get_policy_def dest: find_Some_iff)

lemma apply_backfill_Inr:
  assumes "apply_retention_policy_backfill R isof t cl v mx ee ed eg actor src reason bid now c = (Inr d, c')"
  obtains policy attempts due where
    "retention_backfill_decision R isof c t cl v mx now src reason = Inr (policy, attempts, due, eg)"
    "int (length attempts) = ee" "due = ed" "bd_updated_attempts d = ee"
    "attempt_records c' = upd_where (\<lambda>r. ar_identity r \<in> set (map ar_identity attempts))
       (rebase_attempt policy) (attempt_records c)"
    "policy_backfill_items c' = policy_backfill_items c @ map (backfill_item bid t cl policy) attempts"
    "manifests c' = manifests c" "deletions c' = deletions c"
  using assms
  by (auto simp: apply_retention_policy_backfill_def begin_txn_commit apply_backfill_txn_def
      split: if_splits sum.splits prod.splits)

definition demo_attempt :: AttemptRecord where
  "demo_attempt = \<lparr>ar_tenant_id = ''site'', ar_cluster_id = ''alpha'', ar_attempt_id = ''run-7'',
     ar_workflow_execution_id = None, ar_logical_case_id = None, ar_scheduler_source_identity = None,
     ar_scheduler_state = ''unknown'', ar_scheduler_observed_at = None, ar_first_admitted_at = 3,
     ar_last_admitted_at = 3, ar_retention_expires_at = None, ar_retention_policy_version = None,
     ar_segment_count = 1, ar_record_count = 1\<rparr>"

definition demo_backfill_catalog :: catalog where
  "demo_backfill_catalog = empty_catalog\<lparr>policies := [demo_policy], attempt_records := [demo_attempt]\<rparr>"

definition demo_candidate_digest :: string where
  "demo_candidate_digest = retention_backfill_candidate_digest demo_runtime (\<lambda>_. ''t'') [demo_attempt]"

definition demo_backfill :: "RetentionPolicyBackfillDecision result \<times> catalog" where
  "demo_backfill = apply_retention_policy_backfill demo_runtime (\<lambda>_. ''t'') ''site'' ''alpha'' 1 10 1 0
     demo_candidate_digest ''admin'' None None ''b1'' 20 demo_backfill_catalog"

lemma demo_backfill_Inr:
  obtains d c' where "apply_retention_policy_backfill demo_runtime (\<lambda>_. ''t'') ''site'' ''alpha'' 1 10 1 0
     demo_candidate_digest ''admin'' None None ''b1'' 20 demo_backfill_catalog = (Inr d, c')"
    "c' = snd demo_backfill"
proof -
  have "\<not> isl (fst demo_backfill)" by code_simp
  then show ?thesis using that unfolding demo_backfill_def by (metis isl_def sum.exhaust_sel prod.collapse)
qed

lemma demo_backfill_policy: "get_policy demo_backfill_catalog ''site'' ''alpha'' 1 = Some demo_policy"
  by (simp add: get_policy_def demo_backfill_catalog_def demo_policy_def)

text \<open>C19. A backfill that is applied changes exactly the attempts that were eligible for it, in
  place: each gets the target version and the deadline counted from its own first admission,
  every other attempt record is untouched, and each change has an audit item
  with the values before and after.\<close>

theorem backfill_changes_exactly_eligible:
  assumes "apply_retention_policy_backfill R isof t cl v mx ee ed eg actor src reason bid now c = (Inr d, c')"
    "distinct (map ar_identity (attempt_records c))" "get_policy c t cl v = Some policy"
  shows "attempt_records c' = map (\<lambda>r. if backfill_eligible c t cl (rpr_logical_case_id policy) src r
       then r\<lparr>ar_retention_policy_version := Some v,
              ar_retention_expires_at := retention_deadline (ar_first_admitted_at r) (rpr_retention_seconds policy)\<rparr>
       else r) (attempt_records c)
    \<and> (\<forall>r \<in> set (attempt_records c). backfill_eligible c t cl (rpr_logical_case_id policy) src r \<longrightarrow>
         backfill_item bid t cl policy r \<in> set (policy_backfill_items c'))
    \<and> ee = count_where (backfill_eligible c t cl (rpr_logical_case_id policy) src) (attempt_records c)"
proof -
  let ?E = "backfill_eligible c t cl (rpr_logical_case_id policy) src"
  from assms(1) obtain policy' attempts due where
    dec: "retention_backfill_decision R isof c t cl v mx now src reason = Inr (policy', attempts, due, eg)"
    and ee: "int (length attempts) = ee"
    and rows: "attempt_records c' = upd_where (\<lambda>r. ar_identity r \<in> set (map ar_identity attempts))
       (rebase_attempt policy') (attempt_records c)"
    and items: "policy_backfill_items c' = policy_backfill_items c @ map (backfill_item bid t cl policy') attempts"
    by (rule apply_backfill_Inr)
  note dec' = backfill_decision_Inr [OF dec]
  from dec'(1) assms(3) have pol: "policy' = policy" by simp
  from dec'(7) pol have att: "set attempts = {r \<in> set (attempt_records c). ?E r}"
    and len: "length attempts = length (filter ?E (attempt_records c))" by auto
  have hit: "ar_identity r \<in> set (map ar_identity attempts) \<longleftrightarrow> ?E r" if "r \<in> set (attempt_records c)" for r
    using that att assms(2) by (auto simp: distinct_map inj_on_def)
  have "attempt_records c' = map (\<lambda>r. if ?E r then rebase_attempt policy r else r) (attempt_records c)"
    unfolding rows pol upd_where_def by (rule map_cong) (use hit in auto)
  moreover have "rebase_attempt policy r = r\<lparr>ar_retention_policy_version := Some v,
      ar_retention_expires_at := retention_deadline (ar_first_admitted_at r) (rpr_retention_seconds policy)\<rparr>" for r
    using get_policy_version [OF assms(3)] by (simp add: rebase_attempt_def new_expires_at_def)
  ultimately show ?thesis using items att len ee pol by (auto simp: count_where_def)
qed

theorem backfill_changes_exactly_eligible_witness:
  "map ar_retention_expires_at (attempt_records (snd demo_backfill)) = [Some (3 + seconds 7200)]"
proof -
  obtain d c' where x: "apply_retention_policy_backfill demo_runtime (\<lambda>_. ''t'') ''site'' ''alpha'' 1 10 1 0
     demo_candidate_digest ''admin'' None None ''b1'' 20 demo_backfill_catalog = (Inr d, c')"
    "c' = snd demo_backfill" by (rule demo_backfill_Inr)
  have "distinct (map ar_identity (attempt_records demo_backfill_catalog))"
    by (simp add: demo_backfill_catalog_def)
  from backfill_changes_exactly_eligible [OF x(1) this demo_backfill_policy] x(2) show ?thesis
    by (simp add: demo_backfill_catalog_def empty_catalog_def backfill_eligible_def demo_attempt_def
        demo_policy_def retention_deadline_def)
qed

text \<open>A backfill is complete: immediately after it is applied no attempt is left that is
  eligible for the same source and target, so a second preview finds nothing to do.\<close>

theorem backfill_exhausts:
  assumes "apply_retention_policy_backfill R isof t cl v mx ee ed eg actor src reason bid now c = (Inr d, c')"
    "get_policy c t cl v = Some policy"
  shows "retention_backfill_candidates c' t cl mx (rpr_logical_case_id policy) src = Inr []"
proof -
  from assms(1) obtain policy' attempts due where
    dec: "retention_backfill_decision R isof c t cl v mx now src reason = Inr (policy', attempts, due, eg)"
    and rows: "attempt_records c' = upd_where (\<lambda>r. ar_identity r \<in> set (map ar_identity attempts))
       (rebase_attempt policy') (attempt_records c)" "deletions c' = deletions c"
    by (rule apply_backfill_Inr)
  note dec' = backfill_decision_Inr [OF dec]
  from dec'(1) assms(2) have pol: "policy' = policy" "rpr_version policy = v"
    using get_policy_version by auto
  let ?E = "\<lambda>c. backfill_eligible c t cl (rpr_logical_case_id policy) src"
  have "\<not> ?E c' r" if "r \<in> set (attempt_records c')" for r
    using that unfolding rows
  proof (cases rule: upd_where_member)
    case (1 r0)
    with pol dec'(3) show ?thesis by (auto simp: backfill_eligible_def rebase_attempt_def)
  next
    case 2
    with dec'(7) pol have "\<not> ?E c r" by (auto simp: image_iff)
    with rows(2) show ?thesis by (simp add: backfill_eligible_def)
  qed
  then have "filter (?E c') (attempt_records c') = []" by (simp add: filter_empty_conv)
  moreover have "0 \<le> mx" using dec'(5) by simp
  ultimately show ?thesis by (simp add: retention_backfill_candidates_def)
qed

theorem backfill_exhausts_witness:
  "retention_backfill_candidates (snd demo_backfill) ''site'' ''alpha'' 10 None None = Inr []"
proof -
  obtain d c' where x: "apply_retention_policy_backfill demo_runtime (\<lambda>_. ''t'') ''site'' ''alpha'' 1 10 1 0
     demo_candidate_digest ''admin'' None None ''b1'' 20 demo_backfill_catalog = (Inr d, c')"
    "c' = snd demo_backfill" by (rule demo_backfill_Inr)
  from backfill_exhausts [OF x(1) demo_backfill_policy] x(2) show ?thesis by (simp add: demo_policy_def)
qed

text \<open>Preview and apply agree: applying with the counts and the digest of a preview of the
  same catalogue, at the same time, succeeds and updates that many attempts; with any other
  digest it changes nothing.\<close>

theorem backfill_preview_apply:
  assumes "preview_retention_policy_backfill R isof c t cl v mx src reason now = Inr pv" "safe_identifier actor"
    "sha256_hex digest"
  shows "case apply_retention_policy_backfill R isof t cl v mx (bd_eligible_attempts pv) (bd_due_attempts pv)
           digest actor src reason bid now c of
      (Inr d, c') \<Rightarrow> digest = bd_candidate_digest pv \<and> bd_updated_attempts d = bd_eligible_attempts pv
    | (Inl e, c') \<Rightarrow> digest \<noteq> bd_candidate_digest pv \<and> c' = c"
proof -
  from assms(1) obtain policy attempts due dg where
    dec: "retention_backfill_decision R isof c t cl v mx now src reason = Inr (policy, attempts, due, dg)"
    and pv: "bd_eligible_attempts pv = int (length attempts)" "bd_due_attempts pv = due" "bd_candidate_digest pv = dg"
    by (auto simp: preview_retention_policy_backfill_def bindE_Inr_iff)
  have "0 \<le> due" using dec
    by (auto simp: retention_backfill_decision_def bindE_Inr_iff Let_def split: if_splits)
  with dec pv assms(2,3) show ?thesis
    by (auto simp: apply_retention_policy_backfill_def apply_backfill_txn_def begin_txn_def)
qed

theorem backfill_preview_apply_witness:
  "\<exists>pv. preview_retention_policy_backfill demo_runtime (\<lambda>_. ''t'') demo_backfill_catalog ''site'' ''alpha'' 1 10
       None None 20 = Inr pv \<and>
     (case apply_retention_policy_backfill demo_runtime (\<lambda>_. ''t'') ''site'' ''alpha'' 1 10
        (bd_eligible_attempts pv) (bd_due_attempts pv) demo_candidate_digest ''admin'' None None ''b1'' 20
        demo_backfill_catalog of
      (Inr d, c') \<Rightarrow> demo_candidate_digest = bd_candidate_digest pv \<and> bd_updated_attempts d = bd_eligible_attempts pv
    | (Inl e, c') \<Rightarrow> demo_candidate_digest \<noteq> bd_candidate_digest pv \<and> c' = demo_backfill_catalog)"
proof -
  have "\<not> isl (preview_retention_policy_backfill demo_runtime (\<lambda>_. ''t'') demo_backfill_catalog ''site'' ''alpha''
      1 10 None None 20)" by code_simp
  then obtain pv where pv: "preview_retention_policy_backfill demo_runtime (\<lambda>_. ''t'') demo_backfill_catalog
      ''site'' ''alpha'' 1 10 None None 20 = Inr pv" by (metis isl_def sum.exhaust_sel)
  have ok: "safe_identifier ''admin''" "sha256_hex demo_candidate_digest" by code_simp+
  show ?thesis by (intro exI [of _ pv] conjI pv backfill_preview_apply [OF pv ok])
qed

end
