(* ===== verification/Lifecycle.thy ===== *)
theory Lifecycle
  imports Retention
begin

text \<open>
  Holds and deletion requests, the last part of \<^verbatim>\<open>ingestion.py\<close>.  A hold blocks physical
  erasure; a deletion request fences admission by bumping the attempt's generation and
  queues the erasure; releasing the last hold on a blocked deletion does both.
\<close>

section \<open>Holds\<close>

definition is_active_hold :: "attempt_identity \<Rightarrow> AttemptHold \<Rightarrow> bool" where
  "is_active_hold i h = (ah_identity h = i \<and> ah_state h = HActive)"

definition active_hold_ids :: "catalog \<Rightarrow> attempt_identity \<Rightarrow> string list" where
  "active_hold_ids c i = sort (map ah_hold_id (filter (is_active_hold i) (holds c)))"

definition get_deletion :: "catalog \<Rightarrow> attempt_identity \<Rightarrow> AttemptDeletion option" where
  "get_deletion c i = List.find (\<lambda>d. ad_identity d = i) (deletions c)"

definition get_hold :: "catalog \<Rightarrow> string \<Rightarrow> AttemptHold option" where
  "get_hold c hold_id = List.find (\<lambda>h. ah_hold_id h = hold_id) (holds c)"

abbreviation hold_error :: string where
  "hold_error \<equiv> ''physical erasure blocked by retention hold''"

definition mark_held :: "AttemptDeletion \<Rightarrow> AttemptDeletion" where
  "mark_held d = d\<lparr>ad_state := DHeld, ad_lease_owner := None, ad_lease_expires_at := None,
     ad_last_error := Some hold_error, ad_completed_at := None\<rparr>"

definition upd_deletion :: "attempt_identity \<Rightarrow> (AttemptDeletion \<Rightarrow> AttemptDeletion) \<Rightarrow> catalog \<Rightarrow> catalog" where
  "upd_deletion i f c = c\<lparr>deletions := upd_where (\<lambda>d. ad_identity d = i) f (deletions c)\<rparr>"

definition upd_generation :: "attempt_identity \<Rightarrow> (AttemptGeneration \<Rightarrow> AttemptGeneration) \<Rightarrow> catalog \<Rightarrow> catalog" where
  "upd_generation i f c = c\<lparr>generations := upd_where (\<lambda>g. ag_identity g = i) f (generations c)\<rparr>"

definition place_hold_txn ::
  "attempt_identity \<Rightarrow> string \<Rightarrow> string \<Rightarrow> string \<Rightarrow> instant \<Rightarrow> catalog \<Rightarrow> unit result \<times> catalog" where
  "place_hold_txn i hold_id reason actor now c =
     (if get_attempt_record c i = None \<and> get_generation c i = None
      then (Inl (ValueError ''cannot hold an unknown attempt''), c)
      else if (case get_deletion c i of None \<Rightarrow> False | Some d \<Rightarrow> ad_state d = DCompleted)
      then (Inl (ValueError ''cannot hold an attempt after erasure completed''), c)
      else (case get_hold c hold_id of
          Some existing \<Rightarrow>
            if ah_identity existing \<noteq> i \<or> ah_reason existing \<noteq> reason
            then (Inl (ValueError ''hold_id is already bound to different hold data''), c)
            else if ah_state existing \<noteq> HActive
            then (Inl (ValueError ''a released hold_id cannot be reused''), c)
            else (Inr (), c)
        | None \<Rightarrow>
            (let h = \<lparr>ah_hold_id = hold_id, ah_tenant_id = fst i, ah_cluster_id = fst (snd i),
                   ah_attempt_id = snd (snd i), ah_reason = reason, ah_placed_by_credential_id = actor,
                   ah_released_by_credential_id = None, ah_state = HActive, ah_placed_at = now,
                   ah_released_at = None\<rparr>;
                 c' = c\<lparr>holds := holds c @ [h]\<rparr>
             in (Inr (), if get_deletion c i = None then c' else upd_deletion i mark_held c'))))"

definition place_attempt_hold ::
  "attempt_identity \<Rightarrow> string \<Rightarrow> string \<Rightarrow> string \<Rightarrow> instant \<Rightarrow> catalog \<Rightarrow> unit result \<times> catalog" where
  "place_attempt_hold i hold_id raw_reason actor now c =
     (let reason = str_strip raw_reason in
      if \<not> canonical_uuid hold_id then (Inl (ValueError ''hold_id must be a canonical UUID''), c)
      else if reason = [] \<or> length reason > 512
      then (Inl (ValueError ''hold reason must contain between 1 and 512 characters''), c)
      else if \<not> safe_identifier actor then (Inl (ValueError ''placing credential ID is invalid''), c)
      else begin_txn (place_hold_txn i hold_id reason actor now) c)"

text \<open>\<open>expected\<close> is the scope the HTTP handler binds the release to, \<open>None\<close> for internal callers.\<close>

definition requeue_deletion :: "int \<Rightarrow> AttemptDeletion \<Rightarrow> AttemptDeletion" where
  "requeue_deletion generation d = d\<lparr>ad_deletion_generation := generation, ad_state := DPending,
     ad_attempts := 0, ad_lease_owner := None, ad_lease_expires_at := None, ad_last_error := None,
     ad_completed_at := None\<rparr>"

text \<open>The generation after fencing, and the catalogue with the fenced generation row.\<close>

definition fence_generation :: "attempt_identity \<Rightarrow> instant \<Rightarrow> catalog \<Rightarrow> AttemptGeneration \<times> catalog" where
  "fence_generation i now c =
     (case get_generation c i of
        None \<Rightarrow> (let g = make_generation i 1 (Some now) in (g, c\<lparr>generations := generations c @ [g]\<rparr>))
      | Some g \<Rightarrow>
          if ag_deleted_at g = None
          then (let g' = g\<lparr>ag_generation := ag_generation g + 1, ag_deleted_at := Some now\<rparr>
                in (g', upd_generation i (\<lambda>_. g') c))
          else (g, c))"

definition release_hold_txn ::
  "string \<Rightarrow> string \<Rightarrow> attempt_identity option \<Rightarrow> instant \<Rightarrow> instant \<Rightarrow> catalog \<Rightarrow> bool result \<times> catalog" where
  "release_hold_txn hold_id actor expected released_at now c =
     (case get_hold c hold_id of
        None \<Rightarrow> (Inl (ValueError ''retention hold does not exist''), c)
      | Some hold \<Rightarrow>
          if (case expected of None \<Rightarrow> False | Some i \<Rightarrow> ah_identity hold \<noteq> i)
          then (Inl (ValueError ''retention hold does not exist''), c)
          else if ah_state hold = HReleased then (Inr False, c)
          else
            (let i = ah_identity hold;
                 c1 = c\<lparr>holds := upd_where (\<lambda>h. ah_hold_id h = hold_id)
                         (\<lambda>h. h\<lparr>ah_state := HReleased, ah_released_at := Some released_at,
                                 ah_released_by_credential_id := Some actor\<rparr>) (holds c)\<rparr>
             in if active_hold_ids c1 i \<noteq> [] then (Inr True, c1)
                else (case get_deletion c1 i of
                    None \<Rightarrow> (Inr True, c1)
                  | Some d \<Rightarrow>
                      if ad_state d \<noteq> DHeld then (Inr True, c1)
                      else (let (g, c2) = fence_generation i now c1
                            in (Inr True, upd_deletion i (requeue_deletion (ag_generation g)) c2)))))"

definition release_attempt_hold ::
  "string \<Rightarrow> string \<Rightarrow> attempt_identity option \<Rightarrow> instant \<Rightarrow> instant \<Rightarrow> catalog \<Rightarrow> bool result \<times> catalog" where
  "release_attempt_hold hold_id actor expected released_at now c =
     (if \<not> safe_identifier actor then (Inl (ValueError ''releasing credential ID is invalid''), c)
      else begin_txn (release_hold_txn hold_id actor expected released_at now) c)"

section \<open>Deletion requests\<close>

definition make_deletion ::
  "attempt_identity \<Rightarrow> int \<Rightarrow> deletion_state \<Rightarrow> string option \<Rightarrow> instant \<Rightarrow> AttemptDeletion" where
  "make_deletion i generation st err requested_at =
     \<lparr>ad_tenant_id = fst i, ad_cluster_id = fst (snd i), ad_attempt_id = snd (snd i),
      ad_deletion_generation = generation, ad_state = st, ad_attempts = 0, ad_lease_owner = None,
      ad_lease_generation = 0, ad_lease_expires_at = None, ad_deleted_segment_objects = 0,
      ad_retained_shared_objects = 0, ad_deleted_report_objects = 0, ad_deleted_catalog_rows = 0,
      ad_last_error = err, ad_requested_at = requested_at, ad_completed_at = None\<rparr>"

definition ensure_generation :: "attempt_identity \<Rightarrow> catalog \<Rightarrow> AttemptGeneration \<times> catalog" where
  "ensure_generation i c =
     (case get_generation c i of
        None \<Rightarrow> (make_generation i 0 None, c\<lparr>generations := generations c @ [make_generation i 0 None]\<rparr>)
      | Some g \<Rightarrow> (g, c))"

definition delete_blocked :: "attempt_identity \<Rightarrow> instant \<Rightarrow> catalog \<Rightarrow> int \<times> catalog" where
  "delete_blocked i now c =
     (let (g, c1) = ensure_generation i c
      in (ag_generation g,
          case get_deletion c1 i of
            None \<Rightarrow> c1\<lparr>deletions := deletions c1 @
                     [make_deletion i (ag_generation g) DHeld (Some hold_error) now]\<rparr>
          | Some d \<Rightarrow> if ad_state d \<noteq> DCompleted then upd_deletion i mark_held c1 else c1))"

definition restart_deletion :: "int \<Rightarrow> instant option \<Rightarrow> AttemptDeletion \<Rightarrow> AttemptDeletion" where
  "restart_deletion generation deleted_at d =
     d\<lparr>ad_deletion_generation := generation, ad_state := DPending, ad_attempts := 0,
       ad_lease_owner := None, ad_lease_expires_at := None, ad_last_error := None,
       ad_requested_at := the deleted_at, ad_completed_at := None\<rparr>"

definition delete_unblocked :: "attempt_identity \<Rightarrow> instant \<Rightarrow> catalog \<Rightarrow> int \<times> catalog" where
  "delete_unblocked i now c =
     (let (g, c1) = fence_generation i now c
      in (ag_generation g,
          case get_deletion c1 i of
            None \<Rightarrow> c1\<lparr>deletions := deletions c1 @
                     [make_deletion i (ag_generation g) DPending None (the (ag_deleted_at g))]\<rparr>
          | Some d \<Rightarrow>
              if ad_deletion_generation d \<noteq> ag_generation g
              then upd_deletion i (restart_deletion (ag_generation g) (ag_deleted_at g)) c1
              else c1))"

text \<open>
  The block commits also when holds are found; \<open>DeletionHeldError\<close> is raised after it.
\<close>

definition delete_attempt :: "attempt_identity \<Rightarrow> instant \<Rightarrow> catalog \<Rightarrow> int result \<times> catalog" where
  "delete_attempt i now c =
     (let blocked_holds = active_hold_ids c i in
      if blocked_holds \<noteq> [] then (Inl (DeletionHeldError blocked_holds), snd (delete_blocked i now c))
      else (let (generation, c') = delete_unblocked i now c in (Inr generation, c')))"

section \<open>Generation rows\<close>

text \<open>
  \<open>generations_grow c c'\<close>: no generation row is lost, no generation number goes down and no
  fence is lifted.
\<close>

definition generations_grow :: "catalog \<Rightarrow> catalog \<Rightarrow> bool" where
  "generations_grow c c' = (\<forall>i g. get_generation c i = Some g \<longrightarrow>
     (\<exists>g'. get_generation c' i = Some g' \<and> ag_generation g \<le> ag_generation g'
        \<and> (ag_deleted_at g \<noteq> None \<longrightarrow> ag_deleted_at g' \<noteq> None)))"

lemma generations_grow_refl [simp]: "generations_grow c c"
  by (simp add: generations_grow_def)

lemma generations_grow_same: "generations c' = generations c \<Longrightarrow> generations_grow c c'"
  by (simp add: generations_grow_def get_generation_def)

lemma generations_grow_trans: "generations_grow a b \<Longrightarrow> generations_grow b c \<Longrightarrow> generations_grow a c"
  unfolding generations_grow_def by (meson order_trans)

lemma get_generation_append:
  "get_generation (c\<lparr>generations := generations c @ [g]\<rparr>) i =
     (case get_generation c i of None \<Rightarrow> if ag_identity g = i then Some g else None | Some x \<Rightarrow> Some x)"
  by (auto simp: get_generation_def find_append_None find_append_Some split: option.splits)

lemma generations_grow_append: "generations_grow c (c\<lparr>generations := generations c @ [g]\<rparr>)"
  by (auto simp: generations_grow_def get_generation_append)

lemma generations_grow_touched:
  "touched_generations c i gs \<Longrightarrow> generations_grow c (c\<lparr>generations := gs\<rparr>)"
  by (auto simp: touched_generations_def generations_grow_append intro: generations_grow_same)

lemma get_generation_identity: "get_generation c i = Some g \<Longrightarrow> ag_identity g = i"
  by (auto simp: get_generation_def dest: find_Some_iff)

lemma get_generation_upd:
  assumes "ag_identity g' = i"
  shows "get_generation (upd_generation i (\<lambda>_. g') c) j =
    (if j = i then map_option (\<lambda>_. g') (get_generation c j) else get_generation c j)"
proof -
  have "get_generation (upd_generation i (\<lambda>_. g') c) j =
      map_option (\<lambda>g. if ag_identity g = i then g' else g) (get_generation c j)"
    unfolding get_generation_def upd_generation_def using assms by (simp, subst find_upd_where) auto
  then show ?thesis using get_generation_identity [of c j] by (cases "get_generation c j") auto
qed

lemma upd_deletion_simps [simp]:
  "holds (upd_deletion i f c) = holds c" "generations (upd_deletion i f c) = generations c"
  "manifests (upd_deletion i f c) = manifests c"
  "deletions (upd_deletion i f c) = upd_where (\<lambda>d. ad_identity d = i) f (deletions c)"
  "get_generation (upd_deletion i f c) j = get_generation c j"
  "active_hold_ids (upd_deletion i f c) j = active_hold_ids c j"
  by (simp_all add: upd_deletion_def get_generation_def active_hold_ids_def)

lemma fence_generation_cases:
  assumes "fence_generation i now c = (g, c')"
  shows "get_generation c' i = Some g" "ag_deleted_at g \<noteq> None" "generations_grow c c'"
    "\<exists>gs. c' = c\<lparr>generations := gs\<rparr>"
    "\<And>j. j \<noteq> i \<Longrightarrow> get_generation c' j = get_generation c j"
proof -
  consider (new) "get_generation c i = None" "g = make_generation i 1 (Some now)"
      "c' = c\<lparr>generations := generations c @ [g]\<rparr>"
    | (bump) g0 where "get_generation c i = Some g0" "ag_deleted_at g0 = None"
      "g = g0\<lparr>ag_generation := ag_generation g0 + 1, ag_deleted_at := Some now\<rparr>"
      "c' = upd_generation i (\<lambda>_. g) c"
    | (fenced) "get_generation c i = Some g" "ag_deleted_at g \<noteq> None" "c' = c"
    using assms by (auto simp: fence_generation_def Let_def split: option.splits if_splits)
  note cs = this
  from cs have "get_generation c' i = Some g \<and> ag_deleted_at g \<noteq> None \<and> generations_grow c c'
    \<and> (\<exists>gs. c' = c\<lparr>generations := gs\<rparr>) \<and> (\<forall>j. j \<noteq> i \<longrightarrow> get_generation c' j = get_generation c j)"
  proof cases
    case new
    then show ?thesis
      by (auto simp: get_generation_append generations_grow_append split: option.splits)
  next
    case (bump g0)
    then have id: "ag_identity g = i" using get_generation_identity by (auto simp: ag_identity_def)
    note get = get_generation_upd [OF id, of c]
    have "generations_grow c c'" unfolding generations_grow_def
    proof (intro allI impI)
      fix j x assume x: "get_generation c j = Some x"
      show "\<exists>g'. get_generation c' j = Some g' \<and> ag_generation x \<le> ag_generation g'
          \<and> (ag_deleted_at x \<noteq> None \<longrightarrow> ag_deleted_at g' \<noteq> None)"
        using x bump get [of j] by (cases "j = i") auto
    qed
    with bump get show ?thesis by (auto simp: upd_generation_def)
  next
    case fenced
    then show ?thesis by (auto intro: exI [of _ "generations c"])
  qed
  then show "get_generation c' i = Some g" "ag_deleted_at g \<noteq> None" "generations_grow c c'"
    "\<exists>gs. c' = c\<lparr>generations := gs\<rparr>" "\<And>j. j \<noteq> i \<Longrightarrow> get_generation c' j = get_generation c j" by auto
qed

section \<open>Invariants\<close>

text \<open>
  A deletion that is not held works on a fenced attempt, under the current generation; and an
  attempt with an active hold has no deletion that could erase anything.
\<close>

definition fence_of :: "catalog \<Rightarrow> AttemptDeletion \<Rightarrow> bool" where
  "fence_of c d = (case get_generation c (ad_identity d) of None \<Rightarrow> False
     | Some g \<Rightarrow> ag_deleted_at g \<noteq> None \<and> ag_generation g = ad_deletion_generation d)"

lemma fence_of_cong:
  "ad_identity d' = ad_identity d \<Longrightarrow> ad_deletion_generation d' = ad_deletion_generation d
     \<Longrightarrow> fence_of c d' = fence_of c d"
  by (simp add: fence_of_def split: option.splits)

definition deletions_fenced :: "catalog \<Rightarrow> bool" where
  "deletions_fenced c = (\<forall>d \<in> set (deletions c). ad_state d \<noteq> DHeld \<longrightarrow> fence_of c d)"

definition holds_block :: "catalog \<Rightarrow> bool" where
  "holds_block c = (\<forall>d \<in> set (deletions c). active_hold_ids c (ad_identity d) \<noteq> [] \<longrightarrow> ad_state d = DHeld)"

definition lifecycle_keys :: "catalog \<Rightarrow> bool" where
  "lifecycle_keys c = (distinct (map ad_identity (deletions c)) \<and> distinct (map ah_hold_id (holds c)))"

definition lifecycle_ok :: "catalog \<Rightarrow> bool" where
  "lifecycle_ok c = (lifecycle_keys c \<and> deletions_fenced c \<and> holds_block c)"

lemma active_hold_ids_Nil: "active_hold_ids c i = [] \<longleftrightarrow> (\<forall>h \<in> set (holds c). \<not> is_active_hold i h)"
proof -
  have "active_hold_ids c i = [] \<longleftrightarrow> filter (is_active_hold i) (holds c) = []"
    by (simp add: active_hold_ids_def) (metis length_0_conv length_map length_sort)
  then show ?thesis by (simp add: filter_empty_conv)
qed

lemma active_hold_ids_cong: "holds c' = holds c \<Longrightarrow> active_hold_ids c' i = active_hold_ids c i"
  by (simp add: active_hold_ids_def)

text \<open>Only the four tables matter to \<open>lifecycle_ok\<close>.\<close>

lemma lifecycle_ok_cong:
  assumes "holds c' = holds c" "deletions c' = deletions c" "generations c' = generations c"
  shows "lifecycle_ok c' = lifecycle_ok c"
  using assms by (simp add: lifecycle_ok_def lifecycle_keys_def deletions_fenced_def holds_block_def
      fence_of_def get_generation_def active_hold_ids_def)

lemma lifecycle_ok_generations:
  assumes "lifecycle_ok c" "touched_generations c i gs"
  shows "lifecycle_ok (c\<lparr>generations := gs\<rparr>)"
proof -
  have "fence_of (c\<lparr>generations := gs\<rparr>) d" if "fence_of c d" for d
    using assms(2) that
    by (auto simp: touched_generations_def fence_of_def get_generation_append split: option.splits)
  with assms(1) show ?thesis
    by (auto simp: lifecycle_ok_def lifecycle_keys_def deletions_fenced_def holds_block_def
        active_hold_ids_def)
qed

lemma mark_held_simps [simp]: "ad_state (mark_held d) = DHeld" "ad_identity (mark_held d) = ad_identity d"
  by (simp_all add: mark_held_def ad_identity_def)

text \<open>Rewriting the deletion row of one attempt.\<close>

lemma lifecycle_ok_upd_deletion:
  assumes ok: "lifecycle_ok c"
    and f: "\<And>d. ad_identity (f d) = ad_identity d"
    and st: "\<And>d. d \<in> set (deletions c) \<Longrightarrow> ad_identity d = i \<Longrightarrow> ad_state (f d) \<noteq> DHeld \<Longrightarrow> fence_of c (f d)"
    and hold: "\<And>d. d \<in> set (deletions c) \<Longrightarrow> ad_identity d = i \<Longrightarrow> active_hold_ids c i \<noteq> [] \<Longrightarrow> ad_state (f d) = DHeld"
  shows "lifecycle_ok (upd_deletion i f c)"
proof -
  have keys: "lifecycle_keys (upd_deletion i f c)"
    using ok map_upd_where [of _ ad_identity f "deletions c"] f
    by (simp add: lifecycle_ok_def lifecycle_keys_def)
  have member: "\<exists>d0 \<in> set (deletions c). d = (if ad_identity d0 = i then f d0 else d0)"
    if "d \<in> set (deletions (upd_deletion i f c))" for d
    using that by (auto simp: set_upd_where)
  have "deletions_fenced (upd_deletion i f c)"
    unfolding deletions_fenced_def
  proof (intro ballI impI)
    fix d assume "d \<in> set (deletions (upd_deletion i f c))" "ad_state d \<noteq> DHeld"
    with member [of d] st ok show "fence_of (upd_deletion i f c) d"
      by (auto simp: fence_of_def lifecycle_ok_def deletions_fenced_def split: if_splits)
  qed
  moreover have "holds_block (upd_deletion i f c)"
    unfolding holds_block_def
  proof (intro ballI impI)
    fix d assume "d \<in> set (deletions (upd_deletion i f c))" "active_hold_ids (upd_deletion i f c) (ad_identity d) \<noteq> []"
    with member [of d] hold ok f show "ad_state d = DHeld"
      by (auto simp: lifecycle_ok_def holds_block_def split: if_splits)
  qed
  ultimately show ?thesis using keys by (simp add: lifecycle_ok_def)
qed

lemma lifecycle_ok_add_deletion:
  assumes ok: "lifecycle_ok c" and new: "\<forall>x \<in> set (deletions c). ad_identity x \<noteq> ad_identity d"
    and st: "ad_state d \<noteq> DHeld \<Longrightarrow> fence_of c d"
    and hold: "active_hold_ids c (ad_identity d) \<noteq> [] \<Longrightarrow> ad_state d = DHeld"
  shows "lifecycle_ok (c\<lparr>deletions := deletions c @ [d]\<rparr>)"
proof -
  have same: "fence_of (c\<lparr>deletions := ds\<rparr>) x = fence_of c x"
    "active_hold_ids (c\<lparr>deletions := ds\<rparr>) j = active_hold_ids c j" for ds x j
    by (simp_all add: fence_of_def get_generation_def active_hold_ids_def)
  from ok new st hold show ?thesis
    by (auto simp: lifecycle_ok_def lifecycle_keys_def deletions_fenced_def holds_block_def same)
qed

section \<open>The operations keep the invariants\<close>

lemma get_deletion_Some: "get_deletion c i = Some d \<Longrightarrow> d \<in> set (deletions c) \<and> ad_identity d = i"
  by (auto simp: get_deletion_def dest: find_Some_iff)

lemma get_deletion_None: "get_deletion c i = None \<Longrightarrow> \<forall>d \<in> set (deletions c). ad_identity d \<noteq> i"
  by (simp add: get_deletion_def find_None_all)

lemma get_deletion_unique:
  "lifecycle_ok c \<Longrightarrow> d \<in> set (deletions c) \<Longrightarrow> get_deletion c (ad_identity d) = Some d"
  by (simp add: get_deletion_def lifecycle_ok_def lifecycle_keys_def find_unique_key)

lemma get_deletion_cong: "deletions c' = deletions c \<Longrightarrow> get_deletion c' i = get_deletion c i"
  by (simp add: get_deletion_def)

lemma get_deletion_upd:
  assumes "\<And>d. ad_identity (f d) = ad_identity d"
  shows "get_deletion (upd_deletion i f c) j =
    (if j = i then map_option f (get_deletion c j) else get_deletion c j)"
proof -
  have "get_deletion (upd_deletion i f c) j =
      map_option (\<lambda>d. if ad_identity d = i then f d else d) (get_deletion c j)"
    unfolding get_deletion_def upd_deletion_simps by (rule find_upd_where) (simp add: assms)
  then show ?thesis using get_deletion_Some [of c j] by (cases "get_deletion c j") auto
qed

lemma ad_identity_make [simp]: "ad_identity (make_deletion i n st e t) = i"
  by (simp add: make_deletion_def ad_identity_def)

lemma make_deletion_simps [simp]: "ad_state (make_deletion i n st e t) = st"
  "ad_deletion_generation (make_deletion i n st e t) = n"
  by (simp_all add: make_deletion_def)

lemma fence_generation_ok:
  assumes ok: "lifecycle_ok c" and f: "fence_generation i now c = (g, c')"
    and held: "\<And>d. d \<in> set (deletions c) \<Longrightarrow> ad_identity d = i \<Longrightarrow> ad_state d = DHeld \<or> fence_of c' d"
  shows "lifecycle_ok c'"
proof -
  note fc = fence_generation_cases [OF f]
  from fc(4) obtain gs where c': "c' = c\<lparr>generations := gs\<rparr>" by blast
  have "fence_of c' d" if "d \<in> set (deletions c)" "ad_state d \<noteq> DHeld" for d
  proof (cases "ad_identity d = i")
    case True
    with held that show ?thesis by blast
  next
    case False
    with ok that fc(5) show ?thesis by (simp add: lifecycle_ok_def deletions_fenced_def fence_of_def)
  qed
  with ok show ?thesis
    by (auto simp: c' lifecycle_ok_def lifecycle_keys_def deletions_fenced_def holds_block_def active_hold_ids_def)
qed

lemma restart_deletion_simps [simp]:
  "ad_identity (restart_deletion n t d) = ad_identity d" "ad_state (restart_deletion n t d) = DPending"
  "ad_deletion_generation (restart_deletion n t d) = n"
  "ad_identity (requeue_deletion n d) = ad_identity d" "ad_state (requeue_deletion n d) = DPending"
  "ad_deletion_generation (requeue_deletion n d) = n"
  by (simp_all add: restart_deletion_def requeue_deletion_def ad_identity_def)

lemma mark_held_member:
  assumes "d \<in> set (deletions (upd_deletion i mark_held c))" "ad_identity d = i"
  shows "ad_state d = DHeld"
  using assms(1) unfolding upd_deletion_simps
  by (rule upd_where_member) (use assms(2) in simp_all)

lemma ensure_generation_touched:
  assumes "ensure_generation i c = (g, c')"
  obtains gs where "c' = c\<lparr>generations := gs\<rparr>" "touched_generations c i gs" "get_generation c' i = Some g"
    "get_generation c i = Some g \<or> g = make_generation i 0 None"
proof (cases "get_generation c i")
  case None
  with assms that show ?thesis
    by (auto simp: ensure_generation_def touched_generations_def get_generation_append)
next
  case (Some g0)
  with assms that [of "generations c"] show ?thesis
    by (auto simp: ensure_generation_def touched_generations_def)
qed

lemma delete_blocked_ok:
  assumes ok: "lifecycle_ok c" and act: "active_hold_ids c i \<noteq> []"
  shows "lifecycle_ok (snd (delete_blocked i now c))"
proof -
  obtain g c1 where e: "ensure_generation i c = (g, c1)" by fastforce
  then obtain gs where c1: "c1 = c\<lparr>generations := gs\<rparr>" "touched_generations c i gs"
    by (rule ensure_generation_touched)
  with ok have ok1: "lifecycle_ok c1" by (simp add: lifecycle_ok_generations)
  show ?thesis
  proof (cases "get_deletion c1 i")
    case None
    have "lifecycle_ok (c1\<lparr>deletions := deletions c1 @ [make_deletion i (ag_generation g) DHeld (Some hold_error) now]\<rparr>)"
      by (rule lifecycle_ok_add_deletion [OF ok1]) (use get_deletion_None [OF None] in simp_all)
    with None show ?thesis by (simp add: delete_blocked_def e)
  next
    case (Some d)
    from ok1 have "lifecycle_ok (upd_deletion i mark_held c1)"
      by (rule lifecycle_ok_upd_deletion) simp_all
    with Some ok1 show ?thesis by (simp add: delete_blocked_def e)
  qed
qed

lemma delete_unblocked_ok:
  assumes ok: "lifecycle_ok c" and act: "active_hold_ids c i = []"
  shows "lifecycle_ok (snd (delete_unblocked i now c))"
proof -
  obtain g c1 where f: "fence_generation i now c = (g, c1)" by fastforce
  note fc = fence_generation_cases [OF f]
  from fc(4) obtain gs where c1: "c1 = c\<lparr>generations := gs\<rparr>" by blast
  have act1: "active_hold_ids c1 i = []" using act by (simp add: c1 active_hold_ids_def)
  have del: "get_deletion c1 i = get_deletion c i" "deletions c1 = deletions c"
    by (simp_all add: c1 get_deletion_def)
  show ?thesis
  proof (cases "get_deletion c i")
    case None
    have "lifecycle_ok c1"
      by (rule fence_generation_ok [OF ok f]) (use get_deletion_None [OF None] in blast)
    then have "lifecycle_ok (c1\<lparr>deletions := deletions c1
        @ [make_deletion i (ag_generation g) DPending None (the (ag_deleted_at g))]\<rparr>)"
      by (rule lifecycle_ok_add_deletion)
         (use get_deletion_None [OF None] del fc(1,2) act1 in \<open>simp_all add: fence_of_def\<close>)
    with None del show ?thesis by (simp add: delete_unblocked_def f)
  next
    case (Some d)
    note d = get_deletion_Some [OF Some]
    have uniq: "d' = d" if "d' \<in> set (deletions c)" "ad_identity d' = i" for d'
      using get_deletion_unique [OF ok that(1)] that Some by simp
    show ?thesis
    proof (cases "ad_deletion_generation d = ag_generation g")
      case True
      have "fence_of c1 d" using d True fc(1,2) by (simp add: fence_of_def)
      then have "lifecycle_ok c1"
        using uniq by (intro fence_generation_ok [OF ok f]) blast
      with True Some show ?thesis by (simp add: delete_unblocked_def f del)
    next
      case False
      let ?f = "restart_deletion (ag_generation g) (ag_deleted_at g)"
      have step: "lifecycle_ok (upd_deletion i ?f c1)"
      proof -
        have eq: "upd_deletion i ?f c1 = (upd_deletion i ?f (upd_deletion i mark_held c1))"
          by (simp add: upd_deletion_def upd_where_def restart_deletion_def mark_held_def ad_identity_def cong: map_cong)
        have "lifecycle_ok (upd_deletion i mark_held c)"
          using ok by (rule lifecycle_ok_upd_deletion) simp_all
        moreover have "fence_generation i now (upd_deletion i mark_held c) = (g, upd_deletion i mark_held c1)"
          using f by (auto simp: fence_generation_def upd_deletion_def get_generation_def upd_generation_def Let_def
              split: option.splits if_splits)
        ultimately have "lifecycle_ok (upd_deletion i mark_held c1)"
          by (rule fence_generation_ok) (blast dest: mark_held_member)
        then have "lifecycle_ok (upd_deletion i ?f (upd_deletion i mark_held c1))"
          by (rule lifecycle_ok_upd_deletion)
             (use fc(1,2) act1 in \<open>simp_all add: fence_of_def\<close>)
        then show ?thesis by (simp only: eq [symmetric])
      qed
      with False Some show ?thesis by (simp add: delete_unblocked_def f del)
    qed
  qed
qed

lemma delete_attempt_ok:
  assumes "lifecycle_ok c" "delete_attempt i now c = (r, c')"
  shows "lifecycle_ok c'"
  using assms delete_blocked_ok [OF assms(1), of i now] delete_unblocked_ok [OF assms(1), of i now]
  by (auto simp: delete_attempt_def Let_def split: if_splits prod.splits)

lemma lifecycle_ok_add_hold:
  assumes ok: "lifecycle_ok c" and fresh: "\<forall>x \<in> set (holds c). ah_hold_id x \<noteq> ah_hold_id h"
    and held: "\<And>d. d \<in> set (deletions c) \<Longrightarrow> ad_identity d = ah_identity h \<Longrightarrow> ad_state d = DHeld"
  shows "lifecycle_ok (c\<lparr>holds := holds c @ [h]\<rparr>)"
proof -
  let ?c = "c\<lparr>holds := holds c @ [h]\<rparr>"
  have f: "fence_of ?c d = fence_of c d" for d by (simp add: fence_of_def get_generation_def)
  have act: "active_hold_ids ?c i = [] \<longleftrightarrow> active_hold_ids c i = [] \<and> \<not> is_active_hold i h" for i
    by (auto simp: active_hold_ids_Nil)
  have keys: "lifecycle_keys ?c" using ok fresh by (auto simp: lifecycle_ok_def lifecycle_keys_def)
  have "holds_block ?c" unfolding holds_block_def
  proof (intro ballI impI)
    fix d assume d: "d \<in> set (deletions ?c)" "active_hold_ids ?c (ad_identity d) \<noteq> []"
    then consider "active_hold_ids c (ad_identity d) \<noteq> []" | "is_active_hold (ad_identity d) h"
      using act by blast
    then show "ad_state d = DHeld"
    proof cases
      case 1
      with ok d(1) show ?thesis by (simp add: lifecycle_ok_def holds_block_def)
    next
      case 2
      with held [of d] d(1) show ?thesis by (simp add: is_active_hold_def)
    qed
  qed
  with ok keys show ?thesis by (simp add: lifecycle_ok_def deletions_fenced_def f)
qed

lemma place_hold_ok:
  assumes ok: "lifecycle_ok c" and p: "place_hold_txn i hold_id reason actor now c = (Inr u, c')"
  shows "lifecycle_ok c'"
proof (cases "get_hold c hold_id")
  case (Some x)
  with ok p show ?thesis by (auto simp: place_hold_txn_def split: if_splits)
next
  case None
  let ?h = "\<lparr>ah_hold_id = hold_id, ah_tenant_id = fst i, ah_cluster_id = fst (snd i),
    ah_attempt_id = snd (snd i), ah_reason = reason, ah_placed_by_credential_id = actor,
    ah_released_by_credential_id = None, ah_state = HActive, ah_placed_at = now, ah_released_at = None\<rparr>"
  have id: "ah_identity ?h = i" by (simp add: ah_identity_def)
  from None have fresh: "\<forall>x \<in> set (holds c). ah_hold_id x \<noteq> ah_hold_id ?h"
    by (simp add: get_hold_def find_None_all)
  from p None have c': "c' = (if get_deletion c i = None then c\<lparr>holds := holds c @ [?h]\<rparr>
      else upd_deletion i mark_held (c\<lparr>holds := holds c @ [?h]\<rparr>))"
    by (auto simp: place_hold_txn_def Let_def split: if_splits)
  show ?thesis
  proof (cases "get_deletion c i")
    case None
    have "lifecycle_ok (c\<lparr>holds := holds c @ [?h]\<rparr>)"
      by (rule lifecycle_ok_add_hold [OF ok fresh]) (use get_deletion_None [OF None] in \<open>simp add: id\<close>)
    with None show ?thesis by (simp add: c')
  next
    case (Some d)
    let ?m = "upd_deletion i mark_held c"
    have "lifecycle_ok ?m" using ok by (rule lifecycle_ok_upd_deletion) simp_all
    then have "lifecycle_ok (?m\<lparr>holds := holds ?m @ [?h]\<rparr>)"
      by (rule lifecycle_ok_add_hold) (use fresh id mark_held_member [of _ i c] in auto)
    moreover have "c' = ?m\<lparr>holds := holds ?m @ [?h]\<rparr>" using Some by (simp add: c' upd_deletion_def)
    ultimately show ?thesis by simp
  qed
qed

lemma lifecycle_ok_release:
  assumes ok: "lifecycle_ok c"
    and f: "\<And>h. ah_hold_id (f h) = ah_hold_id h" "\<And>h. ah_identity (f h) = ah_identity h"
      "\<And>h. ah_state (f h) = HReleased"
  shows "lifecycle_ok (c\<lparr>holds := upd_where P f (holds c)\<rparr>)"
proof -
  let ?c = "c\<lparr>holds := upd_where P f (holds c)\<rparr>"
  have act: "active_hold_ids c i = [] \<Longrightarrow> active_hold_ids ?c i = []" for i
    by (auto simp: active_hold_ids_Nil set_upd_where is_active_hold_def f)
  have "map ah_hold_id (holds ?c) = map ah_hold_id (holds c)" by (simp add: map_upd_where f)
  moreover have "holds_block ?c"
    unfolding holds_block_def
  proof (intro ballI impI)
    fix d assume "d \<in> set (deletions ?c)" "active_hold_ids ?c (ad_identity d) \<noteq> []"
    with act [of "ad_identity d"] ok show "ad_state d = DHeld"
      by (simp add: lifecycle_ok_def holds_block_def) blast
  qed
  moreover have "fence_of ?c d = fence_of c d" for d by (simp add: fence_of_def get_generation_def)
  ultimately show ?thesis using ok by (simp add: lifecycle_ok_def lifecycle_keys_def deletions_fenced_def)
qed

text \<open>The state reached when a release finds no further hold on a blocked deletion.\<close>

lemma release_hold_Inr:
  assumes "release_hold_txn hold_id actor expected at now c = (Inr b, c')"
  obtains (noop) "c' = c" "\<not> b"
  | (kept) hold c1 where "get_hold c hold_id = Some hold" "b" "ah_state hold \<noteq> HReleased"
      "c1 = c\<lparr>holds := upd_where (\<lambda>h. ah_hold_id h = hold_id)
         (\<lambda>h. h\<lparr>ah_state := HReleased, ah_released_at := Some at,
            ah_released_by_credential_id := Some actor\<rparr>) (holds c)\<rparr>" "c' = c1"
      "active_hold_ids c1 (ah_identity hold) \<noteq> [] \<or>
        (\<forall>d. get_deletion c (ah_identity hold) = Some d \<longrightarrow> ad_state d \<noteq> DHeld)"
  | (requeued) hold c1 d g c2 where "get_hold c hold_id = Some hold" "b"
      "c1 = c\<lparr>holds := upd_where (\<lambda>h. ah_hold_id h = hold_id)
         (\<lambda>h. h\<lparr>ah_state := HReleased, ah_released_at := Some at,
            ah_released_by_credential_id := Some actor\<rparr>) (holds c)\<rparr>"
      "active_hold_ids c1 (ah_identity hold) = []" "get_deletion c (ah_identity hold) = Some d"
      "ad_state d = DHeld" "fence_generation (ah_identity hold) now c1 = (g, c2)"
      "c' = upd_deletion (ah_identity hold) (requeue_deletion (ag_generation g)) c2"
proof -
  from assms obtain hold where hold: "get_hold c hold_id = Some hold"
    by (auto simp: release_hold_txn_def split: option.splits)
  let ?c1 = "c\<lparr>holds := upd_where (\<lambda>h. ah_hold_id h = hold_id)
         (\<lambda>h. h\<lparr>ah_state := HReleased, ah_released_at := Some at,
            ah_released_by_credential_id := Some actor\<rparr>) (holds c)\<rparr>"
  have del: "get_deletion ?c1 j = get_deletion c j" for j by (simp add: get_deletion_def)
  have ok: "\<not> (case expected of None \<Rightarrow> False | Some i \<Rightarrow> ah_identity hold \<noteq> i)"
    using assms hold by (intro notI) (simp add: release_hold_txn_def)
  obtain g c2 where f: "fence_generation (ah_identity hold) now ?c1 = (g, c2)" by fastforce
  show ?thesis
  proof (cases "ah_state hold = HReleased")
    case True
    with assms hold ok noop show ?thesis by (auto simp: release_hold_txn_def)
  next
    case False
    show ?thesis
    proof (cases "active_hold_ids ?c1 (ah_identity hold) \<noteq> []
        \<or> (\<forall>d. get_deletion c (ah_identity hold) = Some d \<longrightarrow> ad_state d \<noteq> DHeld)")
      case True
      with False assms hold ok kept [OF hold _ False refl _ True] show ?thesis
        by (auto simp: release_hold_txn_def Let_def del split: option.splits if_splits)
    next
      case q: False
      then obtain d where d: "get_deletion c (ah_identity hold) = Some d" "ad_state d = DHeld" by blast
      with q False assms hold ok f requeued [OF hold _ refl _ d f] show ?thesis
        by (auto simp: release_hold_txn_def Let_def del split: if_splits)
    qed
  qed
qed

lemma release_hold_ok:
  assumes ok: "lifecycle_ok c" and p: "release_hold_txn hold_id actor expected at now c = (Inr b, c')"
  shows "lifecycle_ok c'"
  using p
proof (cases rule: release_hold_Inr)
  case noop
  with ok show ?thesis by simp
next
  case (kept hold c1)
  with ok show ?thesis by (simp add: lifecycle_ok_release ah_identity_def)
next
  case (requeued hold c1 d g c2)
  let ?i = "ah_identity hold"
  have ok1: "lifecycle_ok c1" unfolding requeued(3)
    by (rule lifecycle_ok_release [OF ok]) (simp_all add: ah_identity_def)
  note fc = fence_generation_cases [OF requeued(7)]
  from fc(4) obtain gs where c2: "c2 = c1\<lparr>generations := gs\<rparr>" by blast
  have held: "x = d" if "x \<in> set (deletions c1)" "ad_identity x = ?i" for x
    using get_deletion_unique [OF ok, of x] that requeued(3,5) by simp
  have "lifecycle_ok c2"
    by (rule fence_generation_ok [OF ok1 requeued(7)]) (use held requeued(6) in blast)
  moreover have "active_hold_ids c2 ?i = []" using requeued(4) by (simp add: c2 active_hold_ids_def)
  ultimately show ?thesis unfolding requeued(8)
    using fc(1,2) by (intro lifecycle_ok_upd_deletion) (simp_all add: fence_of_def)
qed

section \<open>Generations only grow\<close>

lemma delete_attempt_grows: "delete_attempt i now c = (r, c') \<Longrightarrow> generations_grow c c'"
proof (cases "active_hold_ids c i = []")
  case True
  assume a: "delete_attempt i now c = (r, c')"
  obtain g c1 where f: "fence_generation i now c = (g, c1)" by fastforce
  from a True f have "generations c' = generations c1"
    by (auto simp: delete_attempt_def delete_unblocked_def split: option.splits if_splits)
  with fence_generation_cases(3) [OF f] show ?thesis
    using generations_grow_same generations_grow_trans by blast
next
  case False
  assume a: "delete_attempt i now c = (r, c')"
  obtain g c1 where e: "ensure_generation i c = (g, c1)" by fastforce
  then obtain gs where "c1 = c\<lparr>generations := gs\<rparr>" "touched_generations c i gs"
    by (rule ensure_generation_touched)
  then have "generations_grow c c1" by (simp add: generations_grow_touched)
  moreover from a False e have "generations c' = generations c1"
    by (auto simp: delete_attempt_def delete_blocked_def split: option.splits if_splits)
  ultimately show ?thesis using generations_grow_same generations_grow_trans by blast
qed

lemma place_hold_grows: "place_hold_txn i hold_id reason actor now c = (Inr u, c') \<Longrightarrow> generations_grow c c'"
  by (auto simp: place_hold_txn_def Let_def intro: generations_grow_same split: if_splits option.splits)

lemma release_hold_grows:
  assumes "release_hold_txn hold_id actor expected at now c = (Inr b, c')"
  shows "generations_grow c c'"
  using assms
proof (cases rule: release_hold_Inr)
  case (requeued hold c1 d g c2)
  have "generations_grow c c1" by (simp add: requeued(3) generations_grow_same)
  moreover have "generations_grow c2 c'" by (simp add: requeued(8) generations_grow_same)
  ultimately show ?thesis using fence_generation_cases(3) [OF requeued(7)] generations_grow_trans by blast
qed (auto intro: generations_grow_same)

section \<open>Which deletion rows a request touches\<close>

lemma get_deletion_append:
  "get_deletion (c\<lparr>deletions := deletions c @ [d]\<rparr>) i =
     (case get_deletion c i of None \<Rightarrow> if ad_identity d = i then Some d else None | Some x \<Rightarrow> Some x)"
  by (auto simp: get_deletion_def find_append_None find_append_Some split: option.splits)

lemma delete_blocked_rows:
  "get_deletion (snd (delete_blocked i now c)) i \<noteq> None
   \<and> (\<forall>j. j \<noteq> i \<longrightarrow> get_deletion (snd (delete_blocked i now c)) j = get_deletion c j)"
proof -
  obtain g c1 where e: "ensure_generation i c = (g, c1)" by fastforce
  then obtain gs where "c1 = c\<lparr>generations := gs\<rparr>" by (rule ensure_generation_touched)
  then have d: "get_deletion c1 j = get_deletion c j" for j by (simp add: get_deletion_def)
  show ?thesis
    by (auto simp: delete_blocked_def e get_deletion_append get_deletion_upd d split: option.splits)
qed

lemma delete_unblocked_rows:
  "get_deletion (snd (delete_unblocked i now c)) i \<noteq> None
   \<and> (\<forall>j. j \<noteq> i \<longrightarrow> get_deletion (snd (delete_unblocked i now c)) j = get_deletion c j)"
proof -
  obtain g c1 where f: "fence_generation i now c = (g, c1)" by fastforce
  from fence_generation_cases(4) [OF f] obtain gs where "c1 = c\<lparr>generations := gs\<rparr>" by blast
  then have d: "get_deletion c1 j = get_deletion c j" for j by (simp add: get_deletion_def)
  show ?thesis
    by (auto simp: delete_unblocked_def f get_deletion_append get_deletion_upd d split: option.splits)
qed

lemma delete_attempt_rows:
  assumes "delete_attempt i now c = (r, c')"
  shows "get_deletion c' i \<noteq> None" "j \<noteq> i \<Longrightarrow> get_deletion c' j = get_deletion c j"
proof -
  have "c' = snd (delete_blocked i now c) \<or> c' = snd (delete_unblocked i now c)"
    using assms by (auto simp: delete_attempt_def Let_def split: if_splits prod.splits)
  then show "get_deletion c' i \<noteq> None" "j \<noteq> i \<Longrightarrow> get_deletion c' j = get_deletion c j"
    using delete_blocked_rows delete_unblocked_rows by metis+
qed

lemma delete_attempt_frame:
  assumes "delete_attempt i now c = (r, c')"
  shows "manifests c' = manifests c" "attempt_records c' = attempt_records c" "reservations c' = reservations c"
    "report_revisions c' = report_revisions c" "gc_candidates c' = gc_candidates c" "outbox c' = outbox c"
    "holds c' = holds c" "policies c' = policies c"
proof -
  obtain g c1 where f: "fence_generation i now c = (g, c1)" by fastforce
  obtain gs where 1: "c1 = c\<lparr>generations := gs\<rparr>" using fence_generation_cases(4) [OF f] by blast
  obtain g' c2 where e: "ensure_generation i c = (g', c2)" by fastforce
  then obtain gs' where 2: "c2 = c\<lparr>generations := gs'\<rparr>" by (rule ensure_generation_touched)
  have "\<exists>gs ds. c' = c\<lparr>generations := gs, deletions := ds\<rparr>"
  proof (cases "active_hold_ids c i = []")
    case True
    with assms have c': "c' = snd (delete_unblocked i now c)" by (auto simp: delete_attempt_def split: prod.splits)
    show ?thesis unfolding c' delete_unblocked_def f
      by (rule exI [of _ gs])
         (auto simp: 1 upd_deletion_def intro: exI [of _ "deletions c"] split: option.splits)
  next
    case False
    with assms have c': "c' = snd (delete_blocked i now c)" by (auto simp: delete_attempt_def Let_def)
    show ?thesis unfolding c' delete_blocked_def e
      by (rule exI [of _ gs'])
         (auto simp: 2 upd_deletion_def intro: exI [of _ "deletions c"] split: option.splits)
  qed
  then show "manifests c' = manifests c" "attempt_records c' = attempt_records c" "reservations c' = reservations c"
    "report_revisions c' = report_revisions c" "gc_candidates c' = gc_candidates c" "outbox c' = outbox c"
    "holds c' = holds c" "policies c' = policies c" by auto
qed

section \<open>Properties of holds and deletion requests\<close>

definition demo_identity :: attempt_identity where
  "demo_identity = (''site'', ''alpha'', ''run-7'')"

definition demo_hold :: AttemptHold where
  "demo_hold = \<lparr>ah_hold_id = ''h1'', ah_tenant_id = ''site'', ah_cluster_id = ''alpha'',
     ah_attempt_id = ''run-7'', ah_reason = ''legal'', ah_placed_by_credential_id = ''admin'',
     ah_released_by_credential_id = None, ah_state = HActive, ah_placed_at = 1, ah_released_at = None\<rparr>"

definition demo_held_catalog :: catalog where
  "demo_held_catalog = empty_catalog\<lparr>holds := [demo_hold], generations := [make_generation demo_identity 0 None]\<rparr>"

definition demo_blocked_catalog :: catalog where
  "demo_blocked_catalog = snd (delete_attempt demo_identity 4 demo_held_catalog)"

lemma demo_lifecycle_ok: "lifecycle_ok demo_held_catalog" "lifecycle_ok demo_blocked_catalog"
  "active_hold_ids demo_held_catalog demo_identity = [''h1'']"
  by code_simp+

lemma demo_blocked_deletion:
  "case get_deletion demo_blocked_catalog demo_identity of None \<Rightarrow> False | Some d \<Rightarrow> ad_state d = DHeld"
  by code_simp



text \<open>C15. Releasing the last hold on a blocked deletion resumes it: the deletion row goes back to
  \<open>pending\<close> with a fresh attempt budget, and in the same transaction the attempt is fenced
  under the generation the row carries.\<close>

theorem release_resumes_deletion:
  assumes "lifecycle_ok c" "release_hold_txn hold_id actor expected at now c = (Inr True, c')"
    "get_hold c hold_id = Some hold" "active_hold_ids c' (ah_identity hold) = []"
    "get_deletion c (ah_identity hold) = Some d" "ad_state d = DHeld"
  shows "\<exists>d' g. get_deletion c' (ah_identity hold) = Some d' \<and> ad_state d' = DPending \<and> ad_attempts d' = 0
     \<and> get_generation c' (ah_identity hold) = Some g \<and> ag_deleted_at g \<noteq> None
     \<and> ad_deletion_generation d' = ag_generation g"
  using assms(2)
proof (cases rule: release_hold_Inr)
  case (requeued hold' c1 d' g c2)
  with assms have eq: "hold' = hold" "d' = d" by auto
  note fc = fence_generation_cases [OF requeued(7)]
  from fc(4) obtain gs where c2: "c2 = c1\<lparr>generations := gs\<rparr>" by blast
  let ?i = "ah_identity hold"
  let ?f = "requeue_deletion (ag_generation g)"
  have "get_deletion c2 ?i = Some d" using assms(5) requeued(3) by (simp add: c2 get_deletion_def)
  then have "get_deletion c' ?i = Some (?f d)"
    unfolding requeued(8) eq by (simp add: get_deletion_upd)
  moreover have "get_generation c' ?i = Some g" using fc(1) by (simp add: requeued(8) eq)
  ultimately show ?thesis using fc(2) by (auto simp: requeue_deletion_def)
qed (use assms in auto)

definition demo_released_catalog :: catalog where
  "demo_released_catalog = snd (release_hold_txn ''h1'' ''admin'' None 5 6 demo_blocked_catalog)"

theorem release_resumes_deletion_witness:
  "\<exists>d' g. get_deletion demo_released_catalog demo_identity = Some d' \<and> ad_state d' = DPending
     \<and> get_generation demo_released_catalog demo_identity = Some g \<and> ad_deletion_generation d' = ag_generation g"
proof -
  have "fst (release_hold_txn ''h1'' ''admin'' None 5 6 demo_blocked_catalog) = Inr True" by code_simp
  then have r: "release_hold_txn ''h1'' ''admin'' None 5 6 demo_blocked_catalog = (Inr True, demo_released_catalog)"
    by (simp add: demo_released_catalog_def prod_eq_iff)
  have h: "get_hold demo_blocked_catalog ''h1'' = Some demo_hold"
    by (simp add: demo_blocked_catalog_def get_hold_def) code_simp
  have i: "ah_identity demo_hold = demo_identity" by (simp add: ah_identity_def demo_hold_def demo_identity_def)
  have "active_hold_ids demo_released_catalog demo_identity = []" by code_simp
  moreover obtain d where "get_deletion demo_blocked_catalog demo_identity = Some d" "ad_state d = DHeld"
    using demo_blocked_deletion by (auto split: option.splits)
  ultimately show ?thesis using release_resumes_deletion [OF demo_lifecycle_ok(2) r h] unfolding i by blast
qed

end
