(* ===== verification/Integrity.thy ===== *)
theory Integrity
  imports Lifecycle
begin

text \<open>
  \<^verbatim>\<open>integrity.py\<close>: which attempts reference an object, the incidents recorded when a
  referenced object is missing or corrupt, their notifications, and the resolution that
  is accepted only once the object is restored or no longer referenced.  The identifiers of new
  rows come from the function \<open>new_id\<close>, the text of an instant from \<open>isoformat\<close>.
\<close>

section \<open>References\<close>

definition live_reservation :: "AdmissionReservation \<Rightarrow> bool" where
  "live_reservation r = (res_state r = Reserved \<or> res_state r = Committed)"

definition object_reference_scopes :: "catalog \<Rightarrow> string \<Rightarrow> attempt_identity list" where
  "object_reference_scopes c key = remdups
     (map mf_identity (filter (\<lambda>m. mf_object_key m = key) (manifests c))
      @ map res_identity (filter (\<lambda>r. res_object_key r = key \<and> live_reservation r) (reservations c))
      @ map rr_identity (filter (\<lambda>r. rr_report_object_key r = key \<or> rr_parquet_object_key r = Some key)
          (report_revisions c)))"

definition object_has_reference :: "catalog \<Rightarrow> string \<Rightarrow> bool" where
  "object_has_reference c key = (object_reference_scopes c key \<noteq> [])"

lemma set_object_reference_scopes:
  "set (object_reference_scopes c key) =
     {mf_identity m | m. m \<in> set (manifests c) \<and> mf_object_key m = key}
   \<union> {res_identity r | r. r \<in> set (reservations c) \<and> res_object_key r = key \<and> live_reservation r}
   \<union> {rr_identity r | r. r \<in> set (report_revisions c)
        \<and> (rr_report_object_key r = key \<or> rr_parquet_object_key r = Some key)}"
  by (auto simp: object_reference_scopes_def)

lemma unreferenced:
  assumes "\<not> object_has_reference c key"
  shows "m \<in> set (manifests c) \<Longrightarrow> mf_object_key m \<noteq> key"
    "r \<in> set (reservations c) \<Longrightarrow> live_reservation r \<Longrightarrow> res_object_key r \<noteq> key"
    "v \<in> set (report_revisions c) \<Longrightarrow> rr_report_object_key v \<noteq> key \<and> rr_parquet_object_key v \<noteq> Some key"
  using assms by (auto simp: object_has_reference_def object_reference_scopes_def filter_empty_conv)

section \<open>Incidents\<close>

definition event_name :: "notification_event \<Rightarrow> string" where
  "event_name e = (case e of IncidentDetected \<Rightarrow> ''integrity.incident.detected''
     | IncidentResolved \<Rightarrow> ''integrity.incident.resolved'')"

definition category_name :: "incident_category \<Rightarrow> string" where
  "category_name k = (case k of Missing \<Rightarrow> ''missing'' | Corrupt \<Rightarrow> ''corrupt'')"

definition incident_state_name :: "incident_state \<Rightarrow> string" where
  "incident_state_name s = (case s of IOpen \<Rightarrow> ''open'' | IResolved \<Rightarrow> ''resolved'')"

definition notification_payload :: "(instant \<Rightarrow> string) \<Rightarrow> IntegrityIncident \<Rightarrow> notification_event \<Rightarrow> json" where
  "notification_payload isoformat x ev = JObj
     [(''schema_version'', JInt 1), (''event_type'', JStr (event_name ev)),
      (''incident_id'', JStr (inc_incident_id x)), (''tenant_id'', JStr (inc_tenant_id x)),
      (''cluster_id'', JStr (inc_cluster_id x)),
      (''attempt_id'', (case inc_attempt_id x of None \<Rightarrow> JNull | Some a \<Rightarrow> JStr a)),
      (''category'', JStr (category_name (inc_category x))),
      (''state'', JStr (incident_state_name (inc_state x))),
      (''occurrence'', JInt (inc_occurrences x)), (''object_key'', JStr (inc_object_key x)),
      (''payload_sha256'', JStr (inc_payload_sha256 x)),
      (''observed_at'', JStr (isoformat (inc_last_detected_at x)))]"

text \<open>The \<open>k\<close>-th identifier drawn in the running call.\<close>

type_synonym id_source = "nat \<Rightarrow> string"

definition enqueue_notification ::
  "(instant \<Rightarrow> string) \<Rightarrow> string \<Rightarrow> IntegrityIncident \<Rightarrow> notification_event \<Rightarrow> instant \<Rightarrow> catalog \<Rightarrow> catalog" where
  "enqueue_notification isoformat nid x ev created_at c = c\<lparr>notifications := notifications c @
     [\<lparr>ntf_notification_id = nid, ntf_incident_id = inc_incident_id x, ntf_tenant_id = inc_tenant_id x,
       ntf_cluster_id = inc_cluster_id x, ntf_occurrence = inc_occurrences x, ntf_event_type = ev,
       ntf_payload_json = notification_payload isoformat x ev, ntf_state = NPending, ntf_attempts = 0,
       ntf_next_attempt_at = created_at, ntf_lease_owner = None, ntf_lease_generation = 0,
       ntf_lease_expires_at = None, ntf_last_error = None, ntf_created_at = created_at,
       ntf_delivered_at = None\<rparr>]\<rparr>"

definition incident_scopes :: "catalog \<Rightarrow> string \<Rightarrow> (string \<times> string) list" where
  "incident_scopes c key = remdups (map (\<lambda>(t, cl, a). (t, cl)) (object_reference_scopes c key))"

definition scope_attempt :: "catalog \<Rightarrow> string \<Rightarrow> string \<times> string \<Rightarrow> string option" where
  "scope_attempt c key sc =
     (case filter (\<lambda>(t, cl, a). (t, cl) = sc) (object_reference_scopes c key) of
        [(t, cl, a)] \<Rightarrow> Some a
      | _ \<Rightarrow> None)"

definition incident_matches :: "ObjectGcCandidate \<Rightarrow> string \<times> string \<Rightarrow> incident_category \<Rightarrow> IntegrityIncident \<Rightarrow> bool" where
  "incident_matches k sc category x = (inc_candidate_id x = gc_candidate_id k
     \<and> (inc_tenant_id x, inc_cluster_id x) = sc \<and> inc_category x = category)"

definition new_incident ::
  "string \<Rightarrow> ObjectGcCandidate \<Rightarrow> string \<times> string \<Rightarrow> string option \<Rightarrow> incident_category \<Rightarrow> string \<Rightarrow> instant
   \<Rightarrow> IntegrityIncident" where
  "new_incident iid k sc attempt category details at =
     \<lparr>inc_incident_id = iid, inc_candidate_id = gc_candidate_id k, inc_tenant_id = fst sc,
      inc_cluster_id = snd sc, inc_attempt_id = attempt, inc_object_key = gc_object_key k,
      inc_payload_sha256 = gc_payload_sha256 k, inc_category = category, inc_state = IOpen,
      inc_details = take 512 details, inc_occurrences = 1, inc_first_detected_at = at,
      inc_last_detected_at = at, inc_resolved_at = None, inc_resolved_by_credential_id = None,
      inc_resolution = None\<rparr>"

definition reopen_incident :: "string option \<Rightarrow> string \<Rightarrow> instant \<Rightarrow> IntegrityIncident \<Rightarrow> IntegrityIncident" where
  "reopen_incident attempt details at x = x\<lparr>inc_state := IOpen, inc_attempt_id := attempt,
     inc_details := take 512 details, inc_occurrences := inc_occurrences x + 1,
     inc_last_detected_at := at, inc_resolved_at := None, inc_resolved_by_credential_id := None,
     inc_resolution := None\<rparr>"

definition record_scope_incident ::
  "(instant \<Rightarrow> string) \<Rightarrow> string \<Rightarrow> string \<Rightarrow> ObjectGcCandidate \<Rightarrow> incident_category \<Rightarrow> string \<Rightarrow> instant
   \<Rightarrow> string \<times> string \<Rightarrow> string option \<Rightarrow> catalog \<Rightarrow> catalog" where
  "record_scope_incident isoformat iid nid k category details at sc attempt c =
     (case List.find (incident_matches k sc category) (incidents c) of
        None \<Rightarrow>
          (let x = new_incident iid k sc attempt category details at
           in enqueue_notification isoformat nid x IncidentDetected at (c\<lparr>incidents := incidents c @ [x]\<rparr>))
      | Some x0 \<Rightarrow>
          (let x = reopen_incident attempt details at x0
           in enqueue_notification isoformat nid x IncidentDetected at
                (c\<lparr>incidents := upd_where (\<lambda>y. inc_incident_id y = inc_incident_id x0)
                   (reopen_incident attempt details at) (incidents c)\<rparr>)))"

fun record_scopes ::
  "(instant \<Rightarrow> string) \<Rightarrow> id_source \<Rightarrow> nat \<Rightarrow> ObjectGcCandidate \<Rightarrow> incident_category \<Rightarrow> string \<Rightarrow> instant
   \<Rightarrow> ((string \<times> string) \<times> string option) list \<Rightarrow> catalog \<Rightarrow> catalog" where
  "record_scopes isoformat ids n k category details at [] c = c"
| "record_scopes isoformat ids n k category details at ((sc, attempt) # rest) c =
     record_scopes isoformat ids (n + 2) k category details at rest
       (record_scope_incident isoformat (ids n) (ids (n + 1)) k category details at sc attempt c)"

definition record_integrity_incidents ::
  "(instant \<Rightarrow> string) \<Rightarrow> id_source \<Rightarrow> ObjectGcCandidate \<Rightarrow> incident_category \<Rightarrow> string \<Rightarrow> instant
   \<Rightarrow> catalog \<Rightarrow> int \<times> catalog" where
  "record_integrity_incidents isoformat ids k category details at c =
     (let scopes = incident_scopes c (gc_object_key k) in
      (int (length scopes),
       record_scopes isoformat ids 0 k category details at
         (map (\<lambda>sc. (sc, scope_attempt c (gc_object_key k) sc)) scopes) c))"

section \<open>Resolution\<close>

definition get_incident :: "catalog \<Rightarrow> string \<Rightarrow> IntegrityIncident option" where
  "get_incident c iid = List.find (\<lambda>x. inc_incident_id x = iid) (incidents c)"

definition resolve_incident :: "instant \<Rightarrow> string \<Rightarrow> string \<Rightarrow> IntegrityIncident \<Rightarrow> IntegrityIncident" where
  "resolve_incident now actor reason x = x\<lparr>inc_state := IResolved, inc_resolved_at := Some now,
     inc_resolved_by_credential_id := Some actor, inc_resolution := Some reason\<rparr>"

definition integrity_not_restored :: py_error where
  "integrity_not_restored = ValueError ''protected artifact integrity is not restored''"

definition close_incident ::
  "(instant \<Rightarrow> string) \<Rightarrow> string \<Rightarrow> string \<Rightarrow> instant \<Rightarrow> string \<Rightarrow> string \<Rightarrow> IntegrityIncident \<Rightarrow> catalog
   \<Rightarrow> IntegrityIncident result \<times> catalog" where
  "close_incident isoformat rid nid now actor reason x c =
     (let x' = resolve_incident now actor reason x;
          c1 = c\<lparr>incidents := upd_where (\<lambda>y. inc_incident_id y = inc_incident_id x)
                   (resolve_incident now actor reason) (incidents c),
                 incident_resolutions := incident_resolutions c @
                   [\<lparr>iir_resolution_id = rid, iir_incident_id = inc_incident_id x,
                     iir_tenant_id = inc_tenant_id x, iir_cluster_id = inc_cluster_id x,
                     iir_resolved_by_credential_id = actor, iir_reason = reason, iir_resolved_at = now\<rparr>]\<rparr>
      in (Inr x', enqueue_notification isoformat nid x' IncidentResolved now c1))"

definition resolve_txn ::
  "runtime \<Rightarrow> (instant \<Rightarrow> string) \<Rightarrow> local_store \<Rightarrow> string \<Rightarrow> string \<Rightarrow> string \<Rightarrow> string \<Rightarrow> string \<Rightarrow> string
   \<Rightarrow> string \<Rightarrow> instant \<Rightarrow> catalog \<Rightarrow> IntegrityIncident result \<times> catalog" where
  "resolve_txn R isoformat st tenant_id cluster_id iid actor reason rid nid now c =
     (case get_incident c iid of
        None \<Rightarrow> (Inl (LookupError ''integrity incident not found''), c)
      | Some x \<Rightarrow>
          if inc_tenant_id x \<noteq> tenant_id \<or> inc_cluster_id x \<noteq> cluster_id
          then (Inl (LookupError ''integrity incident not found''), c)
          else if inc_state x = IResolved
          then (if inc_resolved_by_credential_id x = Some actor \<and> inc_resolution x = Some reason
                then (Inr x, c) else (Inl (ValueError ''integrity incident is already resolved''), c))
          else if list_ex (\<lambda>(t, cl, a). t = tenant_id \<and> cl = cluster_id)
                    (object_reference_scopes c (inc_object_key x))
          then (case exists_verified (rt_sha256 R) st (inc_object_key x) (inc_payload_sha256 x) of
                  Inl e \<Rightarrow> (Inl integrity_not_restored, c)
                | Inr False \<Rightarrow> (Inl integrity_not_restored, c)
                | Inr True \<Rightarrow> close_incident isoformat rid nid now actor reason x c)
          else close_incident isoformat rid nid now actor reason x c)"

definition resolve ::
  "runtime \<Rightarrow> (instant \<Rightarrow> string) \<Rightarrow> string \<Rightarrow> string \<Rightarrow> string \<Rightarrow> string \<Rightarrow> string \<Rightarrow> string
   \<Rightarrow> string \<Rightarrow> instant \<Rightarrow> world \<Rightarrow> IntegrityIncident result \<times> world" where
  "resolve R isoformat tenant_id cluster_id iid actor raw_reason rid nid now w =
     (let reason = str_strip raw_reason in
      if reason = [] \<or> length reason > 512
      then (Inl (ValueError ''resolution reason must contain 1 to 512 characters''), w)
      else (let (r, c') = begin_txn (resolve_txn R isoformat (objs w) tenant_id cluster_id iid actor reason
                                       rid nid now) (cat w)
            in (r, w\<lparr>cat := c'\<rparr>)))"

section \<open>Laws\<close>

lemma enqueue_notification_simps [simp]:
  "incidents (enqueue_notification isof nid x ev at c) = incidents c"
  "manifests (enqueue_notification isof nid x ev at c) = manifests c"
  "length (notifications (enqueue_notification isof nid x ev at c)) = length (notifications c) + 1"
  by (simp_all add: enqueue_notification_def)

definition incident_open :: "catalog \<Rightarrow> ObjectGcCandidate \<Rightarrow> incident_category \<Rightarrow> string \<times> string \<Rightarrow> bool" where
  "incident_open c k category sc =
     list_ex (\<lambda>x. incident_matches k sc category x \<and> inc_state x = IOpen) (incidents c)"

lemma reopen_matches [simp]: "incident_matches k sc category (reopen_incident a d t x) = incident_matches k sc category x"
  "inc_state (reopen_incident a d t x) = IOpen"
  by (simp_all add: incident_matches_def reopen_incident_def)

lemma record_scope_opens:
  "incident_open (record_scope_incident isof iid nid k category details at sc a c) k category sc"
proof (cases "List.find (incident_matches k sc category) (incidents c)")
  case None
  then show ?thesis
    by (simp add: record_scope_incident_def Let_def incident_open_def)
       (simp add: new_incident_def incident_matches_def)
next
  case (Some x0)
  from find_Some_iff [OF this] have x0: "x0 \<in> set (incidents c)" "incident_matches k sc category x0" by auto
  have "reopen_incident a details at x0 \<in> set (upd_where (\<lambda>y. inc_incident_id y = inc_incident_id x0)
      (reopen_incident a details at) (incidents c))" by (rule upd_where_hit [OF x0(1)]) simp
  moreover have "incident_matches k sc category (reopen_incident a details at x0)"
    "inc_state (reopen_incident a details at x0) = IOpen" using x0(2) by simp_all
  ultimately have "list_ex (\<lambda>x. incident_matches k sc category x \<and> inc_state x = IOpen)
      (upd_where (\<lambda>y. inc_incident_id y = inc_incident_id x0) (reopen_incident a details at) (incidents c))"
    unfolding list_ex_iff by blast
  with Some show ?thesis by (simp add: record_scope_incident_def Let_def incident_open_def)
qed

lemma record_scope_keeps_open:
  assumes "incident_open c k category sc'"
  shows "incident_open (record_scope_incident isof iid nid k category details at sc a c) k category sc'"
proof (cases "List.find (incident_matches k sc category) (incidents c)")
  case None
  with assms show ?thesis by (simp add: record_scope_incident_def Let_def incident_open_def)
next
  case (Some x0)
  have "list_ex (\<lambda>x. incident_matches k sc' category x \<and> inc_state x = IOpen)
      (upd_where (\<lambda>y. inc_incident_id y = inc_incident_id x0) (reopen_incident a details at) (incidents c))"
    by (rule list_ex_upd_where [OF assms [unfolded incident_open_def]]) simp
  with Some show ?thesis by (simp add: record_scope_incident_def Let_def incident_open_def)
qed

lemma record_scope_notifies:
  "length (notifications (record_scope_incident isof iid nid k category details at sc a c)) = length (notifications c) + 1"
  by (simp add: record_scope_incident_def Let_def split: option.splits)

lemma record_scopes_spec:
  "(\<forall>sc. incident_open c k category sc \<or> sc \<in> fst ` set L \<longrightarrow>
      incident_open (record_scopes isof ids n k category details at L c) k category sc)
   \<and> length (notifications (record_scopes isof ids n k category details at L c)) = length (notifications c) + length L"
proof (induction L arbitrary: n c)
  case (Cons p L)
  obtain sc a where p: "p = (sc, a)" by fastforce
  let ?c = "record_scope_incident isof (ids n) (ids (n + 1)) k category details at sc a c"
  note opens = record_scope_opens [of isof "ids n" "ids (n + 1)" k category details at sc a c]
  note keeps = record_scope_keeps_open [of c k category _ isof "ids n" "ids (n + 1)" details at sc a]
  from Cons [of ?c "n + 2"] opens keeps show ?case
    by (auto simp: p record_scope_notifies)
qed simp

text \<open>The part of the catalogue that incidents never touch.\<close>

lemma record_scope_frame:
  "\<exists>xs ns. record_scope_incident isof iid nid k category details at sc a c = c\<lparr>incidents := xs, notifications := ns\<rparr>"
  by (auto simp: record_scope_incident_def enqueue_notification_def Let_def split: option.splits)

lemma record_scopes_frame:
  "\<exists>xs ns. record_scopes isof ids n k category details at L c = c\<lparr>incidents := xs, notifications := ns\<rparr>"
proof (induction L arbitrary: n c)
  case Nil
  show ?case by (intro exI [of _ "incidents c"] exI [of _ "notifications c"]) simp
next
  case (Cons p L)
  obtain sc a where p: "p = (sc, a)" by fastforce
  obtain xs ns where 1: "record_scope_incident isof (ids n) (ids (n + 1)) k category details at sc a c
      = c\<lparr>incidents := xs, notifications := ns\<rparr>" using record_scope_frame by blast
  from Cons [of "n + 2" "c\<lparr>incidents := xs, notifications := ns\<rparr>"] 1 show ?case by (auto simp: p)
qed

lemma record_incidents_frame:
  "record_integrity_incidents isof ids k category details at c = (n, c') \<Longrightarrow>
     \<exists>xs ns. c' = c\<lparr>incidents := xs, notifications := ns\<rparr>"
  using record_scopes_frame [of isof ids 0 k category details at _ c]
  by (auto simp: record_integrity_incidents_def Let_def)

lemma resolve_txn_Inr:
  assumes "resolve_txn R isof st t cl iid actor reason rid nid now c = (Inr x, c')"
  obtains (again) "get_incident c iid = Some x" "inc_state x = IResolved"
  | (closed) x0 where "get_incident c iid = Some x0" "inc_tenant_id x0 = t" "inc_cluster_id x0 = cl"
      "inc_state x0 \<noteq> IResolved" "close_incident isof rid nid now actor reason x0 c = (Inr x, c')"
      "(\<exists>a. (t, cl, a) \<in> set (object_reference_scopes c (inc_object_key x0))) \<longrightarrow>
         intact (rt_sha256 R) st (inc_object_key x0) (inc_payload_sha256 x0)"
  using assms
  by (auto simp: resolve_txn_def list_ex_iff exists_verified_iff split: option.splits if_splits sum.splits bool.splits)

section \<open>Properties of incidents\<close>

definition demo_candidate :: ObjectGcCandidate where
  "demo_candidate = \<lparr>gc_candidate_id = ''g1'', gc_object_key = dr_object_key demo_receipt,
     gc_payload_sha256 = demo_digest, gc_state = GProtected, gc_not_before = 0, gc_attempts = 1,
     gc_last_error = None, gc_created_at = 0, gc_completed_at = None\<rparr>"

definition demo_incident :: IntegrityIncident where
  "demo_incident = new_incident ''i1'' demo_candidate (''site'', ''alpha'') (Some ''run-7'') Missing ''gone'' 30"

lemma demo_reference:
  "(''site'', ''alpha'', ''run-7'') \<in> set (object_reference_scopes (cat demo_admitted) (gc_object_key demo_candidate))"
  by code_simp

text \<open>When an audit reports a broken object, every tenant and cluster that still references
  it ends up with an open incident of that category, and exactly one notification is queued
  per such scope.\<close>

theorem incidents_cover_references:
  assumes "record_integrity_incidents isof ids k category details at c = (n, c')"
    "(t, cl, a) \<in> set (object_reference_scopes c (gc_object_key k))"
  shows "incident_open c' k category (t, cl)
    \<and> int (length (notifications c')) = int (length (notifications c)) + n"
proof -
  let ?L = "map (\<lambda>sc. (sc, scope_attempt c (gc_object_key k) sc)) (incident_scopes c (gc_object_key k))"
  from assms(2) have "(t, cl) \<in> set (incident_scopes c (gc_object_key k))"
    by (force simp: incident_scopes_def)
  then have "(t, cl) \<in> fst ` set ?L" by force
  with record_scopes_spec [of c k category ?L isof ids 0 details at] assms(1) show ?thesis
    by (auto simp: record_integrity_incidents_def Let_def)
qed

theorem incidents_cover_references_witness:
  "incident_open (snd (record_integrity_incidents (\<lambda>_. ''t'') (\<lambda>n. show_nat n) demo_candidate Missing ''gone'' 30
     (cat demo_admitted))) demo_candidate Missing (''site'', ''alpha'')"
proof -
  obtain n c' where x: "record_integrity_incidents (\<lambda>_. ''t'') (\<lambda>n. show_nat n) demo_candidate Missing ''gone'' 30
     (cat demo_admitted) = (n, c')" by fastforce
  from incidents_cover_references [OF x demo_reference] x show ?thesis by simp
qed

text \<open>C20. An incident is closed only when catalogue and object store agree: if \<open>resolve\<close> newly closes
  it, the object is either no longer referenced from the incident's tenant and cluster or is stored
  intact; otherwise the call raises and nothing changes.\<close>

theorem resolve_requires_restored:
  assumes "resolve R isof t cl iid actor reason rid nid now w = (r, w')" "get_incident (cat w) iid = Some x"
    "inc_state x = IOpen"
  shows "case r of
     Inl e \<Rightarrow> w' = w
   | Inr y \<Rightarrow> inc_state y = IResolved
       \<and> ((\<exists>a. (t, cl, a) \<in> set (object_reference_scopes (cat w) (inc_object_key x))) \<longrightarrow>
            intact (rt_sha256 R) (objs w) (inc_object_key x) (inc_payload_sha256 x))"
proof (cases r)
  case (Inl e)
  with assms(1) show ?thesis
    by (auto simp: resolve_def Let_def begin_txn_def split: if_splits prod.splits sum.splits)
next
  case (Inr y)
  with assms(1) obtain c' where
    r: "resolve_txn R isof (objs w) t cl iid actor (str_strip reason) rid nid now (cat w) = (Inr y, c')"
    by (auto simp: resolve_def Let_def begin_txn_def split: if_splits prod.splits sum.splits)
  then show ?thesis
  proof (cases rule: resolve_txn_Inr)
    case again
    with assms(2,3) show ?thesis by simp
  next
    case (closed x0)
    with assms(2) Inr show ?thesis by (auto simp: close_incident_def Let_def resolve_incident_def)
  qed
qed

theorem resolve_requires_restored_witness:
  "\<exists>y w'. resolve demo_runtime (\<lambda>_. ''t'') ''site'' ''alpha'' ''i1'' ''admin'' ''restored'' ''x1'' ''n1'' 40
      (demo_admitted\<lparr>cat := (cat demo_admitted)\<lparr>incidents := [demo_incident]\<rparr>\<rparr>) = (Inr y, w')
    \<and> intact (rt_sha256 demo_runtime) (objs demo_admitted) (inc_object_key demo_incident) (inc_payload_sha256 demo_incident)"
proof -
  let ?w = "demo_admitted\<lparr>cat := (cat demo_admitted)\<lparr>incidents := [demo_incident]\<rparr>\<rparr>"
  let ?x = "resolve demo_runtime (\<lambda>_. ''t'') ''site'' ''alpha'' ''i1'' ''admin'' ''restored'' ''x1'' ''n1'' 40 ?w"
  have "\<not> isl (fst ?x)" by code_simp
  then obtain y w' where x: "?x = (Inr y, w')" by (metis isl_def sum.exhaust_sel prod.collapse)
  have i: "get_incident (cat ?w) ''i1'' = Some demo_incident" "inc_state demo_incident = IOpen"
    by (simp_all add: get_incident_def demo_incident_def new_incident_def)
  have k: "inc_object_key demo_incident = gc_object_key demo_candidate"
    by (simp add: demo_incident_def new_incident_def)
  have "(''site'', ''alpha'', ''run-7'') \<in> set (object_reference_scopes (cat ?w) (inc_object_key demo_incident))"
    using demo_reference by (simp add: k object_reference_scopes_def)
  with resolve_requires_restored [OF x i] x show ?thesis by auto
qed

end
