(* ===== verification/Leases.thy ===== *)
theory Leases
  imports Python_Base
begin

text \<open>
  The lease discipline shared by the background workers of \<^verbatim>\<open>worker.py\<close>,
  \<^verbatim>\<open>notifications.py\<close> and \<^verbatim>\<open>scheduler.py\<close>.  Claiming a row records the owner and increments the
  row's lease generation; every later write checks that owner and generation are still the
  recorded ones.  The locale states what a worker's rows must satisfy and proves once that
  a superseded lease is never honoured again.
\<close>

locale lease_protocol =
  fixes gen :: "'row \<Rightarrow> int"
    and holder :: "'row \<Rightarrow> string option"
    and live :: "'row \<Rightarrow> bool"
    and claim_row :: "string \<Rightarrow> instant \<Rightarrow> 'row \<Rightarrow> 'row"
    and evolves :: "'row \<Rightarrow> 'row \<Rightarrow> bool"
  assumes claim_gen: "gen (claim_row own now r) = gen r + 1"
    and claim_holder: "holder (claim_row own now r) = Some own"
    and claim_live: "live (claim_row own now r)"
    and evolves_gen: "evolves r r' \<Longrightarrow> gen r \<le> gen r'"
begin

definition honours :: "'row \<Rightarrow> string \<Rightarrow> int \<Rightarrow> bool" where
  "honours r own n = (live r \<and> holder r = Some own \<and> gen r = n)"

lemma evolves_star_gen: "evolves\<^sup>*\<^sup>* r r' \<Longrightarrow> gen r \<le> gen r'"
  by (induction rule: rtranclp_induct) (auto dest: evolves_gen)

lemma claim_honoured: "honours (claim_row own now r) own (gen r + 1)"
  by (simp add: honours_def claim_gen claim_holder claim_live)

lemma lease_unique: "honours r own n \<Longrightarrow> honours r own' n' \<Longrightarrow> own = own' \<and> n = n'"
  by (simp add: honours_def)

text \<open>Once a row was claimed again, the earlier lease fails its check for ever.\<close>

lemma superseded_gen:
  assumes "evolves\<^sup>*\<^sup>* (claim_row own now r) r1" "evolves\<^sup>*\<^sup>* (claim_row own' now' r1) r2"
  shows "gen r + 1 < gen r2"
proof -
  have "gen r + 1 \<le> gen r1" using evolves_star_gen [OF assms(1)] by (simp add: claim_gen)
  moreover have "gen r1 + 1 \<le> gen r2" using evolves_star_gen [OF assms(2)] by (simp add: claim_gen)
  ultimately show ?thesis by simp
qed

lemma superseded:
  assumes "evolves\<^sup>*\<^sup>* (claim_row own now r) r1" "evolves\<^sup>*\<^sup>* (claim_row own' now' r1) r2"
  shows "\<not> honours r2 own (gen r + 1)"
  using superseded_gen [OF assms] by (simp add: honours_def)

end

section \<open>Retry delays\<close>

text \<open>
  Exponential backoff with a one-hour cap, \<open>min(3600, base * 2 ** (attempts - 1))\<close>.  The
  callers only use it with \<open>attempts\<close> at least one.
\<close>

definition backoff :: "int \<Rightarrow> int \<Rightarrow> int" where
  "backoff base attempts = min 3600 (base * 2 ^ nat (attempts - 1))"

lemma backoff_bounds: "1 \<le> base \<Longrightarrow> base \<le> 3600 \<Longrightarrow> base \<le> backoff base n \<and> backoff base n \<le> 3600"
proof -
  assume b: "1 \<le> base" "base \<le> 3600"
  have "base * 1 \<le> base * 2 ^ nat (n - 1)" using b(1) by (intro mult_left_mono) simp_all
  with b show ?thesis by (simp add: backoff_def)
qed

lemma backoff_mono: "0 \<le> base \<Longrightarrow> m \<le> n \<Longrightarrow> backoff base m \<le> backoff base n"
proof -
  assume b: "0 \<le> base" "m \<le> n"
  have "(2::int) ^ nat (m - 1) \<le> 2 ^ nat (n - 1)" using b(2) by (intro power_increasing) auto
  with b(1) have "base * 2 ^ nat (m - 1) \<le> base * 2 ^ nat (n - 1)" by (simp add: mult_left_mono)
  then show ?thesis unfolding backoff_def by (intro min.mono order_refl)
qed

end
