(* ===== verification/Deletion_Worker.thy ===== *)
theory Deletion_Worker
  imports Integrity Leases
begin

text \<open>
  \<open>AttemptDeletionWorker\<close> of \<^verbatim>\<open>worker.py\<close>: claim a queued deletion under a lease, erase the
  attempt's unshared objects and every catalogue row it owns in one transaction, and keep
  the tombstone.  The object deletions are not undone when the transaction rolls back.
\<close>

section \<open>Claiming\<close>

record DeletionLease =
  dl_identity :: attempt_identity
  dl_deletion_generation :: int
  dl_lease_generation :: int
  dl_owner :: string

text \<open>\<open>lease_expires_at < now\<close> is not satisfied by a NULL column.\<close>

definition expired_before :: "instant option \<Rightarrow> instant \<Rightarrow> bool" where
  "expired_before t now = (case t of None \<Rightarrow> False | Some e \<Rightarrow> e < now)"

definition deletion_claimable :: "instant \<Rightarrow> AttemptDeletion \<Rightarrow> bool" where
  "deletion_claimable now d = (ad_state d = DPending
     \<or> (ad_state d = DProcessing \<and> expired_before (ad_lease_expires_at d) now))"

definition claim_deletion_row :: "string \<Rightarrow> instant \<Rightarrow> AttemptDeletion \<Rightarrow> AttemptDeletion" where
  "claim_deletion_row own expires d = d\<lparr>ad_state := DProcessing, ad_attempts := ad_attempts d + 1,
     ad_lease_owner := Some own, ad_lease_generation := ad_lease_generation d + 1,
     ad_lease_expires_at := Some expires, ad_last_error := None\<rparr>"

definition deletion_lease_of :: "string \<Rightarrow> AttemptDeletion \<Rightarrow> DeletionLease" where
  "deletion_lease_of own d = \<lparr>dl_identity = ad_identity d,
     dl_deletion_generation = ad_deletion_generation d, dl_lease_generation = ad_lease_generation d,
     dl_owner = own\<rparr>"

definition claim_deletion :: "string \<Rightarrow> int \<Rightarrow> instant \<Rightarrow> catalog \<Rightarrow> DeletionLease option \<times> catalog" where
  "claim_deletion own lease_seconds now c =
     (case first_by ad_requested_at (filter (deletion_claimable now) (deletions c)) of
        None \<Rightarrow> (None, c)
      | Some d \<Rightarrow>
          (let d' = claim_deletion_row own (now + seconds lease_seconds) d
           in (Some (deletion_lease_of own d'),
               upd_deletion (ad_identity d) (claim_deletion_row own (now + seconds lease_seconds)) c)))"

definition deletion_matches :: "DeletionLease \<Rightarrow> AttemptDeletion \<Rightarrow> bool" where
  "deletion_matches l d = (ad_state d = DProcessing \<and> ad_lease_owner d = Some (dl_owner l)
     \<and> ad_lease_generation d = dl_lease_generation l \<and> ad_deletion_generation d = dl_deletion_generation l)"

section \<open>What is erased\<close>

definition attempt_manifests :: "catalog \<Rightarrow> attempt_identity \<Rightarrow> SegmentManifest list" where
  "attempt_manifests c i = filter (\<lambda>m. mf_identity m = i) (manifests c)"

definition attempt_revisions :: "catalog \<Rightarrow> attempt_identity \<Rightarrow> ReportRevision list" where
  "attempt_revisions c i = filter (\<lambda>r. rr_identity r = i) (report_revisions c)"

definition segment_objects :: "catalog \<Rightarrow> attempt_identity \<Rightarrow> (string \<times> string) list" where
  "segment_objects c i = dict_of (map (\<lambda>m. (mf_object_key m, mf_payload_sha256 m)) (attempt_manifests c i))"

definition is_shared :: "catalog \<Rightarrow> attempt_identity \<Rightarrow> string \<Rightarrow> bool" where
  "is_shared c i key =
     (list_ex (\<lambda>m. mf_object_key m = key \<and> mf_identity m \<noteq> i) (manifests c)
      \<or> list_ex (\<lambda>r. res_object_key r = key \<and> live_reservation r \<and> res_identity r \<noteq> i) (reservations c))"

definition shared_objects :: "catalog \<Rightarrow> attempt_identity \<Rightarrow> string list" where
  "shared_objects c i = filter (is_shared c i) (map fst (segment_objects c i))"

definition revision_objects :: "ReportRevision \<Rightarrow> (string \<times> string) list" where
  "revision_objects r = (rr_report_object_key r, rr_report_sha256 r) #
     (case (rr_parquet_object_key r, rr_parquet_sha256 r) of
        (Some k, Some d) \<Rightarrow> if k = [] \<or> d = [] then [] else [(k, d)]
      | _ \<Rightarrow> [])"

definition report_objects :: "catalog \<Rightarrow> attempt_identity \<Rightarrow> (string \<times> string) list" where
  "report_objects c i = dict_of (concat (map revision_objects (attempt_revisions c i)))"

definition deletable_segments :: "catalog \<Rightarrow> attempt_identity \<Rightarrow> (string \<times> string) list" where
  "deletable_segments c i = filter (\<lambda>(k, d). k \<notin> set (shared_objects c i)) (segment_objects c i)"

definition erased_objects :: "catalog \<Rightarrow> attempt_identity \<Rightarrow> (string \<times> string) list" where
  "erased_objects c i = sort_key fst (dict_of (deletable_segments c i @ report_objects c i))"

fun delete_objects :: "runtime \<Rightarrow> (string \<times> string) list \<Rightarrow> local_store \<Rightarrow> unit result \<times> local_store" where
  "delete_objects R [] st = (Inr (), st)"
| "delete_objects R ((key, digest) # rest) st =
     (case delete_verified (rt_sha256 R) st key digest of
        (Inl e, st') \<Rightarrow> (Inl e, st')
      | (Inr _, st') \<Rightarrow> delete_objects R rest st')"

definition is_receipt_event :: "string list \<Rightarrow> OutboxRecord \<Rightarrow> bool" where
  "is_receipt_event receipts o1 = (ob_event_type o1 = SegmentAdmitted \<and> ob_aggregate_id o1 \<in> set receipts)"

definition is_report_request :: "attempt_identity \<Rightarrow> OutboxRecord \<Rightarrow> bool" where
  "is_report_request i o1 = (ob_tenant_id o1 = fst i \<and> ob_event_type o1 = AttemptReportRequested
     \<and> ob_aggregate_id o1 = snd (snd i)
     \<and> (case ob_payload_json o1 of
          Some (JObj items) \<Rightarrow> jget items ''cluster_id'' = JStr (fst (snd i))
        | _ \<Rightarrow> False))"

definition is_own_observation :: "attempt_identity \<Rightarrow> AttemptRecord option \<Rightarrow> SchedulerObservation \<Rightarrow> bool" where
  "is_own_observation i attempt ob =
     (case attempt of
        None \<Rightarrow> False
      | Some r \<Rightarrow> (case ar_scheduler_source_identity r of
            None \<Rightarrow> False
          | Some x \<Rightarrow> x \<noteq> [] \<and> so_tenant_id ob = fst i \<and> so_cluster_id ob = fst (snd i)
                       \<and> so_source_identity ob = x))"

definition erase_rows :: "attempt_identity \<Rightarrow> catalog \<Rightarrow> int \<times> catalog" where
  "erase_rows i c =
     (let receipts = map mf_receipt_id (attempt_manifests c i);
          attempt = get_attempt_record c i;
          keys = map fst (deletable_segments c i) @ map fst (report_objects c i);
          events = is_receipt_event receipts; requests = is_report_request i;
          normalized = (\<lambda>n. ns_receipt_id n \<in> set receipts);
          revisions = (\<lambda>r. rr_identity r = i); heads = (\<lambda>h. rh_identity h = i);
          own_manifests = (\<lambda>m. mf_identity m = i); own_reservations = (\<lambda>r. res_identity r = i);
          own_observations = is_own_observation i attempt; own_record = (\<lambda>r. ar_identity r = i);
          own_candidates = (\<lambda>k. gc_object_key k \<in> set keys)
      in (count_where events (outbox c) + count_where normalized (normalized_segments c)
          + count_where requests (outbox c) + count_where revisions (report_revisions c)
          + count_where heads (report_heads c) + count_where own_manifests (manifests c)
          + count_where own_reservations (reservations c) + count_where own_observations (observations c)
          + count_where own_record (attempt_records c) + count_where own_candidates (gc_candidates c),
          c\<lparr>outbox := delete_where requests (delete_where events (outbox c)),
            normalized_segments := delete_where normalized (normalized_segments c),
            report_revisions := delete_where revisions (report_revisions c),
            report_heads := delete_where heads (report_heads c),
            manifests := delete_where own_manifests (manifests c),
            reservations := delete_where own_reservations (reservations c),
            observations := delete_where own_observations (observations c),
            attempt_records := delete_where own_record (attempt_records c),
            gc_candidates := delete_where own_candidates (gc_candidates c)\<rparr>))"

definition complete_deletion :: "int \<Rightarrow> int \<Rightarrow> int \<Rightarrow> int \<Rightarrow> instant \<Rightarrow> AttemptDeletion \<Rightarrow> AttemptDeletion" where
  "complete_deletion segs shared reports rows now d = d\<lparr>ad_state := DCompleted, ad_lease_owner := None,
     ad_lease_expires_at := None, ad_deleted_segment_objects := segs, ad_retained_shared_objects := shared,
     ad_deleted_report_objects := reports, ad_deleted_catalog_rows := rows, ad_last_error := None,
     ad_completed_at := Some now\<rparr>"

definition block_deletion :: "AttemptDeletion \<Rightarrow> AttemptDeletion" where
  "block_deletion d = d\<lparr>ad_state := DHeld, ad_lease_owner := None, ad_lease_expires_at := None,
     ad_last_error := Some hold_error\<rparr>"

section \<open>Execution\<close>

definition erase_attempt :: "runtime \<Rightarrow> attempt_identity \<Rightarrow> instant \<Rightarrow> world \<Rightarrow> bool result \<times> world" where
  "erase_attempt R i now w =
     (let c = cat w in
      case delete_objects R (erased_objects c i) (objs w) of
        (Inl e, st) \<Rightarrow> (Inl e, w\<lparr>objs := st\<rparr>)
      | (Inr _, st) \<Rightarrow>
          (let (rows, c1) = erase_rows i c;
               c2 = upd_deletion i (complete_deletion (int (length (deletable_segments c i)))
                      (int (length (shared_objects c i))) (int (length (report_objects c i))) rows now) c1
           in (Inr True, \<lparr>cat = c2, objs = st\<rparr>)))"

definition execute_deletion_txn :: "runtime \<Rightarrow> DeletionLease \<Rightarrow> instant \<Rightarrow> world \<Rightarrow> bool result \<times> world" where
  "execute_deletion_txn R l now w =
     (let i = dl_identity l in
      case get_deletion (cat w) i of
        None \<Rightarrow> (Inr False, w)
      | Some d \<Rightarrow>
          if \<not> deletion_matches l d then (Inr False, w)
          else if active_hold_ids (cat w) i \<noteq> []
          then (Inr False, w\<lparr>cat := upd_deletion i block_deletion (cat w)\<rparr>)
          else if (case get_generation (cat w) i of None \<Rightarrow> True
                   | Some g \<Rightarrow> ag_deleted_at g = None \<or> ag_generation g \<noteq> dl_deletion_generation l)
          then (Inl (ValueError ''attempt deletion generation is no longer current''), w)
          else erase_attempt R i now w)"

definition err_text :: "py_error \<Rightarrow> string" where
  "err_text e = (case e of ValueError m \<Rightarrow> m | LookupError m \<Rightarrow> m | RuntimeError m \<Rightarrow> m | TypeErr m \<Rightarrow> m | OverflowErr m \<Rightarrow> m | ZeroDivisionErr m \<Rightarrow> m
     | RunnerError m \<Rightarrow> m | AssertionErr \<Rightarrow> '''' | OSErr m \<Rightarrow> m | UnicodeErr m \<Rightarrow> m
     | ObjectIntegrityError m \<Rightarrow> m | ObjectSizeLimitError m \<Rightarrow> m | AdmissionError _ m _ _ \<Rightarrow> m
     | JSONDecodeError \<Rightarrow> ''Expecting value'' | SlurmAdapterError m \<Rightarrow> m | TelemetryError m \<Rightarrow> m
     | RankAggregateError m \<Rightarrow> m | IntegrityViolation m \<Rightarrow> m | HTTPException _ m \<Rightarrow> m
     | DeletionHeldError _ \<Rightarrow> ''attempt deletion is blocked by an active retention hold'')"

definition fail_deletion_row :: "string \<Rightarrow> AttemptDeletion \<Rightarrow> AttemptDeletion" where
  "fail_deletion_row message d = d\<lparr>ad_state := (if ad_attempts d \<ge> 5 then DFailed else DPending),
     ad_lease_owner := None, ad_lease_expires_at := None, ad_last_error := Some (take 512 message)\<rparr>"

definition fail_deletion :: "DeletionLease \<Rightarrow> string \<Rightarrow> catalog \<Rightarrow> catalog" where
  "fail_deletion l message c =
     (case get_deletion c (dl_identity l) of
        None \<Rightarrow> c
      | Some d \<Rightarrow> if \<not> deletion_matches l d then c
                 else upd_deletion (dl_identity l) (fail_deletion_row message) c)"

definition execute_deletion :: "runtime \<Rightarrow> DeletionLease \<Rightarrow> instant \<Rightarrow> world \<Rightarrow> bool \<times> world" where
  "execute_deletion R l now w =
     (case world_txn (execute_deletion_txn R l now) w of
        (Inr b, w') \<Rightarrow> (b, w')
      | (Inl e, w') \<Rightarrow> (False, w'\<lparr>cat := fail_deletion l (err_text e) (cat w')\<rparr>))"

definition deletion_run_once :: "runtime \<Rightarrow> string \<Rightarrow> int \<Rightarrow> instant \<Rightarrow> instant \<Rightarrow> world \<Rightarrow> bool \<times> world" where
  "deletion_run_once R own lease_seconds claimed_at now w =
     (case claim_deletion own lease_seconds claimed_at (cat w) of
        (None, c) \<Rightarrow> (False, w\<lparr>cat := c\<rparr>)
      | (Some l, c) \<Rightarrow> execute_deletion R l now (w\<lparr>cat := c\<rparr>))"

section \<open>Leases on deletion rows\<close>

text \<open>What a tombstone import does to an existing deletion row (\<open>apply_completed_tombstones\<close>).\<close>

definition reapply_tombstone :: "int \<Rightarrow> instant \<Rightarrow> AttemptDeletion \<Rightarrow> AttemptDeletion" where
  "reapply_tombstone generation requested_at d = d\<lparr>ad_deletion_generation := generation,
     ad_state := DPending, ad_attempts := 0, ad_lease_owner := None,
     ad_lease_generation := ad_lease_generation d + 1, ad_lease_expires_at := None,
     ad_last_error := None, ad_requested_at := requested_at, ad_completed_at := None\<rparr>"

text \<open>Every way an operation rewrites a deletion row.\<close>

inductive deletion_row_step :: "AttemptDeletion \<Rightarrow> AttemptDeletion \<Rightarrow> bool" where
  claimed: "deletion_row_step d (claim_deletion_row own t d)"
| held: "deletion_row_step d (mark_held d)"
| blocked: "deletion_row_step d (block_deletion d)"
| requeued: "deletion_row_step d (requeue_deletion n d)"
| restarted: "deletion_row_step d (restart_deletion n t' d)"
| completed: "deletion_row_step d (complete_deletion a b c r t d)"
| failed: "deletion_row_step d (fail_deletion_row m d)"
| imported: "deletion_row_step d (reapply_tombstone n t d)"

inductive_cases deletion_row_stepE: "deletion_row_step d d'"

lemmas deletion_row_defs = claim_deletion_row_def mark_held_def block_deletion_def requeue_deletion_def
  restart_deletion_def complete_deletion_def fail_deletion_row_def reapply_tombstone_def

interpretation dw: lease_protocol ad_lease_generation ad_lease_owner "\<lambda>d. ad_state d = DProcessing"
  claim_deletion_row deletion_row_step
proof unfold_locales
  fix d d' assume "deletion_row_step d d'"
  then show "ad_lease_generation d \<le> ad_lease_generation d'"
    by (auto elim!: deletion_row_stepE simp: deletion_row_defs)
qed (simp_all add: claim_deletion_row_def)

lemma deletion_matches_honours:
  "deletion_matches l d \<longleftrightarrow> dw.honours d (dl_owner l) (dl_lease_generation l)
     \<and> ad_deletion_generation d = dl_deletion_generation l"
  by (auto simp: deletion_matches_def dw.honours_def)

lemma ad_identity_steps [simp]:
  "ad_identity (claim_deletion_row own t d) = ad_identity d" "ad_identity (block_deletion d) = ad_identity d"
  "ad_identity (complete_deletion a b n r now d) = ad_identity d" "ad_identity (fail_deletion_row m d) = ad_identity d"
  "ad_identity (reapply_tombstone n rt d) = ad_identity d"
  by (simp_all add: deletion_row_defs ad_identity_def)

section \<open>Deleting objects\<close>

lemma delete_verified_stored_None:
  assumes "delete_verified H st key d = (r, st')" "stored st k = None"
  shows "stored st' k = None"
proof (cases "ls_path st key = ls_path st k")
  case True
  then have "stored st key = None" using assms(2) by (simp add: stored_def)
  with assms True show ?thesis
    by (auto simp: delete_verified_def stored_def read_bytes_def split: sum.splits if_splits option.splits fs_entry.splits)
next
  case False
  from delete_verified_frame [OF assms(1) False] assms(2) show ?thesis by simp
qed

lemma delete_objects_None: "delete_objects R L st = (r, st') \<Longrightarrow> stored st k = None \<Longrightarrow> stored st' k = None"
proof (induction L arbitrary: st)
  case (Cons p L)
  obtain key d where p: "p = (key, d)" by fastforce
  obtain q st1 where q: "delete_verified (rt_sha256 R) st key d = (q, st1)" by fastforce
  from delete_verified_stored_None [OF q Cons.prems(2)] have "stored st1 k = None" .
  with Cons p q show ?case by (auto split: sum.splits)
qed simp

lemma delete_objects_gone:
  "delete_objects R L st = (Inr u, st') \<Longrightarrow> (k, d) \<in> set L \<Longrightarrow> stored st' k = None"
proof (induction L arbitrary: st)
  case (Cons p L)
  obtain key dg where p: "p = (key, dg)" by fastforce
  from Cons.prems(1) p obtain b st1 where q: "delete_verified (rt_sha256 R) st key dg = (Inr b, st1)"
    and rest: "delete_objects R L st1 = (Inr u, st')"
    by (auto split: prod.splits sum.splits)
  show ?case
  proof (cases "(k, d) \<in> set L")
    case True
    with Cons.IH rest show ?thesis by blast
  next
    case False
    with Cons.prems(2) p have "k = key" by simp
    with delete_verified_gone [OF q] delete_objects_None [OF rest] show ?thesis by simp
  qed
qed simp

lemma delete_objects_frame:
  assumes "delete_objects R L st = (r, st')" "intact (rt_sha256 R) st k d" "clean_key k"
    "\<forall>(key, dg) \<in> set L. clean_key key \<and> key \<noteq> k"
  shows "intact (rt_sha256 R) st' k d"
  using assms
proof (induction L arbitrary: st)
  case (Cons p L)
  obtain key dg where p: "p = (key, dg)" by fastforce
  obtain q st1 where q: "delete_verified (rt_sha256 R) st key dg = (q, st1)" by fastforce
  have keep: "intact (rt_sha256 R) st1 k d"
    by (rule delete_keeps_intact [OF Cons.prems(2) q]) (use Cons.prems p in auto)
  show ?case
  proof (cases q)
    case (Inl e)
    with Cons.prems(1) p q keep show ?thesis by simp
  next
    case (Inr b)
    with Cons.prems p q have "delete_objects R L st1 = (r, st')" by simp
    from Cons.IH [OF this keep Cons.prems(3)] Cons.prems(4) show ?thesis by simp
  qed
qed simp

section \<open>Which objects are erased\<close>

definition is_segment_key :: "string \<Rightarrow> bool" where
  "is_segment_key k = (take 3 k = ''v2/'' \<and> clean_key k)"

definition is_report_key :: "string \<Rightarrow> bool" where
  "is_report_key k = (take 8 k = ''reports/'' \<and> clean_key k)"

lemma segment_key_not_report: "is_segment_key k \<Longrightarrow> is_report_key k' \<Longrightarrow> k \<noteq> k'"
proof (rule notI)
  assume "is_segment_key k" "is_report_key k'" "k = k'"
  then have "take 3 k = ''v2/''" "take 3 (take 8 k) = take 3 ''reports/''"
    by (simp_all add: is_segment_key_def is_report_key_def)
  then show False by (simp add: min_def)
qed

definition keys_ok :: "catalog \<Rightarrow> bool" where
  "keys_ok c = ((\<forall>m \<in> set (manifests c). is_segment_key (mf_object_key m))
     \<and> (\<forall>r \<in> set (report_revisions c). is_report_key (rr_report_object_key r)
          \<and> opt_ok is_report_key (rr_parquet_object_key r)))"

lemma segment_objects_member:
  "(k, d) \<in> set (segment_objects c i) \<Longrightarrow>
     \<exists>m \<in> set (manifests c). mf_identity m = i \<and> mf_object_key m = k \<and> mf_payload_sha256 m = d"
  using set_dict_of [of "map (\<lambda>m. (mf_object_key m, mf_payload_sha256 m)) (attempt_manifests c i)"]
  by (auto simp: segment_objects_def attempt_manifests_def)

lemma report_objects_member:
  assumes "keys_ok c" "(k, d) \<in> set (report_objects c i)"
  shows "is_report_key k"
proof -
  from assms(2) set_dict_of [of "concat (map revision_objects (attempt_revisions c i))"]
  obtain r where r: "r \<in> set (report_revisions c)" "(k, d) \<in> set (revision_objects r)"
    by (auto simp: report_objects_def attempt_revisions_def)
  from r(2) have "k = rr_report_object_key r \<or> rr_parquet_object_key r = Some k"
    by (auto simp: revision_objects_def split: option.splits if_splits)
  with assms(1) r(1) show ?thesis by (auto simp: keys_ok_def)
qed

lemma erased_objects_cases:
  assumes "(k, d) \<in> set (erased_objects c i)"
  obtains (segment) "(k, d) \<in> set (segment_objects c i)" "\<not> is_shared c i k"
  | (report) "(k, d) \<in> set (report_objects c i)"
proof -
  from assms set_dict_of [of "deletable_segments c i @ report_objects c i"]
  have "(k, d) \<in> set (deletable_segments c i) \<or> (k, d) \<in> set (report_objects c i)"
    by (auto simp: erased_objects_def)
  with that show ?thesis
    by (auto simp: deletable_segments_def shared_objects_def image_iff)
qed

lemma erased_objects_keys: "fst ` set (erased_objects c i) = fst ` set (deletable_segments c i) \<union> fst ` set (report_objects c i)"
  by (simp add: erased_objects_def keys_dict_of image_Un)

text \<open>Nothing another attempt's manifest names is on the list.\<close>

lemma erased_objects_others:
  assumes "keys_ok c" "m \<in> set (manifests c)" "mf_identity m \<noteq> i" "(k, d) \<in> set (erased_objects c i)"
  shows "clean_key k \<and> k \<noteq> mf_object_key m"
  using assms(4)
proof (cases rule: erased_objects_cases)
  case segment
  from segment_objects_member [OF segment(1)] assms(1) have "is_segment_key k" by (auto simp: keys_ok_def)
  moreover have "k \<noteq> mf_object_key m"
  proof
    assume "k = mf_object_key m"
    with assms(2,3) have "is_shared c i k" by (auto simp: is_shared_def list_ex_iff)
    with segment(2) show False by simp
  qed
  ultimately show ?thesis by (simp add: is_segment_key_def)
next
  case report
  from report_objects_member [OF assms(1) report] have "is_report_key k" .
  moreover have "is_segment_key (mf_object_key m)" using assms(1,2) by (simp add: keys_ok_def)
  ultimately show ?thesis using segment_key_not_report by (auto simp: is_report_key_def)
qed

section \<open>Outcomes\<close>

lemma execute_deletion_txn_cases:
  assumes "execute_deletion_txn R l now w = (r, w')"
  obtains (idle) "r = Inr False" "w' = w"
      "\<forall>d. get_deletion (cat w) (dl_identity l) = Some d \<longrightarrow> \<not> deletion_matches l d"
  | (blocked) d where "get_deletion (cat w) (dl_identity l) = Some d" "deletion_matches l d"
      "active_hold_ids (cat w) (dl_identity l) \<noteq> []" "r = Inr False"
      "w' = w\<lparr>cat := upd_deletion (dl_identity l) block_deletion (cat w)\<rparr>"
  | (stale) d where "get_deletion (cat w) (dl_identity l) = Some d" "deletion_matches l d"
      "\<not> fence_of (cat w) d" "\<exists>e. r = Inl e" "w' = w"
  | (erase) d where "get_deletion (cat w) (dl_identity l) = Some d" "deletion_matches l d"
      "active_hold_ids (cat w) (dl_identity l) = []" "fence_of (cat w) d"
      "erase_attempt R (dl_identity l) now w = (r, w')"
proof (cases "get_deletion (cat w) (dl_identity l)")
  case None
  with assms show ?thesis by (intro idle) (auto simp: execute_deletion_txn_def)
next
  case (Some d)
  note dd = get_deletion_Some [OF Some]
  show ?thesis
  proof (cases "deletion_matches l d")
    case False
    with Some assms show ?thesis by (intro idle) (auto simp: execute_deletion_txn_def)
  next
    case m: True
    show ?thesis
    proof (cases "active_hold_ids (cat w) (dl_identity l) = []")
      case False
      with Some m assms show ?thesis by (intro blocked) (auto simp: execute_deletion_txn_def)
    next
      case True
      from m dd have "fence_of (cat w) d = (\<not> (case get_generation (cat w) (dl_identity l) of None \<Rightarrow> True
          | Some g \<Rightarrow> ag_deleted_at g = None \<or> ag_generation g \<noteq> dl_deletion_generation l))"
        by (auto simp: fence_of_def deletion_matches_def split: option.splits)
      note fence = this
      show ?thesis
      proof (cases "fence_of (cat w) d")
        case f: True
        with Some m True assms fence show ?thesis by (intro erase) (simp_all add: execute_deletion_txn_def)
      next
        case False
        with Some m True assms fence show ?thesis by (intro stale) (auto simp: execute_deletion_txn_def)
      qed
    qed
  qed
qed

lemma erase_attempt_cases:
  assumes "erase_attempt R i now w = (r, w')"
  obtains (partial) e st where "delete_objects R (erased_objects (cat w) i) (objs w) = (Inl e, st)"
      "r = Inl e" "w' = w\<lparr>objs := st\<rparr>"
  | (full) u st rows c1 where "delete_objects R (erased_objects (cat w) i) (objs w) = (Inr u, st)"
      "erase_rows i (cat w) = (rows, c1)" "r = Inr True"
      "w' = \<lparr>cat = upd_deletion i (complete_deletion (int (length (deletable_segments (cat w) i)))
          (int (length (shared_objects (cat w) i))) (int (length (report_objects (cat w) i))) rows now) c1,
         objs = st\<rparr>"
  using assms by (auto simp: erase_attempt_def Let_def split: prod.splits sum.splits)

lemma erase_rows_simps:
  assumes "erase_rows i c = (n, c')"
  shows "manifests c' = delete_where (\<lambda>m. mf_identity m = i) (manifests c)"
    "reservations c' = delete_where (\<lambda>m. res_identity m = i) (reservations c)"
    "attempt_records c' = delete_where (\<lambda>m. ar_identity m = i) (attempt_records c)"
    "report_revisions c' = delete_where (\<lambda>m. rr_identity m = i) (report_revisions c)"
    "report_heads c' = delete_where (\<lambda>m. rh_identity m = i) (report_heads c)"
    "outbox c' = delete_where (is_report_request i)
       (delete_where (is_receipt_event (map mf_receipt_id (attempt_manifests c i))) (outbox c))"
    "normalized_segments c' = delete_where (\<lambda>n. ns_receipt_id n \<in> set (map mf_receipt_id (attempt_manifests c i)))
       (normalized_segments c)"
    "gc_candidates c' = delete_where (\<lambda>k. gc_object_key k \<in> set (map fst (deletable_segments c i)
       @ map fst (report_objects c i))) (gc_candidates c)"
    "holds c' = holds c" "generations c' = generations c" "deletions c' = deletions c"
  using assms by (auto simp: erase_rows_def Let_def)

lemma upd_deletion_frame [simp]:
  "reservations (upd_deletion i f c) = reservations c" "attempt_records (upd_deletion i f c) = attempt_records c"
  "report_revisions (upd_deletion i f c) = report_revisions c" "report_heads (upd_deletion i f c) = report_heads c"
  "outbox (upd_deletion i f c) = outbox c" "normalized_segments (upd_deletion i f c) = normalized_segments c"
  "gc_candidates (upd_deletion i f c) = gc_candidates c"
  by (simp_all add: upd_deletion_def)

section \<open>The lifecycle invariant\<close>

lemma lifecycle_ok_upd_row:
  assumes ok: "lifecycle_ok c" and d: "d \<in> set (deletions c)" and f: "\<And>x. ad_identity (f x) = ad_identity x"
    and st: "ad_state (f d) \<noteq> DHeld \<Longrightarrow> fence_of c (f d)"
    and hold: "active_hold_ids c (ad_identity d) \<noteq> [] \<Longrightarrow> ad_state (f d) = DHeld"
  shows "lifecycle_ok (upd_deletion (ad_identity d) f c)"
proof (rule lifecycle_ok_upd_deletion [OF ok f])
  fix x assume x: "x \<in> set (deletions c)" "ad_identity x = ad_identity d"
  have eq: "x = d"
    using get_deletion_unique [OF ok x(1), unfolded x(2)] get_deletion_unique [OF ok d]
    by (simp only: option.inject)
  show "fence_of c (f x)" if "ad_state (f x) \<noteq> DHeld" using st that by (simp add: eq)
  show "ad_state (f x) = DHeld" if "active_hold_ids c (ad_identity d) \<noteq> []" using hold that by (simp add: eq)
qed

lemma claim_deletion_ok:
  assumes ok: "lifecycle_ok c" and cl: "claim_deletion own secs now c = (r, c')"
  shows "lifecycle_ok c'"
proof (cases "first_by ad_requested_at (filter (deletion_claimable now) (deletions c))")
  case None
  with ok cl show ?thesis by (simp add: claim_deletion_def)
next
  case (Some d)
  let ?f = "claim_deletion_row own (now + seconds secs)"
  from first_by_filter_Some [OF Some] have d: "d \<in> set (deletions c)" "deletion_claimable now d" by auto
  from d(2) have nh: "ad_state d \<noteq> DHeld" by (auto simp: deletion_claimable_def)
  have "fence_of c d" using ok d(1) nh by (simp add: lifecycle_ok_def deletions_fenced_def)
  then have fence: "fence_of c (?f d)"
    using fence_of_cong [of "?f d" d c] by (simp add: claim_deletion_row_def ad_identity_def)
  have "active_hold_ids c (ad_identity d) = []" using ok d(1) nh by (auto simp: lifecycle_ok_def holds_block_def)
  with fence have "lifecycle_ok (upd_deletion (ad_identity d) ?f c)"
    by (intro lifecycle_ok_upd_row [OF ok d(1)]) simp_all
  with cl Some show ?thesis by (simp add: claim_deletion_def Let_def)
qed

text \<open>A write to the row a lease is held on, when no hold is active.\<close>

lemma lifecycle_ok_leased_write:
  assumes ok: "lifecycle_ok c" and d: "get_deletion c i = Some d" "ad_state d = DProcessing"
    and f: "\<And>x. ad_identity (f x) = ad_identity x" "\<And>x. ad_deletion_generation (f x) = ad_deletion_generation x"
  shows "lifecycle_ok (upd_deletion i f c)"
proof -
  note dd = get_deletion_Some [OF d(1)]
  have "fence_of c d" using ok dd d(2) by (simp add: lifecycle_ok_def deletions_fenced_def)
  then have fence: "fence_of c (f d)" using fence_of_cong [of "f d" d c] f by simp
  have "active_hold_ids c i = []" using ok dd d(2) by (auto simp: lifecycle_ok_def holds_block_def)
  with fence f dd show ?thesis using lifecycle_ok_upd_row [OF ok, of d f] by simp
qed

lemma fail_deletion_ok: "lifecycle_ok c \<Longrightarrow> lifecycle_ok (fail_deletion l m c)"
  by (auto simp: fail_deletion_def deletion_matches_def fail_deletion_row_def ad_identity_def
      split: option.splits intro!: lifecycle_ok_leased_write)

lemma erase_attempt_ok:
  assumes ok: "lifecycle_ok (cat w)" and d: "get_deletion (cat w) i = Some d" "ad_state d = DProcessing"
    and e: "erase_attempt R i now w = (r, w')"
  shows "lifecycle_ok (cat w')"
  using e
proof (cases rule: erase_attempt_cases)
  case (partial er st)
  with ok show ?thesis by simp
next
  case (full u st rows c1)
  note er = erase_rows_simps [OF full(2)]
  have ok1: "lifecycle_ok c1" using ok lifecycle_ok_cong [OF er(9,11,10)] by simp
  have "get_deletion c1 i = Some d" using d(1) er(11) by (simp add: get_deletion_def)
  then show ?thesis unfolding full(4)
    by (simp add: lifecycle_ok_leased_write [OF ok1 _ d(2)] complete_deletion_def ad_identity_def)
qed

lemma execute_deletion_ok:
  assumes ok: "lifecycle_ok (cat w)" and e: "execute_deletion R l now w = (b, w')"
  shows "lifecycle_ok (cat w')"
proof -
  obtain r w1 where t: "execute_deletion_txn R l now w = (r, w1)" by fastforce
  have "lifecycle_ok (cat w1)" using t
  proof (cases rule: execute_deletion_txn_cases)
    case (blocked d)
    have "lifecycle_ok (upd_deletion (dl_identity l) block_deletion (cat w))"
      using ok by (rule lifecycle_ok_upd_deletion) (simp_all add: block_deletion_def ad_identity_def)
    with blocked show ?thesis by simp
  next
    case (erase d)
    then show ?thesis using erase_attempt_ok [OF ok erase(1)] by (simp add: deletion_matches_def)
  qed (use ok in simp_all)
  with ok e t show ?thesis
    by (auto simp: execute_deletion_def world_txn_def fail_deletion_ok split: sum.splits)
qed

section \<open>Durability of admitted evidence\<close>

definition fenced :: "catalog \<Rightarrow> attempt_identity \<Rightarrow> bool" where
  "fenced c i = (case get_generation c i of None \<Rightarrow> False | Some g \<Rightarrow> ag_deleted_at g \<noteq> None)"

text \<open>Every admitted segment of an attempt that was not deleted has its object, intact.\<close>

definition durable :: "runtime \<Rightarrow> world \<Rightarrow> bool" where
  "durable R w = (\<forall>m \<in> set (manifests (cat w)). fenced (cat w) (mf_identity m)
     \<or> intact (rt_sha256 R) (objs w) (mf_object_key m) (mf_payload_sha256 m))"

lemma fenced_grows: "generations_grow c c' \<Longrightarrow> fenced c i \<Longrightarrow> fenced c' i"
  unfolding generations_grow_def fenced_def by (fastforce split: option.splits)

lemma fenced_cong: "generations c' = generations c \<Longrightarrow> fenced c' i = fenced c i"
  by (simp add: fenced_def get_generation_def)

lemma fence_of_fenced: "fence_of c d \<Longrightarrow> fenced c (ad_identity d)"
  by (auto simp: fence_of_def fenced_def split: option.splits)

lemma fail_deletion_frame [simp]:
  "manifests (fail_deletion l m c) = manifests c" "generations (fail_deletion l m c) = generations c"
  "report_revisions (fail_deletion l m c) = report_revisions c" "reservations (fail_deletion l m c) = reservations c"
  "attempt_records (fail_deletion l m c) = attempt_records c" "outbox (fail_deletion l m c) = outbox c"
  by (simp_all add: fail_deletion_def split: option.splits)

text \<open>
  What an execution does to the evidence: nothing, or it touches only the objects on the erase list of
  a fenced attempt; the manifests of other attempts stay.
\<close>

lemma execute_deletion_effect:
  assumes "execute_deletion R l now w = (b, w')"
  obtains (unchanged) "manifests (cat w') = manifests (cat w)" "generations (cat w') = generations (cat w)"
      "objs w' = objs w" "\<not> b"
  | (partial) r where "delete_objects R (erased_objects (cat w) (dl_identity l)) (objs w) = (r, objs w')"
      "fenced (cat w) (dl_identity l)" "manifests (cat w') = manifests (cat w)"
      "generations (cat w') = generations (cat w)" "\<not> b"
  | (full) rows c1 a1 a2 a3 u where "b" "erase_rows (dl_identity l) (cat w) = (rows, c1)"
      "cat w' = upd_deletion (dl_identity l) (complete_deletion a1 a2 a3 rows now) c1"
      "delete_objects R (erased_objects (cat w) (dl_identity l)) (objs w) = (Inr u, objs w')"
      "fenced (cat w) (dl_identity l)" "\<exists>d. get_deletion (cat w) (dl_identity l) = Some d"
proof -
  obtain r w1 where t: "execute_deletion_txn R l now w = (r, w1)" by fastforce
  show ?thesis using t
  proof (cases rule: execute_deletion_txn_cases)
    case idle
    with assms t unchanged show ?thesis by (simp add: execute_deletion_def world_txn_def)
  next
    case (blocked d)
    with assms t unchanged show ?thesis by (auto simp: execute_deletion_def world_txn_def)
  next
    case (stale d)
    with assms t unchanged show ?thesis by (auto simp: execute_deletion_def world_txn_def)
  next
    case (erase d)
    have f: "fenced (cat w) (dl_identity l)"
      using fence_of_fenced [OF erase(4)] get_deletion_Some [OF erase(1)] by simp
    from erase(5) show ?thesis
    proof (cases rule: erase_attempt_cases)
      case (partial e st)
      with assms t that(2) [of "Inl e"] f show ?thesis by (auto simp: execute_deletion_def world_txn_def)
    next
      case (full u st rows c1)
      with assms t that(3) f erase(1) show ?thesis by (auto simp: execute_deletion_def world_txn_def)
    qed
  qed
qed

lemma execute_deletion_durable:
  assumes d: "durable R w" and k: "keys_ok (cat w)" and e: "execute_deletion R l now w = (b, w')"
  shows "durable R w'"
proof -
  let ?i = "dl_identity l"
  have keep: "intact (rt_sha256 R) st (mf_object_key m) (mf_payload_sha256 m)"
    if "m \<in> set (manifests (cat w))" "mf_identity m \<noteq> ?i"
      "intact (rt_sha256 R) (objs w) (mf_object_key m) (mf_payload_sha256 m)"
      "delete_objects R (erased_objects (cat w) ?i) (objs w) = (r, st)" for m r st
  proof (rule delete_objects_frame [OF that(4,3)])
    show "clean_key (mf_object_key m)" using k that(1) by (simp add: keys_ok_def is_segment_key_def)
    show "\<forall>(key, dg) \<in> set (erased_objects (cat w) ?i). clean_key key \<and> key \<noteq> mf_object_key m"
      using erased_objects_others [OF k that(1,2)] by blast
  qed
  from e show ?thesis
  proof (cases rule: execute_deletion_effect)
    case unchanged
    with d show ?thesis by (simp add: durable_def fenced_cong [OF unchanged(2)])
  next
    case (partial r)
    show ?thesis unfolding durable_def
    proof
      fix m assume m: "m \<in> set (manifests (cat w'))"
      show "fenced (cat w') (mf_identity m) \<or> intact (rt_sha256 R) (objs w') (mf_object_key m) (mf_payload_sha256 m)"
        using keep [OF _ _ _ partial(1), of m] d m partial
        by (cases "mf_identity m = ?i") (auto simp: durable_def fenced_cong [OF partial(4)])
    qed
  next
    case (full rows c1 a1 a2 a3 u)
    note er = erase_rows_simps [OF full(2)]
    have gen: "generations (cat w') = generations (cat w)" by (simp add: full(3) er)
    show ?thesis unfolding durable_def
    proof
      fix m assume "m \<in> set (manifests (cat w'))"
      then have m: "m \<in> set (manifests (cat w))" "mf_identity m \<noteq> ?i" by (auto simp: full(3) er set_delete_where)
      show "fenced (cat w') (mf_identity m) \<or> intact (rt_sha256 R) (objs w') (mf_object_key m) (mf_payload_sha256 m)"
        using keep [OF m _ full(4)] d m(1) by (auto simp: durable_def fenced_cong [OF gen])
    qed
  qed
qed

section \<open>Properties of the deletion worker\<close>

text \<open>The example site with two attempts that share an object, the first one queued for deletion.\<close>

definition demo_second_segment :: SegmentUpload where
  "demo_second_segment = demo_segment\<lparr>su_attempt_id := ''run-8'', su_stream_id := ''s1''\<rparr>"

definition demo_second_inputs :: admission_inputs where
  "demo_second_inputs = \<lparr>ai_reservation_id = ''r2'', ai_reserved_at = 30, ai_tmp = ''.t2'',
     ai_receipt_id = ''c2'', ai_outbox_id = ''o2'', ai_committed_at = 31\<rparr>"

definition demo_shared_world :: world where
  "demo_shared_world = snd (admit demo_runtime demo_service demo_principal demo_second_segment demo_second_inputs demo_admitted)"

definition queue_and_claim :: "world \<Rightarrow> DeletionLease option \<times> world" where
  "queue_and_claim w = (let c = snd (delete_attempt demo_identity 50 (cat w));
     (l, c') = claim_deletion ''w1'' 60 60 c in (l, w\<lparr>cat := c'\<rparr>))"

definition demo_lease :: DeletionLease where
  "demo_lease = \<lparr>dl_identity = demo_identity, dl_deletion_generation = 1, dl_lease_generation = 1, dl_owner = ''w1''\<rparr>"

lemma demo_claimed: "fst (queue_and_claim demo_admitted) = Some demo_lease"
  "fst (queue_and_claim demo_shared_world) = Some demo_lease"
  by code_simp+

lemma demo_executes: "fst (execute_deletion demo_runtime demo_lease 70 (snd (queue_and_claim demo_admitted)))"
  by code_simp





text \<open>Stale deletion workers are fenced: once another worker has claimed the row, an execution
  under the old lease changes neither the catalogue nor the object store, whatever happened to the
  row before or after.\<close>

theorem superseded_deletion_lease_inert:
  assumes "get_deletion (cat w) (ad_identity d0) = Some d2"
    "deletion_row_step\<^sup>*\<^sup>* (claim_deletion_row own t d0) d1"
    "deletion_row_step\<^sup>*\<^sup>* (claim_deletion_row own' t' d1) d2"
  shows "execute_deletion R (deletion_lease_of own (claim_deletion_row own t d0)) now w = (False, w)"
proof -
  let ?l = "deletion_lease_of own (claim_deletion_row own t d0)"
  have "\<not> dw.honours d2 own (ad_lease_generation d0 + 1)" by (rule dw.superseded [OF assms(2,3)])
  then have "\<not> deletion_matches ?l d2"
    by (simp add: deletion_matches_honours deletion_lease_of_def claim_deletion_row_def)
  moreover have "dl_identity ?l = ad_identity d0" by (simp add: deletion_lease_of_def)
  ultimately have "execute_deletion_txn R ?l now w = (Inr False, w)"
    using assms(1) by (simp add: execute_deletion_txn_def)
  then show ?thesis by (simp add: execute_deletion_def world_txn_def)
qed

theorem superseded_deletion_lease_inert_witness:
  "execute_deletion demo_runtime (deletion_lease_of ''w1'' (claim_deletion_row ''w1'' 60
       (make_deletion demo_identity 1 DPending None 50))) 99
     (demo_admitted\<lparr>cat := (cat demo_admitted)\<lparr>deletions :=
        [claim_deletion_row ''w2'' 90 (claim_deletion_row ''w1'' 60 (make_deletion demo_identity 1 DPending None 50))]\<rparr>\<rparr>)
   = (False, demo_admitted\<lparr>cat := (cat demo_admitted)\<lparr>deletions :=
        [claim_deletion_row ''w2'' 90 (claim_deletion_row ''w1'' 60 (make_deletion demo_identity 1 DPending None 50))]\<rparr>\<rparr>)"
  by (rule superseded_deletion_lease_inert [OF _ rtranclp.rtrancl_refl rtranclp.rtrancl_refl])
     (simp add: get_deletion_def)

end
