(* ===== verification/Garbage_Collection.thy ===== *)
theory Garbage_Collection
  imports Deletion_Worker
begin

text \<open>
  The sweepers of \<^verbatim>\<open>worker.py\<close>: \<open>ReservationSweeper\<close> expires abandoned reservations and
  registers their objects as collection candidates, \<open>RetentionSweeper\<close> turns due deadlines
  into deletion requests, \<open>ObjectGcWorker\<close> reclaims unreferenced objects, and
  \<open>ObjectGcAuditWorker\<close> re-examines protected and failed candidates.  The \<open>k\<close>-th clock reading and
  the \<open>k\<close>-th identifier of a call are \<open>clock k\<close> and \<open>ids k\<close>.
\<close>

section \<open>ReservationSweeper\<close>

record ReservationSweeper =
  rs_ttl_seconds :: int
  rs_batch_size :: int
  rs_gc_grace_seconds :: int

definition make_reservation_sweeper :: "int \<Rightarrow> int \<Rightarrow> int \<Rightarrow> ReservationSweeper result" where
  "make_reservation_sweeper ttl batch grace =
     (if ttl < 60 \<or> ttl > 86400 then Inl (ValueError ''ttl_seconds must be within [60, 86400]'')
      else if batch < 1 \<or> batch > 1000 then Inl (ValueError ''batch_size must be within [1, 1000]'')
      else if grace < 300 \<or> grace > 604800
      then Inl (ValueError ''gc_grace_seconds must be within [300, 604800]'')
      else Inr \<lparr>rs_ttl_seconds = ttl, rs_batch_size = batch, rs_gc_grace_seconds = grace\<rparr>)"

definition new_candidate :: "string \<Rightarrow> string \<Rightarrow> string \<Rightarrow> instant \<Rightarrow> instant \<Rightarrow> ObjectGcCandidate" where
  "new_candidate kid key digest now not_before =
     \<lparr>gc_candidate_id = kid, gc_object_key = key, gc_payload_sha256 = digest, gc_state = GPending,
      gc_not_before = not_before, gc_attempts = 0, gc_last_error = None, gc_created_at = now,
      gc_completed_at = None\<rparr>"

definition get_candidate :: "catalog \<Rightarrow> string \<Rightarrow> ObjectGcCandidate option" where
  "get_candidate c key = List.find (\<lambda>k. gc_object_key k = key) (gc_candidates c)"

definition abandoned :: "instant \<Rightarrow> AdmissionReservation \<Rightarrow> bool" where
  "abandoned cutoff r = (res_state r = Reserved \<and> res_created_at r < cutoff)"

definition expire_reservation ::
  "int \<Rightarrow> string \<Rightarrow> instant \<Rightarrow> AdmissionReservation \<Rightarrow> catalog \<Rightarrow> catalog" where
  "expire_reservation grace kid now r c =
     (let c1 = set_reservation_state (res_reservation_id r) Expired c in
      if get_candidate c1 (res_object_key r) = None
      then c1\<lparr>gc_candidates := gc_candidates c1 @
             [new_candidate kid (res_object_key r) (res_payload_sha256 r) now (now + seconds grace)]\<rparr>
      else c1)"

fun expire_reservations ::
  "int \<Rightarrow> id_source \<Rightarrow> (nat \<Rightarrow> instant) \<Rightarrow> nat \<Rightarrow> AdmissionReservation list \<Rightarrow> catalog \<Rightarrow> catalog" where
  "expire_reservations grace ids clock n [] c = c"
| "expire_reservations grace ids clock n (r # rs) c =
     expire_reservations grace ids clock (n + 1) rs (expire_reservation grace (ids n) (clock (n + 1)) r c)"

definition sweep_batch :: "ReservationSweeper \<Rightarrow> instant \<Rightarrow> catalog \<Rightarrow> AdmissionReservation list" where
  "sweep_batch sw now c = take (nat (rs_batch_size sw))
     (sort_key (\<lambda>r. (res_created_at r, res_reservation_id r))
       (filter (abandoned (now - seconds (rs_ttl_seconds sw))) (reservations c)))"

definition reservation_sweep ::
  "ReservationSweeper \<Rightarrow> id_source \<Rightarrow> (nat \<Rightarrow> instant) \<Rightarrow> catalog \<Rightarrow> int \<times> catalog" where
  "reservation_sweep sw ids clock c =
     (let batch = sweep_batch sw (clock 0) c
      in (int (length batch), expire_reservations (rs_gc_grace_seconds sw) ids clock 0 batch c))"

section \<open>RetentionSweeper\<close>

definition retention_due :: "instant \<Rightarrow> catalog \<Rightarrow> AttemptRecord \<Rightarrow> bool" where
  "retention_due now c r = ((case ar_retention_expires_at r of None \<Rightarrow> False | Some t \<Rightarrow> t \<le> now)
     \<and> \<not> list_ex (\<lambda>d. ad_identity d = ar_identity r) (deletions c))"

definition due_attempts :: "int \<Rightarrow> instant \<Rightarrow> catalog \<Rightarrow> attempt_identity list" where
  "due_attempts batch_size now c = map ar_identity (take (nat batch_size)
     (sort_key (\<lambda>r. (the (ar_retention_expires_at r), ar_identity r))
       (filter (retention_due now c) (attempt_records c))))"

fun request_deletions :: "(nat \<Rightarrow> instant) \<Rightarrow> nat \<Rightarrow> attempt_identity list \<Rightarrow> int \<times> int \<Rightarrow> catalog \<Rightarrow> (int \<times> int) \<times> catalog" where
  "request_deletions clock n [] outcomes c = (outcomes, c)"
| "request_deletions clock n (i # is) (held, queued) c =
     (case delete_attempt i (clock n) c of
        (Inl _, c') \<Rightarrow> request_deletions clock (n + 1) is (held + 1, queued) c'
      | (Inr _, c') \<Rightarrow> request_deletions clock (n + 1) is (held, queued + 1) c')"

definition retention_sweep :: "int \<Rightarrow> (nat \<Rightarrow> instant) \<Rightarrow> catalog \<Rightarrow> (int \<times> int) \<times> catalog" where
  "retention_sweep batch_size clock c =
     request_deletions clock 1 (due_attempts batch_size (clock 0) c) (0, 0) c"

section \<open>ObjectGcWorker\<close>

definition upd_candidate :: "string \<Rightarrow> (ObjectGcCandidate \<Rightarrow> ObjectGcCandidate) \<Rightarrow> catalog \<Rightarrow> catalog" where
  "upd_candidate kid f c = c\<lparr>gc_candidates := upd_where (\<lambda>k. gc_candidate_id k = kid) f (gc_candidates c)\<rparr>"

definition gc_due :: "instant \<Rightarrow> ObjectGcCandidate \<Rightarrow> bool" where
  "gc_due now k = (gc_state k = GPending \<and> gc_not_before k \<le> now)"

definition finish_candidate :: "gc_state \<Rightarrow> instant \<Rightarrow> ObjectGcCandidate \<Rightarrow> ObjectGcCandidate" where
  "finish_candidate st now k = k\<lparr>gc_state := st, gc_attempts := gc_attempts k + 1,
     gc_completed_at := Some now, gc_last_error := None\<rparr>"

definition retry_candidate :: "string \<Rightarrow> instant \<Rightarrow> ObjectGcCandidate \<Rightarrow> ObjectGcCandidate" where
  "retry_candidate message now k =
     (let k1 = k\<lparr>gc_attempts := gc_attempts k + 1, gc_last_error := Some (take 512 message)\<rparr> in
      if gc_attempts k1 \<ge> 5 then k1\<lparr>gc_state := GFailed, gc_completed_at := Some now\<rparr>
      else k1\<lparr>gc_not_before := now + seconds (backoff 30 (gc_attempts k1))\<rparr>)"

definition object_gc_run_once :: "runtime \<Rightarrow> instant \<Rightarrow> world \<Rightarrow> string option \<times> world" where
  "object_gc_run_once R now w =
     (case first_by (\<lambda>k. (gc_not_before k, gc_candidate_id k)) (filter (gc_due now) (gc_candidates (cat w))) of
        None \<Rightarrow> (None, w)
      | Some k \<Rightarrow>
          if object_has_reference (cat w) (gc_object_key k)
          then (Some ''protected'',
                w\<lparr>cat := upd_candidate (gc_candidate_id k) (finish_candidate GProtected now) (cat w)\<rparr>)
          else (case delete_verified (rt_sha256 R) (objs w) (gc_object_key k) (gc_payload_sha256 k) of
              (Inl e, st) \<Rightarrow>
                (Some (if gc_state (retry_candidate (err_text e) now k) = GFailed then ''failed'' else ''retry''),
                 \<lparr>cat = upd_candidate (gc_candidate_id k) (retry_candidate (err_text e) now) (cat w), objs = st\<rparr>)
            | (Inr deleted, st) \<Rightarrow>
                (Some (if deleted then ''deleted'' else ''missing''),
                 \<lparr>cat = upd_candidate (gc_candidate_id k)
                     (finish_candidate (if deleted then GDeleted else GMissing) now) (cat w), objs = st\<rparr>)))"

section \<open>ObjectGcAuditWorker\<close>

record ObjectGcAuditWorker =
  aw_gc_grace_seconds :: int
  aw_audit_interval_seconds :: int
  aw_batch_size :: int

definition make_audit_worker :: "int \<Rightarrow> int \<Rightarrow> int \<Rightarrow> ObjectGcAuditWorker result" where
  "make_audit_worker grace interval batch =
     (if \<not> (300 \<le> grace \<and> grace \<le> 604800)
      then Inl (ValueError ''gc_grace_seconds must be within [300, 604800]'')
      else if \<not> (300 \<le> interval \<and> interval \<le> 604800)
      then Inl (ValueError ''audit_interval_seconds must be within [300, 604800]'')
      else if \<not> (1 \<le> batch \<and> batch \<le> 10000) then Inl (ValueError ''batch_size must be within [1, 10000]'')
      else Inr \<lparr>aw_gc_grace_seconds = grace, aw_audit_interval_seconds = interval, aw_batch_size = batch\<rparr>)"

definition audit_due :: "ObjectGcAuditWorker \<Rightarrow> instant \<Rightarrow> ObjectGcCandidate \<Rightarrow> bool" where
  "audit_due aw now k = ((gc_state k = GProtected \<and> gc_not_before k \<le> now)
     \<or> (gc_state k = GFailed \<and> (case gc_completed_at k of None \<Rightarrow> False
          | Some t \<Rightarrow> t \<le> now - seconds (aw_audit_interval_seconds aw))))"

definition audit_mark :: "gc_state \<Rightarrow> string option \<Rightarrow> instant \<Rightarrow> instant \<Rightarrow> ObjectGcCandidate \<Rightarrow> ObjectGcCandidate" where
  "audit_mark st err now not_before k = k\<lparr>gc_state := st, gc_last_error := err, gc_completed_at := Some now,
     gc_not_before := not_before\<rparr>"

definition audit_requeue :: "instant \<Rightarrow> ObjectGcCandidate \<Rightarrow> ObjectGcCandidate" where
  "audit_requeue not_before k = k\<lparr>gc_state := GPending, gc_attempts := 0, gc_last_error := None,
     gc_completed_at := None, gc_not_before := not_before\<rparr>"

definition audit_candidate ::
  "runtime \<Rightarrow> (instant \<Rightarrow> string) \<Rightarrow> ObjectGcAuditWorker \<Rightarrow> id_source \<Rightarrow> instant \<Rightarrow> local_store \<Rightarrow> ObjectGcCandidate
   \<Rightarrow> catalog \<Rightarrow> gc_state \<times> catalog" where
  "audit_candidate R isoformat aw ids now st k c =
     (let referenced = object_has_reference c (gc_object_key k);
          next_audit = now + seconds (aw_audit_interval_seconds aw);
          upd = (\<lambda>f. upd_candidate (gc_candidate_id k) f)
      in case exists_verified (rt_sha256 R) st (gc_object_key k) (gc_payload_sha256 k) of
           Inl e \<Rightarrow>
             (let message = take 512 (''audit integrity failure: '' @ err_text e);
                  c1 = (if referenced then snd (record_integrity_incidents isoformat ids k Corrupt message now c) else c)
              in (GFailed, upd (audit_mark GFailed (Some message) now next_audit) c1))
         | Inr present \<Rightarrow>
             if referenced \<and> present
             then (GProtected, upd (audit_mark GProtected None now next_audit) c)
             else if referenced
             then (let message = ''audit found a referenced object missing''
                   in (GFailed, upd (audit_mark GFailed (Some message) now next_audit)
                         (snd (record_integrity_incidents isoformat ids k Missing message now c))))
             else if present
             then (GPending, upd (audit_requeue (now + seconds (aw_gc_grace_seconds aw))) c)
             else (GMissing, upd (\<lambda>x. x\<lparr>gc_state := GMissing, gc_last_error := None,
                                          gc_completed_at := Some now\<rparr>) c))"

fun audit_candidates ::
  "runtime \<Rightarrow> (instant \<Rightarrow> string) \<Rightarrow> ObjectGcAuditWorker \<Rightarrow> (nat \<Rightarrow> id_source) \<Rightarrow> nat \<Rightarrow> instant \<Rightarrow> local_store
   \<Rightarrow> ObjectGcCandidate list \<Rightarrow> catalog \<Rightarrow> gc_state list \<times> catalog" where
  "audit_candidates R isoformat aw ids n now st [] c = ([], c)"
| "audit_candidates R isoformat aw ids n now st (k # ks) c =
     (let (o1, c1) = audit_candidate R isoformat aw (ids n) now st k c;
          (os, c2) = audit_candidates R isoformat aw ids (n + 1) now st ks c1
      in (o1 # os, c2))"

definition audit_batch :: "ObjectGcAuditWorker \<Rightarrow> instant \<Rightarrow> catalog \<Rightarrow> ObjectGcCandidate list" where
  "audit_batch aw now c = take (nat (aw_batch_size aw))
     (sort_key (\<lambda>k. (gc_not_before k, gc_candidate_id k)) (filter (audit_due aw now) (gc_candidates c)))"

definition gc_audit_run_once ::
  "runtime \<Rightarrow> (instant \<Rightarrow> string) \<Rightarrow> ObjectGcAuditWorker \<Rightarrow> (nat \<Rightarrow> id_source) \<Rightarrow> instant \<Rightarrow> world
   \<Rightarrow> (gc_state \<Rightarrow> int) \<times> world" where
  "gc_audit_run_once R isoformat aw ids now w =
     (let (outcomes, c) = audit_candidates R isoformat aw ids 0 now (objs w) (audit_batch aw now (cat w)) (cat w)
      in (\<lambda>st. count_where (\<lambda>o1. o1 = st) outcomes, w\<lparr>cat := c\<rparr>))"

section \<open>Frames\<close>

lemma upd_candidate_frame [simp]:
  "manifests (upd_candidate kid f c) = manifests c" "generations (upd_candidate kid f c) = generations c"
  "reservations (upd_candidate kid f c) = reservations c" "report_revisions (upd_candidate kid f c) = report_revisions c"
  "holds (upd_candidate kid f c) = holds c" "deletions (upd_candidate kid f c) = deletions c"
  "attempt_records (upd_candidate kid f c) = attempt_records c" "outbox (upd_candidate kid f c) = outbox c"
  "gc_candidates (upd_candidate kid f c) = upd_where (\<lambda>k. gc_candidate_id k = kid) f (gc_candidates c)"
  by (simp_all add: upd_candidate_def)

lemma expire_reservation_frame:
  "\<exists>rs ks. expire_reservation grace kid now r c = c\<lparr>reservations := rs, gc_candidates := ks\<rparr>"
proof (cases "get_candidate c (res_object_key r) = None")
  case True
  then show ?thesis by (auto simp: expire_reservation_def set_reservation_state_def get_candidate_def Let_def)
next
  case False
  then show ?thesis
    by (auto simp: expire_reservation_def set_reservation_state_def get_candidate_def Let_def
        intro!: exI [of _ "gc_candidates c"])
qed

lemma expire_reservations_frame:
  "\<exists>rs ks. expire_reservations grace ids clock n batch c = c\<lparr>reservations := rs, gc_candidates := ks\<rparr>"
proof (induction batch arbitrary: n c)
  case Nil
  show ?case by (intro exI [of _ "reservations c"] exI [of _ "gc_candidates c"]) simp
next
  case (Cons r batch)
  obtain rs ks where 1: "expire_reservation grace (ids n) (clock (n + 1)) r c = c\<lparr>reservations := rs, gc_candidates := ks\<rparr>"
    using expire_reservation_frame by blast
  from Cons [of "n + 1" "c\<lparr>reservations := rs, gc_candidates := ks\<rparr>"] 1 show ?case by auto
qed

lemma audit_candidate_frame:
  "\<exists>ks xs ns. snd (audit_candidate R isof aw ids now st k c) = c\<lparr>gc_candidates := ks, incidents := xs, notifications := ns\<rparr>"
proof -
  have base: "\<exists>ks xs ns. upd_candidate kid f (snd (record_integrity_incidents isof ids k cg d now c))
      = c\<lparr>gc_candidates := ks, incidents := xs, notifications := ns\<rparr>" for kid f cg d
  proof -
    obtain n c' where r: "record_integrity_incidents isof ids k cg d now c = (n, c')" by fastforce
    from record_incidents_frame [OF r] obtain xs ns where "c' = c\<lparr>incidents := xs, notifications := ns\<rparr>" by blast
    with r show ?thesis
      by (intro exI [of _ "upd_where (\<lambda>k. gc_candidate_id k = kid) f (gc_candidates c)"] exI [of _ xs] exI [of _ ns])
         (simp add: upd_candidate_def)
  qed
  have plain: "\<exists>ks xs ns. upd_candidate kid f c = c\<lparr>gc_candidates := ks, incidents := xs, notifications := ns\<rparr>" for kid f
    by (intro exI [of _ "upd_where (\<lambda>k. gc_candidate_id k = kid) f (gc_candidates c)"] exI [of _ "incidents c"]
        exI [of _ "notifications c"]) (simp add: upd_candidate_def)
  show ?thesis using base plain
    by (auto simp: audit_candidate_def Let_def split: sum.splits)
qed

lemma audit_candidates_frame:
  "\<exists>ks xs ns. snd (audit_candidates R isof aw ids n now st batch c)
     = c\<lparr>gc_candidates := ks, incidents := xs, notifications := ns\<rparr>"
proof (induction batch arbitrary: n c)
  case Nil
  show ?case by (intro exI [of _ "gc_candidates c"] exI [of _ "incidents c"] exI [of _ "notifications c"]) simp
next
  case (Cons k batch)
  obtain o1 c1 where a: "audit_candidate R isof aw (ids n) now st k c = (o1, c1)" by fastforce
  obtain ks xs ns where c1: "c1 = c\<lparr>gc_candidates := ks, incidents := xs, notifications := ns\<rparr>"
    using audit_candidate_frame [of R isof aw "ids n" now st k c] a by auto
  obtain ks' xs' ns' where "snd (audit_candidates R isof aw ids (n + 1) now st batch c1)
      = c1\<lparr>gc_candidates := ks', incidents := xs', notifications := ns'\<rparr>" using Cons [of "n + 1" c1] by blast
  with a show ?case
    by (intro exI [of _ ks'] exI [of _ xs'] exI [of _ ns']) (auto simp: c1 split: prod.splits)
qed

section \<open>Collection\<close>

definition candidates_ok :: "catalog \<Rightarrow> bool" where
  "candidates_ok c = (\<forall>k \<in> set (gc_candidates c). clean_key (gc_object_key k))"

lemma object_gc_cases:
  assumes "object_gc_run_once R now w = (out, w')"
  obtains (idle) "out = None" "w' = w"
  | (protected) k where "k \<in> set (gc_candidates (cat w))" "gc_due now k"
      "object_has_reference (cat w) (gc_object_key k)" "out = Some ''protected''"
      "w' = w\<lparr>cat := upd_candidate (gc_candidate_id k) (finish_candidate GProtected now) (cat w)\<rparr>"
  | (tried) k r st f where "k \<in> set (gc_candidates (cat w))" "gc_due now k"
      "\<not> object_has_reference (cat w) (gc_object_key k)"
      "delete_verified (rt_sha256 R) (objs w) (gc_object_key k) (gc_payload_sha256 k) = (r, st)"
      "w' = \<lparr>cat = upd_candidate (gc_candidate_id k) f (cat w), objs = st\<rparr>"
      "case r of Inl e \<Rightarrow> f = retry_candidate (err_text e) now
         \<and> out = Some (if gc_state (retry_candidate (err_text e) now k) = GFailed then ''failed'' else ''retry'')
       | Inr b \<Rightarrow> f = finish_candidate (if b then GDeleted else GMissing) now
         \<and> out = Some (if b then ''deleted'' else ''missing'')"
proof (cases "first_by (\<lambda>k. (gc_not_before k, gc_candidate_id k)) (filter (gc_due now) (gc_candidates (cat w)))")
  case None
  with assms idle show ?thesis by (simp add: object_gc_run_once_def)
next
  case (Some k)
  from first_by_filter_Some [OF Some] have k: "k \<in> set (gc_candidates (cat w))" "gc_due now k" by auto
  show ?thesis
  proof (cases "object_has_reference (cat w) (gc_object_key k)")
    case True
    with assms Some k protected show ?thesis by (simp add: object_gc_run_once_def)
  next
    case False
    obtain r st where d: "delete_verified (rt_sha256 R) (objs w) (gc_object_key k) (gc_payload_sha256 k) = (r, st)"
      by fastforce
    show ?thesis
      by (rule tried [OF k False d, of "case r of Inl e \<Rightarrow> retry_candidate (err_text e) now
            | Inr b \<Rightarrow> finish_candidate (if b then GDeleted else GMissing) now"])
         (use assms Some False d in \<open>auto simp: object_gc_run_once_def split: sum.splits\<close>)
  qed
qed

text \<open>An object some row refers to survives a collection run.\<close>

lemma object_gc_keeps:
  assumes gc: "object_gc_run_once R now w = (out, w')" and cand: "candidates_ok (cat w)"
    and key: "object_has_reference (cat w) key" "clean_key key" and i: "intact (rt_sha256 R) (objs w) key d"
  shows "intact (rt_sha256 R) (objs w') key d"
  using gc
proof (cases rule: object_gc_cases)
  case (tried k r st f)
  have "gc_object_key k \<noteq> key" using tried(3) key(1) by auto
  moreover have "clean_key (gc_object_key k)" using cand tried(1) by (simp add: candidates_ok_def)
  ultimately show ?thesis using delete_keeps_intact [OF i tried(4) _ key(2)] tried(5) by simp
qed (use i in simp_all)

lemma object_gc_frame:
  assumes "object_gc_run_once R now w = (out, w')"
  shows "\<exists>ks. cat w' = (cat w)\<lparr>gc_candidates := ks\<rparr>"
  using assms
proof (cases rule: object_gc_cases)
  case idle
  then show ?thesis by (auto intro: exI [of _ "gc_candidates (cat w)"])
qed (auto simp: upd_candidate_def)

lemma manifest_referenced: "m \<in> set (manifests c) \<Longrightarrow> object_has_reference c (mf_object_key m)"
  using unreferenced(1) by blast

lemma object_gc_durable:
  assumes d: "durable R w" and k: "keys_ok (cat w)" "candidates_ok (cat w)"
    and gc: "object_gc_run_once R now w = (out, w')"
  shows "durable R w'"
proof -
  obtain ks where c': "cat w' = (cat w)\<lparr>gc_candidates := ks\<rparr>" using object_gc_frame [OF gc] by blast
  show ?thesis unfolding durable_def
  proof
    fix m assume "m \<in> set (manifests (cat w'))"
    then have m: "m \<in> set (manifests (cat w))" by (simp add: c')
    have "clean_key (mf_object_key m)" using k(1) m by (simp add: keys_ok_def is_segment_key_def)
    with d m object_gc_keeps [OF gc k(2) manifest_referenced [OF m]]
    show "fenced (cat w') (mf_identity m) \<or> intact (rt_sha256 R) (objs w') (mf_object_key m) (mf_payload_sha256 m)"
      by (auto simp: durable_def c' fenced_def get_generation_def)
  qed
qed

section \<open>Sweeping reservations\<close>

lemma get_candidate_append:
  "get_candidate (c\<lparr>gc_candidates := gc_candidates c @ [k]\<rparr>) key =
     (case get_candidate c key of None \<Rightarrow> if gc_object_key k = key then Some k else None | Some x \<Rightarrow> Some x)"
  by (auto simp: get_candidate_def find_append_None find_append_Some split: option.splits)

lemma get_candidate_reservations [simp]:
  "get_candidate (set_reservation_state rid st c) key = get_candidate c key"
  by (simp add: set_reservation_state_def get_candidate_def)

lemma expire_reservation_candidate:
  assumes "get_candidate c key = Some k"
  shows "get_candidate (expire_reservation grace kid now r c) key = Some k"
  using assms by (auto simp: expire_reservation_def Let_def get_candidate_append split: option.splits)

lemma expire_reservation_covers:
  "get_candidate (expire_reservation grace kid now r c) (res_object_key r) \<noteq> None"
  by (auto simp: expire_reservation_def Let_def get_candidate_append new_candidate_def split: option.splits)

lemma expire_reservation_rows:
  "reservations (expire_reservation grace kid now r c) =
     upd_where (\<lambda>x. res_reservation_id x = res_reservation_id r) (\<lambda>x. x\<lparr>res_state := Expired\<rparr>) (reservations c)"
  by (simp add: expire_reservation_def set_reservation_state_def Let_def)

lemma upd_where_upd_where_or:
  assumes "\<And>x. P x \<Longrightarrow> Q (f x) = Q x" "\<And>x. f (f x) = f x"
  shows "upd_where Q f (upd_where P f rows) = upd_where (\<lambda>x. P x \<or> Q x) f rows"
  using assms by (induction rows) auto

lemma expire_reservations_spec:
  "reservations (expire_reservations grace ids clock n batch c) =
     upd_where (\<lambda>x. res_reservation_id x \<in> res_reservation_id ` set batch) (\<lambda>x. x\<lparr>res_state := Expired\<rparr>) (reservations c)
   \<and> (\<forall>key k. get_candidate c key = Some k \<longrightarrow>
        get_candidate (expire_reservations grace ids clock n batch c) key = Some k)
   \<and> (\<forall>r \<in> set batch. get_candidate (expire_reservations grace ids clock n batch c) (res_object_key r) \<noteq> None)"
proof (induction batch arbitrary: n c)
  case Nil
  show ?case by (simp add: upd_where_ident)
next
  case (Cons r batch)
  let ?c = "expire_reservation grace (ids n) (clock (n + 1)) r c"
  note IH = Cons [of "n + 1" ?c]
  have rows: "upd_where (\<lambda>x. res_reservation_id x \<in> res_reservation_id ` set batch) (\<lambda>x. x\<lparr>res_state := Expired\<rparr>)
      (upd_where (\<lambda>x. res_reservation_id x = res_reservation_id r) (\<lambda>x. x\<lparr>res_state := Expired\<rparr>) (reservations c))
    = upd_where (\<lambda>x. res_reservation_id x = res_reservation_id r \<or> res_reservation_id x \<in> res_reservation_id ` set batch)
        (\<lambda>x. x\<lparr>res_state := Expired\<rparr>) (reservations c)"
    by (rule upd_where_upd_where_or) simp_all
  obtain k where k: "get_candidate ?c (res_object_key r) = Some k"
    using expire_reservation_covers [of grace "ids n" "clock (n + 1)" r c] by auto
  from IH k have "get_candidate (expire_reservations grace ids clock (n + 1) batch ?c) (res_object_key r) = Some k"
    by blast
  with IH rows expire_reservation_candidate [of c _ _ grace "ids n" "clock (n + 1)" r] show ?case
    by (simp add: expire_reservation_rows)
qed

lemma sweep_batch_member:
  "r \<in> set (sweep_batch sw now c) \<Longrightarrow>
     r \<in> set (reservations c) \<and> res_state r = Reserved \<and> res_created_at r < now - seconds (rs_ttl_seconds sw)"
  using set_take_subset [of "nat (rs_batch_size sw)"] by (fastforce simp: sweep_batch_def abandoned_def)

section \<open>Sweeping deadlines\<close>

text \<open>A reflexive and transitive relation that every single request keeps relates the ends of the sweep.\<close>

lemma request_deletions_lift:
  assumes "request_deletions clock n is out c = (out', c')"
    and step: "\<And>i now a r b. i \<in> set is \<Longrightarrow> delete_attempt i now a = (r, b) \<Longrightarrow> P a b"
    and refl: "\<And>a. P a a" and trans: "\<And>a b d. P a b \<Longrightarrow> P b d \<Longrightarrow> P a d"
  shows "P c c'"
  using assms(1) step
proof (induction clock n "is" out c rule: request_deletions.induct)
  case (1 clock n outcomes c)
  then show ?case by (simp add: refl)
next
  case (2 clock n i "is" held queued c)
  obtain r c1 where d: "delete_attempt i (clock n) c = (r, c1)" by fastforce
  have first: "P c c1" by (rule 2(4) [OF _ d]) simp
  have "P c1 c'"
  proof (cases r)
    case (Inl e)
    show ?thesis
    proof (rule 2(1) [OF d [symmetric] Inl])
      fix j t x y z assume "j \<in> set is" "delete_attempt j t x = (y, z)"
      then show "P x z" using 2(4) by (meson list.set_intros(2))
    qed (use 2(3) d Inl in simp)
  next
    case (Inr g)
    show ?thesis
    proof (rule 2(2) [OF d [symmetric] Inr])
      fix j t x y z assume "j \<in> set is" "delete_attempt j t x = (y, z)"
      then show "P x z" using 2(4) by (meson list.set_intros(2))
    qed (use 2(3) d Inr in simp)
  qed
  with first show ?case by (rule trans)
qed

lemma request_deletions_count:
  "request_deletions clock n is (h, q) c = ((h', q'), c') \<Longrightarrow> h' + q' = h + q + int (length is)"
proof (induction "is" arbitrary: n h q c)
  case (Cons j js)
  obtain r c1 where d: "delete_attempt j (clock n) c = (r, c1)" by fastforce
  show ?case
  proof (cases r)
    case (Inl e)
    with Cons.IH [of "n + 1" "h + 1" q c1] Cons.prems d show ?thesis by simp
  next
    case (Inr g)
    with Cons.IH [of "n + 1" h "q + 1" c1] Cons.prems d show ?thesis by simp
  qed
qed simp

lemma request_deletions_persist:
  "request_deletions clock n is out c = (out', c') \<Longrightarrow> get_deletion c i \<noteq> None \<longrightarrow> get_deletion c' i \<noteq> None"
  by (erule request_deletions_lift) (metis delete_attempt_rows, blast+)

lemma request_deletions_hit:
  "request_deletions clock n is (h, q) c = (out', c') \<Longrightarrow> i \<in> set is \<Longrightarrow> get_deletion c' i \<noteq> None"
proof (induction "is" arbitrary: n h q c)
  case (Cons j js)
  obtain r c1 where d: "delete_attempt j (clock n) c = (r, c1)" by fastforce
  obtain h1 q1 where rest: "request_deletions clock (n + 1) js (h1, q1) c1 = (out', c')"
    using Cons.prems(1) d by (cases r) auto
  show ?case
  proof (cases "i = j")
    case True
    with delete_attempt_rows(1) [OF d] request_deletions_persist [OF rest] show ?thesis by blast
  next
    case False
    with Cons.IH [OF rest] Cons.prems(2) show ?thesis by simp
  qed
qed simp

lemma request_deletions_miss:
  "request_deletions clock n is out c = (out', c') \<Longrightarrow> i \<notin> set is \<Longrightarrow> get_deletion c' i = get_deletion c i"
  by (erule request_deletions_lift [where P = "\<lambda>a b. get_deletion b i = get_deletion a i"])
     (metis delete_attempt_rows(2), simp_all)

lemma request_deletions_ok:
  "request_deletions clock n is out c = (out', c') \<Longrightarrow> lifecycle_ok c \<longrightarrow> lifecycle_ok c'"
  by (erule request_deletions_lift) (use delete_attempt_ok in blast)+

lemma request_deletions_grows: "request_deletions clock n is out c = (out', c') \<Longrightarrow> generations_grow c c'"
  by (erule request_deletions_lift) (use delete_attempt_grows generations_grow_refl generations_grow_trans in blast)+

lemma request_deletions_frame:
  assumes "request_deletions clock n is out c = (out', c')"
  shows "manifests c' = manifests c \<and> attempt_records c' = attempt_records c \<and> reservations c' = reservations c
    \<and> report_revisions c' = report_revisions c \<and> gc_candidates c' = gc_candidates c \<and> outbox c' = outbox c"
  using assms
  by (rule request_deletions_lift [where P = "\<lambda>a b. manifests b = manifests a \<and> attempt_records b = attempt_records a
      \<and> reservations b = reservations a \<and> report_revisions b = report_revisions a
      \<and> gc_candidates b = gc_candidates a \<and> outbox b = outbox a"]) (simp_all add: delete_attempt_frame)

section \<open>Properties of the sweepers\<close>

text \<open>The example site with the admitted object registered for collection, and with an orphan.\<close>

definition demo_gc_world :: world where
  "demo_gc_world = demo_admitted\<lparr>cat := (cat demo_admitted)\<lparr>gc_candidates :=
     [demo_candidate\<lparr>gc_state := GPending\<rparr>]\<rparr>\<rparr>"

definition demo_orphan_world :: world where
  "demo_orphan_world = demo_admitted\<lparr>cat := empty_catalog\<lparr>gc_candidates := [demo_candidate\<lparr>gc_state := GPending\<rparr>]\<rparr>\<rparr>"

definition demo_sweeper :: ReservationSweeper where
  "demo_sweeper = \<lparr>rs_ttl_seconds = 900, rs_batch_size = 100, rs_gc_grace_seconds = 3600\<rparr>"

definition demo_reserved_catalog :: catalog where
  "demo_reserved_catalog = empty_catalog\<lparr>reservations :=
     [new_reservation demo_principal demo_segment (gc_object_key demo_candidate) 0 demo_inputs]\<rparr>"

text \<open>C16. Garbage collection never removes an object that a manifest, a live reservation
  or a report revision refers to: whatever candidate a run picks, a referenced object that was intact
  is intact afterwards, and only collection candidates change in the catalogue.\<close>

theorem gc_spares_referenced:
  assumes "object_gc_run_once R now w = (out, w')" "candidates_ok (cat w)"
    "(t, cl, a) \<in> set (object_reference_scopes (cat w) key)" "clean_key key"
    "intact (rt_sha256 R) (objs w) key d"
  shows "intact (rt_sha256 R) (objs w') key d \<and> (\<exists>ks. cat w' = (cat w)\<lparr>gc_candidates := ks\<rparr>)"
proof -
  have "object_has_reference (cat w) key" using assms(3) by (auto simp: object_has_reference_def)
  with object_gc_keeps [OF assms(1,2) _ assms(4,5)] object_gc_frame [OF assms(1)] show ?thesis by blast
qed

theorem gc_spares_referenced_witness:
  "intact (rt_sha256 demo_runtime) (objs (snd (object_gc_run_once demo_runtime 9 demo_gc_world)))
     (gc_object_key demo_candidate) demo_digest"
proof -
  obtain out w' where x: "object_gc_run_once demo_runtime 9 demo_gc_world = (out, w')" by fastforce
  have "(''site'', ''alpha'', ''run-7'') \<in> set (object_reference_scopes (cat demo_gc_world) (gc_object_key demo_candidate))"
    using demo_reference by (simp add: demo_gc_world_def object_reference_scopes_def)
  moreover have "candidates_ok (cat demo_gc_world)" "clean_key (gc_object_key demo_candidate)"
    "intact (rt_sha256 demo_runtime) (objs demo_gc_world) (gc_object_key demo_candidate) demo_digest" by code_simp+
  ultimately show ?thesis using gc_spares_referenced [OF x] x by simp
qed

text \<open>A collection that reports \<open>deleted\<close> removed an object that was due, unreferenced and
  had exactly the recorded digest; one that reports \<open>missing\<close> or \<open>protected\<close> removed nothing.\<close>

theorem gc_deletes_only_verified:
  assumes "object_gc_run_once R now w = (Some out, w')"
  shows "(out = ''deleted'' \<longrightarrow> (\<exists>k \<in> set (gc_candidates (cat w)). gc_due now k
       \<and> \<not> object_has_reference (cat w) (gc_object_key k)
       \<and> intact (rt_sha256 R) (objs w) (gc_object_key k) (gc_payload_sha256 k)
       \<and> stored (objs w') (gc_object_key k) = None))
    \<and> (out = ''missing'' \<or> out = ''protected'' \<or> out = ''retry'' \<or> out = ''failed'' \<longrightarrow> objs w' = objs w)"
  using assms
proof (cases rule: object_gc_cases)
  case (tried k r st f)
  have gone: "stored st (gc_object_key k) = None" if "r = Inr b" for b
    using tried(4) that delete_verified_gone by blast
  have hit: "intact (rt_sha256 R) (objs w) (gc_object_key k) (gc_payload_sha256 k)" if "r = Inr True"
    using tried(4) that by (auto simp: delete_verified_def intact_def stored_def read_bytes_def
        split: sum.splits if_splits option.splits fs_entry.splits)
  have same: "st = objs w" if "r \<noteq> Inr True"
    using tried(4) that by (auto simp: delete_verified_def split: sum.splits if_splits)
  show ?thesis
  proof (cases r)
    case (Inl e)
    with tried same show ?thesis by simp
  next
    case (Inr b)
    with tried same gone hit show ?thesis by (cases b) auto
  qed
qed simp_all

theorem gc_deletes_only_verified_witness:
  "\<exists>w'. object_gc_run_once demo_runtime 9 demo_orphan_world = (Some ''deleted'', w')
     \<and> (\<exists>k \<in> set (gc_candidates (cat demo_orphan_world)). stored (objs w') (gc_object_key k) = None)"
proof -
  have "fst (object_gc_run_once demo_runtime 9 demo_orphan_world) = Some ''deleted''" by code_simp
  then obtain w' where x: "object_gc_run_once demo_runtime 9 demo_orphan_world = (Some ''deleted'', w')"
    by (metis prod.collapse)
  from gc_deletes_only_verified [OF x] x show ?thesis by auto
qed

text \<open>Failing collections back off and stop: a failure delays the next try by 30 seconds to
  one hour, and after five failures in a row the candidate is quarantined as \<open>failed\<close>.\<close>

theorem gc_retry_bounded:
  assumes "gc_state k = GPending" "0 \<le> gc_attempts k" "gc_attempts k < 4"
  shows "gc_state (retry_candidate m now k) = GPending
    \<and> now + seconds 30 \<le> gc_not_before (retry_candidate m now k)
    \<and> gc_not_before (retry_candidate m now k) \<le> now + seconds 3600
    \<and> gc_state ((retry_candidate m now ^^ 5) k) = GFailed"
proof -
  have step: "gc_attempts (retry_candidate m now x) = gc_attempts x + 1" for x
    by (simp add: retry_candidate_def Let_def)
  have "gc_attempts ((retry_candidate m now ^^ n) k) = gc_attempts k + int n" for n
    by (induction n) (simp_all add: step)
  from this [of 4] have a: "gc_attempts ((retry_candidate m now ^^ 4) k) \<ge> 4" using assms(2) by simp
  have "gc_state (retry_candidate m now x) = GFailed" if "gc_attempts x \<ge> 4" for x
    using that by (simp add: retry_candidate_def Let_def)
  with a have "gc_state (retry_candidate m now ((retry_candidate m now ^^ 4) k)) = GFailed" by blast
  then have "gc_state ((retry_candidate m now ^^ 5) k) = GFailed"
    by (simp add: numeral_eq_Suc)
  moreover have "30 \<le> backoff 30 n \<and> backoff 30 n \<le> 3600" for n by (rule backoff_bounds) simp_all
  ultimately show ?thesis using assms by (simp add: retry_candidate_def Let_def seconds_mono)
qed

theorem gc_retry_bounded_witness:
  "gc_state ((retry_candidate ''disk'' 7 ^^ 5) (demo_candidate\<lparr>gc_state := GPending\<rparr>)) = GFailed"
  using gc_retry_bounded [of "demo_candidate\<lparr>gc_state := GPending\<rparr>" "''disk''" 7] by (simp add: demo_candidate_def)

text \<open>The reservation sweep expires exactly the batch it selected, every member of which was
  still \<open>reserved\<close> and older than the time to live, leaves every other reservation as it was, and
  afterwards each expired reservation's object is registered as a collection candidate.\<close>

theorem reservation_sweep_effect:
  assumes "reservation_sweep sw ids clock c = (n, c')" "0 \<le> rs_batch_size sw"
  shows "n \<le> rs_batch_size sw
    \<and> reservations c' = map (\<lambda>r. if res_reservation_id r \<in> res_reservation_id ` set (sweep_batch sw (clock 0) c)
         then r\<lparr>res_state := Expired\<rparr> else r) (reservations c)
    \<and> (\<forall>r \<in> set (sweep_batch sw (clock 0) c). res_state r = Reserved
         \<and> res_created_at r < clock 0 - seconds (rs_ttl_seconds sw)
         \<and> get_candidate c' (res_object_key r) \<noteq> None)
    \<and> manifests c' = manifests c"
proof -
  let ?b = "sweep_batch sw (clock 0) c"
  from assms(1) have n: "n = int (length ?b)" and c': "c' = expire_reservations (rs_gc_grace_seconds sw) ids clock 0 ?b c"
    by (auto simp: reservation_sweep_def Let_def)
  have "n \<le> rs_batch_size sw" using assms(2) by (simp add: n sweep_batch_def min_def) linarith
  moreover have "manifests c' = manifests c"
    using expire_reservations_frame [of "rs_gc_grace_seconds sw" ids clock 0 ?b c] by (auto simp: c')
  ultimately show ?thesis
    using expire_reservations_spec [of "rs_gc_grace_seconds sw" ids clock 0 ?b c] sweep_batch_member [of _ sw "clock 0" c]
    by (simp add: c' upd_where_def)
qed

theorem reservation_sweep_effect_witness:
  "map res_state (reservations (snd (reservation_sweep demo_sweeper show_nat (\<lambda>_. seconds 1000) demo_reserved_catalog)))
   = [Expired]"
proof -
  let ?c = demo_reserved_catalog
  obtain n c' where x: "reservation_sweep demo_sweeper show_nat (\<lambda>_. seconds 1000) ?c = (n, c')" by fastforce
  have "map res_reservation_id (sweep_batch demo_sweeper (seconds 1000) ?c) = [''r1'']" by code_simp
  then have "res_reservation_id ` set (sweep_batch demo_sweeper (seconds 1000) ?c) = {''r1''}"
    by (metis list.simps(15) list.set(1) set_map)
  with reservation_sweep_effect [OF x] x show ?thesis
    by (simp add: demo_sweeper_def demo_reserved_catalog_def new_reservation_def demo_inputs_def)
qed

text \<open>An object can be orphaned for good: when the candidate row of its key is already in state
  \<open>deleted\<close> or \<open>missing\<close> from an earlier collection, expiring a new reservation leaves that row as it is,
  and no later run of the collector or of the audit ever selects it.\<close>

theorem expired_object_of_closed_candidate_leaks:
  assumes "reservation_sweep sw ids clock c = (n, c')" "r \<in> set (sweep_batch sw (clock 0) c)"
    "get_candidate c (res_object_key r) = Some k" "gc_state k \<in> {GDeleted, GMissing}"
  shows "get_candidate c' (res_object_key r) = Some k \<and> (\<forall>now. \<not> gc_due now k) \<and> (\<forall>aw now. \<not> audit_due aw now k)"
proof -
  let ?b = "sweep_batch sw (clock 0) c"
  from assms(1) have "c' = expire_reservations (rs_gc_grace_seconds sw) ids clock 0 ?b c"
    by (auto simp: reservation_sweep_def Let_def)
  with assms expire_reservations_spec [of "rs_gc_grace_seconds sw" ids clock 0 ?b c]
  show ?thesis by (auto simp: gc_due_def audit_due_def)
qed

theorem expired_object_of_closed_candidate_leaks_witness:
  "get_candidate (snd (reservation_sweep demo_sweeper show_nat (\<lambda>_. seconds 1000)
       (demo_reserved_catalog\<lparr>gc_candidates := [demo_candidate\<lparr>gc_state := GDeleted\<rparr>]\<rparr>)))
     (gc_object_key demo_candidate) = Some (demo_candidate\<lparr>gc_state := GDeleted\<rparr>)"
proof -
  let ?c = "demo_reserved_catalog\<lparr>gc_candidates := [demo_candidate\<lparr>gc_state := GDeleted\<rparr>]\<rparr>"
  let ?r = "new_reservation demo_principal demo_segment (gc_object_key demo_candidate) 0 demo_inputs"
  obtain n c' where x: "reservation_sweep demo_sweeper show_nat (\<lambda>_. seconds 1000) ?c = (n, c')" by fastforce
  have r: "?r \<in> set (sweep_batch demo_sweeper (seconds 1000) ?c)"
    by (simp add: sweep_batch_def demo_reserved_catalog_def demo_sweeper_def abandoned_def seconds_def)
       (simp add: new_reservation_def demo_inputs_def)
  have k: "res_object_key ?r = gc_object_key demo_candidate" by (simp add: new_reservation_def)
  have "get_candidate ?c (res_object_key ?r) = Some (demo_candidate\<lparr>gc_state := GDeleted\<rparr>)"
    by (simp add: get_candidate_def k)
  from expired_object_of_closed_candidate_leaks [OF x _ this] r x show ?thesis by (simp add: k)
qed

text \<open>Every attempt whose retention deadline the sweep found due has a deletion row
  afterwards, queued or held, the two counts add up to the number of due attempts, and attempts that were
  not due keep the deletion state they had.\<close>

theorem retention_sweep_effect:
  assumes "retention_sweep batch clock c = ((held, queued), c')"
  shows "held + queued = int (length (due_attempts batch (clock 0) c))
    \<and> (\<forall>i \<in> set (due_attempts batch (clock 0) c). get_deletion c' i \<noteq> None)
    \<and> (\<forall>i. i \<notin> set (due_attempts batch (clock 0) c) \<longrightarrow> get_deletion c' i = get_deletion c i)
    \<and> (lifecycle_ok c \<longrightarrow> lifecycle_ok c')"
proof -
  from assms have r: "request_deletions clock 1 (due_attempts batch (clock 0) c) (0, 0) c = ((held, queued), c')"
    by (simp add: retention_sweep_def)
  show ?thesis
  proof (intro conjI ballI allI impI)
    show "held + queued = int (length (due_attempts batch (clock 0) c))" using request_deletions_count [OF r] by simp
    show "get_deletion c' i \<noteq> None" if "i \<in> set (due_attempts batch (clock 0) c)" for i
      using request_deletions_hit [OF r that] .
    show "get_deletion c' i = get_deletion c i" if "i \<notin> set (due_attempts batch (clock 0) c)" for i
      using request_deletions_miss [OF r that] .
    show "lifecycle_ok c'" if "lifecycle_ok c" using request_deletions_ok [OF r] that by blast
  qed
qed

theorem retention_sweep_effect_witness:
  "\<exists>d. get_deletion (snd (retention_sweep 10 (\<lambda>_. 99)
      (empty_catalog\<lparr>attempt_records := [demo_attempt\<lparr>ar_retention_expires_at := Some 50\<rparr>]\<rparr>))) demo_identity = Some d"
proof -
  let ?c = "empty_catalog\<lparr>attempt_records := [demo_attempt\<lparr>ar_retention_expires_at := Some 50\<rparr>]\<rparr>"
  obtain held queued c' where x: "retention_sweep 10 (\<lambda>_. 99) ?c = ((held, queued), c')" by (metis prod.exhaust)
  have "demo_identity \<in> set (due_attempts 10 99 ?c)" by code_simp
  with retention_sweep_effect [OF x] x show ?thesis by auto
qed

end
