(* ===== verification/Outbox.thy ===== *)
theory Outbox
  imports Garbage_Collection
begin

text \<open>
  \<open>OutboxWorker\<close> of \<^verbatim>\<open>worker.py\<close>: lease one \<open>segment.admitted\<close> event, read and check the segment
  outside a transaction, and publish the normalised segment together with the request for a new
  report in one transaction that re-checks the lease and the attempt's generation.
\<close>

section \<open>Leases\<close>

record WorkLease =
  wl_outbox_id :: string
  wl_generation :: int
  wl_owner :: string

definition get_outbox :: "catalog \<Rightarrow> string \<Rightarrow> OutboxRecord option" where
  "get_outbox c oid = List.find (\<lambda>x. ob_outbox_id x = oid) (outbox c)"

definition upd_outbox :: "string \<Rightarrow> (OutboxRecord \<Rightarrow> OutboxRecord) \<Rightarrow> catalog \<Rightarrow> catalog" where
  "upd_outbox oid f c = c\<lparr>outbox := upd_where (\<lambda>x. ob_outbox_id x = oid) f (outbox c)\<rparr>"

definition outbox_claimable :: "event_kind \<Rightarrow> instant \<Rightarrow> OutboxRecord \<Rightarrow> bool" where
  "outbox_claimable ev now x = (ob_event_type x = ev \<and> (ob_state x = OPending
     \<or> (ob_state x = OProcessing \<and> expired_before (ob_lease_expires_at x) now)))"

definition claim_outbox_row :: "string \<Rightarrow> instant \<Rightarrow> OutboxRecord \<Rightarrow> OutboxRecord" where
  "claim_outbox_row own expires x = x\<lparr>ob_state := OProcessing, ob_lease_owner := Some own,
     ob_lease_generation := ob_lease_generation x + 1, ob_lease_expires_at := Some expires,
     ob_attempts := ob_attempts x + 1, ob_last_error := None\<rparr>"

definition claim_event :: "event_kind \<Rightarrow> string \<Rightarrow> int \<Rightarrow> instant \<Rightarrow> catalog \<Rightarrow> WorkLease option \<times> catalog" where
  "claim_event ev own lease_seconds now c =
     (case first_by (\<lambda>x. (ob_created_at x, ob_outbox_id x)) (filter (outbox_claimable ev now) (outbox c)) of
        None \<Rightarrow> (None, c)
      | Some x \<Rightarrow>
          (Some \<lparr>wl_outbox_id = ob_outbox_id x, wl_generation = ob_lease_generation x + 1, wl_owner = own\<rparr>,
           upd_outbox (ob_outbox_id x) (claim_outbox_row own (now + seconds lease_seconds)) c))"

definition outbox_claim :: "string \<Rightarrow> int \<Rightarrow> instant \<Rightarrow> catalog \<Rightarrow> WorkLease option \<times> catalog" where
  "outbox_claim = claim_event SegmentAdmitted"

definition outbox_owned :: "WorkLease \<Rightarrow> OutboxRecord \<Rightarrow> bool" where
  "outbox_owned l x = (ob_lease_owner x = Some (wl_owner l) \<and> ob_lease_generation x = wl_generation l)"

definition outbox_live :: "WorkLease \<Rightarrow> OutboxRecord \<Rightarrow> bool" where
  "outbox_live l x = (ob_state x = OProcessing \<and> outbox_owned l x)"

definition release_outbox_row :: "outbox_state \<Rightarrow> string option \<Rightarrow> OutboxRecord \<Rightarrow> OutboxRecord" where
  "release_outbox_row st err x = x\<lparr>ob_state := st, ob_lease_owner := None, ob_lease_expires_at := None,
     ob_last_error := err\<rparr>"

definition fail_outbox_row :: "string \<Rightarrow> OutboxRecord \<Rightarrow> OutboxRecord" where
  "fail_outbox_row message x =
     release_outbox_row (if ob_attempts x \<ge> 5 then OFailed else OPending) (Some (take 512 message)) x"

definition fail_event :: "WorkLease \<Rightarrow> string \<Rightarrow> catalog \<Rightarrow> catalog" where
  "fail_event l message c =
     (case get_outbox c (wl_outbox_id l) of
        None \<Rightarrow> c
      | Some x \<Rightarrow> if \<not> outbox_owned l x then c else upd_outbox (wl_outbox_id l) (fail_outbox_row message) c)"

section \<open>Reading\<close>

fun parse_lines :: "runtime \<Rightarrow> int \<Rightarrow> bytes list \<Rightarrow> int result" where
  "parse_lines R n [] = Inr n"
| "parse_lines R n (line # lines) =
     (if bytes_strip line = [] then parse_lines R n lines
      else (case rt_json_loads R line of
          None \<Rightarrow> Inl JSONDecodeError
        | Some v \<Rightarrow> if \<not> is_jobj v then Inl (ValueError ''normalized NDJSON record must be an object'')
                   else parse_lines R (n + 1) lines))"

definition parse_payload :: "runtime \<Rightarrow> bytes \<Rightarrow> int \<Rightarrow> int result" where
  "parse_payload R payload expected = bindE (parse_lines R 0 (splitlines payload)) (\<lambda>n.
     if n \<noteq> expected then Inl (ValueError ''normalized record count differs from admitted manifest'')
     else Inr n)"

record publication =
  pb_receipt_id :: string
  pb_identity :: attempt_identity
  pb_record_count :: int
  pb_payload_sha256 :: string
  pb_deletion_generation :: int

definition get_manifest :: "catalog \<Rightarrow> string \<Rightarrow> SegmentManifest option" where
  "get_manifest c rid = List.find (\<lambda>m. mf_receipt_id m = rid) (manifests c)"

text \<open>\<open>None\<close>: the event row is gone and the call returns \<open>False\<close>.\<close>

definition read_publication :: "runtime \<Rightarrow> WorkLease \<Rightarrow> world \<Rightarrow> publication option result" where
  "read_publication R l w =
     (case get_outbox (cat w) (wl_outbox_id l) of
        None \<Rightarrow> Inr None
      | Some x \<Rightarrow>
          (case get_manifest (cat w) (ob_aggregate_id x) of
             None \<Rightarrow> Inl (ValueError ''outbox references a missing manifest'')
           | Some m \<Rightarrow>
               bindE (read_verified (rt_sha256 R) (objs w) (mf_object_key m) (mf_payload_sha256 m)) (\<lambda>payload.
               bindE (parse_payload R payload (mf_record_count m)) (\<lambda>n.
               Inr (Some \<lparr>pb_receipt_id = mf_receipt_id m, pb_identity = mf_identity m, pb_record_count = n,
                 pb_payload_sha256 = mf_payload_sha256 m, pb_deletion_generation = mf_deletion_generation m\<rparr>)))))"

section \<open>Publishing\<close>

definition generation_current :: "catalog \<Rightarrow> attempt_identity \<Rightarrow> int \<Rightarrow> bool" where
  "generation_current c i n = (case get_generation c i of None \<Rightarrow> False
     | Some g \<Rightarrow> ag_deleted_at g = None \<and> ag_generation g = n)"

definition new_normalized :: "publication \<Rightarrow> instant \<Rightarrow> NormalizedSegment" where
  "new_normalized p now = \<lparr>ns_receipt_id = pb_receipt_id p, ns_tenant_id = fst (pb_identity p),
     ns_attempt_id = snd (snd (pb_identity p)), ns_record_count = pb_record_count p,
     ns_payload_sha256 = pb_payload_sha256 p, ns_normalizer_version = ''ndjson-v1'', ns_normalized_at = now\<rparr>"

definition report_request :: "publication \<Rightarrow> string \<Rightarrow> instant \<Rightarrow> OutboxRecord" where
  "report_request p oid now = \<lparr>ob_outbox_id = oid, ob_tenant_id = fst (pb_identity p),
     ob_event_type = AttemptReportRequested, ob_aggregate_id = snd (snd (pb_identity p)),
     ob_payload_json = Some (JObj [(''attempt_id'', JStr (snd (snd (pb_identity p)))),
       (''cluster_id'', JStr (fst (snd (pb_identity p)))),
       (''deletion_generation'', JInt (pb_deletion_generation p))]),
     ob_state = OPending, ob_attempts = 0, ob_lease_owner = None, ob_lease_generation = 0,
     ob_lease_expires_at = None, ob_last_error = None, ob_created_at = now\<rparr>"

abbreviation generation_changed :: string where
  "generation_changed \<equiv> ''attempt deletion generation changed''"

definition publish :: "WorkLease \<Rightarrow> publication \<Rightarrow> string \<Rightarrow> instant \<Rightarrow> instant \<Rightarrow> catalog \<Rightarrow> bool result \<times> catalog" where
  "publish l p oid normalized_at requested_at c =
     (case get_outbox c (wl_outbox_id l) of
        None \<Rightarrow> (Inr False, c)
      | Some x \<Rightarrow>
          if \<not> outbox_live l x then (Inr False, c)
          else if \<not> generation_current c (pb_identity p) (pb_deletion_generation p)
          then (Inr False, upd_outbox (wl_outbox_id l) (release_outbox_row OSuppressed (Some generation_changed)) c)
          else
            (let finish = upd_outbox (wl_outbox_id l) (release_outbox_row OCompleted None)
             in case List.find (\<lambda>n. ns_receipt_id n = pb_receipt_id p) (normalized_segments c) of
                  None \<Rightarrow>
                    (case add_outbox (report_request p oid requested_at) (outbox c) of
                       Inl e \<Rightarrow> (Inl e, c)
                     | Inr os \<Rightarrow> (Inr True, finish (c\<lparr>normalized_segments := normalized_segments c
                                     @ [new_normalized p normalized_at], outbox := os\<rparr>)))
                | Some n \<Rightarrow>
                    if ns_payload_sha256 n \<noteq> pb_payload_sha256 p
                    then (Inl (ValueError ''normalized receipt digest conflict''), c)
                    else (Inr True, finish c)))"

text \<open>An \<open>IntegrityViolation\<close> is not among the exceptions the worker catches.\<close>

definition caught :: "py_error \<Rightarrow> bool" where
  "caught e = (case e of ObjectIntegrityError _ \<Rightarrow> True | JSONDecodeError \<Rightarrow> True | ValueError _ \<Rightarrow> True | _ \<Rightarrow> False)"

definition outbox_execute ::
  "runtime \<Rightarrow> WorkLease \<Rightarrow> string \<Rightarrow> instant \<Rightarrow> instant \<Rightarrow> world \<Rightarrow> bool result \<times> world" where
  "outbox_execute R l oid normalized_at requested_at w =
     (let handle = (\<lambda>e. if caught e then (Inr False, w\<lparr>cat := fail_event l (err_text e) (cat w)\<rparr>) else (Inl e, w))
      in case read_publication R l w of
           Inl e \<Rightarrow> handle e
         | Inr None \<Rightarrow> (Inr False, w)
         | Inr (Some p) \<Rightarrow>
             (case begin_txn (publish l p oid normalized_at requested_at) (cat w) of
                (Inl e, c') \<Rightarrow> handle e
              | (Inr b, c') \<Rightarrow> (Inr b, w\<lparr>cat := c'\<rparr>)))"

definition outbox_run_once ::
  "runtime \<Rightarrow> string \<Rightarrow> int \<Rightarrow> instant \<Rightarrow> string \<Rightarrow> instant \<Rightarrow> instant \<Rightarrow> world \<Rightarrow> bool result \<times> world" where
  "outbox_run_once R own lease_seconds claimed_at oid normalized_at requested_at w =
     (case outbox_claim own lease_seconds claimed_at (cat w) of
        (None, c) \<Rightarrow> (Inr False, w\<lparr>cat := c\<rparr>)
      | (Some l, c) \<Rightarrow>
          (case outbox_execute R l oid normalized_at requested_at (w\<lparr>cat := c\<rparr>) of
             (Inl e, w') \<Rightarrow> (Inl e, w')
           | (Inr _, w') \<Rightarrow> (Inr True, w')))"

section \<open>The lease protocol\<close>

inductive outbox_row_step :: "OutboxRecord \<Rightarrow> OutboxRecord \<Rightarrow> bool" where
  claimed: "outbox_row_step x (claim_outbox_row own t x)"
| released: "outbox_row_step x (release_outbox_row st err x)"
| failed: "outbox_row_step x (fail_outbox_row m x)"

inductive_cases outbox_row_stepE: "outbox_row_step x x'"

interpretation ow: lease_protocol ob_lease_generation ob_lease_owner "\<lambda>x. ob_state x = OProcessing"
  claim_outbox_row outbox_row_step
proof unfold_locales
  fix x x' assume "outbox_row_step x x'"
  then show "ob_lease_generation x \<le> ob_lease_generation x'"
    by (rule outbox_row_stepE) (simp_all add: claim_outbox_row_def release_outbox_row_def fail_outbox_row_def)
qed (simp_all add: claim_outbox_row_def)

lemma outbox_live_honours: "outbox_live l x \<longleftrightarrow> ow.honours x (wl_owner l) (wl_generation l)"
  by (auto simp: outbox_live_def outbox_owned_def ow.honours_def)

section \<open>Laws\<close>

lemma parse_lines_Inr:
  "parse_lines R n lines = Inr m \<longleftrightarrow>
     list_all (is_record R) (nonblank lines) \<and> m = n + int (length (nonblank lines))"
proof (induction lines arbitrary: n)
  case (Cons line lines)
  show ?case
  proof (cases "bytes_strip line = []")
    case True
    with Cons show ?thesis by (simp add: nonblank_def)
  next
    case False
    with Cons [of "n + 1"] show ?thesis
      by (cases "rt_json_loads R line") (simp_all add: nonblank_def is_record_def algebra_simps)
  qed
qed (simp add: nonblank_def eq_commute)

lemma upd_outbox_frame [simp]:
  "manifests (upd_outbox oid f c) = manifests c" "generations (upd_outbox oid f c) = generations c"
  "normalized_segments (upd_outbox oid f c) = normalized_segments c" "reservations (upd_outbox oid f c) = reservations c"
  "report_revisions (upd_outbox oid f c) = report_revisions c" "attempt_records (upd_outbox oid f c) = attempt_records c"
  "outbox (upd_outbox oid f c) = upd_where (\<lambda>x. ob_outbox_id x = oid) f (outbox c)"
  "holds (upd_outbox oid f c) = holds c" "deletions (upd_outbox oid f c) = deletions c"
  "gc_candidates (upd_outbox oid f c) = gc_candidates c" "report_heads (upd_outbox oid f c) = report_heads c"
  by (simp_all add: upd_outbox_def)

lemma publish_Inr:
  assumes "publish l p oid t1 t2 c = (Inr b, c')"
  obtains (lost) "\<not> b" "c' = c"
  | (suppressed) x where "\<not> b" "get_outbox c (wl_outbox_id l) = Some x" "outbox_live l x"
      "\<not> generation_current c (pb_identity p) (pb_deletion_generation p)"
      "c' = upd_outbox (wl_outbox_id l) (release_outbox_row OSuppressed (Some generation_changed)) c"
  | (fresh) x where "b" "get_outbox c (wl_outbox_id l) = Some x" "outbox_live l x"
      "generation_current c (pb_identity p) (pb_deletion_generation p)"
      "\<forall>n \<in> set (normalized_segments c). ns_receipt_id n \<noteq> pb_receipt_id p"
      "\<forall>y \<in> set (outbox c). ob_outbox_id (report_request p oid t2) \<noteq> ob_outbox_id y"
      "c' = upd_outbox (wl_outbox_id l) (release_outbox_row OCompleted None)
         (c\<lparr>normalized_segments := normalized_segments c @ [new_normalized p t1],
            outbox := outbox c @ [report_request p oid t2]\<rparr>)"
  | (again) x n where "b" "get_outbox c (wl_outbox_id l) = Some x" "outbox_live l x"
      "generation_current c (pb_identity p) (pb_deletion_generation p)"
      "n \<in> set (normalized_segments c)" "ns_receipt_id n = pb_receipt_id p" "ns_payload_sha256 n = pb_payload_sha256 p"
      "c' = upd_outbox (wl_outbox_id l) (release_outbox_row OCompleted None) c"
proof (cases "get_outbox c (wl_outbox_id l)")
  case None
  with assms lost show ?thesis by (auto simp: publish_def)
next
  case (Some x)
  show ?thesis
  proof (cases "outbox_live l x \<and> generation_current c (pb_identity p) (pb_deletion_generation p)")
    case False
    with Some assms lost suppressed show ?thesis by (auto simp: publish_def split: if_splits)
  next
    case True
    show ?thesis
    proof (cases "List.find (\<lambda>n. ns_receipt_id n = pb_receipt_id p) (normalized_segments c)")
      case None
      with Some True assms fresh show ?thesis
        by (auto simp: publish_def Let_def add_outbox_def add_row_Inr_iff find_None_all split: sum.splits)
    next
      case (Some n)
      from find_Some_iff [OF this] have n: "n \<in> set (normalized_segments c)" "ns_receipt_id n = pb_receipt_id p" by auto
      with Some \<open>get_outbox c (wl_outbox_id l) = Some x\<close> True assms again show ?thesis
        by (auto simp: publish_def Let_def split: if_splits)
    qed
  qed
qed

lemma get_outbox_Some: "get_outbox c oid = Some x \<Longrightarrow> x \<in> set (outbox c) \<and> ob_outbox_id x = oid"
  by (auto simp: get_outbox_def dest: find_Some_iff)

lemma release_outbox_row_simps [simp]:
  "ob_event_type (release_outbox_row st err x) = ob_event_type x"
  "ob_outbox_id (release_outbox_row st err x) = ob_outbox_id x"
  "ob_aggregate_id (release_outbox_row st err x) = ob_aggregate_id x"
  by (simp_all add: release_outbox_row_def)

lemma count_where_upd_where:
  assumes "\<And>x. Q x \<Longrightarrow> P (f x) = P x"
  shows "count_where P (upd_where Q f rows) = count_where P rows"
  using assms by (induction rows) (auto simp: count_where_def)

lemma count_where_append [simp]: "count_where P (xs @ ys) = count_where P xs + count_where P ys"
  by (simp add: count_where_def)

lemma count_where_single [simp]: "count_where P [x] = (if P x then 1 else 0)"
  by (simp add: count_where_def)

abbreviation is_report_event :: "OutboxRecord \<Rightarrow> bool" where
  "is_report_event x \<equiv> ob_event_type x = AttemptReportRequested"

section \<open>Properties of the outbox worker\<close>

text \<open>Whatever admission accepted, the normaliser accepts: a payload that passed
  \<open>_prepare_payload\<close> is parsed without an error and yields exactly the admitted record count.\<close>

theorem admitted_payload_normalises:
  assumes "prepare_payload R sv t s = Inr p"
  shows "parse_payload R (pp_content p) (su_record_count s) = Inr (su_record_count s)"
proof -
  from assms have "count_records R 1 0 (splitlines (pp_content p)) = Inr (su_record_count s)"
    by (auto simp: prepare_payload_def Let_def bindE_Inr_iff split: if_splits option.splits)
  then have "parse_lines R 0 (splitlines (pp_content p)) = Inr (su_record_count s)"
    by (simp add: count_records_Inr parse_lines_Inr)
  then show ?thesis by (simp add: parse_payload_def)
qed

theorem admitted_payload_normalises_witness: "parse_payload demo_runtime ''{}'' 1 = Inr 1"
proof -
  have p: "prepare_payload demo_runtime demo_service ''site'' demo_segment =
      Inr \<lparr>pp_content = ''{}'', pp_object_key = dr_object_key demo_receipt\<rparr>" by code_simp
  have "su_record_count demo_segment = 1" by (simp add: demo_segment_def)
  with admitted_payload_normalises [OF p] show ?thesis by simp
qed

text \<open>The example site with the admission event claimed by a worker.\<close>

definition demo_work_lease :: WorkLease where
  "demo_work_lease = \<lparr>wl_outbox_id = ''o1'', wl_generation = 1, wl_owner = ''w1''\<rparr>"

definition demo_claimed_event :: world where
  "demo_claimed_event = demo_admitted\<lparr>cat := snd (outbox_claim ''w1'' 60 40 (cat demo_admitted))\<rparr>"

definition demo_publication :: publication where
  "demo_publication = \<lparr>pb_receipt_id = ''c1'', pb_identity = demo_identity, pb_record_count = 1,
     pb_payload_sha256 = demo_digest, pb_deletion_generation = 0\<rparr>"

lemma demo_event_claimed: "fst (outbox_claim ''w1'' 60 40 (cat demo_admitted)) = Some demo_work_lease"
  "read_publication demo_runtime demo_work_lease demo_claimed_event = Inr (Some demo_publication)"
  by code_simp+

text \<open>C18. Publication happens once: the normalised segments keep distinct receipts, earlier ones are
  never changed, a successful publication leaves exactly one row for its receipt, and a report
  is requested exactly when a row was added.\<close>

theorem publish_exactly_once:
  assumes "publish l p oid t1 t2 c = (Inr b, c')" "distinct (map ns_receipt_id (normalized_segments c))"
  shows "distinct (map ns_receipt_id (normalized_segments c'))
    \<and> (\<exists>new. normalized_segments c' = normalized_segments c @ new \<and> length new \<le> 1
         \<and> count_where is_report_event (outbox c') = count_where is_report_event (outbox c) + int (length new))
    \<and> (b \<longrightarrow> count_where (\<lambda>n. ns_receipt_id n = pb_receipt_id p) (normalized_segments c') = 1)"
proof -
  have one: "count_where (\<lambda>n. ns_receipt_id n = r) ns = 1"
    if "distinct (map ns_receipt_id ns)" "r \<in> ns_receipt_id ` set ns" for r ns
    using that
  proof (induction ns)
    case (Cons n ns)
    show ?case
    proof (cases "ns_receipt_id n = r")
      case True
      with Cons.prems(1) have "filter (\<lambda>x. ns_receipt_id x = r) ns = []" 
        by (simp add: filter_empty_conv) (metis image_eqI)
      with True show ?thesis by (simp add: count_where_def)
    next
      case False
      with Cons show ?thesis by (auto simp: count_where_def)
    qed
  qed simp
  have ev: "count_where is_report_event (upd_where Q (release_outbox_row st err) rows) = count_where is_report_event rows"
    for Q st err rows by (rule count_where_upd_where) simp
  from assms(1) show ?thesis
  proof (cases rule: publish_Inr)
    case lost
    with assms(2) show ?thesis by simp
  next
    case (suppressed x)
    with assms(2) show ?thesis by (simp add: ev)
  next
    case (fresh x)
    let ?n = "new_normalized p t1"
    have rid: "ns_receipt_id ?n = pb_receipt_id p" "is_report_event (report_request p oid t2)"
      by (simp_all add: new_normalized_def report_request_def)
    with fresh assms(2) have d: "distinct (map ns_receipt_id (normalized_segments c'))" by auto
    with fresh rid one [OF d, of "pb_receipt_id p"] show ?thesis by (simp add: ev)
  next
    case (again x n)
    have "pb_receipt_id p \<in> ns_receipt_id ` set (normalized_segments c)" using again(5,6) by (metis image_eqI)
    from one [OF assms(2) this] again assms(2) show ?thesis by (simp add: ev)
  qed
qed

theorem publish_exactly_once_witness:
  "\<exists>c'. publish demo_work_lease demo_publication ''o9'' 50 51 (cat demo_claimed_event) = (Inr True, c')
     \<and> count_where (\<lambda>n. ns_receipt_id n = ''c1'') (normalized_segments c') = 1"
proof -
  have "fst (publish demo_work_lease demo_publication ''o9'' 50 51 (cat demo_claimed_event)) = Inr True" by code_simp
  then obtain c' where x: "publish demo_work_lease demo_publication ''o9'' 50 51 (cat demo_claimed_event) = (Inr True, c')"
    by (metis prod.collapse)
  have "distinct (map ns_receipt_id (normalized_segments (cat demo_claimed_event)))" by code_simp
  from publish_exactly_once [OF x this] x show ?thesis by (simp add: demo_publication_def)
qed

text \<open>Nothing is published for a deleted attempt: when the generation of the publication is no
  longer the current live one, the normalised segments stay as they are, no report is requested, and
  the event is suppressed or left to its current owner.\<close>

theorem deleted_attempt_not_published:
  assumes "publish l p oid t1 t2 c = (r, c')" "\<not> generation_current c (pb_identity p) (pb_deletion_generation p)"
  shows "r = Inr False \<and> normalized_segments c' = normalized_segments c
    \<and> length (outbox c') = length (outbox c)
    \<and> (\<forall>x. get_outbox c (wl_outbox_id l) = Some x \<and> outbox_live l x \<longrightarrow>
         (\<exists>y \<in> set (outbox c'). ob_outbox_id y = wl_outbox_id l \<and> ob_state y = OSuppressed))"
proof (cases "\<exists>x. get_outbox c (wl_outbox_id l) = Some x \<and> outbox_live l x")
  case False
  with assms show ?thesis by (auto simp: publish_def split: option.splits)
next
  case True
  then obtain x where x: "get_outbox c (wl_outbox_id l) = Some x" "outbox_live l x" by blast
  note m = get_outbox_Some [OF x(1)]
  let ?f = "release_outbox_row OSuppressed (Some generation_changed)"
  from assms x have r: "r = Inr False" "c' = upd_outbox (wl_outbox_id l) ?f c" by (auto simp: publish_def)
  have "?f x \<in> set (outbox c')" using m by (simp add: r upd_where_hit)
  moreover have "ob_outbox_id (?f x) = wl_outbox_id l" "ob_state (?f x) = OSuppressed"
    using m by (simp_all add: release_outbox_row_def)
  ultimately have "\<exists>y \<in> set (outbox c'). ob_outbox_id y = wl_outbox_id l \<and> ob_state y = OSuppressed" by blast
  with r show ?thesis by simp
qed

theorem deleted_attempt_not_published_witness:
  "fst (publish demo_work_lease (demo_publication\<lparr>pb_deletion_generation := 4\<rparr>) ''o9'' 50 51 (cat demo_claimed_event))
   = Inr False"
proof -
  obtain r c' where x: "publish demo_work_lease (demo_publication\<lparr>pb_deletion_generation := 4\<rparr>) ''o9'' 50 51
      (cat demo_claimed_event) = (r, c')" by fastforce
  have "\<not> generation_current (cat demo_claimed_event) (pb_identity (demo_publication\<lparr>pb_deletion_generation := 4\<rparr>))
      (pb_deletion_generation (demo_publication\<lparr>pb_deletion_generation := 4\<rparr>))" by code_simp
  from deleted_attempt_not_published [OF x this] x show ?thesis by simp
qed

text \<open>A worker whose lease was superseded has no effect: executing under the old lease
  leaves the whole world unchanged.\<close>

theorem superseded_outbox_lease_inert:
  assumes "get_outbox (cat w) (ob_outbox_id x0) = Some x2"
    "outbox_row_step\<^sup>*\<^sup>* (claim_outbox_row own t x0) x1" "outbox_row_step\<^sup>*\<^sup>* (claim_outbox_row own' t' x1) x2"
  shows "snd (outbox_execute R \<lparr>wl_outbox_id = ob_outbox_id x0, wl_generation = ob_lease_generation x0 + 1,
     wl_owner = own\<rparr> oid t1 t2 w) = w"
proof -
  let ?l = "\<lparr>wl_outbox_id = ob_outbox_id x0, wl_generation = ob_lease_generation x0 + 1, wl_owner = own\<rparr>"
  from ow.superseded_gen [OF assms(2,3)] have no: "\<not> outbox_owned ?l x2" by (simp add: outbox_owned_def)
  have f: "fail_event ?l m (cat w) = cat w" for m using assms(1) no by (simp add: fail_event_def)
  have p: "begin_txn (publish ?l p oid t1 t2) (cat w) = (Inr False, cat w)" for p
    using assms(1) no by (simp add: begin_txn_def publish_def outbox_live_def)
  show ?thesis
    by (simp add: outbox_execute_def Let_def f p split: sum.splits option.splits)
qed

definition demo_event :: OutboxRecord where
  "demo_event = admitted_event demo_principal demo_segment demo_inputs"

theorem superseded_outbox_lease_inert_witness:
  "snd (outbox_execute demo_runtime \<lparr>wl_outbox_id = ob_outbox_id demo_event,
       wl_generation = ob_lease_generation demo_event + 1, wl_owner = ''w1''\<rparr> ''o9'' 50 51
     (demo_admitted\<lparr>cat := (cat demo_admitted)\<lparr>outbox :=
        [claim_outbox_row ''w2'' 90 (claim_outbox_row ''w1'' 60 demo_event)]\<rparr>\<rparr>))
   = demo_admitted\<lparr>cat := (cat demo_admitted)\<lparr>outbox :=
        [claim_outbox_row ''w2'' 90 (claim_outbox_row ''w1'' 60 demo_event)]\<rparr>\<rparr>"
  by (rule superseded_outbox_lease_inert [OF _ rtranclp.rtrancl_refl rtranclp.rtrancl_refl])
     (simp add: get_outbox_def claim_outbox_row_def)

end
