(* ===== verification/Parquet.thy ===== *)
theory Parquet
  imports Outbox
begin

text \<open>
  \<^verbatim>\<open>parquet.py\<close>: the bounded conversion of admitted NDJSON into rows.  The column lists of the
  source are one list of row records.  Encoding the table is \<open>pyarrow\<close>, the parameter
  \<open>write_table\<close>; it receives the rows and the three constant columns.
\<close>

section \<open>Typed projection\<close>

definition integer_between :: "int \<Rightarrow> int \<Rightarrow> json \<Rightarrow> int option" where
  "integer_between lo hi v = (case v of JInt i \<Rightarrow> if i < lo \<or> i > hi then None else Some i | _ \<Rightarrow> None)"

definition max_int64 :: int where "max_int64 = 2 ^ 63 - 1"

definition max_int32 :: int where "max_int32 = 2 ^ 31 - 1"

abbreviation integer :: "json \<Rightarrow> int option" where
  "integer \<equiv> integer_between 0 max_int64"

definition text_of :: "json \<Rightarrow> string option" where
  "text_of v = (case v of JStr s \<Rightarrow> Some s | _ \<Rightarrow> None)"

definition bool_of :: "json \<Rightarrow> bool option" where
  "bool_of v = (case v of JBool b \<Rightarrow> Some b | _ \<Rightarrow> None)"

definition record_type :: "(string \<times> json) list \<Rightarrow> string" where
  "record_type v =
     (if integer_between 1 max_int64 (jget v ''schema_version'') \<noteq> None \<and> integer (jget v ''rank'') \<noteq> None
         \<and> integer (jget v ''runtime_ns'') \<noteq> None \<and> integer (jget v ''mpi_time_ns'') \<noteq> None
         \<and> text_of (jget v ''hostname'') \<noteq> None
      then ''rank_summary''
      else if integer_between 1 max_int64 (jget v ''schema_version'') \<noteq> None \<and> integer (jget v ''rank'') \<noteq> None
         \<and> integer (jget v ''sequence'') \<noteq> None \<and> text_of (jget v ''operation'') \<noteq> None
         \<and> integer (jget v ''duration_ns'') \<noteq> None
      then ''mpi_event''
      else ''unrecognized'')"

section \<open>Canonical record text\<close>

text \<open>\<open>json.dumps(value, allow_nan=False, ensure_ascii=False, sort_keys=True, separators=(",", ":"))\<close>.\<close>

definition escape_raw :: "char \<Rightarrow> string" where
  "escape_raw c = (if (of_char c :: nat) < 127 then escape_char c else [c])"

definition dumps_raw_str :: "string \<Rightarrow> string" where
  "dumps_raw_str s = CHR 0x22 # concat (map escape_raw s) @ [CHR 0x22]"

primrec json_dumps_raw :: "json \<Rightarrow> string" where
  "json_dumps_raw JNull = ''null''"
| "json_dumps_raw (JBool b) = (if b then ''true'' else ''false'')"
| "json_dumps_raw (JInt i) = show_int i"
| "json_dumps_raw (JFloat r) = r"
| "json_dumps_raw (JStr s) = dumps_raw_str s"
| "json_dumps_raw (JArr xs) = ''['' @ join '','' (map json_dumps_raw xs) @ '']''"
| "json_dumps_raw (JObj kvs) =
     ''{'' @ join '','' (map (\<lambda>(k, d). dumps_raw_str k @ '':'' @ d)
        (sort_key fst (map (map_prod id json_dumps_raw) kvs))) @ ''}''"

primrec json_finite :: "json \<Rightarrow> bool" where
  "json_finite JNull = True"
| "json_finite (JBool b) = True"
| "json_finite (JInt i) = True"
| "json_finite (JFloat r) = (r \<notin> {''nan'', ''inf'', ''-inf''})"
| "json_finite (JStr s) = True"
| "json_finite (JArr xs) = list_all id (map json_finite xs)"
| "json_finite (JObj kvs) = list_all snd (map (map_prod id json_finite) kvs)"

definition canonical_record :: "json \<Rightarrow> string result" where
  "canonical_record v =
     (if json_finite v then Inr (json_dumps_raw v)
      else Inl (ValueError ''Out of range float values are not JSON compliant''))"

section \<open>Rows\<close>

record ParquetSegment =
  ps_receipt_id :: string
  ps_payload_sha256 :: string
  ps_expected_records :: int
  ps_payload :: bytes

record parquet_row =
  pr_receipt_id :: string
  pr_payload_sha256 :: string
  pr_record_index :: int
  pr_record_type :: string
  pr_schema_version :: "int option"
  pr_rank :: "int option"
  pr_sequence :: "int option"
  pr_operation :: "string option"
  pr_record_kind :: "string option"
  pr_timestamp_ns :: "int option"
  pr_duration_ns :: "int option"
  pr_payload_bytes :: "int option"
  pr_error_code :: "int option"
  pr_hostname :: "string option"
  pr_world_size :: "int option"
  pr_runtime_ns :: "int option"
  pr_mpi_time_ns :: "int option"
  pr_mpi_calls :: "int option"
  pr_request_completions :: "int option"
  pr_failed_calls :: "int option"
  pr_complete :: "bool option"
  pr_capture_state :: "string option"
  pr_record_json :: string

definition project_row :: "ParquetSegment \<Rightarrow> int \<Rightarrow> (string \<times> json) list \<Rightarrow> string \<Rightarrow> parquet_row" where
  "project_row s idx v canonical =
     \<lparr>pr_receipt_id = ps_receipt_id s, pr_payload_sha256 = ps_payload_sha256 s, pr_record_index = idx,
      pr_record_type = record_type v,
      pr_schema_version = integer_between 1 max_int32 (jget v ''schema_version''),
      pr_rank = integer (jget v ''rank''), pr_sequence = integer (jget v ''sequence''),
      pr_operation = text_of (jget v ''operation''), pr_record_kind = text_of (jget v ''record_kind''),
      pr_timestamp_ns = integer (jget v ''timestamp_ns''), pr_duration_ns = integer (jget v ''duration_ns''),
      pr_payload_bytes = integer (jget v ''payload_bytes''),
      pr_error_code = integer_between (- (2 ^ 31)) max_int32 (jget v ''error_code''),
      pr_hostname = text_of (jget v ''hostname''),
      pr_world_size = integer_between 1 max_int64 (jget v ''world_size''),
      pr_runtime_ns = integer (jget v ''runtime_ns''), pr_mpi_time_ns = integer (jget v ''mpi_time_ns''),
      pr_mpi_calls = integer (jget v ''mpi_calls''),
      pr_request_completions = integer (jget v ''request_completions''),
      pr_failed_calls = integer (jget v ''failed_calls''), pr_complete = bool_of (jget v ''complete''),
      pr_capture_state = text_of (jget v ''capture_state''), pr_record_json = canonical\<rparr>"

text \<open>\<open>tot\<close> is \<open>len(record_json)\<close>, the number of rows gathered so far over all segments.\<close>

fun segment_rows ::
  "runtime \<Rightarrow> int \<Rightarrow> ParquetSegment \<Rightarrow> int \<Rightarrow> int \<Rightarrow> bytes list \<Rightarrow> parquet_row list result" where
  "segment_rows R max_records s tot idx [] =
     (if idx \<noteq> ps_expected_records s then Inl (ValueError ''Parquet segment record count mismatch'')
      else Inr [])"
| "segment_rows R max_records s tot idx (line # lines) =
     (if bytes_strip line = [] then segment_rows R max_records s tot idx lines
      else (case rt_json_loads R line of
          None \<Rightarrow> Inl JSONDecodeError
        | Some (JObj v) \<Rightarrow>
            bindE (canonical_record (JObj v)) (\<lambda>canonical.
              if tot + 1 > max_records then Inl (ValueError ''Parquet record limit exceeded'')
              else bindE (segment_rows R max_records s (tot + 1) (idx + 1) lines) (\<lambda>rows.
                Inr (project_row s idx v canonical # rows)))
        | Some _ \<Rightarrow> Inl (ValueError ''normalized record must be an object'')))"

fun all_rows :: "runtime \<Rightarrow> int \<Rightarrow> int \<Rightarrow> ParquetSegment list \<Rightarrow> parquet_row list result" where
  "all_rows R max_records tot [] = Inr []"
| "all_rows R max_records tot (s # ss) =
     bindE (segment_rows R max_records s tot 0 (splitlines (ps_payload s))) (\<lambda>rows.
       bindE (all_rows R max_records (tot + int (length rows)) ss) (\<lambda>more. Inr (rows @ more)))"

record ParquetArtifact =
  pa_payload :: bytes
  pa_row_count :: int
  pa_schema_version :: string

type_synonym table_writer = "attempt_identity \<Rightarrow> parquet_row list \<Rightarrow> bytes"

definition build_normalized_parquet ::
  "runtime \<Rightarrow> table_writer \<Rightarrow> attempt_identity \<Rightarrow> ParquetSegment list \<Rightarrow> int \<Rightarrow> int \<Rightarrow> int \<Rightarrow> ParquetArtifact result" where
  "build_normalized_parquet R write_table i segments max_segments max_records max_input_bytes =
     (if segments = [] then Inl (ValueError ''at least one segment is required'')
      else if int (length segments) > max_segments then Inl (ValueError ''Parquet segment limit exceeded'')
      else if sum_list (map (\<lambda>s. int (length (ps_payload s))) segments) > max_input_bytes
      then Inl (ValueError ''Parquet input byte limit exceeded'')
      else bindE (all_rows R max_records 0 segments) (\<lambda>rows.
        Inr \<lparr>pa_payload = write_table i rows, pa_row_count = int (length rows),
             pa_schema_version = ''normalized-record-v2''\<rparr>))"

section \<open>Laws\<close>

lemma integer_between_bounds: "integer_between lo hi v = Some i \<Longrightarrow> lo \<le> i \<and> i \<le> hi \<and> v = JInt i"
  by (auto simp: integer_between_def split: json.splits if_splits)

lemma integer_between_iff: "integer_between lo hi v = Some i \<longleftrightarrow> v = JInt i \<and> lo \<le> i \<and> i \<le> hi"
  by (auto simp: integer_between_def split: json.splits)

lemma segment_rows_Inr:
  "segment_rows R mx s tot idx lines = Inr rows \<Longrightarrow>
     idx + int (length rows) = ps_expected_records s
     \<and> length rows = length (nonblank lines) \<and> list_all (is_record R) (nonblank lines)
     \<and> (rows \<noteq> [] \<longrightarrow> tot + int (length rows) \<le> mx)
     \<and> (\<forall>n < length rows. \<exists>v. rows ! n = project_row s (idx + int n) v (json_dumps_raw (JObj v)))"
proof (induction lines arbitrary: tot idx rows)
  case Nil
  then show ?case by (auto simp: nonblank_def split: if_splits)
next
  case (Cons line lines)
  show ?case
  proof (cases "bytes_strip line = []")
    case True
    with Cons.prems have rest: "segment_rows R mx s tot idx lines = Inr rows" by simp
    have "nonblank (line # lines) = nonblank lines" using True by (simp add: nonblank_def)
    then show ?thesis by (rule ssubst) (rule Cons.IH [OF rest])
  next
    case False
    with Cons.prems obtain v rest where v: "rt_json_loads R line = Some (JObj v)"
      and rest: "segment_rows R mx s (tot + 1) (idx + 1) lines = Inr rest"
      and rows: "rows = project_row s idx v (json_dumps_raw (JObj v)) # rest" and le: "tot + 1 \<le> mx"
      by (auto simp: bindE_Inr_iff canonical_record_def split: option.splits json.splits if_splits)
    note IH = Cons.IH [OF rest]
    have "\<exists>v. rows ! n = project_row s (idx + int n) v (json_dumps_raw (JObj v))" if "n < length rows" for n
    proof (cases n)
      case 0
      then show ?thesis by (auto simp: rows)
    next
      case (Suc m)
      with IH that rows obtain u where "rest ! m = project_row s (idx + 1 + int m) u (json_dumps_raw (JObj u))" by auto
      with Suc rows show ?thesis by (auto simp: algebra_simps)
    qed
    moreover have "tot + int (length rows) \<le> mx" using IH le by (cases rest) (auto simp: rows)
    ultimately show ?thesis using IH False v by (auto simp: rows nonblank_def is_record_def)
  qed
qed

lemma all_rows_length:
  "all_rows R mx tot segs = Inr rows \<Longrightarrow> int (length rows) = sum_list (map ps_expected_records segs)
     \<and> (rows \<noteq> [] \<longrightarrow> tot + int (length rows) \<le> mx)"
proof (induction segs arbitrary: tot rows)
  case (Cons s segs)
  then obtain r1 r2 where r: "segment_rows R mx s tot 0 (splitlines (ps_payload s)) = Inr r1"
    "all_rows R mx (tot + int (length r1)) segs = Inr r2" "rows = r1 @ r2"
    by (auto simp: bindE_Inr_iff)
  from segment_rows_Inr [OF r(1)] Cons.IH [OF r(2)] r(3) show ?case by (cases "r2 = []") auto
qed simp

section \<open>Properties of the conversion\<close>


definition demo_parquet_segment :: ParquetSegment where
  "demo_parquet_segment = \<lparr>ps_receipt_id = ''c1'', ps_payload_sha256 = demo_digest, ps_expected_records = 1,
     ps_payload = ''{}''\<rparr>"


text \<open>The typed columns are exact or absent: a projected integer is the integer of the
  record and lies within the width of its column, so no value wraps or is invented.\<close>

theorem projection_in_range:
  "(\<forall>n. pr_rank (project_row s k v cj) = Some n \<longrightarrow> jget v ''rank'' = JInt n \<and> 0 \<le> n \<and> n < 2 ^ 63)
   \<and> (\<forall>n. pr_schema_version (project_row s k v cj) = Some n \<longrightarrow> jget v ''schema_version'' = JInt n \<and> 1 \<le> n \<and> n < 2 ^ 31)
   \<and> (\<forall>n. pr_error_code (project_row s k v cj) = Some n \<longrightarrow> jget v ''error_code'' = JInt n \<and> - (2 ^ 31) \<le> n \<and> n < 2 ^ 31)
   \<and> (\<forall>n. pr_duration_ns (project_row s k v cj) = Some n \<longrightarrow> jget v ''duration_ns'' = JInt n \<and> 0 \<le> n \<and> n < 2 ^ 63)
   \<and> (\<forall>n. pr_world_size (project_row s k v cj) = Some n \<longrightarrow> jget v ''world_size'' = JInt n \<and> 1 \<le> n \<and> n < 2 ^ 63)"
  by (auto simp: project_row_def max_int64_def max_int32_def dest!: integer_between_bounds)

theorem projection_in_range_witness:
  "pr_rank (project_row demo_parquet_segment 0 [(''rank'', JInt 5)] ''{}'') = Some 5 \<and> (5::int) < 2 ^ 63"
proof -
  have "pr_rank (project_row demo_parquet_segment 0 [(''rank'', JInt 5)] ''{}'') = Some 5"
    by (simp add: project_row_def integer_between_def jget_def max_int64_def)
  with projection_in_range [of demo_parquet_segment 0 "[(''rank'', JInt 5)]" "''{}''"] show ?thesis by blast
qed

end
