(* ===== verification/Reports.thy ===== *)
theory Reports
  imports Parquet
begin

text \<open>
  \<open>ReportRevisionWorker\<close> of \<^verbatim>\<open>worker.py\<close>: build a deterministic manifest and a Parquet file from
  the normalised segments of an attempt, register both objects as collection candidates, and
  in one transaction store them, add the revision and advance the head, unless the
  attempt was deleted or its inputs changed meanwhile.
\<close>

section \<open>Configuration, requests and inputs\<close>

record ReportRevisionWorker =
  rw_max_segments :: int
  rw_max_records :: int
  rw_max_input_bytes :: int
  rw_orphan_gc_grace_seconds :: int

definition make_report_worker :: "int \<Rightarrow> int \<Rightarrow> int \<Rightarrow> int \<Rightarrow> ReportRevisionWorker result" where
  "make_report_worker max_segments max_records max_input_bytes grace =
     (if \<not> (300 \<le> grace \<and> grace \<le> 604800)
      then Inl (ValueError ''orphan_gc_grace_seconds must be within [300, 604800]'')
      else Inr \<lparr>rw_max_segments = max_segments, rw_max_records = max_records,
             rw_max_input_bytes = max_input_bytes, rw_orphan_gc_grace_seconds = grace\<rparr>)"

definition report_claim :: "string \<Rightarrow> int \<Rightarrow> instant \<Rightarrow> catalog \<Rightarrow> WorkLease option \<times> catalog" where
  "report_claim = claim_event AttemptReportRequested"

definition request_of :: "OutboxRecord \<Rightarrow> (attempt_identity \<times> int) result" where
  "request_of x =
     (case ob_payload_json x of
        None \<Rightarrow> Inl JSONDecodeError
      | Some (JObj v) \<Rightarrow>
          if set (map fst v) \<noteq> {''cluster_id'', ''attempt_id'', ''deletion_generation''}
          then Inl (ValueError ''report request payload is invalid'')
          else (case jget v ''cluster_id'' of
              JStr cl \<Rightarrow>
                if cl = [] then Inl (ValueError ''report request cluster_id is invalid'')
                else (case jget v ''attempt_id'' of
                    JStr a \<Rightarrow>
                      if a = [] then Inl (ValueError ''report request attempt_id is invalid'')
                      else (case jget v ''deletion_generation'' of
                          JInt g \<Rightarrow> if g < 0 then Inl (ValueError ''report request deletion_generation is invalid'')
                                   else Inr ((ob_tenant_id x, cl, a), g)
                        | _ \<Rightarrow> Inl (ValueError ''report request deletion_generation is invalid''))
                  | _ \<Rightarrow> Inl (ValueError ''report request attempt_id is invalid''))
            | _ \<Rightarrow> Inl (ValueError ''report request cluster_id is invalid''))
      | Some _ \<Rightarrow> Inl (ValueError ''report request payload is invalid''))"

record ReportInput =
  ri_receipt_id :: string
  ri_payload_sha256 :: string
  ri_object_key :: string
  ri_record_count :: int
  ri_normalizer_version :: string

definition input_order :: "SegmentManifest \<Rightarrow> string \<times> string \<times> string \<times> int \<times> string" where
  "input_order m = (mf_producer_id m, mf_transport_epoch m, mf_stream_id m, mf_first_sequence m, mf_receipt_id m)"

definition report_inputs :: "catalog \<Rightarrow> attempt_identity \<Rightarrow> int \<Rightarrow> ReportInput list" where
  "report_inputs c i generation =
     map (\<lambda>(n, m). \<lparr>ri_receipt_id = mf_receipt_id m, ri_payload_sha256 = mf_payload_sha256 m,
            ri_object_key = mf_object_key m, ri_record_count = ns_record_count n,
            ri_normalizer_version = ns_normalizer_version n\<rparr>)
       (sort_key (\<lambda>(n, m). input_order m)
         (concat (map (\<lambda>n. map (\<lambda>m. (n, m))
             (filter (\<lambda>m. mf_receipt_id m = ns_receipt_id n \<and> mf_identity m = i
                        \<and> mf_deletion_generation m = generation) (manifests c)))
           (normalized_segments c))))"

definition input_json :: "ReportInput \<Rightarrow> json" where
  "input_json x = JObj [(''normalizer_version'', JStr (ri_normalizer_version x)),
     (''payload_sha256'', JStr (ri_payload_sha256 x)), (''receipt_id'', JStr (ri_receipt_id x)),
     (''record_count'', JInt (ri_record_count x))]"

definition input_fingerprint :: "runtime \<Rightarrow> ReportInput list \<Rightarrow> string" where
  "input_fingerprint R inputs = rt_sha256 R (utf8 (json_dumps (JArr (map input_json inputs))))"

section \<open>Artifacts\<close>

definition report_payload ::
  "attempt_identity \<Rightarrow> int \<Rightarrow> string \<Rightarrow> ReportInput list \<Rightarrow> string \<Rightarrow> string \<Rightarrow> int \<Rightarrow> bytes" where
  "report_payload i generation fingerprint inputs parquet_sha parquet_schema parquet_rows =
     utf8 (json_dumps (JObj
       [(''attempt_id'', JStr (snd (snd i))), (''builder_version'', JStr ''attempt-manifest-v1''),
        (''cluster_id'', JStr (fst (snd i))), (''deletion_generation'', JInt generation),
        (''input_fingerprint'', JStr fingerprint),
        (''parquet'', JObj [(''row_count'', JInt parquet_rows), (''schema_version'', JStr parquet_schema),
           (''sha256'', JStr parquet_sha)]),
        (''record_count'', JInt (sum_list (map ri_record_count inputs))), (''schema_major'', JInt 1),
        (''segment_count'', JInt (int (length inputs))), (''segments'', JArr (map input_json inputs)),
        (''tenant_id'', JStr (fst i)), (''type'', JStr ''ranklens-attempt-manifest'')]) @ [LF])"

definition report_object_key :: "runtime \<Rightarrow> attempt_identity \<Rightarrow> string \<Rightarrow> string \<Rightarrow> string" where
  "report_object_key R i digest suffix =
     ''reports/v1/'' @ join ''/'' (map (\<lambda>v. take 16 (rt_sha256 R (utf8 v))) [fst i, fst (snd i), snd (snd i)])
       @ ''/'' @ digest @ ''.'' @ suffix"

fun load_inputs :: "runtime \<Rightarrow> local_store \<Rightarrow> int \<Rightarrow> int \<Rightarrow> ReportInput list \<Rightarrow> ParquetSegment list result" where
  "load_inputs R st max_bytes tot [] = Inr []"
| "load_inputs R st max_bytes tot (x # xs) =
     bindE (read_verified (rt_sha256 R) st (ri_object_key x) (ri_payload_sha256 x)) (\<lambda>payload.
       if tot + int (length payload) > max_bytes then Inl (ValueError ''Parquet input byte limit exceeded'')
       else bindE (load_inputs R st max_bytes (tot + int (length payload)) xs) (\<lambda>more.
         Inr (\<lparr>ps_receipt_id = ri_receipt_id x, ps_payload_sha256 = ri_payload_sha256 x,
               ps_expected_records = ri_record_count x, ps_payload = payload\<rparr> # more)))"

record report_build =
  rb_identity :: attempt_identity
  rb_generation :: int
  rb_inputs :: "ReportInput list"
  rb_fingerprint :: string
  rb_parquet :: ParquetArtifact
  rb_parquet_sha256 :: string
  rb_parquet_key :: string
  rb_payload :: bytes
  rb_sha256 :: string
  rb_key :: string

definition build_report ::
  "runtime \<Rightarrow> table_writer \<Rightarrow> ReportRevisionWorker \<Rightarrow> attempt_identity \<Rightarrow> int \<Rightarrow> ReportInput list \<Rightarrow> local_store
   \<Rightarrow> report_build result" where
  "build_report R write_table rw i generation inputs st =
     (let fingerprint = input_fingerprint R inputs in
      bindE (load_inputs R st (rw_max_input_bytes rw) 0 inputs) (\<lambda>segments.
      bindE (build_normalized_parquet R write_table i segments (rw_max_segments rw) (rw_max_records rw)
               (rw_max_input_bytes rw)) (\<lambda>parquet.
      let parquet_digest = rt_sha256 R (pa_payload parquet);
          payload = report_payload i generation fingerprint inputs parquet_digest (pa_schema_version parquet)
                      (pa_row_count parquet);
          digest = rt_sha256 R payload
      in Inr \<lparr>rb_identity = i, rb_generation = generation, rb_inputs = inputs, rb_fingerprint = fingerprint,
           rb_parquet = parquet, rb_parquet_sha256 = parquet_digest,
           rb_parquet_key = report_object_key R i parquet_digest ''parquet'', rb_payload = payload,
           rb_sha256 = digest, rb_key = report_object_key R i digest ''json''\<rparr>)))"

text \<open>The first, read-only block of \<open>execute\<close>; \<open>None\<close> when the lease is no longer valid.\<close>

definition read_report ::
  "runtime \<Rightarrow> table_writer \<Rightarrow> ReportRevisionWorker \<Rightarrow> WorkLease \<Rightarrow> world \<Rightarrow> report_build option result" where
  "read_report R write_table rw l w =
     (case get_outbox (cat w) (wl_outbox_id l) of
        None \<Rightarrow> Inr None
      | Some x \<Rightarrow>
          if \<not> outbox_live l x then Inr None
          else bindE (request_of x) (\<lambda>(i, generation).
            let inputs = report_inputs (cat w) i generation in
            if inputs = [] then Inl (ValueError ''report request has no normalized inputs'')
            else bindE (build_report R write_table rw i generation inputs (objs w)) (\<lambda>b. Inr (Some b))))"

section \<open>Collection candidates of the artifacts\<close>

definition artifacts :: "report_build \<Rightarrow> (string \<times> string) list" where
  "artifacts b = dict_of [(rb_key b, rb_sha256 b), (rb_parquet_key b, rb_parquet_sha256 b)]"

definition ensure_artifact_candidate ::
  "string \<Rightarrow> string \<Rightarrow> string \<Rightarrow> instant \<Rightarrow> instant \<Rightarrow> catalog \<Rightarrow> unit result \<times> catalog" where
  "ensure_artifact_candidate kid key digest now not_before c =
     (case get_candidate c key of
        None \<Rightarrow> (Inr (), c\<lparr>gc_candidates := gc_candidates c @ [new_candidate kid key digest now not_before]\<rparr>)
      | Some k \<Rightarrow>
          if gc_payload_sha256 k \<noteq> digest
          then (Inl (ValueError ''artifact garbage-collection digest does not match''), c)
          else if gc_state k \<in> {GDeleted, GMissing, GFailed}
          then (Inr (), upd_candidate (gc_candidate_id k) (\<lambda>x. x\<lparr>gc_state := GPending, gc_not_before := not_before,
                   gc_attempts := 0, gc_last_error := None, gc_completed_at := None\<rparr>) c)
          else (Inr (), c))"

fun ensure_artifacts ::
  "id_source \<Rightarrow> nat \<Rightarrow> instant \<Rightarrow> instant \<Rightarrow> (string \<times> string) list \<Rightarrow> catalog \<Rightarrow> unit result \<times> catalog" where
  "ensure_artifacts ids n now not_before [] c = (Inr (), c)"
| "ensure_artifacts ids n now not_before ((key, digest) # rest) c =
     (case ensure_artifact_candidate (ids n) key digest now not_before c of
        (Inl e, c1) \<Rightarrow> (Inl e, c1)
      | (Inr _, c1) \<Rightarrow> ensure_artifacts ids (n + 1) now not_before rest c1)"

definition reserve_artifacts ::
  "ReportRevisionWorker \<Rightarrow> id_source \<Rightarrow> instant \<Rightarrow> report_build \<Rightarrow> catalog \<Rightarrow> unit result \<times> catalog" where
  "reserve_artifacts rw ids now b =
     begin_txn (ensure_artifacts ids 0 now (now + seconds (rw_orphan_gc_grace_seconds rw)) (sort_key fst (artifacts b)))"

fun protect_artifacts :: "instant \<Rightarrow> (string \<times> string) list \<Rightarrow> catalog \<Rightarrow> unit result \<times> catalog" where
  "protect_artifacts now [] c = (Inr (), c)"
| "protect_artifacts now ((key, digest) # rest) c =
     (case get_candidate c key of
        None \<Rightarrow> (Inl (ValueError ''artifact garbage-collection reservation is missing''), c)
      | Some k \<Rightarrow>
          if gc_payload_sha256 k \<noteq> digest
          then (Inl (ValueError ''artifact garbage-collection reservation is missing''), c)
          else protect_artifacts now rest
                 (upd_candidate (gc_candidate_id k) (\<lambda>x. x\<lparr>gc_state := GProtected, gc_last_error := None,
                    gc_completed_at := Some now\<rparr>) c))"

section \<open>Publication\<close>

definition get_head :: "catalog \<Rightarrow> attempt_identity \<Rightarrow> ReportHead option" where
  "get_head c i = List.find (\<lambda>h. rh_identity h = i) (report_heads c)"

definition same_input_revision :: "report_build \<Rightarrow> ReportRevision \<Rightarrow> bool" where
  "same_input_revision b r = (rr_identity r = rb_identity b \<and> rr_deletion_generation r = rb_generation b
     \<and> rr_input_fingerprint r = rb_fingerprint b)"

definition next_revision_number :: "ReportHead option \<Rightarrow> int \<Rightarrow> int" where
  "next_revision_number head generation =
     (case head of
        None \<Rightarrow> 1
      | Some h \<Rightarrow> if rh_deletion_generation h = generation then rh_revision_number h + 1 else 1)"

definition new_revision :: "report_build \<Rightarrow> string \<Rightarrow> int \<Rightarrow> instant \<Rightarrow> ReportRevision" where
  "new_revision b rid number now =
     \<lparr>rr_revision_id = rid, rr_tenant_id = fst (rb_identity b), rr_cluster_id = fst (snd (rb_identity b)),
      rr_attempt_id = snd (snd (rb_identity b)), rr_deletion_generation = rb_generation b,
      rr_revision_number = number, rr_input_fingerprint = rb_fingerprint b,
      rr_segment_count = int (length (rb_inputs b)),
      rr_record_count = sum_list (map ri_record_count (rb_inputs b)), rr_report_object_key = rb_key b,
      rr_report_sha256 = rb_sha256 b, rr_parquet_object_key = Some (rb_parquet_key b),
      rr_parquet_sha256 = Some (rb_parquet_sha256 b),
      rr_parquet_schema_version = Some (pa_schema_version (rb_parquet b)),
      rr_parquet_row_count = Some (pa_row_count (rb_parquet b)), rr_builder_version = ''attempt-manifest-v1'',
      rr_created_at = now\<rparr>"

definition rr_clash :: "ReportRevision \<Rightarrow> ReportRevision \<Rightarrow> bool" where
  "rr_clash a b = (rr_revision_id a = rr_revision_id b
     \<or> (rr_identity a = rr_identity b \<and> rr_deletion_generation a = rr_deletion_generation b
        \<and> (rr_revision_number a = rr_revision_number b \<or> rr_input_fingerprint a = rr_input_fingerprint b)))"

definition set_head :: "ReportRevision \<Rightarrow> report_build \<Rightarrow> instant \<Rightarrow> catalog \<Rightarrow> catalog" where
  "set_head r b now c =
     (let i = rb_identity b;
          h = \<lparr>rh_tenant_id = fst i, rh_cluster_id = fst (snd i), rh_attempt_id = snd (snd i),
               rh_deletion_generation = rb_generation b, rh_revision_number = rr_revision_number r,
               rh_revision_id = rr_revision_id r, rh_input_fingerprint = rb_fingerprint b, rh_updated_at = now\<rparr>
      in if get_head c i = None then c\<lparr>report_heads := report_heads c @ [h]\<rparr>
         else c\<lparr>report_heads := upd_where (\<lambda>x. rh_identity x = i) (\<lambda>_. h) (report_heads c)\<rparr>)"

text \<open>The revision to publish: the existing one for these inputs, or a new row.\<close>

definition obtain_revision :: "report_build \<Rightarrow> string \<Rightarrow> instant \<Rightarrow> catalog \<Rightarrow> ReportRevision result \<times> catalog" where
  "obtain_revision b rid now c =
     (case List.find (same_input_revision b) (report_revisions c) of
        None \<Rightarrow>
          (let r = new_revision b rid (next_revision_number (get_head c (rb_identity b)) (rb_generation b)) now
           in case add_row rr_clash ''report_revisions'' r (report_revisions c) of
                Inl e \<Rightarrow> (Inl e, c)
              | Inr rows \<Rightarrow> (Inr r, c\<lparr>report_revisions := rows\<rparr>))
      | Some r \<Rightarrow>
          if rr_report_object_key r \<noteq> rb_key b \<or> rr_report_sha256 r \<noteq> rb_sha256 b
             \<or> rr_parquet_object_key r \<noteq> Some (rb_parquet_key b) \<or> rr_parquet_sha256 r \<noteq> Some (rb_parquet_sha256 b)
          then (Inl (ValueError ''existing report revision artifacts differ''), c)
          else (Inr r, c))"

definition finish_report :: "WorkLease \<Rightarrow> report_build \<Rightarrow> instant \<Rightarrow> catalog \<Rightarrow> bool result \<times> catalog" where
  "finish_report l b now c =
     (case protect_artifacts now (artifacts b) (upd_outbox (wl_outbox_id l) (release_outbox_row OCompleted None) c) of
        (Inl e, c') \<Rightarrow> (Inl e, c')
      | (Inr _, c') \<Rightarrow> (Inr True, c'))"

definition advance_head :: "WorkLease \<Rightarrow> report_build \<Rightarrow> string \<Rightarrow> instant \<Rightarrow> catalog \<Rightarrow> bool result \<times> catalog" where
  "advance_head l b rid now c =
     (case get_head c (rb_identity b) of
        Some h \<Rightarrow>
          if rh_deletion_generation h = rb_generation b \<and> rh_input_fingerprint h = rb_fingerprint b
          then finish_report l b now c
          else (case obtain_revision b rid now c of
              (Inl e, c') \<Rightarrow> (Inl e, c')
            | (Inr r, c') \<Rightarrow> finish_report l b now (set_head r b now c'))
      | None \<Rightarrow>
          (case obtain_revision b rid now c of
             (Inl e, c') \<Rightarrow> (Inl e, c')
           | (Inr r, c') \<Rightarrow> finish_report l b now (set_head r b now c')))"

definition store_artifacts :: "runtime \<Rightarrow> string \<Rightarrow> string \<Rightarrow> report_build \<Rightarrow> local_store \<Rightarrow> unit result \<times> local_store" where
  "store_artifacts R tmp1 tmp2 b st =
     (case put_verified (rt_sha256 R) tmp1 st (rb_parquet_key b) (pa_payload (rb_parquet b)) (rb_parquet_sha256 b) of
        (Inl e, st1) \<Rightarrow> (Inl e, st1)
      | (Inr _, st1) \<Rightarrow> put_verified (rt_sha256 R) tmp2 st1 (rb_key b) (rb_payload b) (rb_sha256 b))"

record report_publish_inputs =
  rpi_ids :: id_source
  rpi_tmp_parquet :: string
  rpi_tmp_report :: string
  rpi_revision_id :: string
  rpi_now :: instant

definition publish_report ::
  "runtime \<Rightarrow> ReportRevisionWorker \<Rightarrow> WorkLease \<Rightarrow> report_build \<Rightarrow> report_publish_inputs \<Rightarrow> world \<Rightarrow> bool result \<times> world" where
  "publish_report R rw l b inp w =
     (case get_outbox (cat w) (wl_outbox_id l) of
        None \<Rightarrow> (Inr False, w)
      | Some x \<Rightarrow>
          if \<not> outbox_live l x then (Inr False, w)
          else if \<not> generation_current (cat w) (rb_identity b) (rb_generation b)
          then (Inr False, w\<lparr>cat := upd_outbox (wl_outbox_id l)
                   (release_outbox_row OSuppressed (Some generation_changed)) (cat w)\<rparr>)
          else if input_fingerprint R (report_inputs (cat w) (rb_identity b) (rb_generation b)) \<noteq> rb_fingerprint b
          then (Inr False, w\<lparr>cat := upd_outbox (wl_outbox_id l)
                   (release_outbox_row OPending (Some ''normalized inputs changed during report build'')) (cat w)\<rparr>)
          else (case ensure_artifacts (rpi_ids inp) 0 (rpi_now inp)
                       (rpi_now inp + seconds (rw_orphan_gc_grace_seconds rw)) (sort_key fst (artifacts b)) (cat w) of
              (Inl e, c1) \<Rightarrow> (Inl e, w\<lparr>cat := c1\<rparr>)
            | (Inr _, c1) \<Rightarrow>
                (case store_artifacts R (rpi_tmp_parquet inp) (rpi_tmp_report inp) b (objs w) of
                   (Inl e, st) \<Rightarrow> (Inl e, \<lparr>cat = c1, objs = st\<rparr>)
                 | (Inr _, st) \<Rightarrow>
                     (case advance_head l b (rpi_revision_id inp) (rpi_now inp) c1 of
                        (r, c2) \<Rightarrow> (r, \<lparr>cat = c2, objs = st\<rparr>)))))"

definition report_execute ::
  "runtime \<Rightarrow> table_writer \<Rightarrow> ReportRevisionWorker \<Rightarrow> WorkLease \<Rightarrow> id_source \<Rightarrow> instant \<Rightarrow> report_publish_inputs
   \<Rightarrow> world \<Rightarrow> bool result \<times> world" where
  "report_execute R write_table rw l ids reserved_at inp w =
     (let handle = (\<lambda>e w'. if caught e then (Inr False, w'\<lparr>cat := fail_event l (err_text e) (cat w')\<rparr>) else (Inl e, w'))
      in case read_report R write_table rw l w of
           Inl e \<Rightarrow> handle e w
         | Inr None \<Rightarrow> (Inr False, w)
         | Inr (Some b) \<Rightarrow>
             (case reserve_artifacts rw ids reserved_at b (cat w) of
                (Inl e, c1) \<Rightarrow> handle e (w\<lparr>cat := c1\<rparr>)
              | (Inr _, c1) \<Rightarrow>
                  (case world_txn (publish_report R rw l b inp) (w\<lparr>cat := c1\<rparr>) of
                     (Inl e, w') \<Rightarrow> handle e w'
                   | (Inr r, w') \<Rightarrow> (Inr r, w'))))"

definition report_run_once ::
  "runtime \<Rightarrow> table_writer \<Rightarrow> ReportRevisionWorker \<Rightarrow> string \<Rightarrow> int \<Rightarrow> instant \<Rightarrow> id_source \<Rightarrow> instant
   \<Rightarrow> report_publish_inputs \<Rightarrow> world \<Rightarrow> bool result \<times> world" where
  "report_run_once R write_table rw own lease_seconds claimed_at ids reserved_at inp w =
     (case report_claim own lease_seconds claimed_at (cat w) of
        (None, c) \<Rightarrow> (Inr False, w\<lparr>cat := c\<rparr>)
      | (Some l, c) \<Rightarrow>
          (case report_execute R write_table rw l ids reserved_at inp (w\<lparr>cat := c\<rparr>) of
             (Inl e, w') \<Rightarrow> (Inl e, w')
           | (Inr _, w') \<Rightarrow> (Inr True, w')))"

section \<open>Laws of the candidate steps\<close>

text \<open>\<open>tracked c key d\<close>: the collector knows the object and has not closed its case.\<close>

definition tracked :: "catalog \<Rightarrow> string \<Rightarrow> string \<Rightarrow> bool" where
  "tracked c key d = (case get_candidate c key of None \<Rightarrow> False
     | Some k \<Rightarrow> gc_payload_sha256 k = d \<and> gc_state k \<notin> {GDeleted, GMissing, GFailed})"

definition protected_at :: "instant \<Rightarrow> catalog \<Rightarrow> string \<Rightarrow> bool" where
  "protected_at now c key = (case get_candidate c key of None \<Rightarrow> False
     | Some k \<Rightarrow> gc_state k = GProtected \<and> gc_completed_at k = Some now)"

lemma get_candidate_upd:
  assumes "\<And>k. gc_object_key (f k) = gc_object_key k"
  shows "get_candidate (upd_candidate kid f c) key =
    map_option (\<lambda>k. if gc_candidate_id k = kid then f k else k) (get_candidate c key)"
  by (simp add: get_candidate_def upd_candidate_def find_upd_where assms)

lemma get_candidate_Some: "get_candidate c key = Some k \<Longrightarrow> k \<in> set (gc_candidates c) \<and> gc_object_key k = key"
  by (auto simp: get_candidate_def dest: find_Some_iff)

lemma get_candidate_cong: "gc_candidates c' = gc_candidates c \<Longrightarrow> get_candidate c' key = get_candidate c key"
  by (simp add: get_candidate_def)

lemma tracked_cong: "gc_candidates c' = gc_candidates c \<Longrightarrow> tracked c' key d = tracked c key d"
  by (simp add: tracked_def get_candidate_def)

lemma ensure_candidate_tracks:
  assumes "ensure_artifact_candidate kid key d now nb c = (Inr u, c')"
  shows "tracked c' key d"
proof (cases "get_candidate c key")
  case None
  with assms show ?thesis
    by (auto simp: ensure_artifact_candidate_def tracked_def get_candidate_append new_candidate_def)
next
  case (Some k)
  with assms show ?thesis
    by (auto simp: ensure_artifact_candidate_def tracked_def get_candidate_upd split: if_splits)
qed

lemma ensure_candidate_keeps:
  assumes "ensure_artifact_candidate kid key d now nb c = (r, c')" "tracked c key' d'"
  shows "tracked c' key' d'"
proof (cases "get_candidate c key")
  case None
  with assms show ?thesis
    by (auto simp: ensure_artifact_candidate_def tracked_def get_candidate_append split: option.splits)
next
  case (Some k)
  with assms show ?thesis
    by (auto simp: ensure_artifact_candidate_def tracked_def get_candidate_upd split: if_splits option.splits)
qed

lemma upd_candidate_keys:
  assumes "\<And>k. gc_object_key (f k) = gc_object_key k"
  shows "gc_object_key ` set (gc_candidates (upd_candidate kid f c)) = gc_object_key ` set (gc_candidates c)"
proof -
  have "map gc_object_key (gc_candidates (upd_candidate kid f c)) = map gc_object_key (gc_candidates c)"
    by (simp add: upd_candidate_def map_upd_where assms)
  then show ?thesis by (metis image_set)
qed

lemma ensure_candidate_frame:
  assumes "ensure_artifact_candidate kid key d now nb c = (r, c')"
  shows "c' = c\<lparr>gc_candidates := gc_candidates c'\<rparr>
    \<and> gc_object_key ` set (gc_candidates c') \<subseteq> insert key (gc_object_key ` set (gc_candidates c))"
proof (cases "get_candidate c key")
  case None
  with assms show ?thesis by (auto simp: ensure_artifact_candidate_def new_candidate_def)
next
  case (Some k)
  let ?u = "upd_candidate (gc_candidate_id k) (\<lambda>x. x\<lparr>gc_state := GPending, gc_not_before := nb,
    gc_attempts := 0, gc_last_error := None, gc_completed_at := None\<rparr>) c"
  from Some assms have "c' = c \<or> c' = ?u" by (auto simp: ensure_artifact_candidate_def split: if_splits)
  moreover have "gc_object_key ` set (gc_candidates ?u) = gc_object_key ` set (gc_candidates c)"
    by (rule upd_candidate_keys) simp
  moreover have "?u = c\<lparr>gc_candidates := gc_candidates ?u\<rparr>" by (simp add: upd_candidate_def)
  ultimately show ?thesis by auto
qed

lemma candidates_only_trans:
  fixes c :: catalog
  assumes "c1 = c\<lparr>gc_candidates := gc_candidates c1\<rparr>" "c' = c1\<lparr>gc_candidates := gc_candidates c'\<rparr>"
  shows "c' = c\<lparr>gc_candidates := gc_candidates c'\<rparr>"
  by (subst assms(2), subst assms(1)) simp

lemma ensure_artifacts_frame:
  assumes "ensure_artifacts ids n now nb L c = (r, c')"
  shows "c' = c\<lparr>gc_candidates := gc_candidates c'\<rparr>
    \<and> gc_object_key ` set (gc_candidates c') \<subseteq> fst ` set L \<union> gc_object_key ` set (gc_candidates c)"
  using assms
proof (induction ids n now nb L c rule: ensure_artifacts.induct)
  case (2 ids n now nb key d rest c)
  obtain q c1 where e: "ensure_artifact_candidate (ids n) key d now nb c = (q, c1)" by fastforce
  note f = ensure_candidate_frame [OF e]
  show ?case
  proof (cases q)
    case (Inl x)
    with 2(2) e f show ?thesis by auto
  next
    case (Inr u)
    with 2(2) e have "ensure_artifacts ids (n + 1) now nb rest c1 = (r, c')" by simp
    from 2(1) [OF e [symmetric] Inr this] have g: "c' = c1\<lparr>gc_candidates := gc_candidates c'\<rparr>"
      "gc_object_key ` set (gc_candidates c') \<subseteq> fst ` set rest \<union> gc_object_key ` set (gc_candidates c1)" by auto
    have "c' = c\<lparr>gc_candidates := gc_candidates c'\<rparr>" by (rule candidates_only_trans [OF conjunct1 [OF f] g(1)])
    moreover have "gc_object_key ` set (gc_candidates c') \<subseteq> fst ` set ((key, d) # rest) \<union> gc_object_key ` set (gc_candidates c)"
      using g(2) conjunct2 [OF f] by auto
    ultimately show ?thesis by blast
  qed
qed auto

lemma ensure_artifacts_keeps:
  "ensure_artifacts ids n now nb L c = (r, c') \<Longrightarrow> tracked c key d \<Longrightarrow> tracked c' key d"
proof (induction ids n now nb L c rule: ensure_artifacts.induct)
  case (2 ids n now nb k dg rest c)
  obtain q c1 where e: "ensure_artifact_candidate (ids n) k dg now nb c = (q, c1)" by fastforce
  with 2 ensure_candidate_keeps [OF e 2(3)] show ?case by (cases q) auto
qed simp

lemma ensure_artifacts_tracks:
  "ensure_artifacts ids n now nb L c = (Inr u, c') \<Longrightarrow> (key, d) \<in> set L \<Longrightarrow> tracked c' key d"
proof (induction ids n now nb L c rule: ensure_artifacts.induct)
  case (2 ids n now nb k dg rest c)
  obtain q c1 where e: "ensure_artifact_candidate (ids n) k dg now nb c = (q, c1)" by fastforce
  with 2 obtain v where q: "q = Inr v" by (cases q) auto
  with 2(2) e have rest: "ensure_artifacts ids (n + 1) now nb rest c1 = (Inr u, c')" by simp
  show ?case
  proof (cases "(key, d) \<in> set rest")
    case True
    with 2(1) [OF e [symmetric] q rest] show ?thesis by simp
  next
    case False
    with 2(3) have "key = k" "d = dg" by auto
    with ensure_candidate_tracks [OF e [unfolded q]] ensure_artifacts_keeps [OF rest] show ?thesis by simp
  qed
qed simp

lemma protect_artifacts_frame:
  assumes "protect_artifacts now L c = (r, c')"
  shows "\<exists>ks. c' = c\<lparr>gc_candidates := ks\<rparr> \<and> gc_object_key ` set ks = gc_object_key ` set (gc_candidates c)"
  using assms
proof (induction now L c rule: protect_artifacts.induct)
  case (1 now c)
  then show ?case by (auto intro: exI [of _ "gc_candidates c"])
next
  case (2 now key d rest c)
  show ?case
  proof (cases "get_candidate c key")
    case None
    with 2(2) show ?thesis by (auto intro: exI [of _ "gc_candidates c"])
  next
    case (Some k)
    show ?thesis
    proof (cases "gc_payload_sha256 k = d")
      case False
      with Some 2(2) show ?thesis by (auto intro: exI [of _ "gc_candidates c"])
    next
      case True
      let ?c1 = "upd_candidate (gc_candidate_id k) (\<lambda>x. x\<lparr>gc_state := GProtected, gc_last_error := None,
        gc_completed_at := Some now\<rparr>) c"
      have keys: "gc_object_key ` set (gc_candidates ?c1) = gc_object_key ` set (gc_candidates c)"
        by (rule upd_candidate_keys) simp
      from Some True 2(2) have "protect_artifacts now rest ?c1 = (r, c')" by simp
      with 2(1) [OF Some] True obtain ks where "c' = ?c1\<lparr>gc_candidates := ks\<rparr>"
        "gc_object_key ` set ks = gc_object_key ` set (gc_candidates ?c1)" by auto
      with keys show ?thesis by (intro exI [of _ ks]) (simp add: upd_candidate_def)
    qed
  qed
qed

lemma protected_at_upd:
  "protected_at now c key \<Longrightarrow> protected_at now (upd_candidate kid (\<lambda>x. x\<lparr>gc_state := GProtected,
     gc_last_error := None, gc_completed_at := Some now\<rparr>) c) key"
  by (auto simp: protected_at_def get_candidate_upd split: option.splits)

lemma protect_artifacts_keeps:
  "protect_artifacts now L c = (r, c') \<Longrightarrow> protected_at now c key \<Longrightarrow> protected_at now c' key"
proof (induction now L c rule: protect_artifacts.induct)
  case (2 now k d rest c)
  then show ?case by (auto simp: protected_at_upd split: option.splits if_splits)
qed simp

lemma protect_artifacts_protects:
  "protect_artifacts now L c = (Inr u, c') \<Longrightarrow> (key, d) \<in> set L \<Longrightarrow> protected_at now c' key"
proof (induction now L c rule: protect_artifacts.induct)
  case (2 now k dg rest c)
  from 2(2) obtain x where x: "get_candidate c k = Some x" "gc_payload_sha256 x = dg"
    by (auto split: option.splits if_splits)
  let ?c1 = "upd_candidate (gc_candidate_id x) (\<lambda>x. x\<lparr>gc_state := GProtected, gc_last_error := None,
        gc_completed_at := Some now\<rparr>) c"
  from 2(2) x have rest: "protect_artifacts now rest ?c1 = (Inr u, c')" by simp
  show ?case
  proof (cases "(key, d) \<in> set rest")
    case True
    with 2(1) [OF x(1) _ rest] x(2) show ?thesis by simp
  next
    case False
    with 2(3) have "key = k" by auto
    moreover have "protected_at now ?c1 k" using x by (simp add: protected_at_def get_candidate_upd)
    ultimately show ?thesis using protect_artifacts_keeps [OF rest] by simp
  qed
qed simp

section \<open>Laws of publication\<close>

lemma finish_report_Inr:
  assumes "finish_report l b now c = (Inr t, c')"
  shows "t" "(key, d) \<in> set (artifacts b) \<Longrightarrow> protected_at now c' key"
    "\<exists>ks. c' = (upd_outbox (wl_outbox_id l) (release_outbox_row OCompleted None) c)\<lparr>gc_candidates := ks\<rparr>
       \<and> gc_object_key ` set ks = gc_object_key ` set (gc_candidates c)"
proof -
  let ?c = "upd_outbox (wl_outbox_id l) (release_outbox_row OCompleted None) c"
  obtain q c1 where p: "protect_artifacts now (artifacts b) ?c = (q, c1)" by fastforce
  with assms have q: "t" "q = Inr ()" "c' = c1" by (auto simp: finish_report_def split: sum.splits)
  show "t" by (fact q)
  from protect_artifacts_protects [OF p [unfolded q(2)]] q(3)
  show "(key, d) \<in> set (artifacts b) \<Longrightarrow> protected_at now c' key" by simp
  from protect_artifacts_frame [OF p] q(3)
  show "\<exists>ks. c' = ?c\<lparr>gc_candidates := ks\<rparr> \<and> gc_object_key ` set ks = gc_object_key ` set (gc_candidates c)" by simp
qed

lemma obtain_revision_Inr:
  assumes "obtain_revision b rid now c = (Inr r, c')"
  obtains (old) "r \<in> set (report_revisions c)" "same_input_revision b r" "c' = c"
      "rr_report_object_key r = rb_key b" "rr_parquet_object_key r = Some (rb_parquet_key b)"
  | (new) "r = new_revision b rid (next_revision_number (get_head c (rb_identity b)) (rb_generation b)) now"
      "\<forall>x \<in> set (report_revisions c). \<not> rr_clash r x" "c' = c\<lparr>report_revisions := report_revisions c @ [r]\<rparr>"
proof (cases "List.find (same_input_revision b) (report_revisions c)")
  case None
  let ?r = "new_revision b rid (next_revision_number (get_head c (rb_identity b)) (rb_generation b)) now"
  obtain q where q: "add_row rr_clash ''report_revisions'' ?r (report_revisions c) = q" by simp
  with None assms have "q = Inr (report_revisions c')" "r = ?r" "c' = c\<lparr>report_revisions := report_revisions c'\<rparr>"
    by (cases q; auto simp: obtain_revision_def Let_def)+
  with q new show ?thesis by (simp add: add_row_Inr_iff)
next
  case (Some x)
  with assms have "x = r" "c' = c" "rr_report_object_key r = rb_key b" "rr_parquet_object_key r = Some (rb_parquet_key b)"
    by (simp_all add: obtain_revision_def split: if_splits)
  with old find_Some_iff [OF Some] show ?thesis by simp
qed

lemma advance_head_Inr:
  assumes "advance_head l b rid now c = (Inr t, c')"
  obtains (same) h where "get_head c (rb_identity b) = Some h" "rh_deletion_generation h = rb_generation b"
      "rh_input_fingerprint h = rb_fingerprint b" "finish_report l b now c = (Inr t, c')"
  | (moved) r c1 where "obtain_revision b rid now c = (Inr r, c1)"
      "finish_report l b now (set_head r b now c1) = (Inr t, c')"
proof (cases "\<exists>h. get_head c (rb_identity b) = Some h \<and> rh_deletion_generation h = rb_generation b
    \<and> rh_input_fingerprint h = rb_fingerprint b")
  case True
  with assms same show ?thesis by (auto simp: advance_head_def)
next
  case False
  obtain q c1 where o: "obtain_revision b rid now c = (q, c1)" by fastforce
  have "advance_head l b rid now c = (case obtain_revision b rid now c of (Inl e, c') \<Rightarrow> (Inl e, c')
      | (Inr r, c') \<Rightarrow> finish_report l b now (set_head r b now c'))"
    using False by (cases "get_head c (rb_identity b)") (auto simp: advance_head_def)
  with o assms moved show ?thesis by (cases q) simp_all
qed

lemma publish_report_cases:
  assumes "publish_report R rw l b inp w = (r, w')"
  obtains (lost) "r = Inr False" "w' = w"
  | (suppressed) x where "r = Inr False" "get_outbox (cat w) (wl_outbox_id l) = Some x" "outbox_live l x"
      "\<not> generation_current (cat w) (rb_identity b) (rb_generation b)"
      "w' = w\<lparr>cat := upd_outbox (wl_outbox_id l) (release_outbox_row OSuppressed (Some generation_changed)) (cat w)\<rparr>"
  | (changed) x where "r = Inr False" "get_outbox (cat w) (wl_outbox_id l) = Some x" "outbox_live l x"
      "w' = w\<lparr>cat := upd_outbox (wl_outbox_id l)
         (release_outbox_row OPending (Some ''normalized inputs changed during report build'')) (cat w)\<rparr>"
  | (refused) e where "r = Inl e" "objs w' = objs w"
  | (unstored) e where "r = Inl e"
      "store_artifacts R (rpi_tmp_parquet inp) (rpi_tmp_report inp) b (objs w) = (Inl e, objs w')"
  | (stored) x c1 where "get_outbox (cat w) (wl_outbox_id l) = Some x" "outbox_live l x"
      "generation_current (cat w) (rb_identity b) (rb_generation b)"
      "input_fingerprint R (report_inputs (cat w) (rb_identity b) (rb_generation b)) = rb_fingerprint b"
      "ensure_artifacts (rpi_ids inp) 0 (rpi_now inp) (rpi_now inp + seconds (rw_orphan_gc_grace_seconds rw))
         (sort_key fst (artifacts b)) (cat w) = (Inr (), c1)"
      "store_artifacts R (rpi_tmp_parquet inp) (rpi_tmp_report inp) b (objs w) = (Inr (), objs w')"
      "advance_head l b (rpi_revision_id inp) (rpi_now inp) c1 = (r, cat w')"
proof (cases "\<exists>x. get_outbox (cat w) (wl_outbox_id l) = Some x \<and> outbox_live l x
    \<and> generation_current (cat w) (rb_identity b) (rb_generation b)
    \<and> input_fingerprint R (report_inputs (cat w) (rb_identity b) (rb_generation b)) = rb_fingerprint b")
  case False
  show ?thesis
  proof (cases "\<exists>x. get_outbox (cat w) (wl_outbox_id l) = Some x \<and> outbox_live l x")
    case none: False
    then have "publish_report R rw l b inp w = (Inr False, w)" by (auto simp: publish_report_def split: option.splits)
    with assms lost show ?thesis by simp
  next
    case True
    then obtain x where x: "get_outbox (cat w) (wl_outbox_id l) = Some x" "outbox_live l x" by blast
    show ?thesis
    proof (cases "generation_current (cat w) (rb_identity b) (rb_generation b)")
      case gone: False
      with assms x suppressed [OF _ x] show ?thesis by (simp add: publish_report_def)
    next
      case cur: True
      with False x assms changed [OF _ x] show ?thesis by (simp add: publish_report_def)
    qed
  qed
next
  case True
  then obtain x where x: "get_outbox (cat w) (wl_outbox_id l) = Some x" "outbox_live l x"
    "generation_current (cat w) (rb_identity b) (rb_generation b)"
    "input_fingerprint R (report_inputs (cat w) (rb_identity b) (rb_generation b)) = rb_fingerprint b" by blast
  let ?E = "ensure_artifacts (rpi_ids inp) 0 (rpi_now inp) (rpi_now inp + seconds (rw_orphan_gc_grace_seconds rw))
         (sort_key fst (artifacts b)) (cat w)"
  let ?S = "store_artifacts R (rpi_tmp_parquet inp) (rpi_tmp_report inp) b (objs w)"
  obtain q c1 where e: "?E = (q, c1)" by fastforce
  obtain s st where s: "?S = (s, st)" by fastforce
  obtain z c2 where a: "advance_head l b (rpi_revision_id inp) (rpi_now inp) c1 = (z, c2)" by fastforce
  show ?thesis
  proof (cases q)
    case (Inl er)
    with assms x e refused show ?thesis by (auto simp: publish_report_def)
  next
    case (Inr u)
    note q = this
    show ?thesis
    proof (cases s)
      case (Inl er)
      with assms x e s q unstored show ?thesis by (auto simp: publish_report_def)
    next
      case (Inr v)
      with assms x e s q a stored show ?thesis by (auto simp: publish_report_def)
    qed
  qed
qed

text \<open>The rows that publication never touches.\<close>

lemma set_head_frame [simp]:
  "manifests (set_head r b now c) = manifests c" "generations (set_head r b now c) = generations c"
  "normalized_segments (set_head r b now c) = normalized_segments c" "outbox (set_head r b now c) = outbox c"
  "report_revisions (set_head r b now c) = report_revisions c" "gc_candidates (set_head r b now c) = gc_candidates c"
  "attempt_records (set_head r b now c) = attempt_records c" "reservations (set_head r b now c) = reservations c"
  "holds (set_head r b now c) = holds c" "deletions (set_head r b now c) = deletions c"
  by (simp_all add: set_head_def Let_def)

lemma get_head_set_head:
  "\<exists>h. get_head (set_head r b now c) (rb_identity b) = Some h \<and> rh_deletion_generation h = rb_generation b
     \<and> rh_input_fingerprint h = rb_fingerprint b \<and> rh_revision_id h = rr_revision_id r
     \<and> rh_revision_number h = rr_revision_number r"
proof (cases "get_head c (rb_identity b)")
  case None
  then show ?thesis by (simp add: set_head_def Let_def get_head_def find_append_None rh_identity_def)
next
  case (Some h)
  then have "rh_identity h = rb_identity b" by (auto simp: get_head_def dest: find_Some_iff)
  with Some show ?thesis
    by (simp add: set_head_def Let_def get_head_def find_upd_where) (simp add: find_upd_where rh_identity_def)
qed

section \<open>Artifact keys\<close>

text \<open>\<open>hashlib.sha256(...).hexdigest()\<close> is 64 lower-case hexadecimal digits.\<close>

definition hex_digests :: "runtime \<Rightarrow> bool" where
  "hex_digests R = (\<forall>b. sha256_hex (rt_sha256 R b))"

lemma hex_no_slash: "list_all hex_char s \<Longrightarrow> CHR ''/'' \<notin> set s"
proof -
  have "\<not> hex_char (CHR ''/'')" by code_simp
  then show "list_all hex_char s \<Longrightarrow> CHR ''/'' \<notin> set s" by (auto simp: list_all_iff)
qed

lemma report_key_parts:
  assumes "hex_digests R" "list_all hex_char d" "CHR ''/'' \<notin> set suffix"
  shows "\<exists>ps. split_path (report_object_key R i d suffix) = ''reports'' # ps @ [d @ ''.'' @ suffix]
    \<and> (\<forall>p \<in> set ps. 2 \<le> length p \<and> p \<noteq> ''..'')"
proof -
  let ?h = "\<lambda>v. take 16 (rt_sha256 R (utf8 v))"
  have h: "CHR ''/'' \<notin> set (?h v)" "length (?h v) = 16" for v
  proof -
    from assms(1) have x: "sha256_hex (rt_sha256 R (utf8 v))" by (simp add: hex_digests_def)
    then have "list_all hex_char (?h v)" by (auto simp: sha256_hex_def list_all_iff dest: in_set_takeD)
    then show "CHR ''/'' \<notin> set (?h v)" by (rule hex_no_slash)
    from x show "length (?h v) = 16" by (simp add: sha256_hex_def)
  qed
  have f: "CHR ''/'' \<notin> set (d @ ''.'' @ suffix)" using hex_no_slash [OF assms(2)] assms(3) by simp
  have key: "report_object_key R i d suffix = ''reports'' @ CHR ''/'' # ''v1'' @ CHR ''/'' # ?h (fst i) @ CHR ''/''
      # ?h (fst (snd i)) @ CHR ''/'' # ?h (snd (snd i)) @ CHR ''/'' # d @ ''.'' @ suffix"
    by (simp add: report_object_key_def)
  have v1: "CHR ''/'' \<notin> set ''reports''" "CHR ''/'' \<notin> set ''v1''" by simp_all
  let ?ps = "[''v1'', ?h (fst i), ?h (fst (snd i)), ?h (snd (snd i))]"
  have "split_path (report_object_key R i d suffix) = ''reports'' # ?ps @ [d @ ''.'' @ suffix]"
    unfolding key split_path_append [OF v1(1)] split_path_append [OF v1(2)] split_path_append [OF h(1)]
      split_path_plain [OF f] by simp
  moreover have "?h v \<noteq> ''..''" for v using h(2) [of v] by (auto simp del: length_take dest!: arg_cong [of _ _ length])
  then have "\<forall>p \<in> set ?ps. 2 \<le> length p \<and> p \<noteq> ''..''" using h(2) by auto
  ultimately show ?thesis by blast
qed

lemma report_key_ok:
  assumes "hex_digests R" "list_all hex_char d" "CHR ''/'' \<notin> set suffix" "1 < length suffix"
  shows "is_report_key (report_object_key R i d suffix)"
proof -
  from report_key_parts [OF assms(1-3), of i] obtain ps where
    ps: "split_path (report_object_key R i d suffix) = ''reports'' # ps @ [d @ ''.'' @ suffix]"
    "\<forall>p \<in> set ps. 2 \<le> length p \<and> p \<noteq> ''..''" by blast
  have "d @ ''.'' @ suffix \<noteq> ''..''" using assms(4) by (auto dest!: arg_cong [of _ _ length])
  then have "clean_key (report_object_key R i d suffix)"
    unfolding clean_key_def ps(1) using ps(2) assms(4) by (auto simp: list_all_iff append_eq_Cons_conv)
  moreover have "take 8 (report_object_key R i d suffix) = ''reports/''" by (simp add: report_object_key_def)
  ultimately show ?thesis by (simp add: is_report_key_def)
qed

lemma build_report_keys:
  assumes "build_report R wt rw i g inputs st = Inr b" "hex_digests R"
  shows "is_report_key (rb_key b)" "is_report_key (rb_parquet_key b)"
proof -
  have h: "list_all hex_char (rt_sha256 R x)" for x using assms(2) by (simp add: hex_digests_def sha256_hex_def)
  show "is_report_key (rb_key b)" "is_report_key (rb_parquet_key b)"
    using assms(1) by (auto simp: build_report_def Let_def bindE_Inr_iff intro!: report_key_ok [OF assms(2) h])
qed

lemma build_report_fields:
  assumes "build_report R wt rw i g inputs st = Inr b"
  shows "rb_identity b = i" "rb_generation b = g" "rb_inputs b = inputs" "rb_fingerprint b = input_fingerprint R inputs"
    "rb_sha256 b = rt_sha256 R (rb_payload b)" "rb_parquet_sha256 b = rt_sha256 R (pa_payload (rb_parquet b))"
  using assms by (auto simp: build_report_def Let_def bindE_Inr_iff)

lemma artifacts_keys: "fst ` set (artifacts b) = {rb_key b, rb_parquet_key b}"
  by (simp add: artifacts_def keys_dict_of)

section \<open>Storing the artifacts\<close>

definition report_tmp_fresh :: "runtime \<Rightarrow> report_publish_inputs \<Rightarrow> report_build \<Rightarrow> local_store \<Rightarrow> bool" where
  "report_tmp_fresh R inp b st = (tmp_fresh (rpi_tmp_parquet inp) st (rb_parquet_key b)
     \<and> tmp_fresh (rpi_tmp_report inp)
         (snd (put_verified (rt_sha256 R) (rpi_tmp_parquet inp) st (rb_parquet_key b) (pa_payload (rb_parquet b))
            (rb_parquet_sha256 b))) (rb_key b))"

lemma store_artifacts_cases:
  assumes "store_artifacts R (rpi_tmp_parquet inp) (rpi_tmp_report inp) b st = (r, st')" "report_tmp_fresh R inp b st"
  obtains (first) e where "tmp_fresh (rpi_tmp_parquet inp) st (rb_parquet_key b)" "r = Inl e"
      "put_verified (rt_sha256 R) (rpi_tmp_parquet inp) st (rb_parquet_key b) (pa_payload (rb_parquet b))
         (rb_parquet_sha256 b) = (Inl e, st')"
  | (both) st1 where "tmp_fresh (rpi_tmp_parquet inp) st (rb_parquet_key b)"
      "put_verified (rt_sha256 R) (rpi_tmp_parquet inp) st (rb_parquet_key b) (pa_payload (rb_parquet b))
         (rb_parquet_sha256 b) = (Inr (), st1)"
      "tmp_fresh (rpi_tmp_report inp) st1 (rb_key b)"
      "put_verified (rt_sha256 R) (rpi_tmp_report inp) st1 (rb_key b) (rb_payload b) (rb_sha256 b) = (r, st')"
proof -
  obtain q st1 where p: "put_verified (rt_sha256 R) (rpi_tmp_parquet inp) st (rb_parquet_key b)
      (pa_payload (rb_parquet b)) (rb_parquet_sha256 b) = (q, st1)" by fastforce
  with assms(2) have "tmp_fresh (rpi_tmp_parquet inp) st (rb_parquet_key b)" "tmp_fresh (rpi_tmp_report inp) st1 (rb_key b)"
    by (simp_all add: report_tmp_fresh_def)
  with p assms(1) that show ?thesis by (cases q) (auto simp: store_artifacts_def)
qed

lemma store_artifacts_keeps:
  assumes "store_artifacts R (rpi_tmp_parquet inp) (rpi_tmp_report inp) b st = (r, st')" "report_tmp_fresh R inp b st"
    "intact (rt_sha256 R) st key d"
  shows "intact (rt_sha256 R) st' key d"
  using assms(1,2)
proof (cases rule: store_artifacts_cases)
  case (first e)
  with put_keeps_intact [OF assms(3)] show ?thesis by blast
next
  case (both st1)
  from put_keeps_intact [OF put_keeps_intact [OF assms(3) both(1,2)] both(3,4)] show ?thesis .
qed

lemma store_artifacts_intact:
  assumes "store_artifacts R (rpi_tmp_parquet inp) (rpi_tmp_report inp) b st = (Inr u, st')" "report_tmp_fresh R inp b st"
  shows "intact (rt_sha256 R) st' (rb_parquet_key b) (rb_parquet_sha256 b) \<and> intact (rt_sha256 R) st' (rb_key b) (rb_sha256 b)"
  using assms
proof (cases rule: store_artifacts_cases)
  case (both st1)
  from put_keeps_intact [OF conjunct2 [OF put_verified_intact [OF both(2)]] both(3,4)] put_verified_intact [of "rt_sha256 R"] both(4)
  show ?thesis by simp
qed simp

text \<open>Whatever happens, only the two artifact keys can come into existence.\<close>

lemma store_artifacts_new:
  assumes "store_artifacts R (rpi_tmp_parquet inp) (rpi_tmp_report inp) b st = (r, st')" "report_tmp_fresh R inp b st"
    "clean_key (rb_key b)" "clean_key (rb_parquet_key b)" "clean_key key" "key \<notin> {rb_key b, rb_parquet_key b}"
  shows "stored st' key = stored st key"
proof -
  have ne: "ls_path s (rb_parquet_key b) \<noteq> ls_path s key" "ls_path s (rb_key b) \<noteq> ls_path s key" for s
    using assms(3-6) by (auto simp: ls_path_clean_inj)
  from assms(1,2) show ?thesis
  proof (cases rule: store_artifacts_cases)
    case (first e)
    with put_verified_frame [OF first(1) _ ne(1)] show ?thesis by blast
  next
    case (both st1)
    from put_verified_frame [OF both(1,2) ne(1)] put_verified_frame [OF both(3,4) ne(2)] show ?thesis by simp
  qed
qed

section \<open>Report heads\<close>

text \<open>Every head is unique for its attempt and names a stored revision with the same generation,
  number and fingerprint; revision numbers and fingerprints are unique within a generation.\<close>

definition head_names :: "ReportHead \<Rightarrow> ReportRevision \<Rightarrow> bool" where
  "head_names h r = (rr_revision_id r = rh_revision_id h \<and> rr_identity r = rh_identity h
     \<and> rr_deletion_generation r = rh_deletion_generation h \<and> rr_revision_number r = rh_revision_number h
     \<and> rr_input_fingerprint r = rh_input_fingerprint h)"

definition reports_ok :: "catalog \<Rightarrow> bool" where
  "reports_ok c = (distinct (map rh_identity (report_heads c))
     \<and> (\<forall>h \<in> set (report_heads c). \<exists>r \<in> set (report_revisions c). head_names h r)
     \<and> (\<forall>a \<in> set (report_revisions c). \<forall>b \<in> set (report_revisions c). rr_clash a b \<longrightarrow> a = b))"

lemma reports_ok_cong:
  "report_heads c' = report_heads c \<Longrightarrow> report_revisions c' = report_revisions c \<Longrightarrow> reports_ok c' = reports_ok c"
  by (simp add: reports_ok_def)

lemma rr_clash_sym: "rr_clash a b = rr_clash b a"
  by (auto simp: rr_clash_def)

lemma set_head_heads:
  fixes r :: ReportRevision and b :: report_build and now :: instant
  defines "h \<equiv> \<lparr>rh_tenant_id = fst (rb_identity b), rh_cluster_id = fst (snd (rb_identity b)),
     rh_attempt_id = snd (snd (rb_identity b)), rh_deletion_generation = rb_generation b,
     rh_revision_number = rr_revision_number r, rh_revision_id = rr_revision_id r,
     rh_input_fingerprint = rb_fingerprint b, rh_updated_at = now\<rparr>"
  shows "set (report_heads (set_head r b now c)) \<subseteq> insert h (set (report_heads c))"
    "distinct (map rh_identity (report_heads c)) \<Longrightarrow> distinct (map rh_identity (report_heads (set_head r b now c)))"
proof -
  have h: "rh_identity h = rb_identity b" by (simp add: h_def rh_identity_def)
  have eq: "report_heads (set_head r b now c) = (if get_head c (rb_identity b) = None then report_heads c @ [h]
      else upd_where (\<lambda>x. rh_identity x = rb_identity b) (\<lambda>_. h) (report_heads c))"
    by (simp add: set_head_def Let_def h_def)
  show "set (report_heads (set_head r b now c)) \<subseteq> insert h (set (report_heads c))"
    by (auto simp: eq set_upd_where)
  assume d: "distinct (map rh_identity (report_heads c))"
  show "distinct (map rh_identity (report_heads (set_head r b now c)))"
  proof (cases "get_head c (rb_identity b)")
    case None
    then have "\<forall>x \<in> set (report_heads c). rh_identity x \<noteq> rb_identity b" by (simp add: get_head_def find_None_all)
    with None d h show ?thesis by (auto simp: eq)
  next
    case (Some x)
    with d h show ?thesis by (simp add: eq map_upd_where)
  qed
qed

lemma set_head_ok:
  assumes "reports_ok c" "r \<in> set (report_revisions c)" "same_input_revision b r"
  shows "reports_ok (set_head r b now c)"
proof -
  have "\<exists>r \<in> set (report_revisions c). head_names h r" if h: "h \<in> set (report_heads (set_head r b now c))" for h
  proof (cases "h \<in> set (report_heads c)")
    case True
    with assms(1) show ?thesis by (simp add: reports_ok_def)
  next
    case False
    with h set_head_heads(1) [of r b now c] assms(3) have "head_names h r"
      by (auto simp: head_names_def same_input_revision_def rh_identity_def)
    with assms(2) show ?thesis by blast
  qed
  with assms(1) set_head_heads(2) [of c r b now] show ?thesis by (simp add: reports_ok_def)
qed

lemma new_revision_same_input: "same_input_revision b (new_revision b rid n now)"
  by (simp add: same_input_revision_def new_revision_def rr_identity_def)

lemma obtain_revision_ok:
  assumes "obtain_revision b rid now c = (Inr r, c')" "reports_ok c"
  shows "reports_ok c' \<and> r \<in> set (report_revisions c') \<and> same_input_revision b r"
  using assms(1)
proof (cases rule: obtain_revision_Inr)
  case old
  with assms(2) show ?thesis by simp
next
  case new
  from new(2) have n: "\<not> rr_clash r x" "\<not> rr_clash x r" if "x \<in> set (report_revisions c)" for x
    using that rr_clash_sym by blast+
  have "reports_ok c'" using assms(2) n unfolding reports_ok_def new(3) by (auto simp: Bex_def)
  with new new_revision_same_input show ?thesis by simp
qed

lemma advance_head_ok:
  assumes "advance_head l b rid now c = (Inr t, c')" "reports_ok c"
  shows "reports_ok c'"
  using assms(1)
proof (cases rule: advance_head_Inr)
  case (same h)
  from finish_report_Inr(3) [OF same(4)] obtain ks
    where "c' = (upd_outbox (wl_outbox_id l) (release_outbox_row OCompleted None) c)\<lparr>gc_candidates := ks\<rparr>" by blast
  with assms(2) show ?thesis by (simp add: reports_ok_def)
next
  case (moved r c1)
  from obtain_revision_ok [OF moved(1) assms(2)] have "reports_ok (set_head r b now c1)" using set_head_ok by blast
  moreover from finish_report_Inr(3) [OF moved(2)] obtain ks where "c' = (upd_outbox (wl_outbox_id l)
      (release_outbox_row OCompleted None) (set_head r b now c1))\<lparr>gc_candidates := ks\<rparr>" by blast
  ultimately show ?thesis by (simp add: reports_ok_def)
qed

text \<open>The state a successful head step leaves.\<close>

lemma advance_head_effect:
  assumes "advance_head l b rid now c = (Inr t, c')"
  shows "(t \<and> (\<exists>h. get_head c' (rb_identity b) = Some h \<and> rh_deletion_generation h = rb_generation b
       \<and> rh_input_fingerprint h = rb_fingerprint b))
    \<and> (\<forall>key \<in> {rb_key b, rb_parquet_key b}. protected_at now c' key)
    \<and> outbox c' = upd_where (\<lambda>x. ob_outbox_id x = wl_outbox_id l) (release_outbox_row OCompleted None) (outbox c)
    \<and> (\<exists>new. report_revisions c' = report_revisions c @ new \<and> length new \<le> 1
       \<and> (\<forall>r \<in> set new. rr_report_object_key r = rb_key b \<and> rr_parquet_object_key r = Some (rb_parquet_key b)))
    \<and> (manifests c' = manifests c \<and> generations c' = generations c \<and> normalized_segments c' = normalized_segments c
       \<and> attempt_records c' = attempt_records c \<and> reservations c' = reservations c \<and> holds c' = holds c
       \<and> deletions c' = deletions c \<and> gc_object_key ` set (gc_candidates c') = gc_object_key ` set (gc_candidates c))"
proof -
  have art: "\<exists>d. (key, d) \<in> set (artifacts b)" if "key \<in> {rb_key b, rb_parquet_key b}" for key
    using that artifacts_keys [of b] by (metis imageE prod.collapse)
  from assms show ?thesis
  proof (cases rule: advance_head_Inr)
    case (same h)
    note f = finish_report_Inr [OF same(4)]
    from f(3) obtain ks where c': "c' = (upd_outbox (wl_outbox_id l) (release_outbox_row OCompleted None) c)
        \<lparr>gc_candidates := ks\<rparr>" "gc_object_key ` set ks = gc_object_key ` set (gc_candidates c)" by blast
    have "\<forall>key \<in> {rb_key b, rb_parquet_key b}. protected_at now c' key" using art f(2) by blast
    with f(1) c' same(1-3) show ?thesis by (simp add: get_head_def)
  next
    case (moved r c1)
    note f = finish_report_Inr [OF moved(2)]
    from f(3) obtain ks where c': "c' = (upd_outbox (wl_outbox_id l) (release_outbox_row OCompleted None)
        (set_head r b now c1))\<lparr>gc_candidates := ks\<rparr>" "gc_object_key ` set ks = gc_object_key ` set (gc_candidates c1)"
      by auto
    have prot: "\<forall>key \<in> {rb_key b, rb_parquet_key b}. protected_at now c' key" using art f(2) by blast
    have head: "get_head c' = get_head (set_head r b now c1)" by (rule ext) (simp add: c' get_head_def)
    from moved(1) have rev: "\<exists>new. report_revisions c1 = report_revisions c @ new \<and> length new \<le> 1
       \<and> (\<forall>r \<in> set new. rr_report_object_key r = rb_key b \<and> rr_parquet_object_key r = Some (rb_parquet_key b))"
      and rest: "c1 = c\<lparr>report_revisions := report_revisions c1\<rparr>"
      by (cases rule: obtain_revision_Inr; auto simp: new_revision_def)+
    obtain rs where c1: "c1 = c\<lparr>report_revisions := rs\<rparr>" using rest by blast
    have "\<exists>h. get_head c' (rb_identity b) = Some h \<and> rh_deletion_generation h = rb_generation b
       \<and> rh_input_fingerprint h = rb_fingerprint b" using head get_head_set_head by metis
    with f(1) prot rev show ?thesis by (simp add: c' c1)
  qed
qed


section \<open>Properties of the report worker\<close>

text \<open>The example site after normalisation, with the report request claimed.\<close>

definition demo_report_world :: world where
  "demo_report_world = demo_claimed_event\<lparr>cat := snd (report_claim ''w2'' 60 60
     (snd (publish demo_work_lease demo_publication ''o9'' 50 51 (cat demo_claimed_event))))\<rparr>"

definition demo_report_lease :: WorkLease where
  "demo_report_lease = \<lparr>wl_outbox_id = ''o9'', wl_generation = 1, wl_owner = ''w2''\<rparr>"

definition demo_report_worker :: ReportRevisionWorker where
  "demo_report_worker = \<lparr>rw_max_segments = 10, rw_max_records = 100, rw_max_input_bytes = 1000,
     rw_orphan_gc_grace_seconds = 3600\<rparr>"

definition demo_writer :: table_writer where
  "demo_writer = (\<lambda>_ rows. concat (map pr_record_json rows))"

definition demo_publish_inputs :: report_publish_inputs where
  "demo_publish_inputs = \<lparr>rpi_ids = (\<lambda>n. ''g'' @ show_nat n), rpi_tmp_parquet = ''.t1'', rpi_tmp_report = ''.t2'',
     rpi_revision_id = ''rev1'', rpi_now = 70\<rparr>"

definition demo_build :: report_build where
  "demo_build = (let inputs = report_inputs (cat demo_report_world) demo_identity 0 in
     \<lparr>rb_identity = demo_identity, rb_generation = 0, rb_inputs = inputs,
      rb_fingerprint = input_fingerprint demo_runtime inputs,
      rb_parquet = \<lparr>pa_payload = ''PAR1'', pa_row_count = 1, pa_schema_version = ''v1''\<rparr>,
      rb_parquet_sha256 = rt_sha256 demo_runtime ''PAR1'',
      rb_parquet_key = report_object_key demo_runtime demo_identity (rt_sha256 demo_runtime ''PAR1'') ''parquet'',
      rb_payload = ''{}'', rb_sha256 = rt_sha256 demo_runtime ''{}'',
      rb_key = report_object_key demo_runtime demo_identity (rt_sha256 demo_runtime ''{}'') ''json''\<rparr>)"

lemma demo_report_claimed: "fst (report_claim ''w2'' 60 60
     (snd (publish demo_work_lease demo_publication ''o9'' 50 51 (cat demo_claimed_event)))) = Some demo_report_lease"
  by code_simp

lemma demo_report_publishes:
  "fst (publish_report demo_runtime demo_report_worker demo_report_lease demo_build demo_publish_inputs demo_report_world)
     = Inr True"
  by code_simp

lemma demo_report_fresh: "report_tmp_fresh demo_runtime demo_publish_inputs demo_build (objs demo_report_world)"
  by code_simp



text \<open>Report history is consistent: publication only appends at most one revision, and keeps that every head
  names a stored revision of its own attempt, generation, number and fingerprint, one head per
  attempt, and that revision numbers and input fingerprints never repeat within a generation.\<close>

theorem report_history_consistent:
  assumes "world_txn (publish_report R rw l b inp) w = (r, w')" "reports_ok (cat w)"
  shows "reports_ok (cat w') \<and> (\<exists>new. report_revisions (cat w') = report_revisions (cat w) @ new \<and> length new \<le> 1)"
proof (cases r)
  case (Inl e)
  with assms world_txn_rollback [of "publish_report R rw l b inp" w e w'] show ?thesis by simp
next
  case (Inr t)
  with assms(1) have "publish_report R rw l b inp w = (Inr t, w')" by (simp add: world_txn_commit)
  then show ?thesis
  proof (cases rule: publish_report_cases)
    case (stored x c1)
    from ensure_artifacts_frame [OF stored(5)] obtain ks where c1: "c1 = (cat w)\<lparr>gc_candidates := ks\<rparr>" by blast
    have "reports_ok c1" using assms(2) by (simp add: c1 reports_ok_def)
    from advance_head_ok [OF stored(7) this] advance_head_effect [OF stored(7)] show ?thesis by (auto simp: c1)
  qed (use assms(2) in \<open>simp_all add: reports_ok_def\<close>)
qed

theorem report_history_consistent_witness:
  "\<exists>w'. world_txn (publish_report demo_runtime demo_report_worker demo_report_lease demo_build demo_publish_inputs)
      demo_report_world = (Inr True, w') \<and> reports_ok (cat w')"
proof -
  obtain w' where "publish_report demo_runtime demo_report_worker demo_report_lease demo_build demo_publish_inputs
      demo_report_world = (Inr True, w')" using demo_report_publishes by (metis prod.collapse)
  then have t: "world_txn (publish_report demo_runtime demo_report_worker demo_report_lease demo_build demo_publish_inputs)
      demo_report_world = (Inr True, w')" by (simp add: world_txn_commit)
  have "report_heads (cat demo_report_world) = []" "report_revisions (cat demo_report_world) = []" by code_simp+
  then have "reports_ok (cat demo_report_world)" by (simp add: reports_ok_def)
  from report_history_consistent [OF t this] t show ?thesis by blast
qed

text \<open>The final name of an artifact is never a temporary name, so what \<open>mkstemp\<close> promises before
  the first write still holds before the second.\<close>

lemma hex_not_dot: "sha256_hex d \<Longrightarrow> \<exists>c cs. d = c # cs \<and> c \<noteq> CHR ''.''"
proof -
  have "\<not> hex_char (CHR ''.'')" by code_simp
  then show "sha256_hex d \<Longrightarrow> \<exists>c cs. d = c # cs \<and> c \<noteq> CHR ''.''" by (cases d) (auto simp: sha256_hex_def)
qed

lemma report_tmp_freshI:
  assumes b: "build_report R wt rw i g inputs st0 = Inr b" and hex: "hex_digests R"
    and f1: "tmp_fresh (rpi_tmp_parquet inp) st (rb_parquet_key b)"
    and f2: "tmp_fresh (rpi_tmp_report inp) st (rb_key b)" and dot: "rpi_tmp_report inp = CHR ''.'' # nm"
  shows "report_tmp_fresh R inp b st"
proof -
  obtain r st1 where p: "put_verified (rt_sha256 R) (rpi_tmp_parquet inp) st (rb_parquet_key b)
      (pa_payload (rb_parquet b)) (rb_parquet_sha256 b) = (r, st1)" by fastforce
  have root: "ls_path st1 k = ls_path st k" for k using ls_path_root [OF put_verified_root [OF p]] .
  have clean: "clean_key (rb_parquet_key b)" using build_report_keys [OF b hex] by (simp add: is_report_key_def)
  have dg: "sha256_hex (rt_sha256 R x)" "list_all hex_char (rt_sha256 R x)" for x
    using hex by (simp_all add: hex_digests_def sha256_hex_def)
  from b have "rb_parquet_key b = report_object_key R i (rt_sha256 R (pa_payload (rb_parquet b))) ''parquet''"
    by (auto simp: build_report_def Let_def bindE_Inr_iff)
  with report_key_parts [OF hex dg(2), of "''parquet''" i "pa_payload (rb_parquet b)"] obtain ps where
    ps: "split_path (rb_parquet_key b) = ''reports'' # ps @ [rt_sha256 R (pa_payload (rb_parquet b)) @ ''.parquet'']" by auto
  have target: "ls_path st (rb_parquet_key b) = Inr (ls_root st @ split_path (rb_parquet_key b))"
    by (rule ls_path_clean [OF clean])
  from hex_not_dot [OF dg(1) [of "pa_payload (rb_parquet b)"]] have ne: "q @ [rpi_tmp_report inp] \<noteq> ls_root st @ split_path (rb_parquet_key b)" for q
    by (auto simp: ps dot)
  have "ls_files st1 (q @ [rpi_tmp_report inp]) = None" if "ls_files st (q @ [rpi_tmp_report inp]) = None" for q
    using p that target ne [of q]
    by (cases rule: put_trace_cases [of "rt_sha256 R" "rpi_tmp_parquet inp" st "rb_parquet_key b"
          "pa_payload (rb_parquet b)" "rb_parquet_sha256 b"])
       (auto simp: put_verified_def Let_def)
  with f2 have "tmp_fresh (rpi_tmp_report inp) st1 (rb_key b)"
    by (simp add: tmp_fresh_def root split: sum.splits)
  with f1 p show ?thesis by (simp add: report_tmp_fresh_def)
qed

lemma read_report_build:
  assumes "read_report R wt rw l w = Inr (Some b)"
  obtains i g xs where "build_report R wt rw i g xs (objs w) = Inr b"
  using assms by (auto simp: read_report_def Let_def bindE_Inr_iff split: option.splits if_splits)

lemma fail_event_candidates [simp]: "gc_candidates (fail_event l m c) = gc_candidates c"
  by (simp add: fail_event_def split: option.splits)

lemma report_execute_cases:
  assumes "report_execute R wt rw l ids t inp w = (r, w')"
  obtains (early) "objs w' = objs w"
  | (ran) b c1 z w1 where "read_report R wt rw l w = Inr (Some b)" "reserve_artifacts rw ids t b (cat w) = (Inr (), c1)"
      "publish_report R rw l b inp (w\<lparr>cat := c1\<rparr>) = (z, w1)" "objs w' = objs w1"
      "gc_candidates (cat w') = gc_candidates (case z of Inl _ \<Rightarrow> c1 | Inr _ \<Rightarrow> cat w1)"
proof (cases "read_report R wt rw l w")
  case (Inl e)
  with assms early show ?thesis by (auto simp: report_execute_def Let_def split: if_splits)
next
  case (Inr o1)
  note rd = this
  show ?thesis
  proof (cases o1)
    case None
    with rd assms early show ?thesis by (auto simp: report_execute_def Let_def)
  next
    case (Some b)
    obtain q c1 where res: "reserve_artifacts rw ids t b (cat w) = (q, c1)" by fastforce
    obtain z w1 where pub: "publish_report R rw l b inp (w\<lparr>cat := c1\<rparr>) = (z, w1)" by fastforce
    show ?thesis
    proof (cases q)
      case (Inl e)
      with rd Some res assms early show ?thesis by (auto simp: report_execute_def Let_def split: if_splits)
    next
      case (Inr u)
      then have res': "reserve_artifacts rw ids t b (cat w) = (Inr (), c1)" using res by simp
      have rd': "read_report R wt rw l w = Inr (Some b)" using rd Some by simp
      show ?thesis
      proof (rule ran [OF rd' res' pub])
        show "objs w' = objs w1" using assms rd' res' pub
          by (cases z) (auto simp: report_execute_def Let_def world_txn_def split: if_splits)
        show "gc_candidates (cat w') = gc_candidates (case z of Inl _ \<Rightarrow> c1 | Inr _ \<Rightarrow> cat w1)" using assms rd' res' pub
          by (cases z) (auto simp: report_execute_def Let_def world_txn_def split: if_splits)
      qed
    qed
  qed
qed

text \<open>No artifact is ever orphaned: however an execution ends (published, suppressed, failed with the error
  recorded, or with an exception that rolls the publication back), an object that exists
  afterwards and did not exist before has a collection candidate that is not closed.\<close>

theorem report_artifacts_tracked:
  assumes "report_execute R write_table rw l ids t inp w = (r, w')" "hex_digests R"
    "\<And>b. read_report R write_table rw l w = Inr (Some b) \<Longrightarrow> report_tmp_fresh R inp b (objs w)"
  shows "\<forall>key. clean_key key \<and> stored (objs w) key = None \<and> stored (objs w') key \<noteq> None \<longrightarrow> (\<exists>d. tracked (cat w') key d)"
proof (intro allI impI; elim conjE)
  fix key assume key: "clean_key key" "stored (objs w) key = None" "stored (objs w') key \<noteq> None"
  from assms(1) show "\<exists>d. tracked (cat w') key d"
  proof (cases rule: report_execute_cases)
    case early
    with key show ?thesis by simp
  next
    case (ran b c1 z w1)
    have fresh: "report_tmp_fresh R inp b (objs w)" by (rule assms(3) [OF ran(1)])
    obtain i g xs where "build_report R write_table rw i g xs (objs w) = Inr b" using ran(1) by (rule read_report_build)
    from build_report_keys [OF this assms(2)] have clean: "clean_key (rb_key b)" "clean_key (rb_parquet_key b)"
      by (simp_all add: is_report_key_def)
    from ran(2) have ens: "ensure_artifacts ids 0 t (t + seconds (rw_orphan_gc_grace_seconds rw))
        (sort_key fst (artifacts b)) (cat w) = (Inr (), c1)" by (simp add: reserve_artifacts_def begin_txn_commit)
    have tr: "\<exists>d. tracked c1 k d" if "k \<in> {rb_key b, rb_parquet_key b}" for k
    proof -
      from that artifacts_keys [of b] obtain d where "(k, d) \<in> set (artifacts b)" by (metis imageE prod.collapse)
      then have "(k, d) \<in> set (sort_key fst (artifacts b))" by simp
      from ensure_artifacts_tracks [OF ens this] show ?thesis by blast
    qed
    have new: "key \<in> {rb_key b, rb_parquet_key b}"
      if "store_artifacts R (rpi_tmp_parquet inp) (rpi_tmp_report inp) b (objs w) = (rr, objs w1)" for rr
      using store_artifacts_new [OF that fresh clean key(1)] key(2,3) ran(4) by metis
    from ran(3) show ?thesis
    proof (cases rule: publish_report_cases)
      case (unstored e)
      then have "tracked (cat w') key d = tracked c1 key d" for d by (intro tracked_cong) (simp add: ran(5))
      with new unstored(2) tr show ?thesis by auto
    next
      case (stored x c2)
      show ?thesis
      proof (cases z)
        case (Inl e)
        then have "tracked (cat w') key d = tracked c1 key d" for d by (intro tracked_cong) (simp add: ran(5))
        with new stored(6) tr show ?thesis by auto
      next
        case (Inr u)
        have "protected_at (rpi_now inp) (cat w1) key"
          using advance_head_effect [OF stored(7) [unfolded Inr]] new stored(6) by auto
        then have "\<exists>d. tracked (cat w1) key d" by (auto simp: protected_at_def tracked_def split: option.splits)
        moreover have "tracked (cat w') key d = tracked (cat w1) key d" for d
          by (intro tracked_cong) (simp add: ran(5) Inr)
        ultimately show ?thesis by simp
      qed
    qed (use key ran(4) in simp_all)
  qed
qed

lemma demo_hex: "hex_digests demo_runtime"
proof -
  have h: "hex_char (hex_digit n)" if "n < 16" for n
    using that by (cases "n < 10") (simp_all add: hex_digit_def hex_char_def in_range_def)
  have z: "hex_char (CHR ''0'')" by code_simp
  show ?thesis unfolding hex_digests_def sha256_hex_def
    by (auto simp: demo_runtime_def h z list_all_iff)
qed


lemma put_verified_files:
  assumes "put_verified H tmp st key payload sha256 = (r, st')" "tmp_fresh tmp st key" "ls_path st key \<noteq> Inr p"
  shows "ls_files st' p = ls_files st p"
  using assms
  by (cases rule: put_trace_cases [of H tmp st key payload sha256])
     (auto simp: put_verified_def Let_def tmp_fresh_def)

lemma demo_store_files: "ls_files (objs demo_report_world) (''objects'' # ''reports'' # ps) = None"
proof -
  have o: "objs demo_report_world = objs demo_admitted" by (simp add: demo_report_world_def demo_claimed_event_def)
  have w: "objs demo_world = \<lparr>ls_root = [''objects''], ls_files = (\<lambda>_. None)\<rparr>" by (simp add: demo_world_def)
  from demo_admit show ?thesis
  proof (cases rule: admit_Inr)
    case (replay p c1)
    have "objs demo_admitted = objs demo_world" by (subst replay(3)) simp
    then show ?thesis by (simp add: o w)
  next
    case (stored p rid c1 st c2)
    have p: "prepare_payload demo_runtime demo_service ''site'' demo_segment =
      Inr \<lparr>pp_content = ''{}'', pp_object_key = dr_object_key demo_receipt\<rparr>" by code_simp
    have "mp_tenant_id demo_principal = ''site''" by code_simp
    with p stored(1) have key: "pp_object_key p = dr_object_key demo_receipt" by auto
    have "case ls_path (objs demo_world) (dr_object_key demo_receipt) of Inr q \<Rightarrow> take 2 q = [''objects'', ''v2''] | _ \<Rightarrow> False"
      by code_simp
    then have "ls_path (objs demo_world) (dr_object_key demo_receipt) \<noteq> Inr (''objects'' # ''reports'' # ps)" by auto
    moreover have "tmp_fresh (ai_tmp demo_inputs) (objs demo_world) (pp_object_key p)"
      by (simp add: tmp_fresh_def w split: sum.splits)
    moreover have "objs demo_admitted = st" by (subst stored(3)) simp
    ultimately show ?thesis using put_verified_files [OF stored(5)] key by (simp add: o w)
  qed
qed

lemma demo_root: "ls_root (objs demo_report_world) = [''objects'']"
  by code_simp

lemma demo_tmp_fresh:
  assumes "list_all hex_char d" "CHR ''/'' \<notin> set suffix" "1 < length suffix"
  shows "tmp_fresh tmp (objs demo_report_world) (report_object_key demo_runtime i d suffix)"
proof -
  from report_key_parts [OF demo_hex assms(1,2), of i] obtain ps where
    "split_path (report_object_key demo_runtime i d suffix) = ''reports'' # ps @ [d @ ''.'' @ suffix]" by blast
  moreover have "clean_key (report_object_key demo_runtime i d suffix)"
    using report_key_ok [OF demo_hex assms] by (simp add: is_report_key_def)
  ultimately have "ls_path (objs demo_report_world) (report_object_key demo_runtime i d suffix) =
    Inr (''objects'' # ''reports'' # ps @ [d @ ''.'' @ suffix])" by (simp add: ls_path_clean demo_root)
  then show ?thesis by (simp add: tmp_fresh_def demo_store_files butlast_append)
qed

theorem report_artifacts_tracked_witness:
  "let w' = snd (report_execute demo_runtime demo_writer demo_report_worker demo_report_lease (\<lambda>n. ''g'' @ show_nat n) 65
       demo_publish_inputs demo_report_world)
   in {key. clean_key key \<and> stored (objs demo_report_world) key = None \<and> stored (objs w') key \<noteq> None}
        \<subseteq> {key. \<exists>d. tracked (cat w') key d}"
proof -
  obtain r w' where e: "report_execute demo_runtime demo_writer demo_report_worker demo_report_lease
      (\<lambda>n. ''g'' @ show_nat n) 65 demo_publish_inputs demo_report_world = (r, w')" by fastforce
  have h: "list_all hex_char (rt_sha256 demo_runtime x)" for x using demo_hex by (simp add: hex_digests_def sha256_hex_def)
  have "report_tmp_fresh demo_runtime demo_publish_inputs b (objs demo_report_world)"
    if "read_report demo_runtime demo_writer demo_report_worker demo_report_lease demo_report_world = Inr (Some b)" for b
  proof -
    note rd = that
    obtain i g xs where b: "build_report demo_runtime demo_writer demo_report_worker i g xs (objs demo_report_world) = Inr b"
      using rd by (rule read_report_build)
    then have "rb_parquet_key b = report_object_key demo_runtime i (rb_parquet_sha256 b) ''parquet''"
      "rb_key b = report_object_key demo_runtime i (rb_sha256 b) ''json''"
      by (auto simp: build_report_def Let_def bindE_Inr_iff)
    with build_report_fields(5,6) [OF b] h show ?thesis
      by (intro report_tmp_freshI [OF b demo_hex, where nm = "''t2''"])
         (auto simp: demo_publish_inputs_def intro!: demo_tmp_fresh)
  qed
  from report_artifacts_tracked [OF e demo_hex this] e show ?thesis by (auto simp: Let_def)
qed

end
