(* ===== verification/Notifications.thy ===== *)
theory Notifications
  imports Deletion_Worker
begin

text \<open>
  \<^verbatim>\<open>notifications.py\<close>: the signed webhook sender, the leased delivery worker
  \<open>IntegrityNotificationWorker\<close> with its retries and terminal quarantine, and the audited redrive of
  failed deliveries.  The network is a parameter: what the peer answers to a request.
\<close>

section \<open>The webhook sender\<close>

record SignedWebhookSender =
  ws_url :: string
  ws_secret :: string
  ws_key_id :: string

record http_request =
  hq_url :: string
  hq_data :: bytes
  hq_headers :: "(string \<times> string) list"

text \<open>\<open>urlopen\<close> returns a response, raises \<open>HTTPError\<close> with a status code, or fails in the transport.\<close>

datatype http_outcome = Responded int | HttpError int | Unreachable

type_synonym http = "http_request \<Rightarrow> http_outcome"

definition webhook_signature :: "runtime \<Rightarrow> string \<Rightarrow> int \<Rightarrow> bytes \<Rightarrow> string" where
  "webhook_signature R secret timestamp body =
     rt_hmac_sha256 R (utf8 secret) (show_int timestamp @ ''.'' @ body)"

definition webhook_request ::
  "runtime \<Rightarrow> SignedWebhookSender \<Rightarrow> int \<Rightarrow> string \<Rightarrow> string \<Rightarrow> string \<Rightarrow> http_request" where
  "webhook_request R ws timestamp notification_id event_type payload_json =
     (let body = utf8 payload_json in
      \<lparr>hq_url = ws_url ws, hq_data = body,
       hq_headers = [(''Content-Type'', ''application/json''), (''User-Agent'', ''RankLens-integrity-webhook/1''),
         (''X-RankLens-Event-ID'', notification_id), (''X-RankLens-Event-Type'', event_type),
         (''X-RankLens-Key-ID'', ws_key_id ws), (''X-RankLens-Timestamp'', show_int timestamp),
         (''X-RankLens-Signature'', ''sha256='' @ webhook_signature R (ws_secret ws) timestamp body)]\<rparr>)"

definition webhook_send ::
  "runtime \<Rightarrow> SignedWebhookSender \<Rightarrow> http \<Rightarrow> int \<Rightarrow> string \<Rightarrow> string \<Rightarrow> string \<Rightarrow> unit result" where
  "webhook_send R ws net timestamp notification_id event_type payload_json =
     (case net (webhook_request R ws timestamp notification_id event_type payload_json) of
        HttpError code \<Rightarrow> Inl (RuntimeError (''webhook returned HTTP '' @ show_int code))
      | Unreachable \<Rightarrow> Inl (RuntimeError ''webhook delivery failed'')
      | Responded status \<Rightarrow>
          if \<not> (200 \<le> status \<and> status < 300)
          then Inl (RuntimeError (''webhook returned HTTP '' @ show_int status))
          else Inr ())"

section \<open>The delivery worker\<close>

record IntegrityNotificationWorker =
  nw_owner :: string
  nw_lease_seconds :: int
  nw_max_attempts :: int
  nw_retry_base_seconds :: int

definition make_notification_worker ::
  "string \<Rightarrow> int \<Rightarrow> int \<Rightarrow> int \<Rightarrow> IntegrityNotificationWorker result" where
  "make_notification_worker own lease_seconds max_attempts retry_base_seconds =
     (if \<not> (10 \<le> lease_seconds \<and> lease_seconds \<le> 3600)
      then Inl (ValueError ''lease_seconds must be within [10, 3600]'')
      else if \<not> (1 \<le> max_attempts \<and> max_attempts \<le> 100)
      then Inl (ValueError ''max_attempts must be within [1, 100]'')
      else if \<not> (1 \<le> retry_base_seconds \<and> retry_base_seconds \<le> 3600)
      then Inl (ValueError ''retry_base_seconds must be within [1, 3600]'')
      else Inr \<lparr>nw_owner = own, nw_lease_seconds = lease_seconds, nw_max_attempts = max_attempts,
             nw_retry_base_seconds = retry_base_seconds\<rparr>)"

record NotificationLease =
  nl_notification_id :: string
  nl_generation :: int
  nl_owner :: string

definition get_notification :: "catalog \<Rightarrow> string \<Rightarrow> IntegrityNotification option" where
  "get_notification c nid = List.find (\<lambda>n. ntf_notification_id n = nid) (notifications c)"

definition upd_notification ::
  "string \<Rightarrow> (IntegrityNotification \<Rightarrow> IntegrityNotification) \<Rightarrow> catalog \<Rightarrow> catalog" where
  "upd_notification nid f c = c\<lparr>notifications := upd_where (\<lambda>n. ntf_notification_id n = nid) f (notifications c)\<rparr>"

definition notification_claimable :: "instant \<Rightarrow> IntegrityNotification \<Rightarrow> bool" where
  "notification_claimable now n =
     ((ntf_state n = NPending \<and> ntf_next_attempt_at n \<le> now)
      \<or> (ntf_state n = NProcessing \<and> expired_before (ntf_lease_expires_at n) now))"

definition claim_notification_row :: "string \<Rightarrow> instant \<Rightarrow> IntegrityNotification \<Rightarrow> IntegrityNotification" where
  "claim_notification_row own expires n = n\<lparr>ntf_state := NProcessing, ntf_attempts := ntf_attempts n + 1,
     ntf_lease_owner := Some own, ntf_lease_generation := ntf_lease_generation n + 1,
     ntf_lease_expires_at := Some expires\<rparr>"

definition claim_notification ::
  "IntegrityNotificationWorker \<Rightarrow> instant \<Rightarrow> catalog \<Rightarrow> NotificationLease option \<times> catalog" where
  "claim_notification nw now c =
     (case first_by (\<lambda>n. (ntf_next_attempt_at n, ntf_notification_id n))
             (filter (notification_claimable now) (notifications c)) of
        None \<Rightarrow> (None, c)
      | Some n \<Rightarrow>
          (Some \<lparr>nl_notification_id = ntf_notification_id n, nl_generation = ntf_lease_generation n + 1,
                 nl_owner = nw_owner nw\<rparr>,
           upd_notification (ntf_notification_id n)
             (claim_notification_row (nw_owner nw) (now + seconds (nw_lease_seconds nw))) c))"

definition owns :: "NotificationLease \<Rightarrow> IntegrityNotification option \<Rightarrow> bool" where
  "owns l n = (case n of None \<Rightarrow> False
     | Some n \<Rightarrow> ntf_state n = NProcessing \<and> ntf_lease_owner n = Some (nl_owner l)
          \<and> ntf_lease_generation n = nl_generation l)"

definition delivered_row :: "instant \<Rightarrow> IntegrityNotification \<Rightarrow> IntegrityNotification" where
  "delivered_row now n = n\<lparr>ntf_state := NDelivered, ntf_lease_owner := None, ntf_lease_expires_at := None,
     ntf_last_error := None, ntf_delivered_at := Some now\<rparr>"

definition failed_row ::
  "IntegrityNotificationWorker \<Rightarrow> string \<Rightarrow> instant \<Rightarrow> IntegrityNotification \<Rightarrow> IntegrityNotification" where
  "failed_row nw message now n =
     (let n1 = n\<lparr>ntf_lease_owner := None, ntf_lease_expires_at := None,
            ntf_last_error := Some (take 512 (if message = [] then ''webhook delivery failed'' else message))\<rparr>
      in if ntf_attempts n1 \<ge> nw_max_attempts nw then n1\<lparr>ntf_state := NFailed\<rparr>
         else n1\<lparr>ntf_state := NPending,
               ntf_next_attempt_at := now + seconds (backoff (nw_retry_base_seconds nw) (ntf_attempts n1))\<rparr>)"

text \<open>The three blocks of \<open>execute\<close>: reading the row, recording a failure, recording the delivery.\<close>

definition read_notification :: "NotificationLease \<Rightarrow> catalog \<Rightarrow> (string \<times> string) option" where
  "read_notification l c =
     (case get_notification c (nl_notification_id l) of
        None \<Rightarrow> None
      | Some n \<Rightarrow> if \<not> owns l (Some n) then None
                 else Some (event_name (ntf_event_type n), json_dumps (ntf_payload_json n)))"

definition notification_fail ::
  "IntegrityNotificationWorker \<Rightarrow> NotificationLease \<Rightarrow> string \<Rightarrow> instant \<Rightarrow> catalog \<Rightarrow> catalog" where
  "notification_fail nw l message now c =
     (if \<not> owns l (get_notification c (nl_notification_id l)) then c
      else upd_notification (nl_notification_id l) (failed_row nw message now) c)"

definition notification_settle :: "NotificationLease \<Rightarrow> instant \<Rightarrow> catalog \<Rightarrow> bool \<times> catalog" where
  "notification_settle l now c =
     (if \<not> owns l (get_notification c (nl_notification_id l)) then (False, c)
      else (True, upd_notification (nl_notification_id l) (delivered_row now) c))"

text \<open>\<open>meanwhile\<close> is what other processes did to the catalogue while the message was being sent.\<close>

definition notification_execute ::
  "IntegrityNotificationWorker \<Rightarrow> (string \<Rightarrow> string \<Rightarrow> string \<Rightarrow> unit result) \<Rightarrow> NotificationLease \<Rightarrow> (catalog \<Rightarrow> catalog)
   \<Rightarrow> instant \<Rightarrow> catalog \<Rightarrow> bool \<times> catalog" where
  "notification_execute nw send l meanwhile now c =
     (case read_notification l c of
        None \<Rightarrow> (False, c)
      | Some (event_type, payload_json) \<Rightarrow>
          (case send (nl_notification_id l) event_type payload_json of
             Inl e \<Rightarrow> (False, notification_fail nw l (err_text e) now (meanwhile c))
           | Inr _ \<Rightarrow> notification_settle l now (meanwhile c)))"

definition notification_run_once ::
  "IntegrityNotificationWorker \<Rightarrow> (string \<Rightarrow> string \<Rightarrow> string \<Rightarrow> unit result) \<Rightarrow> (catalog \<Rightarrow> catalog)
   \<Rightarrow> instant \<Rightarrow> instant \<Rightarrow> catalog \<Rightarrow> bool \<times> catalog" where
  "notification_run_once nw send meanwhile claimed_at now c =
     (case claim_notification nw claimed_at c of
        (None, c1) \<Rightarrow> (False, c1)
      | (Some l, c1) \<Rightarrow> (True, snd (notification_execute nw send l meanwhile now c1)))"

section \<open>Redrive\<close>

definition latest_redrive :: "catalog \<Rightarrow> string \<Rightarrow> IntegrityNotificationRedrive option" where
  "latest_redrive c nid =
     (case rev (sort_key (\<lambda>x. (inr_requested_at x, inr_redrive_id x))
             (filter (\<lambda>x. inr_notification_id x = nid) (notification_redrives c))) of
        [] \<Rightarrow> None
      | x # _ \<Rightarrow> Some x)"

definition redriven_row :: "instant \<Rightarrow> IntegrityNotification \<Rightarrow> IntegrityNotification" where
  "redriven_row now n = n\<lparr>ntf_state := NPending, ntf_attempts := 0, ntf_next_attempt_at := now,
     ntf_lease_owner := None, ntf_lease_expires_at := None, ntf_lease_generation := ntf_lease_generation n + 1,
     ntf_last_error := None, ntf_delivered_at := None\<rparr>"

definition redrive_txn ::
  "string \<Rightarrow> string \<Rightarrow> string \<Rightarrow> string \<Rightarrow> string \<Rightarrow> string \<Rightarrow> instant \<Rightarrow> catalog
   \<Rightarrow> IntegrityNotification result \<times> catalog" where
  "redrive_txn tenant_id cluster_id nid actor reason rid now c =
     (case get_notification c nid of
        None \<Rightarrow> (Inl (LookupError ''integrity notification not found''), c)
      | Some n \<Rightarrow>
          if ntf_tenant_id n \<noteq> tenant_id \<or> ntf_cluster_id n \<noteq> cluster_id
          then (Inl (LookupError ''integrity notification not found''), c)
          else if ntf_state n \<noteq> NFailed
          then (if ntf_state n \<in> {NPending, NProcessing}
                   \<and> (case latest_redrive c nid of None \<Rightarrow> False
                      | Some x \<Rightarrow> inr_requested_by_credential_id x = actor \<and> inr_reason x = reason)
                then (Inr n, c)
                else (Inl (ValueError ''only a failed integrity notification can be redriven''), c))
          else (Inr (redriven_row now n),
                (upd_notification nid (redriven_row now) c)\<lparr>notification_redrives := notification_redrives c @
                  [\<lparr>inr_redrive_id = rid, inr_notification_id = nid, inr_tenant_id = tenant_id,
                    inr_cluster_id = cluster_id, inr_requested_by_credential_id = actor, inr_reason = reason,
                    inr_requested_at = now\<rparr>]\<rparr>))"

definition redrive ::
  "string \<Rightarrow> string \<Rightarrow> string \<Rightarrow> string \<Rightarrow> string \<Rightarrow> string \<Rightarrow> instant \<Rightarrow> catalog
   \<Rightarrow> IntegrityNotification result \<times> catalog" where
  "redrive tenant_id cluster_id nid actor reason0 rid now c =
     (let reason = str_strip reason0 in
      if reason = [] \<or> length reason > 512
      then (Inl (ValueError ''redrive reason must contain 1 to 512 characters''), c)
      else begin_txn (redrive_txn tenant_id cluster_id nid actor reason rid now) c)"

section \<open>The lease protocol\<close>

inductive notification_row_step :: "IntegrityNotification \<Rightarrow> IntegrityNotification \<Rightarrow> bool" where
  claimed: "notification_row_step n (claim_notification_row own t n)"
| delivered: "notification_row_step n (delivered_row t n)"
| failed: "notification_row_step n (failed_row nw m t n)"
| redriven: "notification_row_step n (redriven_row t n)"

inductive_cases notification_row_stepE: "notification_row_step n n'"

lemmas notification_row_defs = claim_notification_row_def delivered_row_def failed_row_def redriven_row_def

interpretation nt: lease_protocol ntf_lease_generation ntf_lease_owner "\<lambda>n. ntf_state n = NProcessing"
  claim_notification_row notification_row_step
proof unfold_locales
  fix n n' assume "notification_row_step n n'"
  then show "ntf_lease_generation n \<le> ntf_lease_generation n'"
    by (rule notification_row_stepE) (auto simp: notification_row_defs Let_def)
qed (simp_all add: claim_notification_row_def)

lemma owns_honours: "owns l (Some n) \<longleftrightarrow> nt.honours n (nl_owner l) (nl_generation l)"
  by (simp add: owns_def nt.honours_def)

section \<open>Laws\<close>

lemma notification_ids [simp]:
  "ntf_notification_id (claim_notification_row own t n) = ntf_notification_id n"
  "ntf_notification_id (delivered_row t n) = ntf_notification_id n"
  "ntf_notification_id (failed_row nw m t n) = ntf_notification_id n"
  "ntf_notification_id (redriven_row t n) = ntf_notification_id n"
  by (simp_all add: notification_row_defs Let_def)

lemma notifications_upd [simp]:
  "notifications (upd_notification nid f c) = upd_where (\<lambda>n. ntf_notification_id n = nid) f (notifications c)"
  by (simp add: upd_notification_def)

lemma get_notification_Some:
  "get_notification c nid = Some n \<Longrightarrow> n \<in> set (notifications c) \<and> ntf_notification_id n = nid"
  by (auto simp: get_notification_def dest: find_Some_iff)

lemma get_notification_upd:
  assumes "\<And>n. ntf_notification_id (f n) = ntf_notification_id n"
  shows "get_notification (upd_notification nid f c) nid = map_option f (get_notification c nid)"
proof (cases "get_notification c nid")
  case None
  then show ?thesis by (simp add: get_notification_def find_upd_where assms)
next
  case (Some n)
  then have "ntf_notification_id n = nid" by (simp add: get_notification_Some)
  with Some show ?thesis by (simp add: get_notification_def find_upd_where assms)
qed

definition notification_ids_ok :: "catalog \<Rightarrow> bool" where
  "notification_ids_ok c = distinct (map ntf_notification_id (notifications c))"

lemma get_notification_member:
  "notification_ids_ok c \<Longrightarrow> n \<in> set (notifications c) \<Longrightarrow> get_notification c (ntf_notification_id n) = Some n"
  unfolding notification_ids_ok_def get_notification_def by (rule find_unique_key)

lemma claim_notification_cases:
  assumes "claim_notification nw now c = (r, c')"
  obtains (idle) "r = None" "c' = c"
  | (claimed) n where "n \<in> set (notifications c)" "notification_claimable now n"
      "r = Some \<lparr>nl_notification_id = ntf_notification_id n, nl_generation = ntf_lease_generation n + 1, nl_owner = nw_owner nw\<rparr>"
      "c' = upd_notification (ntf_notification_id n)
         (claim_notification_row (nw_owner nw) (now + seconds (nw_lease_seconds nw))) c"
proof (cases "first_by (\<lambda>n. (ntf_next_attempt_at n, ntf_notification_id n)) (filter (notification_claimable now) (notifications c))")
  case None
  with assms idle show ?thesis by (simp add: claim_notification_def)
next
  case (Some n)
  from first_by_filter_Some [OF Some] assms Some claimed show ?thesis by (auto simp: claim_notification_def)
qed

text \<open>Right after a claim the lease is honoured, so an undisturbed execution reads the row and writes it back.\<close>

lemma claim_then_owns:
  assumes "notification_ids_ok c" "n \<in> set (notifications c)"
  shows "get_notification (upd_notification (ntf_notification_id n) (claim_notification_row own t) c) (ntf_notification_id n)
     = Some (claim_notification_row own t n)"
  using get_notification_member [OF assms] by (simp add: get_notification_upd)

lemma run_once_undisturbed:
  assumes "notification_run_once nw send id claimed_at now c = (True, c')" "notification_ids_ok c"
  obtains n own t where "n \<in> set (notifications c)" "notification_claimable claimed_at n"
    "notifications c' = upd_where (\<lambda>x. ntf_notification_id x = ntf_notification_id n)
       (\<lambda>x. (case send (ntf_notification_id n) (event_name (ntf_event_type n)) (json_dumps (ntf_payload_json n)) of
          Inl e \<Rightarrow> failed_row nw (err_text e) now | Inr _ \<Rightarrow> delivered_row now) (claim_notification_row own t x))
       (notifications c)"
proof -
  obtain r c1 where cl: "claim_notification nw claimed_at c = (r, c1)" by fastforce
  from cl show ?thesis
  proof (cases rule: claim_notification_cases)
    case idle
    with cl assms(1) show ?thesis by (simp add: notification_run_once_def)
  next
    case (claimed n)
    let ?l = "\<lparr>nl_notification_id = ntf_notification_id n, nl_generation = ntf_lease_generation n + 1, nl_owner = nw_owner nw\<rparr>"
    let ?f = "claim_notification_row (nw_owner nw) (claimed_at + seconds (nw_lease_seconds nw))"
    have g: "get_notification c1 (ntf_notification_id n) = Some (?f n)"
      unfolding claimed(4) by (rule claim_then_owns [OF assms(2) claimed(1)])
    have own: "owns ?l (Some (?f n))" by (simp add: owns_def claim_notification_row_def)
    have ev: "ntf_event_type (?f n) = ntf_event_type n" "ntf_payload_json (?f n) = ntf_payload_json n"
      by (simp_all add: claim_notification_row_def)
    have comp: "upd_where (\<lambda>x. ntf_notification_id x = i) h (upd_where (\<lambda>x. ntf_notification_id x = i) ?f rows)
        = upd_where (\<lambda>x. ntf_notification_id x = i) (\<lambda>x. h (?f x)) rows" for h rows i
      by (induction rows) (auto simp: claim_notification_row_def)
    from assms(1) cl claimed(3) g own ev
    have "c' = (case send (ntf_notification_id n) (event_name (ntf_event_type n)) (json_dumps (ntf_payload_json n)) of
        Inl e \<Rightarrow> upd_notification (ntf_notification_id n) (failed_row nw (err_text e) now) c1
      | Inr _ \<Rightarrow> upd_notification (ntf_notification_id n) (delivered_row now) c1)"
      by (auto simp: notification_run_once_def notification_execute_def read_notification_def notification_fail_def
          notification_settle_def split: sum.splits)
    then have "notifications c' = upd_where (\<lambda>x. ntf_notification_id x = ntf_notification_id n)
       (\<lambda>x. (case send (ntf_notification_id n) (event_name (ntf_event_type n)) (json_dumps (ntf_payload_json n)) of
          Inl e \<Rightarrow> failed_row nw (err_text e) now | Inr _ \<Rightarrow> delivered_row now) (?f x)) (notifications c)"
      by (auto simp: claimed(4) comp split: sum.splits)
    with claimed(1,2) that show ?thesis by blast
  qed
qed

section \<open>Properties of notification delivery\<close>

definition demo_notification :: IntegrityNotification where
  "demo_notification = \<lparr>ntf_notification_id = ''n1'', ntf_incident_id = ''i1'', ntf_tenant_id = ''site'',
     ntf_cluster_id = ''alpha'', ntf_occurrence = 1, ntf_event_type = IncidentDetected, ntf_payload_json = JNull,
     ntf_state = NPending, ntf_attempts = 0, ntf_next_attempt_at = 10, ntf_lease_owner = None,
     ntf_lease_generation = 0, ntf_lease_expires_at = None, ntf_last_error = None, ntf_created_at = 10,
     ntf_delivered_at = None\<rparr>"

definition demo_notification_worker :: IntegrityNotificationWorker where
  "demo_notification_worker = \<lparr>nw_owner = ''nw'', nw_lease_seconds = 60, nw_max_attempts = 2, nw_retry_base_seconds = 30\<rparr>"

definition demo_peer_down :: "string \<Rightarrow> string \<Rightarrow> string \<Rightarrow> unit result" where
  "demo_peer_down = (\<lambda>_ _ _. Inl (RuntimeError ''webhook delivery failed''))"

text \<open>The attempts that are left over all notifications still in delivery.\<close>

definition delivery_budget :: "IntegrityNotificationWorker \<Rightarrow> catalog \<Rightarrow> nat" where
  "delivery_budget nw c = sum_list (map (\<lambda>n. if ntf_state n \<in> {NPending, NProcessing}
     then 1 + nat (nw_max_attempts nw - ntf_attempts n) else 0) (notifications c))"

lemma sum_list_upd_less:
  fixes g :: "'r \<Rightarrow> nat"
  assumes "distinct (map k rows)" "r \<in> set rows" "g (f r) < g r"
  shows "sum_list (map g (upd_where (\<lambda>x. k x = k r) f rows)) < sum_list (map g rows)"
  using assms
proof (induction rows)
  case (Cons x rows)
  show ?case
  proof (cases "x = r")
    case True
    with Cons.prems(1) have "upd_where (\<lambda>x. k x = k r) f rows = rows" by (intro upd_where_ident) (auto simp: image_iff)
    with True Cons.prems(3) show ?thesis by simp
  next
    case False
    with Cons.prems have "k x \<noteq> k r" by (auto simp: image_iff)
    with False Cons show ?thesis by simp
  qed
qed simp

text \<open>Delivery to a dead peer ends: every run that attempts a delivery the peer refuses lowers the number of
  attempts left over all notifications, so the worker runs out of claimable work after finitely many
  runs and the undelivered notifications end in the terminal state.\<close>

theorem failing_delivery_exhausts:
  assumes "notification_run_once nw send id claimed_at now c = (True, c')" "notification_ids_ok c"
    "\<And>i ev p. \<exists>e. send i ev p = Inl e"
  shows "delivery_budget nw c' < delivery_budget nw c \<and> notification_ids_ok c'"
proof -
  from assms(1,2) obtain n own t where n: "n \<in> set (notifications c)" "notification_claimable claimed_at n"
    and c': "notifications c' = upd_where (\<lambda>x. ntf_notification_id x = ntf_notification_id n)
       (\<lambda>x. (case send (ntf_notification_id n) (event_name (ntf_event_type n)) (json_dumps (ntf_payload_json n)) of
          Inl e \<Rightarrow> failed_row nw (err_text e) now | Inr _ \<Rightarrow> delivered_row now) (claim_notification_row own t x))
       (notifications c)" by (rule run_once_undisturbed)
  from assms(3) obtain e where e: "send (ntf_notification_id n) (event_name (ntf_event_type n))
      (json_dumps (ntf_payload_json n)) = Inl e" by blast
  let ?f = "\<lambda>x. failed_row nw (err_text e) now (claim_notification_row own t x)"
  have rows: "notifications c' = upd_where (\<lambda>x. ntf_notification_id x = ntf_notification_id n) ?f (notifications c)"
    by (simp add: c' e)
  have d: "distinct (map ntf_notification_id (notifications c))" using assms(2) by (simp add: notification_ids_ok_def)
  have "delivery_budget nw c' < delivery_budget nw c" unfolding delivery_budget_def rows
  proof (rule sum_list_upd_less [OF d n(1)])
    show "(if ntf_state (?f n) \<in> {NPending, NProcessing} then 1 + nat (nw_max_attempts nw - ntf_attempts (?f n)) else 0)
        < (if ntf_state n \<in> {NPending, NProcessing} then 1 + nat (nw_max_attempts nw - ntf_attempts n) else 0)"
      using n(2) by (auto simp: notification_claimable_def failed_row_def claim_notification_row_def Let_def)
  qed
  moreover have "notification_ids_ok c'" using d by (simp add: notification_ids_ok_def rows map_upd_where)
  ultimately show ?thesis ..
qed

theorem failing_delivery_exhausts_witness:
  "delivery_budget demo_notification_worker (snd (notification_run_once demo_notification_worker demo_peer_down id 20 21
      (empty_catalog\<lparr>notifications := [demo_notification]\<rparr>)))
   < delivery_budget demo_notification_worker (empty_catalog\<lparr>notifications := [demo_notification]\<rparr>)"
proof -
  let ?c = "empty_catalog\<lparr>notifications := [demo_notification]\<rparr>"
  have "fst (notification_run_once demo_notification_worker demo_peer_down id 20 21 ?c)" by code_simp
  then have "notification_run_once demo_notification_worker demo_peer_down id 20 21 ?c
      = (True, snd (notification_run_once demo_notification_worker demo_peer_down id 20 21 ?c))" by (simp add: prod_eq_iff)
  from failing_delivery_exhausts [OF this] show ?thesis by (simp add: notification_ids_ok_def demo_peer_down_def)
qed

text \<open>A failed delivery is retried after at least the configured base delay and at most one hour, later attempts
  never sooner than earlier ones, and the row becomes terminal exactly when the configured number of
  attempts is used up.\<close>

theorem delivery_retry_schedule:
  assumes "make_notification_worker own ls mx base = Inr nw" "n' = failed_row nw msg now (claim_notification_row own t n)"
  shows "ntf_attempts n' = ntf_attempts n + 1 \<and> ntf_lease_owner n' = None
    \<and> (ntf_state n' = NFailed \<longleftrightarrow> mx \<le> ntf_attempts n + 1)
    \<and> (ntf_state n' \<noteq> NFailed \<longrightarrow> ntf_state n' = NPending
         \<and> now + seconds base \<le> ntf_next_attempt_at n' \<and> ntf_next_attempt_at n' \<le> now + seconds 3600
         \<and> (\<forall>m. ntf_attempts m \<le> ntf_attempts n \<longrightarrow>
              ntf_next_attempt_at (failed_row nw msg now (claim_notification_row own t m)) \<le> ntf_next_attempt_at n'))"
proof -
  from assms(1) have nw: "nw_max_attempts nw = mx" "nw_retry_base_seconds nw = base" "1 \<le> base" "base \<le> 3600"
    by (auto simp: make_notification_worker_def split: if_splits)
  have b: "base \<le> backoff base k" "backoff base k \<le> 3600" for k using backoff_bounds [OF nw(3,4)] by auto
  have m: "backoff base i \<le> backoff base j" if "i \<le> j" for i j using that nw(3) by (intro backoff_mono) auto
  from assms(2) b m show ?thesis
    by (auto simp: failed_row_def claim_notification_row_def Let_def nw(1,2) seconds_mono split: if_splits)
qed

theorem delivery_retry_schedule_witness:
  "ntf_state (failed_row demo_notification_worker ''down'' 50 (claim_notification_row ''nw'' 80 demo_notification)) = NPending
   \<and> ntf_next_attempt_at (failed_row demo_notification_worker ''down'' 50 (claim_notification_row ''nw'' 80 demo_notification))
      \<le> 50 + seconds 3600"
proof -
  have "make_notification_worker ''nw'' 60 2 30 = Inr demo_notification_worker"
    by (simp add: make_notification_worker_def demo_notification_worker_def)
  from delivery_retry_schedule [OF this refl, of "''down''" 50 80 demo_notification] show ?thesis
    by (simp add: demo_notification_def)
qed

text \<open>A delivery worker whose lease was superseded while it was sending changes nothing: whatever the peer
  answered, the row the new owner holds stays as the other processes left it.\<close>

theorem superseded_notification_lease_inert:
  assumes "get_notification (meanwhile c) (ntf_notification_id n0) = Some n2"
    "notification_row_step\<^sup>*\<^sup>* (claim_notification_row own t n0) n1"
    "notification_row_step\<^sup>*\<^sup>* (claim_notification_row own' t' n1) n2"
    "read_notification \<lparr>nl_notification_id = ntf_notification_id n0, nl_generation = ntf_lease_generation n0 + 1,
       nl_owner = own\<rparr> c = Some p"
  shows "notification_execute nw send \<lparr>nl_notification_id = ntf_notification_id n0,
     nl_generation = ntf_lease_generation n0 + 1, nl_owner = own\<rparr> meanwhile now c = (False, meanwhile c)"
proof -
  let ?l = "\<lparr>nl_notification_id = ntf_notification_id n0, nl_generation = ntf_lease_generation n0 + 1, nl_owner = own\<rparr>"
  from nt.superseded [OF assms(2,3)] have "\<not> owns ?l (Some n2)" by (simp add: owns_honours)
  with assms(1) have "notification_fail nw ?l m now (meanwhile c) = meanwhile c" 
    "notification_settle ?l now (meanwhile c) = (False, meanwhile c)" for m
    by (simp_all add: notification_fail_def notification_settle_def)
  with assms(4) show ?thesis by (cases p) (simp add: notification_execute_def split: sum.splits)
qed

theorem superseded_notification_lease_inert_witness:
  "let row = claim_notification_row ''nw'' 80 demo_notification; stolen = claim_notification_row ''other'' 900 row in
   notification_execute demo_notification_worker (\<lambda>_ _ _. Inr ())
      \<lparr>nl_notification_id = ''n1'', nl_generation = 1, nl_owner = ''nw''\<rparr>
      (\<lambda>c. c\<lparr>notifications := [stolen]\<rparr>) 100 (empty_catalog\<lparr>notifications := [row]\<rparr>)
   = (False, empty_catalog\<lparr>notifications := [stolen]\<rparr>)"
proof -
  let ?row = "claim_notification_row ''nw'' 80 demo_notification"
  let ?st = "claim_notification_row ''other'' 900 ?row"
  define other where "other = (\<lambda>c :: catalog. c\<lparr>notifications := [?st]\<rparr>)"
  have g: "get_notification (other (empty_catalog\<lparr>notifications := [?row]\<rparr>)) (ntf_notification_id demo_notification) = Some ?st"
    by (simp add: get_notification_def other_def)
  have r: "read_notification \<lparr>nl_notification_id = ntf_notification_id demo_notification,
       nl_generation = ntf_lease_generation demo_notification + 1, nl_owner = ''nw''\<rparr> (empty_catalog\<lparr>notifications := [?row]\<rparr>)
      = Some (''integrity.incident.detected'', ''null'')" by code_simp
  from superseded_notification_lease_inert [where meanwhile = other, OF g rtranclp.rtrancl_refl rtranclp.rtrancl_refl r,
      of demo_notification_worker "\<lambda>_ _ _. Inr ()" 100]
  show ?thesis by (simp add: demo_notification_def other_def)
qed

lemma upd_where_miss: "r \<in> set rows \<Longrightarrow> \<not> P r \<Longrightarrow> r \<in> set (upd_where P f rows)"
  by (force simp: set_upd_where)

lemma last_sort_key_greatest:
  assumes "y \<in> set xs"
  shows "key y \<le> key (last (sort_key key xs))"
proof -
  obtain ys z where L: "sort_key key xs = ys @ [z]" using assms
    by (cases "sort_key key xs" rule: rev_cases) (metis empty_iff empty_set set_sort)+
  have "sorted (map key (sort_key key xs))" "y \<in> set (sort_key key xs)" using assms by simp_all
  then show ?thesis unfolding L by (auto simp: sorted_append)
qed

lemma latest_redrive_append:
  assumes "inr_notification_id x = nid" "\<And>y. y \<in> set (notification_redrives c) \<Longrightarrow> inr_requested_at y < inr_requested_at x"
  shows "latest_redrive (c\<lparr>notification_redrives := notification_redrives c @ [x]\<rparr>) nid = Some x"
proof -
  let ?key = "\<lambda>x. (inr_requested_at x, inr_redrive_id x)"
  let ?L = "sort_key ?key (filter (\<lambda>x. inr_notification_id x = nid) (notification_redrives c @ [x]))"
  have x: "x \<in> set ?L" using assms(1) by simp
  then have ne: "?L \<noteq> []" by (metis empty_iff empty_set)
  then have l: "last ?L \<in> set ?L" by (rule last_in_set)
  have "?key x \<le> ?key (last ?L)" by (rule last_sort_key_greatest) (simp add: assms(1))
  moreover obtain z where z: "last ?L = z" by simp
  moreover have "z = x \<or> z \<in> set (notification_redrives c)" using l unfolding z by (auto split: if_splits)
  ultimately have "z = x" using assms(2) [of z] by (auto simp: less_eq_prod_def)
  with z have "last ?L = x" by (simp only:)
  moreover obtain r rs where rv: "rev ?L = r # rs" using ne by (cases "rev ?L") simp_all
  ultimately have "r = x" using hd_rev [of ?L] by (simp only: rv list.sel)
  with rv show ?thesis by (simp add: latest_redrive_def)
qed

text \<open>Redriving a failed notification makes it due at once with its attempts reset, invalidates any lease on it and
  leaves one audit row; repeating the request with the same actor and reason before it is delivered
  succeeds again and changes nothing.\<close>

theorem redrive_effect:
  assumes "redrive t cl nid actor reason rid now c = (Inr n', c')" "get_notification c nid = Some n" "ntf_state n = NFailed"
    "\<And>y. y \<in> set (notification_redrives c) \<Longrightarrow> inr_requested_at y < now"
  shows "get_notification c' nid = Some n' \<and> notification_claimable now n' \<and> ntf_attempts n' = 0
    \<and> ntf_lease_generation n < ntf_lease_generation n'
    \<and> length (notification_redrives c') = length (notification_redrives c) + 1
    \<and> redrive t cl nid actor reason rid' now' c' = (Inr n', c')"
proof -
  let ?reason = "str_strip reason"
  let ?a = "\<lparr>inr_redrive_id = rid, inr_notification_id = nid, inr_tenant_id = t, inr_cluster_id = cl,
      inr_requested_by_credential_id = actor, inr_reason = ?reason, inr_requested_at = now\<rparr>"
  let ?u = "upd_notification nid (redriven_row now) c"
  from assms(1) have txn: "redrive_txn t cl nid actor ?reason rid now c = (Inr n', c')" and ok: "?reason \<noteq> []" "\<not> 512 < length ?reason"
    by (auto simp: redrive_def Let_def begin_txn_commit split: if_splits)
  from txn assms(2,3) have n': "n' = redriven_row now n" and scope: "ntf_tenant_id n = t" "ntf_cluster_id n = cl"
    and c': "c' = ?u\<lparr>notification_redrives := notification_redrives c @ [?a]\<rparr>"
    by (auto simp: redrive_txn_def split: if_splits)
  have c'': "c' = ?u\<lparr>notification_redrives := notification_redrives ?u @ [?a]\<rparr>" by (simp add: c' upd_notification_def)
  have g: "get_notification c' nid = Some n'"
    using get_notification_upd [of "redriven_row now" nid c] assms(2) by (simp add: c' n' get_notification_def)
  have "latest_redrive c' nid = Some ?a" unfolding c''
    by (rule latest_redrive_append) (use assms(4) in \<open>simp_all add: upd_notification_def\<close>)
  moreover have "ntf_state n' = NPending" "ntf_tenant_id n' = t" "ntf_cluster_id n' = cl"
    by (simp_all add: n' redriven_row_def scope)
  ultimately have again: "redrive t cl nid actor reason rid' now' c' = (Inr n', c')"
    using g ok by (simp add: redrive_def redrive_txn_def begin_txn_def)
  show ?thesis using g again
    by (simp add: n' c' notification_claimable_def redriven_row_def upd_notification_def)
qed

theorem redrive_effect_witness:
  "\<exists>n' c'. redrive ''site'' ''alpha'' ''n1'' ''op'' ''peer fixed'' ''r1'' 90
      (empty_catalog\<lparr>notifications := [demo_notification\<lparr>ntf_state := NFailed, ntf_attempts := 8\<rparr>]\<rparr>) = (Inr n', c')
     \<and> redrive ''site'' ''alpha'' ''n1'' ''op'' ''peer fixed'' ''r2'' 95 c' = (Inr n', c')"
proof -
  let ?n = "demo_notification\<lparr>ntf_state := NFailed, ntf_attempts := 8\<rparr>"
  let ?c = "empty_catalog\<lparr>notifications := [?n]\<rparr>"
  have "isl (fst (redrive ''site'' ''alpha'' ''n1'' ''op'' ''peer fixed'' ''r1'' 90 ?c)) = False" by code_simp
  then obtain n' c' where r: "redrive ''site'' ''alpha'' ''n1'' ''op'' ''peer fixed'' ''r1'' 90 ?c = (Inr n', c')"
    by (cases "redrive ''site'' ''alpha'' ''n1'' ''op'' ''peer fixed'' ''r1'' 90 ?c") (metis fst_conv sum.collapse(2))
  have g: "get_notification ?c ''n1'' = Some ?n" by (simp add: get_notification_def demo_notification_def)
  have "ntf_state ?n = NFailed" by simp
  from redrive_effect [OF r g this, of "''r2''" 95] r show ?thesis by (simp add: empty_catalog_def)
qed

text \<open>Delivery is final and truthful: a run marks a notification delivered only after the peer accepted exactly that
  notification's identifier, event and payload, and a delivered row is never touched again by a
  delivery run or a redrive.\<close>

theorem delivered_is_final:
  assumes "notification_run_once nw send id claimed_at now c = (r, c')" "notification_ids_ok c"
  shows "(\<forall>n' \<in> set (notifications c'). ntf_state n' = NDelivered \<longrightarrow>
       n' \<in> set (notifications c)
       \<or> send (ntf_notification_id n') (event_name (ntf_event_type n')) (json_dumps (ntf_payload_json n')) = Inr ())
    \<and> (\<forall>n \<in> set (notifications c). ntf_state n = NDelivered \<longrightarrow>
       n \<in> set (notifications c') \<and> n \<in> set (notifications (snd (redrive t cl nid actor reason rid at c))))"
proof (intro conjI ballI impI)
  fix n assume n: "n \<in> set (notifications c)" "ntf_state n = NDelivered"
  note u = get_notification_member [OF assms(2) n(1)]
  show "n \<in> set (notifications c')"
  proof (cases r)
    case False
    with assms(1) have "c' = c" by (auto simp: notification_run_once_def elim: claim_notification_cases split: prod.splits option.splits)
    with n show ?thesis by simp
  next
    case True
    with assms(1) have run: "notification_run_once nw send id claimed_at now c = (True, c')" by simp
    from run assms(2) obtain x own tt where x: "x \<in> set (notifications c)" "notification_claimable claimed_at x"
      and c': "notifications c' = upd_where (\<lambda>y. ntf_notification_id y = ntf_notification_id x)
       (\<lambda>y. (case send (ntf_notification_id x) (event_name (ntf_event_type x)) (json_dumps (ntf_payload_json x)) of
          Inl e \<Rightarrow> failed_row nw (err_text e) now | Inr _ \<Rightarrow> delivered_row now) (claim_notification_row own tt y))
       (notifications c)" by (rule run_once_undisturbed)
    have "ntf_notification_id n \<noteq> ntf_notification_id x"
      using get_notification_member [OF assms(2) x(1)] u x(2) n(2) by (auto simp: notification_claimable_def)
    with n(1) show ?thesis unfolding c' by (intro upd_where_miss)
  qed
  have "snd (redrive_txn t cl nid actor (str_strip reason) rid at c) = c \<or>
      (\<exists>y. get_notification c nid = Some y \<and> ntf_state y = NFailed
         \<and> notifications (snd (redrive_txn t cl nid actor (str_strip reason) rid at c))
           = upd_where (\<lambda>z. ntf_notification_id z = nid) (redriven_row at) (notifications c))"
    by (auto simp: redrive_txn_def split: option.splits)
  moreover have "ntf_notification_id n \<noteq> nid" if "get_notification c nid = Some y" "ntf_state y = NFailed" for y
    using that u n(2) by auto
  ultimately have "n \<in> set (notifications (snd (redrive_txn t cl nid actor (str_strip reason) rid at c)))"
    using n(1) by (auto intro: upd_where_miss)
  then show "n \<in> set (notifications (snd (redrive t cl nid actor reason rid at c)))" using n(1)
    by (auto simp: redrive_def Let_def begin_txn_def split: prod.splits sum.splits)
next
  fix n' assume n': "n' \<in> set (notifications c')" "ntf_state n' = NDelivered"
  show "n' \<in> set (notifications c)
       \<or> send (ntf_notification_id n') (event_name (ntf_event_type n')) (json_dumps (ntf_payload_json n')) = Inr ()"
  proof (cases r)
    case False
    with assms(1) have "c' = c" by (auto simp: notification_run_once_def elim: claim_notification_cases split: prod.splits option.splits)
    with n' show ?thesis by simp
  next
    case True
    with assms(1) have run: "notification_run_once nw send id claimed_at now c = (True, c')" by simp
    from run assms(2) obtain x own tt where x: "x \<in> set (notifications c)" "notification_claimable claimed_at x"
      and c': "notifications c' = upd_where (\<lambda>y. ntf_notification_id y = ntf_notification_id x)
       (\<lambda>y. (case send (ntf_notification_id x) (event_name (ntf_event_type x)) (json_dumps (ntf_payload_json x)) of
          Inl e \<Rightarrow> failed_row nw (err_text e) now | Inr _ \<Rightarrow> delivered_row now) (claim_notification_row own tt y))
       (notifications c)" by (rule run_once_undisturbed)
    from n'(1) [unfolded c'] show ?thesis
    proof (cases rule: upd_where_member)
      case (1 y)
      have "y = x" using 1(1,2) x(1) get_notification_member [OF assms(2)] by (metis option.inject)
      with 1(3) n'(2) show ?thesis
        by (auto simp: notification_row_defs Let_def split: sum.splits if_splits)
    qed simp
  qed
qed

theorem delivered_is_final_witness:
  "demo_notification\<lparr>ntf_state := NDelivered\<rparr> \<in> set (notifications (snd (notification_run_once demo_notification_worker
     demo_peer_down id 20 21 (empty_catalog\<lparr>notifications := [demo_notification\<lparr>ntf_state := NDelivered\<rparr>]\<rparr>))))"
proof -
  let ?c = "empty_catalog\<lparr>notifications := [demo_notification\<lparr>ntf_state := NDelivered\<rparr>]\<rparr>"
  obtain r c' where x: "notification_run_once demo_notification_worker demo_peer_down id 20 21 ?c = (r, c')" by fastforce
  have "notification_ids_ok ?c" by (simp add: notification_ids_ok_def)
  from delivered_is_final [OF x this] x show ?thesis by simp
qed

end
