(* ===== verification/Recovery.thy ===== *)
theory Recovery
  imports Deletion_Worker
begin

text \<open>
  \<^verbatim>\<open>recovery.py\<close>: completed deletions are exported as a signed bundle of tombstones, and after
  a database was restored from a backup the bundle is applied to it, so that erased attempts are fenced
  and erased again.  \<open>datetime.isoformat\<close> and \<open>datetime.fromisoformat\<close> are the parameters
  \<open>isof\<close> and \<open>fromiso\<close>.
\<close>

section \<open>Export\<close>


record TombstoneExport =
  tx_bundle :: bytes
  tx_next_cursor :: "attempt_identity option"

definition canonical :: "json \<Rightarrow> bytes" where
  "canonical v = utf8 (json_dumps v)"

definition secret_ok :: "string \<Rightarrow> bool" where
  "secret_ok secret = (32 \<le> int (length secret) \<and> int (length secret) \<le> 1024)"

definition export_rows :: "attempt_identity option \<Rightarrow> catalog \<Rightarrow> AttemptDeletion list" where
  "export_rows after c = sort_key ad_identity
     (filter (\<lambda>d. ad_state d = DCompleted \<and> (case after of None \<Rightarrow> True | Some a \<Rightarrow> a < ad_identity d)) (deletions c))"

text \<open>The dictionaries of the source, their keys in the order the serialiser writes them.\<close>

definition tombstone_entry :: "iso_writer \<Rightarrow> AttemptDeletion \<Rightarrow> json" where
  "tombstone_entry isof d = JObj
     [(''attempt_id'', JStr (ad_attempt_id d)), (''cluster_id'', JStr (ad_cluster_id d)),
      (''completed_at'', (case ad_completed_at d of None \<Rightarrow> JNull | Some t \<Rightarrow> JStr (isof t))),
      (''deletion_generation'', JInt (ad_deletion_generation d)),
      (''requested_at'', JStr (isof (ad_requested_at d))), (''tenant_id'', JStr (ad_tenant_id d))]"

definition tombstone_payload :: "iso_writer \<Rightarrow> instant \<Rightarrow> AttemptDeletion list \<Rightarrow> json" where
  "tombstone_payload isof created_at page = JObj
     [(''created_at'', JStr (isof created_at)), (''entries'', JArr (map (tombstone_entry isof) page)),
      (''schema_version'', JInt 1)]"

definition bundle_signature :: "runtime \<Rightarrow> string \<Rightarrow> json \<Rightarrow> string" where
  "bundle_signature R secret payload = ''sha256='' @ rt_hmac_sha256 R (utf8 secret) (canonical payload)"

definition tombstone_envelope :: "runtime \<Rightarrow> string \<Rightarrow> json \<Rightarrow> json" where
  "tombstone_envelope R secret payload =
     JObj [(''payload'', payload), (''signature'', JStr (bundle_signature R secret payload))]"

definition export_completed_tombstones ::
  "runtime \<Rightarrow> iso_writer \<Rightarrow> string \<Rightarrow> datetime \<Rightarrow> attempt_identity option \<Rightarrow> int \<Rightarrow> catalog \<Rightarrow> TombstoneExport result" where
  "export_completed_tombstones R isof secret created_at after limit c =
     (if \<not> (1 \<le> limit \<and> limit \<le> 10000) then Inl (ValueError ''tombstone export limit must be within [1, 10000]'')
      else if dt_offset created_at = None then Inl (ValueError ''tombstone export time must be timezone-aware'')
      else if \<not> secret_ok secret then Inl (ValueError ''tombstone signing secret must contain 32 to 1024 characters'')
      else (let rows = take (nat limit + 1) (export_rows after c);
                page = take (nat limit) rows;
                payload = tombstone_payload isof (dt_instant created_at) page
            in Inr \<lparr>tx_bundle = canonical (tombstone_envelope R secret payload),
                 tx_next_cursor = (if int (length rows) > limit \<and> page \<noteq> [] then Some (ad_identity (last page)) else None)\<rparr>))"

section \<open>Parsing a bundle\<close>

definition parse_time :: "iso_reader \<Rightarrow> string \<Rightarrow> json \<Rightarrow> instant result" where
  "parse_time fromiso field v =
     (case v of
        JStr s \<Rightarrow>
          (case fromiso (replace_Z s) of
             None \<Rightarrow> Inl (ValueError (''tombstone '' @ field @ '' must be ISO-8601''))
           | Some d \<Rightarrow> if dt_offset d = None then Inl (ValueError (''tombstone '' @ field @ '' must include an offset''))
                      else Inr (dt_instant d))
      | _ \<Rightarrow> Inl (ValueError (''tombstone '' @ field @ '' must be a timestamp'')))"

record tombstone =
  tb_identity :: attempt_identity
  tb_generation :: int
  tb_requested_at :: instant
  tb_completed_at :: instant

definition identifier_of :: "json \<Rightarrow> string option" where
  "identifier_of v = (case v of JStr s \<Rightarrow> if safe_identifier s then Some s else None | _ \<Rightarrow> None)"

definition parse_entry :: "iso_reader \<Rightarrow> json \<Rightarrow> tombstone result" where
  "parse_entry fromiso v =
     (case v of
        JObj kvs \<Rightarrow>
          if set (map fst kvs) \<noteq> {''tenant_id'', ''cluster_id'', ''attempt_id'', ''deletion_generation'', ''requested_at'',
               ''completed_at''}
          then Inl (ValueError ''tombstone entry is invalid'')
          else (case (identifier_of (jget kvs ''tenant_id''), identifier_of (jget kvs ''cluster_id''),
                      identifier_of (jget kvs ''attempt_id'')) of
              (Some t, Some cl, Some a) \<Rightarrow>
                (case jget kvs ''deletion_generation'' of
                   JInt g \<Rightarrow>
                     if \<not> (1 \<le> g \<and> g \<le> 2 ^ 63 - 1) then Inl (ValueError ''tombstone deletion generation is invalid'')
                     else bindE (parse_time fromiso ''requested_at'' (jget kvs ''requested_at'')) (\<lambda>req.
                          bindE (parse_time fromiso ''completed_at'' (jget kvs ''completed_at'')) (\<lambda>comp.
                            if comp < req then Inl (ValueError ''tombstone completion precedes its request'')
                            else Inr \<lparr>tb_identity = (t, cl, a), tb_generation = g, tb_requested_at = req,
                                   tb_completed_at = comp\<rparr>))
                 | _ \<Rightarrow> Inl (ValueError ''tombstone deletion generation is invalid''))
            | _ \<Rightarrow> Inl (ValueError ''tombstone identifiers are invalid''))
      | _ \<Rightarrow> Inl (ValueError ''tombstone entry is invalid''))"

text \<open>\<open>value == 1\<close> of Python, which holds of \<open>True\<close> and of \<open>1.0\<close> too.\<close>

definition equals_one :: "json \<Rightarrow> bool" where
  "equals_one v = (case v of JInt i \<Rightarrow> i = 1 | JBool b \<Rightarrow> b | JFloat s \<Rightarrow> s = ''1.0'' | _ \<Rightarrow> False)"

definition ascii_char :: "char \<Rightarrow> bool" where
  "ascii_char c = ((of_char c :: nat) < 128)"

definition open_envelope :: "runtime \<Rightarrow> string \<Rightarrow> bytes \<Rightarrow> json result" where
  "open_envelope R secret bundle =
     (case rt_json_loads R bundle of
        None \<Rightarrow> Inl (ValueError ''tombstone bundle is not valid JSON'')
      | Some (JObj kvs) \<Rightarrow>
          if set (map fst kvs) \<noteq> {''payload'', ''signature''} then Inl (ValueError ''tombstone bundle envelope is invalid'')
          else (case jget kvs ''signature'' of
              JStr s \<Rightarrow>
                if \<not> list_all ascii_char s
                then Inl (TypeErr ''comparing strings with non-ASCII characters is not supported'')
                else if s \<noteq> bundle_signature R secret (jget kvs ''payload'')
                then Inl (ValueError ''tombstone bundle signature is invalid'')
                else Inr (jget kvs ''payload'')
            | _ \<Rightarrow> Inl (ValueError ''tombstone bundle signature is invalid''))
      | Some _ \<Rightarrow> Inl (ValueError ''tombstone bundle envelope is invalid''))"

definition parse_payload_entries :: "json \<Rightarrow> (json \<times> json list) result" where
  "parse_payload_entries payload =
     (case payload of
        JObj kvs \<Rightarrow>
          if set (map fst kvs) \<noteq> {''schema_version'', ''created_at'', ''entries''} \<or> \<not> equals_one (jget kvs ''schema_version'')
          then Inl (ValueError ''tombstone bundle payload is invalid'')
          else (case jget kvs ''entries'' of
              JArr es \<Rightarrow> if int (length es) > 10000 then Inl (ValueError ''tombstone bundle payload is invalid'')
                        else Inr (jget kvs ''created_at'', es)
            | _ \<Rightarrow> Inl (ValueError ''tombstone bundle payload is invalid''))
      | _ \<Rightarrow> Inl (ValueError ''tombstone bundle payload is invalid''))"

definition parse_bundle :: "runtime \<Rightarrow> iso_reader \<Rightarrow> bytes \<Rightarrow> string \<Rightarrow> string \<Rightarrow> (instant \<times> tombstone list) result" where
  "parse_bundle R fromiso bundle secret actor =
     (if int (length bundle) > 10 * 1024 * 1024 then Inl (ValueError ''tombstone bundle exceeds 10 MiB'')
      else if \<not> secret_ok secret then Inl (ValueError ''tombstone signing secret must contain 32 to 1024 characters'')
      else if \<not> safe_identifier actor then Inl (ValueError ''restore actor must be a safe identifier'')
      else bindE (open_envelope R secret bundle) (\<lambda>payload.
           bindE (parse_payload_entries payload) (\<lambda>(created, es).
           bindE (parse_time fromiso ''created_at'' created) (\<lambda>created_at.
           bindE (mapE (parse_entry fromiso) es) (\<lambda>entries.
             if entries \<noteq> sort_key tb_identity entries \<or> length (remdups (map tb_identity entries)) \<noteq> length entries
             then Inl (ValueError ''tombstone entries must be unique and canonically ordered'')
             else Inr (created_at, entries))))))"

section \<open>Application\<close>

record TombstoneImportResult =
  ti_bundle_sha256 :: string
  ti_entry_count :: int
  ti_applied_count :: int
  ti_stale_count :: int
  ti_replayed :: bool

definition fence_to :: "tombstone \<Rightarrow> catalog \<Rightarrow> catalog" where
  "fence_to e c =
     (case get_generation c (tb_identity e) of
        None \<Rightarrow> c\<lparr>generations := generations c @ [make_generation (tb_identity e) (tb_generation e) (Some (tb_completed_at e))]\<rparr>
      | Some g \<Rightarrow> upd_generation (tb_identity e)
          (\<lambda>_. g\<lparr>ag_generation := tb_generation e, ag_deleted_at := Some (tb_completed_at e)\<rparr>) c)"

definition queue_erasure :: "tombstone \<Rightarrow> catalog \<Rightarrow> catalog" where
  "queue_erasure e c =
     (case get_deletion c (tb_identity e) of
        None \<Rightarrow> c\<lparr>deletions := deletions c @ [make_deletion (tb_identity e) (tb_generation e) DPending None (tb_requested_at e)]\<rparr>
      | Some _ \<Rightarrow> upd_deletion (tb_identity e) (reapply_tombstone (tb_generation e) (tb_requested_at e)) c)"

definition release_holds :: "string \<Rightarrow> tombstone \<Rightarrow> catalog \<Rightarrow> catalog" where
  "release_holds actor e c = c\<lparr>holds := upd_where (is_active_hold (tb_identity e))
     (\<lambda>h. h\<lparr>ah_state := HReleased, ah_released_by_credential_id := Some (take 128 (''restore:'' @ actor)),
            ah_released_at := Some (tb_completed_at e)\<rparr>) (holds c)\<rparr>"

definition apply_tombstone :: "string \<Rightarrow> tombstone \<Rightarrow> catalog \<Rightarrow> catalog" where
  "apply_tombstone actor e c = release_holds actor e (queue_erasure e (fence_to e c))"

fun apply_entries :: "string \<Rightarrow> tombstone list \<Rightarrow> int \<times> int \<Rightarrow> catalog \<Rightarrow> (int \<times> int) result \<times> catalog" where
  "apply_entries actor [] counts c = (Inr counts, c)"
| "apply_entries actor (e # es) (applied, stale) c =
     (case get_generation c (tb_identity e) of
        Some g \<Rightarrow>
          if ag_generation g > tb_generation e
          then (if ag_deleted_at g = None
                then (Inl (ValueError ''tombstone conflicts with a newer live attempt generation''), c)
                else apply_entries actor es (applied, stale + 1) c)
          else apply_entries actor es (applied + 1, stale) (apply_tombstone actor e c)
      | None \<Rightarrow> apply_entries actor es (applied + 1, stale) (apply_tombstone actor e c))"

definition apply_txn ::
  "string \<Rightarrow> string \<Rightarrow> instant \<Rightarrow> instant \<Rightarrow> tombstone list \<Rightarrow> catalog \<Rightarrow> TombstoneImportResult result \<times> catalog" where
  "apply_txn digest actor created_at now entries c =
     (case List.find (\<lambda>x. rti_bundle_sha256 x = digest) (tombstone_imports c) of
        Some x \<Rightarrow> (Inr \<lparr>ti_bundle_sha256 = digest, ti_entry_count = rti_entry_count x,
                    ti_applied_count = rti_applied_count x, ti_stale_count = rti_stale_count x, ti_replayed = True\<rparr>, c)
      | None \<Rightarrow>
          (case apply_entries actor entries (0, 0) c of
             (Inl e, c1) \<Rightarrow> (Inl e, c1)
           | (Inr (applied, stale), c1) \<Rightarrow>
               (Inr \<lparr>ti_bundle_sha256 = digest, ti_entry_count = int (length entries), ti_applied_count = applied,
                     ti_stale_count = stale, ti_replayed = False\<rparr>,
                c1\<lparr>tombstone_imports := tombstone_imports c1 @
                     [\<lparr>rti_bundle_sha256 = digest, rti_source_created_at = created_at,
                       rti_entry_count = int (length entries), rti_applied_count = applied, rti_stale_count = stale,
                       rti_imported_by = actor, rti_imported_at = now\<rparr>]\<rparr>)))"

definition apply_completed_tombstones ::
  "runtime \<Rightarrow> iso_reader \<Rightarrow> bytes \<Rightarrow> string \<Rightarrow> string \<Rightarrow> datetime \<Rightarrow> catalog \<Rightarrow> TombstoneImportResult result \<times> catalog" where
  "apply_completed_tombstones R fromiso bundle secret actor now c =
     (case parse_bundle R fromiso bundle secret actor of
        Inl e \<Rightarrow> (Inl e, c)
      | Inr (created_at, entries) \<Rightarrow>
          if dt_offset now = None then (Inl (RuntimeError ''restore clock must be timezone-aware''), c)
          else begin_txn (apply_txn (rt_sha256 R bundle) actor created_at (dt_instant now) entries) c)"

section \<open>Laws of the application\<close>

lemma fence_to_generation:
  "get_generation (fence_to e c) i = (if i = tb_identity e
     then Some (case get_generation c i of
         None \<Rightarrow> make_generation i (tb_generation e) (Some (tb_completed_at e))
       | Some g \<Rightarrow> g\<lparr>ag_generation := tb_generation e, ag_deleted_at := Some (tb_completed_at e)\<rparr>)
     else get_generation c i)"
proof (cases "get_generation c (tb_identity e)")
  case None
  have "ag_identity (make_generation (tb_identity e) n d) = tb_identity e" for n d
    by (simp add: ag_identity_def make_generation_def)
  with None show ?thesis by (auto simp: fence_to_def get_generation_append split: option.splits)
next
  case (Some g)
  let ?g = "g\<lparr>ag_generation := tb_generation e, ag_deleted_at := Some (tb_completed_at e)\<rparr>"
  have "ag_identity ?g = tb_identity e" using get_generation_identity [OF Some] by (simp add: ag_identity_def)
  with Some show ?thesis by (simp add: fence_to_def get_generation_upd)
qed

lemma fence_to_frame [simp]:
  "deletions (fence_to e c) = deletions c" "holds (fence_to e c) = holds c"
  by (simp_all add: fence_to_def upd_generation_def split: option.splits)

lemma queue_erasure_frame [simp]:
  "generations (queue_erasure e c) = generations c" "holds (queue_erasure e c) = holds c"
  by (simp_all add: queue_erasure_def upd_deletion_def split: option.splits)

lemma release_holds_frame [simp]:
  "generations (release_holds a e c) = generations c" "deletions (release_holds a e c) = deletions c"
  by (simp_all add: release_holds_def)

lemma apply_tombstone_generation:
  "get_generation (apply_tombstone a e c) i = get_generation (fence_to e c) i"
  by (simp add: apply_tombstone_def get_generation_def)

text \<open>Which deletion rows an application leaves: the entry's own row, queued under its generation, and the others unchanged.\<close>

lemma queue_erasure_rows:
  assumes "d \<in> set (deletions (queue_erasure e c))"
  shows "(ad_identity d = tb_identity e \<and> ad_state d = DPending \<and> ad_deletion_generation d = tb_generation e)
    \<or> (ad_identity d \<noteq> tb_identity e \<and> d \<in> set (deletions c))"
proof (cases "get_deletion c (tb_identity e)")
  case None
  then have "\<forall>d \<in> set (deletions c). ad_identity d \<noteq> tb_identity e" by (simp add: get_deletion_def find_None_all)
  with None assms show ?thesis by (auto simp: queue_erasure_def make_deletion_def ad_identity_def)
next
  case (Some x)
  with assms show ?thesis
    by (auto simp: queue_erasure_def set_upd_where reapply_tombstone_def ad_identity_def)
qed

lemma queue_erasure_queued:
  "\<exists>d. get_deletion (queue_erasure e c) (tb_identity e) = Some d \<and> ad_state d = DPending \<and> ad_deletion_generation d = tb_generation e"
  by (cases "get_deletion c (tb_identity e)")
     (auto simp: queue_erasure_def get_deletion_append get_deletion_upd make_deletion_def reapply_tombstone_def ad_identity_def)

lemma queue_erasure_keys:
  assumes "distinct (map ad_identity (deletions c))"
  shows "distinct (map ad_identity (deletions (queue_erasure e c)))"
proof (cases "get_deletion c (tb_identity e)")
  case None
  then have "\<forall>d \<in> set (deletions c). ad_identity d \<noteq> tb_identity e" by (simp add: get_deletion_def find_None_all)
  with None assms show ?thesis by (auto simp: queue_erasure_def make_deletion_def ad_identity_def)
next
  case (Some x)
  with assms show ?thesis by (simp add: queue_erasure_def map_upd_where)
qed

lemma release_holds_active:
  "active_hold_ids (release_holds a e c) i = (if i = tb_identity e then [] else active_hold_ids c i)"
proof (cases "i = tb_identity e")
  case True
  then show ?thesis unfolding active_hold_ids_Nil
    by (auto simp: release_holds_def set_upd_where is_active_hold_def active_hold_ids_Nil)
next
  case False
  have "map ah_hold_id (filter (is_active_hold i) (upd_where (is_active_hold (tb_identity e)) f rows))
      = map ah_hold_id (filter (is_active_hold i) rows)"
    if "\<And>h. ah_identity (f h) = ah_identity h" for f rows
    using that False by (induction rows) (auto simp: is_active_hold_def)
  with False show ?thesis by (simp add: active_hold_ids_def release_holds_def ah_identity_def)
qed

lemma apply_tombstone_ok:
  assumes "lifecycle_ok c"
  shows "lifecycle_ok (apply_tombstone a e c)"
proof -
  let ?c = "apply_tombstone a e c"
  have dels: "deletions ?c = deletions (queue_erasure e (fence_to e c))" by (simp add: apply_tombstone_def)
  have "lifecycle_keys ?c"
    using assms queue_erasure_keys [of "fence_to e c" e]
    by (simp add: lifecycle_ok_def lifecycle_keys_def apply_tombstone_def release_holds_def map_upd_where)
  moreover have "deletions_fenced ?c" unfolding deletions_fenced_def
  proof (intro ballI impI)
    fix d assume d: "d \<in> set (deletions ?c)" "ad_state d \<noteq> DHeld"
    from queue_erasure_rows [of d e "fence_to e c"] d(1) dels
    consider (own) "ad_identity d = tb_identity e" "ad_deletion_generation d = tb_generation e"
      | (other) "ad_identity d \<noteq> tb_identity e" "d \<in> set (deletions c)" by auto
    then show "fence_of ?c d"
    proof cases
      case own
      then show ?thesis
        by (auto simp: fence_of_def apply_tombstone_generation fence_to_generation make_generation_def split: option.splits)
    next
      case other
      then have "fence_of c d" using assms d(2) by (simp add: lifecycle_ok_def deletions_fenced_def)
      with other(1) show ?thesis by (simp add: fence_of_def apply_tombstone_generation fence_to_generation)
    qed
  qed
  moreover have "holds_block ?c" unfolding holds_block_def
  proof (intro ballI impI)
    fix d assume d: "d \<in> set (deletions ?c)" "active_hold_ids ?c (ad_identity d) \<noteq> []"
    have "active_hold_ids (queue_erasure e (fence_to e c)) i = active_hold_ids c i" for i
      by (simp add: active_hold_ids_def)
    with d(2) have "ad_identity d \<noteq> tb_identity e" "active_hold_ids c (ad_identity d) \<noteq> []"
      by (auto simp: apply_tombstone_def release_holds_active split: if_splits)
    with queue_erasure_rows [of d e "fence_to e c"] d(1) dels assms show "ad_state d = DHeld"
      by (auto simp: lifecycle_ok_def holds_block_def)
  qed
  ultimately show ?thesis by (simp add: lifecycle_ok_def)
qed

lemma apply_tombstone_grows:
  assumes "case get_generation c (tb_identity e) of None \<Rightarrow> True | Some g \<Rightarrow> ag_generation g \<le> tb_generation e"
  shows "generations_grow c (apply_tombstone a e c)"
  using assms by (auto simp: generations_grow_def apply_tombstone_generation fence_to_generation)

lemma apply_entries_induct_step:
  assumes "apply_entries a (e # es) (ap, st) c = (r, c')"
  obtains (conflict) g where "get_generation c (tb_identity e) = Some g" "tb_generation e < ag_generation g"
      "ag_deleted_at g = None" "c' = c" "isl r"
  | (stale) g where "get_generation c (tb_identity e) = Some g" "tb_generation e < ag_generation g"
      "ag_deleted_at g \<noteq> None" "apply_entries a es (ap, st + 1) c = (r, c')"
  | (applied) "case get_generation c (tb_identity e) of None \<Rightarrow> True | Some g \<Rightarrow> ag_generation g \<le> tb_generation e"
      "apply_entries a es (ap + 1, st) (apply_tombstone a e c) = (r, c')"
  using assms by (cases "get_generation c (tb_identity e)") (auto split: if_splits)

lemma apply_entries_ok:
  "apply_entries a es n c = (r, c') \<Longrightarrow> lifecycle_ok c \<Longrightarrow> lifecycle_ok c' \<and> generations_grow c c'"
proof (induction es arbitrary: n c)
  case (Cons e es)
  obtain ap st where n: "n = (ap, st)" by fastforce
  from Cons.prems(1) [unfolded n] show ?case
  proof (cases rule: apply_entries_induct_step)
    case (conflict g)
    with Cons.prems(2) show ?thesis by simp
  next
    case (stale g)
    with Cons show ?thesis by blast
  next
    case applied
    from Cons.IH [OF applied(2) apply_tombstone_ok [OF Cons.prems(2)]] apply_tombstone_grows [OF applied(1)]
    show ?thesis by (blast intro: generations_grow_trans)
  qed
qed simp

text \<open>Every entry ends fenced at its generation or a later one, and the counters add up.\<close>

lemma apply_entries_fences:
  "apply_entries a es (ap, st) c = (Inr (ap', st'), c') \<Longrightarrow> lifecycle_ok c \<Longrightarrow>
     ap' + st' = ap + st + int (length es)
     \<and> (\<forall>e \<in> set es. \<exists>g. get_generation c' (tb_identity e) = Some g \<and> ag_deleted_at g \<noteq> None \<and> tb_generation e \<le> ag_generation g)"
proof (induction es arbitrary: ap st c)
  case (Cons e es)
  have keep: "\<exists>g'. get_generation c' (tb_identity e) = Some g' \<and> ag_deleted_at g' \<noteq> None \<and> tb_generation e \<le> ag_generation g'"
    if "generations_grow c1 c'" "get_generation c1 (tb_identity e) = Some g" "ag_deleted_at g \<noteq> None" "tb_generation e \<le> ag_generation g"
    for c1 g using that unfolding generations_grow_def by (meson order_trans)
  from Cons.prems(1) show ?case
  proof (cases rule: apply_entries_induct_step)
    case (conflict g)
    then show ?thesis by simp
  next
    case (stale g)
    from Cons.IH [OF stale(4) Cons.prems(2)] keep [OF conjunct2 [OF apply_entries_ok [OF stale(4) Cons.prems(2)]] stale(1,3)] stale(2)
    show ?thesis by auto
  next
    case applied
    note ok = apply_tombstone_ok [OF Cons.prems(2), of a e]
    obtain g where g: "get_generation (apply_tombstone a e c) (tb_identity e) = Some g" "ag_deleted_at g \<noteq> None"
      "ag_generation g = tb_generation e"
      by (auto simp: apply_tombstone_generation fence_to_generation make_generation_def split: option.splits)
    from Cons.IH [OF applied(2) ok] keep [OF conjunct2 [OF apply_entries_ok [OF applied(2) ok]] g(1,2)] g(3)
    show ?thesis by auto
  qed
qed simp

section \<open>Laws of the export\<close>

text \<open>The rows that follow the \<open>n\<close>-th one of a strictly sorted list are those with a larger key.\<close>

lemma filter_after_nth:
  fixes f :: "'r \<Rightarrow> 'k::linorder"
  assumes "sorted_wrt (<) (map f xs)" "0 < n" "n \<le> length xs"
  shows "filter (\<lambda>x. f (xs ! (n - 1)) < f x) xs = drop n xs"
proof -
  have lt: "f (xs ! i) < f (xs ! j)" if "i < j" "j < length xs" for i j
    using sorted_wrt_nth_less [OF assms(1)] that by (metis length_map less_trans nth_map)
  have a: "filter (\<lambda>x. f (xs ! (n - 1)) < f x) (take n xs) = []"
  proof (rule filter_False, rule ballI)
    fix x assume "x \<in> set (take n xs)"
    then obtain i where i: "i < n" "i < length xs" "x = xs ! i" by (auto simp: in_set_conv_nth)
    have "f (xs ! i) \<le> f (xs ! (n - 1))"
    proof (cases "i = n - 1")
      case False
      with i(1) assms(3) have "f (xs ! i) < f (xs ! (n - 1))" by (intro lt) auto
      then show ?thesis by simp
    qed simp
    with i(3) show "\<not> f (xs ! (n - 1)) < f x" by simp
  qed
  have b: "filter (\<lambda>x. f (xs ! (n - 1)) < f x) (drop n xs) = drop n xs"
  proof (rule filter_True, rule ballI)
    fix x assume "x \<in> set (drop n xs)"
    then obtain i where "i < length xs - n" "x = xs ! (n + i)" by (auto simp: in_set_conv_nth)
    with assms(2) show "f (xs ! (n - 1)) < f x" by (auto intro: lt)
  qed
  have "filter (\<lambda>x. f (xs ! (n - 1)) < f x) (take n xs @ drop n xs) = drop n xs" unfolding filter_append a b by simp
  then show ?thesis by simp
qed

lemma export_rows_strict:
  assumes "distinct (map ad_identity (deletions c))"
  shows "sorted_wrt (<) (map ad_identity (export_rows after c))"
proof -
  have "distinct (map ad_identity (export_rows after c))"
    using assms by (simp add: export_rows_def distinct_map inj_on_subset [of ad_identity "set (deletions c)"] subset_iff)
  then show ?thesis by (simp add: strict_sorted_iff export_rows_def)
qed

lemma export_rows_after:
  assumes "case after of None \<Rightarrow> True | Some a \<Rightarrow> a \<le> k"
  shows "export_rows (Some k) c = filter (\<lambda>d. k < ad_identity d) (export_rows after c)"
proof -
  have "(ad_state d = DCompleted \<and> k < ad_identity d) =
      (k < ad_identity d \<and> ad_state d = DCompleted \<and> (case after of None \<Rightarrow> True | Some a \<Rightarrow> a < ad_identity d))" for d
    using assms by (auto split: option.splits)
  then show ?thesis unfolding export_rows_def filter_sort by (simp add: conj_commute conj_left_commute)
qed

lemma export_Inr:
  assumes "export_completed_tombstones R isof secret created_at after limit c = Inr x"
  shows "1 \<le> limit" "limit \<le> 10000" "dt_offset created_at \<noteq> None" "secret_ok secret"
    "tx_bundle x = canonical (tombstone_envelope R secret (tombstone_payload isof (dt_instant created_at)
       (take (nat limit) (export_rows after c))))"
    "tx_next_cursor x = (if nat limit < length (export_rows after c)
       then Some (ad_identity (export_rows after c ! (nat limit - 1))) else None)"
proof -
  let ?xs = "export_rows after c"
  from assms show l: "1 \<le> limit" and "limit \<le> 10000" "dt_offset created_at \<noteq> None" "secret_ok secret"
    by (auto simp: export_completed_tombstones_def split: if_splits)
  have tt: "take (nat limit) (take (nat limit + 1) ?xs) = take (nat limit) ?xs" by (simp add: min_def)
  from assms tt show "tx_bundle x = canonical (tombstone_envelope R secret (tombstone_payload isof (dt_instant created_at)
       (take (nat limit) ?xs)))"
    by (auto simp: export_completed_tombstones_def Let_def split: if_splits)
  have cur: "tx_next_cursor x = (if limit < int (length (take (nat limit + 1) ?xs)) \<and> take (nat limit) ?xs \<noteq> []
      then Some (ad_identity (last (take (nat limit) ?xs))) else None)"
    using assms tt by (auto simp: export_completed_tombstones_def Let_def split: if_splits)
  show "tx_next_cursor x = (if nat limit < length ?xs then Some (ad_identity (?xs ! (nat limit - 1))) else None)"
  proof (cases "nat limit < length ?xs")
    case True
    then have "last (take (nat limit) ?xs) = ?xs ! (nat limit - 1)" using l
      by (subst last_conv_nth) auto
    with True l cur show ?thesis by auto
  next
    case False
    with l cur show ?thesis by auto
  qed
qed

section \<open>Properties of recovery\<close>

definition tombstone_of :: "AttemptDeletion \<Rightarrow> tombstone" where
  "tombstone_of d = \<lparr>tb_identity = ad_identity d, tb_generation = ad_deletion_generation d,
     tb_requested_at = ad_requested_at d, tb_completed_at = the (ad_completed_at d)\<rparr>"

definition exportable :: "AttemptDeletion \<Rightarrow> bool" where
  "exportable d = (safe_identifier (ad_tenant_id d) \<and> safe_identifier (ad_cluster_id d) \<and> safe_identifier (ad_attempt_id d)
     \<and> 1 \<le> ad_deletion_generation d \<and> ad_deletion_generation d \<le> 2 ^ 63 - 1
     \<and> (case ad_completed_at d of None \<Rightarrow> False | Some t \<Rightarrow> ad_requested_at d \<le> t))"

text \<open>What the code relies on, beside the round trip of \<open>isoformat\<close>: hexadecimal digests are ASCII.\<close>

definition hmac_ascii :: "runtime \<Rightarrow> bool" where
  "hmac_ascii R = (\<forall>k b. list_all ascii_char (rt_hmac_sha256 R k b))"

lemma parse_entry_tombstone:
  assumes "iso_roundtrip isof fromiso" "exportable d"
  shows "parse_entry fromiso (tombstone_entry isof d) = Inr (tombstone_of d)"
proof -
  have t: "parse_time fromiso f (JStr (isof t)) = Inr t" for f t
    using assms(1) by (simp add: iso_roundtrip_def parse_time_def utc_def dt_instant_def)
  obtain k where k: "ad_completed_at d = Some k" "ad_requested_at d \<le> k"
    using assms(2) by (auto simp: exportable_def split: option.splits)
  have "set (map fst [(''attempt_id'', a), (''cluster_id'', b), (''completed_at'', e), (''deletion_generation'', f),
        (''requested_at'', g), (''tenant_id'', h)]) = {''tenant_id'', ''cluster_id'', ''attempt_id'', ''deletion_generation'',
        ''requested_at'', ''completed_at''}" for a b e f g h :: json by auto
  with assms(2) k t show ?thesis
    by (simp add: tombstone_entry_def parse_entry_def jget_def identifier_of_def exportable_def tombstone_of_def ad_identity_def)
qed

text \<open>A small site: one completed deletion, times written in unary.\<close>

definition demo_tombstone_row :: AttemptDeletion where
  "demo_tombstone_row = (make_deletion demo_identity 1 DCompleted None 3)\<lparr>ad_completed_at := Some 4\<rparr>"

definition demo_source :: catalog where
  "demo_source = empty_catalog\<lparr>deletions := [demo_tombstone_row],
     generations := [make_generation demo_identity 1 (Some 3)]\<rparr>"

definition demo_secret :: string where
  "demo_secret = replicate 32 (CHR ''k'')"

definition demo_envelope :: json where
  "demo_envelope = tombstone_envelope demo_runtime demo_secret (tombstone_payload demo_iso 5 [demo_tombstone_row])"

definition demo_restore_runtime :: runtime where
  "demo_restore_runtime = demo_runtime\<lparr>rt_json_loads := (\<lambda>_. Some demo_envelope)\<rparr>"

definition demo_bundle :: bytes where
  "demo_bundle = canonical demo_envelope"

lemma demo_export:
  "export_completed_tombstones demo_restore_runtime demo_iso demo_secret (utc 5) None 10 demo_source
     = Inr \<lparr>tx_bundle = demo_bundle, tx_next_cursor = None\<rparr>"
  "export_rows None demo_source = [demo_tombstone_row]"
proof -
  show rows: "export_rows None demo_source = [demo_tombstone_row]"
    by (simp add: export_rows_def demo_source_def demo_tombstone_row_def)
  have "bundle_signature demo_restore_runtime s p = bundle_signature demo_runtime s p" for s p
    by (simp add: bundle_signature_def demo_restore_runtime_def)
  with rows show "export_completed_tombstones demo_restore_runtime demo_iso demo_secret (utc 5) None 10 demo_source
     = Inr \<lparr>tx_bundle = demo_bundle, tx_next_cursor = None\<rparr>"
    by (simp add: export_completed_tombstones_def Let_def utc_def dt_instant_def secret_ok_def demo_secret_def
        demo_bundle_def demo_envelope_def tombstone_envelope_def)
qed

lemma demo_bundle_small: "int (length demo_bundle) \<le> 10 * 1024 * 1024"
  by code_simp

lemma demo_rows_exportable: "exportable demo_tombstone_row"
  by code_simp

lemma demo_hmac_ascii: "hmac_ascii demo_restore_runtime"
proof -
  have h: "ascii_char (hex_digit n)" if "n < 16" for n
    using that by (cases "n < 10") (simp_all add: hex_digit_def ascii_char_def)
  have "ascii_char (CHR ''1'')" by code_simp
  with h show ?thesis by (auto simp: hmac_ascii_def demo_restore_runtime_def demo_runtime_def list_all_iff)
qed

lemma parse_exported_bundle:
  assumes "export_completed_tombstones R isof secret created_at after limit c = Inr x"
    and "distinct (map ad_identity (deletions c))"
    and "\<forall>d \<in> set (take (nat limit) (export_rows after c)). exportable d"
    and "iso_roundtrip isof fromiso" "hmac_ascii R"
    and "rt_json_loads R (tx_bundle x) = Some (tombstone_envelope R secret (tombstone_payload isof (dt_instant created_at)
       (take (nat limit) (export_rows after c))))"
    and "int (length (tx_bundle x)) \<le> 10 * 1024 * 1024" "safe_identifier actor"
  shows "parse_bundle R fromiso (tx_bundle x) secret actor =
    Inr (dt_instant created_at, map tombstone_of (take (nat limit) (export_rows after c)))"
proof -
  note e = export_Inr [OF assms(1)]
  let ?page = "take (nat limit) (export_rows after c)"
  let ?payload = "tombstone_payload isof (dt_instant created_at) ?page"
  note env = assms(6)
  have "list_all ascii_char ''sha256=''" by code_simp
  then have asc: "list_all ascii_char (bundle_signature R secret ?payload)"
    using assms(5) by (simp add: bundle_signature_def hmac_ascii_def)
  have keys: "set (map fst [(''payload'', p), (''signature'', q)]) = {''payload'', ''signature''}" for p q :: json by auto
  have op: "open_envelope R secret (tx_bundle x) = Inr ?payload"
    using asc by (simp add: open_envelope_def env tombstone_envelope_def keys jget_def)
  have ps: "parse_payload_entries ?payload = Inr (JStr (isof (dt_instant created_at)), map (tombstone_entry isof) ?page)"
    using e(1,2) by (auto simp: parse_payload_entries_def tombstone_payload_def jget_def equals_one_def)
  have ct: "parse_time fromiso ''created_at'' (JStr (isof (dt_instant created_at))) = Inr (dt_instant created_at)"
    using assms(4) by (simp add: iso_roundtrip_def parse_time_def utc_def dt_instant_def)
  have en: "mapE (parse_entry fromiso) (map (tombstone_entry isof) ?page) = Inr (map tombstone_of ?page)"
  proof -
    have "mapE (\<lambda>d. parse_entry fromiso (tombstone_entry isof d)) ds = Inr (map tombstone_of ds)"
      if "\<forall>d \<in> set ds. exportable d" for ds
      using that parse_entry_tombstone [OF assms(4)] by (intro mapE_total) auto
    moreover have "mapE f (map g ds) = mapE (\<lambda>d. f (g d)) ds" for f :: "json \<Rightarrow> tombstone result" and g :: "AttemptDeletion \<Rightarrow> json" and ds
      by (induction ds) simp_all
    ultimately show ?thesis using assms(3) by simp
  qed
  have id: "map tb_identity (map tombstone_of ?page) = map ad_identity ?page" by (simp add: tombstone_of_def)
  have srt: "sorted_wrt (<) (map ad_identity ?page)"
    using export_rows_strict [OF assms(2), of after] by (simp add: take_map [symmetric] sorted_wrt_take)
  then have "sorted (map tb_identity (map tombstone_of ?page))" "distinct (map tb_identity (map tombstone_of ?page))"
    unfolding id by (simp_all add: strict_sorted_iff)
  then have "sort_key tb_identity (map tombstone_of ?page) = map tombstone_of ?page"
    "length (remdups (map tb_identity (map tombstone_of ?page))) = length (map tombstone_of ?page)"
    by (simp_all add: sort_key_id_if_sorted distinct_remdups_id)
  with assms(7,8) e(4) op ps ct en show ?thesis by (simp add: parse_bundle_def)
qed

lemma demo_loads:
  "rt_json_loads demo_restore_runtime demo_bundle = Some (tombstone_envelope demo_restore_runtime demo_secret
      (tombstone_payload demo_iso 5 [demo_tombstone_row]))"
  by (simp add: demo_restore_runtime_def demo_envelope_def tombstone_envelope_def bundle_signature_def)

lemma demo_source_keys: "distinct (map ad_identity (deletions demo_source))"
  by (simp add: demo_source_def)

lemma demo_operator: "safe_identifier ''operator''"
  by code_simp

lemma demo_parse:
  "parse_bundle demo_restore_runtime demo_fromiso demo_bundle demo_secret ''operator''
     = Inr (5, [tombstone_of demo_tombstone_row])"
  using parse_exported_bundle [OF demo_export(1) demo_source_keys _ demo_iso_roundtrip demo_hmac_ascii _ _ demo_operator]
    demo_loads demo_bundle_small demo_rows_exportable demo_export(2) by simp

text \<open>C23. Export and import agree: a bundle produced by the export is accepted under the same secret and
  parses to exactly the exported page of completed deletions, in order.\<close>

theorem export_parse_roundtrip:
  assumes "export_completed_tombstones R isof secret created_at after limit c = Inr x"
    and "distinct (map ad_identity (deletions c))"
    and "\<forall>d \<in> set (take (nat limit) (export_rows after c)). exportable d"
    and "iso_roundtrip isof fromiso" "hmac_ascii R"
    and "rt_json_loads R (tx_bundle x) = Some (tombstone_envelope R secret (tombstone_payload isof (dt_instant created_at)
       (take (nat limit) (export_rows after c))))"
    and "int (length (tx_bundle x)) \<le> 10 * 1024 * 1024" "safe_identifier actor"
  shows "parse_bundle R fromiso (tx_bundle x) secret actor =
    Inr (dt_instant created_at, map tombstone_of (take (nat limit) (export_rows after c)))"
  using assms by (rule parse_exported_bundle)

theorem export_parse_roundtrip_witness:
  "parse_bundle demo_restore_runtime demo_fromiso demo_bundle demo_secret ''operator''
     = Inr (5, [tombstone_of demo_tombstone_row])"
  using export_parse_roundtrip [OF demo_export(1) demo_source_keys _ demo_iso_roundtrip demo_hmac_ascii _ _ demo_operator]
    demo_loads demo_bundle_small demo_rows_exportable demo_export(2) by simp

text \<open>Following the cursor visits every completed deletion once: the rows after the requested position are
  the page just exported followed by the rows after the returned cursor, and the last page has no cursor.\<close>

theorem export_pages_partition:
  assumes "export_completed_tombstones R isof secret created_at after limit c = Inr x"
    "distinct (map ad_identity (deletions c))"
  shows "export_rows after c = take (nat limit) (export_rows after c)
    @ (case tx_next_cursor x of None \<Rightarrow> [] | Some k \<Rightarrow> export_rows (Some k) c)"
proof (cases "nat limit < length (export_rows after c)")
  case False
  with export_Inr(6) [OF assms(1)] show ?thesis by simp
next
  case True
  note e = export_Inr [OF assms(1)]
  let ?xs = "export_rows after c"
  let ?k = "ad_identity (?xs ! (nat limit - 1))"
  have "?xs ! (nat limit - 1) \<in> set ?xs" using True by (intro nth_mem) linarith
  then have "case after of None \<Rightarrow> True | Some a \<Rightarrow> a \<le> ?k" by (auto simp: export_rows_def split: option.splits)
  from export_rows_after [OF this] have "export_rows (Some ?k) c = filter (\<lambda>d. ?k < ad_identity d) ?xs" .
  also have "\<dots> = drop (nat limit) ?xs"
    using export_rows_strict [OF assms(2)] True e(1) by (intro filter_after_nth) auto
  finally show ?thesis using True e(6) by simp
qed

lemma apply_entries_imports: "apply_entries a es n c = (r, c') \<Longrightarrow> tombstone_imports c' = tombstone_imports c"
proof (induction a es n c rule: apply_entries.induct)
  case (2 a e es ap st c)
  have "tombstone_imports (apply_tombstone a e c) = tombstone_imports c"
    by (simp add: apply_tombstone_def release_holds_def queue_erasure_def fence_to_def upd_deletion_def upd_generation_def
        split: option.splits)
  with 2 show ?case by (auto split: option.splits if_splits)
qed simp

text \<open>C22. After a restore the erased attempts stay erased: applying a bundle fences every listed attempt at its
  generation or a later one and queues or keeps its erasure, never lowers a generation, keeps the hold and
  deletion rows consistent, accounts for every entry, and repeating the import changes nothing.\<close>

theorem tombstones_reapplied:
  assumes "apply_completed_tombstones R fromiso bundle secret actor now c = (Inr r, c')" "lifecycle_ok c"
    "parse_bundle R fromiso bundle secret actor = Inr (created_at, entries)" "\<not> ti_replayed r"
  shows "(\<forall>e \<in> set entries. fenced c' (tb_identity e)) \<and> generations_grow c c' \<and> lifecycle_ok c'
    \<and> ti_applied_count r + ti_stale_count r = int (length entries)
    \<and> apply_completed_tombstones R fromiso bundle secret actor now c' = (Inr (r\<lparr>ti_replayed := True\<rparr>), c')"
proof -
  let ?sha = "rt_sha256 R bundle"
  from assms(1,3) have aware: "dt_offset now \<noteq> None" and txn: "apply_txn ?sha actor created_at (dt_instant now) entries c = (Inr r, c')"
    by (auto simp: apply_completed_tombstones_def begin_txn_commit split: if_splits)
  from txn assms(4) have new: "List.find (\<lambda>x. rti_bundle_sha256 x = ?sha) (tombstone_imports c) = None"
    by (auto simp: apply_txn_def split: option.splits)
  with txn obtain ap st c1 where en: "apply_entries actor entries (0, 0) c = (Inr (ap, st), c1)"
    and r: "r = \<lparr>ti_bundle_sha256 = ?sha, ti_entry_count = int (length entries), ti_applied_count = ap,
        ti_stale_count = st, ti_replayed = False\<rparr>"
    and c': "c' = c1\<lparr>tombstone_imports := tombstone_imports c1 @ [\<lparr>rti_bundle_sha256 = ?sha,
        rti_source_created_at = created_at, rti_entry_count = int (length entries), rti_applied_count = ap,
        rti_stale_count = st, rti_imported_by = actor, rti_imported_at = dt_instant now\<rparr>]\<rparr>"
    by (cases "apply_entries actor entries (0, 0) c") (auto simp: apply_txn_def split: sum.splits)
  have imp: "tombstone_imports c1 = tombstone_imports c" using apply_entries_imports [OF en] .
  note ok = apply_entries_ok [OF en assms(2)] and fen = apply_entries_fences [OF en assms(2)]
  have "lifecycle_ok c' = lifecycle_ok c1" by (rule lifecycle_ok_cong) (simp_all add: c')
  then have "lifecycle_ok c'" using ok by simp
  moreover have "generations_grow c c'" using ok by (simp add: c' generations_grow_def get_generation_def)
  moreover have "\<forall>e \<in> set entries. fenced c' (tb_identity e)" using fen by (fastforce simp: c' fenced_def get_generation_def)
  moreover have "apply_txn ?sha actor created_at (dt_instant now) entries c' = (Inr (r\<lparr>ti_replayed := True\<rparr>), c')"
    using find_append_None [OF new] by (simp add: apply_txn_def c' imp r)
  then have "apply_completed_tombstones R fromiso bundle secret actor now c' = (Inr (r\<lparr>ti_replayed := True\<rparr>), c')"
    using assms(3) aware by (simp add: apply_completed_tombstones_def begin_txn_def)
  ultimately show ?thesis using fen by (simp add: r)
qed

theorem tombstones_reapplied_witness:
  "\<exists>r c'. apply_completed_tombstones demo_restore_runtime demo_fromiso demo_bundle demo_secret ''operator'' (utc 9)
      (empty_catalog\<lparr>generations := [make_generation demo_identity 0 None]\<rparr>) = (Inr r, c') \<and> fenced c' demo_identity"
proof -
  let ?c = "empty_catalog\<lparr>generations := [make_generation demo_identity 0 None]\<rparr>"
  let ?apply = "apply_completed_tombstones demo_restore_runtime demo_fromiso demo_bundle demo_secret ''operator'' (utc 9)"
  have ok: "lifecycle_ok ?c" by (simp add: lifecycle_ok_def lifecycle_keys_def deletions_fenced_def holds_block_def empty_catalog_def)
  obtain r c' where x: "?apply ?c = (r, c')" by fastforce
  have "fst (?apply ?c) = Inr \<lparr>ti_bundle_sha256 = rt_sha256 demo_restore_runtime demo_bundle, ti_entry_count = 1,
      ti_applied_count = 1, ti_stale_count = 0, ti_replayed = False\<rparr>"
    by (simp add: apply_completed_tombstones_def demo_parse begin_txn_def apply_txn_def utc_def empty_catalog_def
        get_generation_def make_generation_def ag_identity_def tombstone_of_def demo_tombstone_row_def make_deletion_def
        ad_identity_def demo_identity_def)
  with x have r: "r = Inr \<lparr>ti_bundle_sha256 = rt_sha256 demo_restore_runtime demo_bundle, ti_entry_count = 1,
      ti_applied_count = 1, ti_stale_count = 0, ti_replayed = False\<rparr>" by simp
  have i: "tb_identity (tombstone_of demo_tombstone_row) = demo_identity" by code_simp
  from tombstones_reapplied [OF x [unfolded r] ok demo_parse] i x r show ?thesis by simp
qed

theorem export_pages_partition_witness:
  "export_rows None demo_source = take 10 (export_rows None demo_source) @ []"
  using export_pages_partition [OF demo_export(1)] by (simp add: demo_source_def)

end
