(* ===== verification/Py_Float.thy ===== *)
theory Py_Float
  imports Python_Base "HOL-Library.Log_Nat"
begin

text \<open>
  Python's \<open>float\<close>: the IEEE binary64 numbers with the rounding the interpreter uses.  A finite value is its exact rational;
  \<open>round_double\<close> rounds a rational to the nearest double, ties to even; \<open>true_div\<close> is \<open>a / b\<close> on integers, which rounds the
  exact quotient once and raises when the divisor is zero or the quotient too large.
\<close>

section \<open>Values\<close>

datatype py_float = Finite rat | Infinite bool | NotANumber

fun is_finite :: "py_float \<Rightarrow> bool" where
  "is_finite (Finite q) = True"
| "is_finite (Infinite negative) = False"
| "is_finite NotANumber = False"

text \<open>Comparisons as IEEE has them: nothing compares with a value that is not a number.\<close>

fun float_le :: "py_float \<Rightarrow> py_float \<Rightarrow> bool" where
  "float_le NotANumber y = False"
| "float_le x NotANumber = False"
| "float_le (Infinite True) y = True"
| "float_le x (Infinite False) = True"
| "float_le (Infinite False) y = False"
| "float_le x (Infinite True) = False"
| "float_le (Finite p) (Finite q) = (p \<le> q)"

definition float_lt :: "py_float \<Rightarrow> py_float \<Rightarrow> bool" where
  "float_lt x y = (float_le x y \<and> \<not> float_le y x)"

section \<open>Rounding\<close>

definition round_half_even :: "rat \<Rightarrow> int" where
  "round_half_even q = (let n = \<lfloor>q\<rfloor>; r = q - of_int n in
     if r < 1 / 2 then n else if r > 1 / 2 then n + 1 else if even n then n else n + 1)"

text \<open>The exponent \<open>e\<close> of a positive rational: \<open>2 powi e \<le> q < 2 powi (e + 1)\<close>.\<close>

definition binade :: "rat \<Rightarrow> int" where
  "binade q = (case quotient_of q of (a, b) \<Rightarrow>
     let e = bitlen a - bitlen b in if 2 powi e \<le> q then e else e - 1)"

text \<open>The exponent of the last bit of the double next to \<open>q\<close>: 52 bits below the first, not below the subnormals.\<close>

definition ulp_exponent :: "rat \<Rightarrow> int" where
  "ulp_exponent q = max (binade q - 52) (- 1074)"

definition round_positive :: "rat \<Rightarrow> rat" where
  "round_positive q = of_int (round_half_even (q / 2 powi ulp_exponent q)) * 2 powi ulp_exponent q"

definition round_double :: "rat \<Rightarrow> rat" where
  "round_double q = (if q = 0 then 0 else if q < 0 then - round_positive (- q) else round_positive q)"

definition double_limit :: rat where
  "double_limit = 2 ^ 1024"

definition true_div :: "int \<Rightarrow> int \<Rightarrow> rat result" where
  "true_div a b =
     (if b = 0 then Inl (ZeroDivisionErr ''division by zero'')
      else let q = round_double (of_int a / of_int b) in
        if \<bar>q\<bar> \<ge> double_limit then Inl (OverflowErr ''integer division result too large for a float'') else Inr q)"

section \<open>Rendering\<close>

text \<open>The format \<open>.nf\<close>: the exact value rounded to \<open>n\<close> decimals, ties to even.\<close>

definition decimals :: "nat \<Rightarrow> int \<Rightarrow> string" where
  "decimals n k = (let s = show_int k in replicate (n - length s) (CHR ''0'') @ s)"

definition fixed :: "nat \<Rightarrow> rat \<Rightarrow> string" where
  "fixed n q = (let k = round_half_even (\<bar>q\<bar> * 10 ^ n) in
     (if q < 0 then ''-'' else '''') @ show_int (k div 10 ^ n) @ (if n = 0 then '''' else ''.'' @ decimals n (k mod 10 ^ n)))"

text \<open>The format \<open>.n%\<close> multiplies by one hundred in floating point first.\<close>

definition percent :: "nat \<Rightarrow> rat \<Rightarrow> string" where
  "percent n q = fixed n (round_double (q * 100)) @ ''%''"

lemma float_lt_Finite [simp]: "float_lt (Finite p) (Finite q) = (p < q)"
  by (auto simp: float_lt_def)

section \<open>Rounding to an integer\<close>

lemma round_half_even_near: "\<bar>of_int (round_half_even q) - q\<bar> \<le> 1 / 2"
  using floor_correct [of q] by (auto simp: round_half_even_def Let_def abs_le_iff)

lemma round_half_even_of_int [simp]: "round_half_even (of_int n) = n"
  by (simp add: round_half_even_def)

lemma round_half_even_mono:
  assumes "p \<le> q"
  shows "round_half_even p \<le> round_half_even q"
proof (cases "\<lfloor>p\<rfloor> = \<lfloor>q\<rfloor>")
  case True
  with assms show ?thesis by (auto simp: round_half_even_def Let_def)
next
  case False
  with floor_mono [OF assms] have "\<lfloor>p\<rfloor> + 1 \<le> \<lfloor>q\<rfloor>" by simp
  moreover have "round_half_even p \<le> \<lfloor>p\<rfloor> + 1" "\<lfloor>q\<rfloor> \<le> round_half_even q"
    by (auto simp: round_half_even_def Let_def)
  ultimately show ?thesis by linarith
qed

lemma round_half_even_le: "q \<le> of_int n \<Longrightarrow> round_half_even q \<le> n"
  using round_half_even_mono [of q "of_int n"] by simp

lemma le_round_half_even: "of_int n \<le> q \<Longrightarrow> n \<le> round_half_even q"
  using round_half_even_mono [of "of_int n" q] by simp

lemma round_half_even_between: "of_int a \<le> q \<Longrightarrow> q \<le> of_int b \<Longrightarrow> a \<le> round_half_even q \<and> round_half_even q \<le> b"
  using round_half_even_le le_round_half_even by blast

section \<open>Exponents\<close>

lemma bitlen_rat:
  assumes "0 < a"
  shows "2 powi (bitlen a - 1) \<le> (of_int a :: rat)" "(of_int a :: rat) < 2 powi bitlen a"
proof -
  have l: "1 \<le> bitlen a" using assms bitlen_eq_zero_iff [of a] bitlen_nonneg [of a] by linarith
  have p: "(2::rat) powi e = of_int (2 ^ nat e)" if "0 \<le> e" for e using that by (simp add: power_int_def)
  show "2 powi (bitlen a - 1) \<le> (of_int a :: rat)" "(of_int a :: rat) < 2 powi bitlen a"
    using l bitlen_bounds [OF assms] by (simp_all only: p of_int_le_iff of_int_less_iff bitlen_nonneg diff_ge_0_iff_ge)
qed

lemma binade_bounds:
  assumes "0 < q"
  shows "2 powi binade q \<le> q" "q < 2 powi (binade q + 1)"
proof -
  obtain a b where ab: "quotient_of q = (a, b)" by (cases "quotient_of q")
  then have b: "0 < b" by (rule quotient_of_denom_pos)
  have q: "q = of_int a / of_int b" using quotient_of_div [OF ab] by simp
  with assms b have a: "0 < a" by (simp add: zero_less_divide_iff)
  have pa: "2 powi (bitlen a - 1) \<le> (of_int a :: rat)" "(of_int a :: rat) < 2 powi bitlen a"
    using bitlen_rat [OF a] .
  have pb: "2 powi (bitlen b - 1) \<le> (of_int b :: rat)" "(of_int b :: rat) < 2 powi bitlen b"
    using bitlen_rat [OF b] .
  have bp: "(0::rat) < of_int b" using b by simp
  let ?e = "bitlen a - bitlen b"
  have "2 powi (?e - 1) * of_int b \<le> 2 powi (?e - 1) * (2::rat) powi bitlen b"
    using pb(2) by (intro mult_left_mono) auto
  also have "\<dots> = 2 powi (bitlen a - 1)" by (simp flip: power_int_add)
  also note pa(1)
  finally have lo: "2 powi (?e - 1) \<le> q" by (simp add: q pos_le_divide_eq [OF bp])
  have "(of_int a :: rat) < 2 powi bitlen a" by (rule pa(2))
  also have "\<dots> = 2 powi (?e + 1) * 2 powi (bitlen b - 1)" by (simp flip: power_int_add)
  also have "\<dots> \<le> 2 powi (?e + 1) * of_int b" using pb(1) by (intro mult_left_mono) auto
  finally have hi: "q < 2 powi (?e + 1)" by (simp add: q pos_divide_less_eq [OF bp])
  show "2 powi binade q \<le> q" "q < 2 powi (binade q + 1)"
    using lo hi by (auto simp: binade_def ab Let_def)
qed

lemma binade_mono:
  assumes "0 < p" "p \<le> q"
  shows "binade p \<le> binade q"
proof (rule ccontr)
  assume "\<not> binade p \<le> binade q"
  then have "(2::rat) powi (binade q + 1) \<le> 2 powi binade p" by (intro power_int_increasing) auto
  with binade_bounds [of p] binade_bounds [of q] assms show False by linarith
qed

section \<open>Rounding to a double\<close>

lemma round_positive_nonneg: "0 < q \<Longrightarrow> 0 \<le> round_positive q"
  using le_round_half_even [of 0 "q / 2 powi ulp_exponent q"] by (simp add: round_positive_def)

lemma scaled_int:
  assumes "e \<le> k"
  shows "(2::rat) powi k = of_int (2 ^ nat (k - e)) * 2 powi e"
proof -
  have "(2::rat) powi k = 2 powi (k - e) * 2 powi e" by (simp flip: power_int_add)
  with assms show ?thesis by (simp add: power_int_def)
qed

lemma round_positive_le:
  assumes "q \<le> 2 powi k" "ulp_exponent q \<le> k"
  shows "round_positive q \<le> 2 powi k"
proof -
  let ?e = "ulp_exponent q"
  have "q / 2 powi ?e \<le> of_int (2 ^ nat (k - ?e))"
    using assms(1) scaled_int [OF assms(2)] by (simp add: pos_divide_le_eq)
  then have "round_half_even (q / 2 powi ?e) \<le> 2 ^ nat (k - ?e)" by (rule round_half_even_le)
  then have "(of_int (round_half_even (q / 2 powi ?e)) :: rat) \<le> of_int (2 ^ nat (k - ?e))" by (simp only: of_int_le_iff)
  then have "of_int (round_half_even (q / 2 powi ?e)) * (2::rat) powi ?e \<le> of_int (2 ^ nat (k - ?e)) * 2 powi ?e"
    by (rule mult_right_mono) simp
  then show ?thesis by (simp only: round_positive_def scaled_int [OF assms(2)])
qed

lemma le_round_positive:
  assumes "2 powi k \<le> q" "ulp_exponent q \<le> k"
  shows "2 powi k \<le> round_positive q"
proof -
  let ?e = "ulp_exponent q"
  have "of_int (2 ^ nat (k - ?e)) \<le> q / 2 powi ?e"
    using assms(1) scaled_int [OF assms(2)] by (simp add: pos_le_divide_eq)
  then have "2 ^ nat (k - ?e) \<le> round_half_even (q / 2 powi ?e)" by (rule le_round_half_even)
  then have "(of_int (2 ^ nat (k - ?e)) :: rat) \<le> of_int (round_half_even (q / 2 powi ?e))" by (simp only: of_int_le_iff)
  then have "of_int (2 ^ nat (k - ?e)) * (2::rat) powi ?e \<le> of_int (round_half_even (q / 2 powi ?e)) * 2 powi ?e"
    by (rule mult_right_mono) simp
  then show ?thesis by (simp only: round_positive_def scaled_int [OF assms(2)])
qed

lemma round_positive_mono:
  assumes "0 < p" "p \<le> q"
  shows "round_positive p \<le> round_positive q"
proof (cases "ulp_exponent p = ulp_exponent q")
  case True
  have "round_half_even (p / 2 powi ulp_exponent q) \<le> round_half_even (q / 2 powi ulp_exponent q)"
    by (rule round_half_even_mono) (simp add: assms(2) divide_right_mono)
  then show ?thesis by (simp add: round_positive_def True mult_right_mono)
next
  case False
  have b: "binade p \<le> binade q" by (rule binade_mono [OF assms])
  with False have lt: "binade p < binade q" "ulp_exponent q \<le> binade q" "ulp_exponent p \<le> binade q"
    by (auto simp: ulp_exponent_def max_def split: if_splits)
  have "p \<le> 2 powi (binade p + 1)" using binade_bounds(2) [OF assms(1)] by simp
  also have "\<dots> \<le> 2 powi binade q" using lt by (intro power_int_increasing) auto
  finally have "round_positive p \<le> 2 powi binade q" by (rule round_positive_le [OF _ lt(3)])
  also have "\<dots> \<le> round_positive q"
    by (rule le_round_positive [OF _ lt(2)]) (use binade_bounds(1) assms in auto)
  finally show ?thesis .
qed

lemma round_double_mono:
  assumes "p \<le> q"
  shows "round_double p \<le> round_double q"
  using assms round_positive_mono [of p q] round_positive_mono [of "- q" "- p"] round_positive_nonneg [of q]
    round_positive_nonneg [of "- p"]
  by (auto simp: round_double_def)

lemma round_double_nonneg: "0 \<le> q \<Longrightarrow> 0 \<le> round_double q"
  by (auto simp: round_double_def round_positive_nonneg)

text \<open>A double: a multiple of a unit its own exponent allows.\<close>

definition is_double :: "rat \<Rightarrow> bool" where
  "is_double q = (round_double q = q)"

lemma round_double_exact:
  assumes "\<bar>n\<bar> \<le> 2 ^ 53"
  shows "round_double (of_int n) = of_int n"
proof -
  have pos: "round_positive (of_int m) = of_int m" if m: "0 < m" "m \<le> 2 ^ 53" for m :: int
  proof -
    have "2 powi binade (of_int m) \<le> (of_int m :: rat)" using binade_bounds(1) [of "of_int m"] m by simp
    also have "(of_int m :: rat) \<le> of_int (2 ^ 53)" using m(2) by (simp only: of_int_le_iff)
    also have "(of_int (2 ^ 53) :: rat) = 2 powi 53" by (simp add: power_int_def)
    finally have le: "(2::rat) powi binade (of_int m) \<le> 2 powi 53" .
    have "binade (of_int m) \<le> 53"
    proof (rule ccontr)
      assume "\<not> binade (of_int m) \<le> 53"
      then have "(2::rat) powi 53 < 2 powi binade (of_int m)" by (intro power_int_strict_increasing) auto
      with le show False by linarith
    qed
    have "\<exists>k :: int. (of_int m :: rat) / 2 powi ulp_exponent (of_int m) = of_int k"
    proof (cases "binade (of_int m) \<le> 52")
      case True
      then have "ulp_exponent (of_int m) \<le> 0" by (simp add: ulp_exponent_def)
      then have "(of_int m :: rat) / 2 powi ulp_exponent (of_int m) = of_int (m * 2 ^ nat (- ulp_exponent (of_int m)))"
        by (auto simp: power_int_def field_simps)
      then show ?thesis by blast
    next
      case False
      with \<open>binade (of_int m) \<le> 53\<close> have b: "binade (of_int m) = 53" by simp
      have "(2::rat) powi 53 \<le> of_int m" using binade_bounds(1) [of "of_int m"] m b by simp
      then have "(of_int (2 ^ 53) :: rat) \<le> of_int m" by (simp add: power_int_def)
      then have "2 ^ 53 \<le> m" by (simp only: of_int_le_iff)
      with m have "m = 2 ^ 53" by simp
      with b have "(of_int m :: rat) / 2 powi ulp_exponent (of_int m) = of_int (2 ^ 52)"
        by (simp add: ulp_exponent_def)
      then show ?thesis by blast
    qed
    then obtain k :: int where k: "(of_int m :: rat) / 2 powi ulp_exponent (of_int m) = of_int k" by blast
    then have "round_positive (of_int m) = of_int k * 2 powi ulp_exponent (of_int m)" by (simp add: round_positive_def)
    also have "\<dots> = of_int m" by (simp flip: k)
    finally show ?thesis .
  qed
  show ?thesis using pos [of n] pos [of "- n"] assms by (auto simp: round_double_def)
qed

section \<open>Division\<close>

lemma true_div_Inr: "true_div a b = Inr q \<longleftrightarrow> b \<noteq> 0 \<and> q = round_double (of_int a / of_int b) \<and> \<bar>q\<bar> < double_limit"
  by (auto simp: true_div_def Let_def)

text \<open>A quotient reaches a threshold in floating point whenever it does exactly.\<close>

lemma quotient_reaches:
  assumes "true_div a b = Inr q" "is_double t" "t \<le> of_int a / of_int b"
  shows "t \<le> q"
  using assms round_double_mono [OF assms(3)] by (simp add: true_div_Inr is_double_def)

lemma quotient_nonneg: "true_div a b = Inr q \<Longrightarrow> 0 \<le> a \<Longrightarrow> 0 \<le> b \<Longrightarrow> 0 \<le> q"
  by (auto simp: true_div_Inr intro!: round_double_nonneg)

lemma quotient_mono:
  assumes "true_div a b = Inr p" "true_div c b = Inr q" "a \<le> c" "0 < b"
  shows "p \<le> q"
  using assms by (auto simp: true_div_Inr intro!: round_double_mono divide_right_mono)

end
