(* ===== verification/Scheduler.thy ===== *)
theory Scheduler
  imports Deletion_Worker Py_Float Complex_Main "HOL-Library.Multiset"
begin

text \<open>
  \<^verbatim>\<open>scheduler.py\<close>: observations of scheduler attempts and their reconciliation into the catalogue, the
  allocation timeline derived from the observations of one attempt, and the poller that keeps one leased,
  durable polling stream per tenant and cluster.  The adapter that queries the scheduler is a parameter
  (\<open>fetch\<close>); datetimes read from the catalogue are instants, which is what \<open>_aware\<close> turns them into.  The
  jitter factor and the random numbers are rationals.
\<close>

section \<open>Attempts and observations\<close>

datatype ExecutionState = PENDING | RUNNING | COMPLETING | SUCCEEDED | FAILED | CANCELLED | PREEMPTED | TIMED_OUT | UNKNOWN

definition state_value :: "ExecutionState \<Rightarrow> string" where
  "state_value s = (case s of PENDING \<Rightarrow> ''pending'' | RUNNING \<Rightarrow> ''running'' | COMPLETING \<Rightarrow> ''completing''
     | SUCCEEDED \<Rightarrow> ''succeeded'' | FAILED \<Rightarrow> ''failed'' | CANCELLED \<Rightarrow> ''cancelled'' | PREEMPTED \<Rightarrow> ''preempted''
     | TIMED_OUT \<Rightarrow> ''timed_out'' | UNKNOWN \<Rightarrow> ''unknown'')"

record SchedulerAttempt =
  sa_adapter :: string
  sa_adapter_version :: string
  sa_cluster_id :: string
  sa_source_identity :: string
  sa_job_id :: string
  sa_array_job_id :: "string option"
  sa_array_task_id :: "string option"
  sa_step_id :: "string option"
  sa_restart_count :: int
  sa_state :: ExecutionState
  sa_state_reason :: "string option"
  sa_submitted_at :: "instant option"
  sa_started_at :: "instant option"
  sa_ended_at :: "instant option"
  sa_allocated_nodes :: "int option"
  sa_allocated_cpus :: "int option"
  sa_account :: "string option"
  sa_partition :: "string option"
  sa_user_ref :: "string option"
  sa_observed_at :: instant
  sa_raw :: json

definition compact_raw :: "json \<Rightarrow> string" where
  "compact_raw v = json_dumps v"

definition observation_from_attempt :: "string \<Rightarrow> string \<Rightarrow> SchedulerAttempt \<Rightarrow> instant \<Rightarrow> SchedulerObservation" where
  "observation_from_attempt oid tenant_id a now =
     \<lparr>so_observation_id = oid, so_tenant_id = tenant_id, so_cluster_id = sa_cluster_id a, so_adapter = sa_adapter a,
      so_adapter_version = sa_adapter_version a, so_source_identity = sa_source_identity a, so_job_id = sa_job_id a,
      so_array_job_id = sa_array_job_id a, so_array_task_id = sa_array_task_id a, so_step_id = sa_step_id a,
      so_restart_count = sa_restart_count a, so_state = state_value (sa_state a), so_state_reason = sa_state_reason a,
      so_submitted_at = sa_submitted_at a, so_started_at = sa_started_at a, so_ended_at = sa_ended_at a,
      so_allocated_nodes = sa_allocated_nodes a, so_allocated_cpus = sa_allocated_cpus a, so_account = sa_account a,
      so_partition = sa_partition a, so_user_ref = sa_user_ref a, so_observed_at = sa_observed_at a,
      so_raw_json = compact_raw (sa_raw a), so_first_seen_at = now\<rparr>"

section \<open>Reconciliation\<close>

record SchedulerReconcileResult =
  rec_fetched :: int
  rec_inserted :: int
  rec_duplicates :: int

type_synonym observation_key = "string \<times> string \<times> string \<times> instant"

definition so_key :: "SchedulerObservation \<Rightarrow> observation_key" where
  "so_key ob = (so_tenant_id ob, so_cluster_id ob, so_source_identity ob, so_observed_at ob)"

definition sa_key :: "string \<Rightarrow> SchedulerAttempt \<Rightarrow> observation_key" where
  "sa_key tenant_id a = (tenant_id, sa_cluster_id a, sa_source_identity a, sa_observed_at a)"

definition so_clash :: "SchedulerObservation \<Rightarrow> SchedulerObservation \<Rightarrow> bool" where
  "so_clash a b = (so_observation_id a = so_observation_id b \<or> so_key a = so_key b)"

definition names_record :: "string \<Rightarrow> SchedulerAttempt \<Rightarrow> AttemptRecord \<Rightarrow> bool" where
  "names_record tenant_id a r = (ar_tenant_id r = tenant_id \<and> ar_cluster_id r = sa_cluster_id a
     \<and> ar_scheduler_source_identity r = Some (sa_source_identity a))"

definition refresh_record :: "SchedulerAttempt \<Rightarrow> AttemptRecord \<Rightarrow> AttemptRecord" where
  "refresh_record a r = r\<lparr>ar_scheduler_state := state_value (sa_state a), ar_scheduler_observed_at := Some (sa_observed_at a)\<rparr>"

definition update_record :: "string \<Rightarrow> SchedulerAttempt \<Rightarrow> catalog \<Rightarrow> catalog" where
  "update_record tenant_id a c =
     (case List.find (names_record tenant_id a) (attempt_records c) of
        None \<Rightarrow> c
      | Some r \<Rightarrow>
          if (case ar_scheduler_observed_at r of None \<Rightarrow> True | Some t \<Rightarrow> t \<le> sa_observed_at a)
          then c\<lparr>attempt_records := upd_where (\<lambda>x. ar_identity x = ar_identity r) (refresh_record a) (attempt_records c)\<rparr>
          else c)"

fun reconcile ::
  "string \<Rightarrow> instant \<Rightarrow> id_source \<Rightarrow> nat \<Rightarrow> SchedulerAttempt list \<Rightarrow> int \<times> int \<Rightarrow> catalog \<Rightarrow> (int \<times> int) result \<times> catalog" where
  "reconcile tenant_id now ids n [] counts c = (Inr counts, c)"
| "reconcile tenant_id now ids n (a # as) (inserted, duplicates) c =
     (if list_ex (\<lambda>ob. so_key ob = sa_key tenant_id a) (observations c)
      then reconcile tenant_id now ids n as (inserted, duplicates + 1) (update_record tenant_id a c)
      else (case add_row so_clash ''scheduler_observations'' (observation_from_attempt (ids n) tenant_id a now) (observations c) of
          Inl e \<Rightarrow> (Inl e, c)
        | Inr obs \<Rightarrow> reconcile tenant_id now ids (n + 1) as (inserted + 1, duplicates)
                     (update_record tenant_id a (c\<lparr>observations := obs\<rparr>))))"

definition poll_once ::
  "string \<Rightarrow> SchedulerAttempt list result \<Rightarrow> instant \<Rightarrow> id_source \<Rightarrow> catalog \<Rightarrow> SchedulerReconcileResult result \<times> catalog" where
  "poll_once tenant_id fetched now ids c =
     (if tenant_id = [] then (Inl (ValueError ''tenant_id is required''), c)
      else (case fetched of
          Inl e \<Rightarrow> (Inl e, c)
        | Inr attempts \<Rightarrow>
            (case begin_txn (reconcile tenant_id now ids 0 attempts (0, 0)) c of
               (Inl e, c') \<Rightarrow> (Inl e, c')
             | (Inr (inserted, duplicates), c') \<Rightarrow>
                 (Inr \<lparr>rec_fetched = int (length attempts), rec_inserted = inserted, rec_duplicates = duplicates\<rparr>, c'))))"

section \<open>The allocation timeline\<close>

record AllocationInterval =
  iv_started_at :: instant
  iv_ended_at :: "instant option"
  iv_allocated_nodes :: "int option"
  iv_allocated_cpus :: "int option"
  iv_partition :: "string option"

record AllocationTimeline =
  tl_source_identity :: string
  tl_job_id :: string
  tl_latest_state :: string
  tl_latest_observed_at :: instant
  tl_coverage_status :: string
  tl_coverage_reasons :: "string list"
  tl_intervals :: "AllocationInterval list"

definition terminal_states :: "string list" where
  "terminal_states = map state_value [SUCCEEDED, FAILED, CANCELLED, PREEMPTED, TIMED_OUT]"

definition active_states :: "string list" where
  "active_states = map state_value [RUNNING, COMPLETING]"

definition or_else :: "'a option \<Rightarrow> 'a \<Rightarrow> 'a" where
  "or_else x d = (case x of None \<Rightarrow> d | Some v \<Rightarrow> v)"

definition open_interval :: "instant \<Rightarrow> SchedulerObservation \<Rightarrow> AllocationInterval" where
  "open_interval t row = \<lparr>iv_started_at = t, iv_ended_at = None, iv_allocated_nodes = so_allocated_nodes row,
     iv_allocated_cpus = so_allocated_cpus row, iv_partition = so_partition row\<rparr>"

definition close_interval :: "instant \<Rightarrow> AllocationInterval \<Rightarrow> AllocationInterval" where
  "close_interval t iv = iv\<lparr>iv_ended_at := Some t\<rparr>"

definition row_resources :: "SchedulerObservation \<Rightarrow> int option \<times> int option \<times> string option" where
  "row_resources row = (so_allocated_nodes row, so_allocated_cpus row, so_partition row)"

definition iv_resources :: "AllocationInterval \<Rightarrow> int option \<times> int option \<times> string option" where
  "iv_resources iv = (iv_allocated_nodes iv, iv_allocated_cpus iv, iv_partition iv)"

definition has_resources :: "SchedulerObservation \<Rightarrow> bool" where
  "has_resources row = (so_allocated_nodes row \<noteq> None \<or> so_allocated_cpus row \<noteq> None)"

definition can_open :: "SchedulerObservation \<Rightarrow> bool" where
  "can_open row = (so_state row \<in> set active_states
     \<or> (so_state row \<in> set terminal_states \<and> so_started_at row \<noteq> None))"

type_synonym timeline_state = "AllocationInterval list \<times> AllocationInterval option \<times> string list"

text \<open>The first branch of the loop body: open the first interval or split on a change of resources.\<close>

definition track_row :: "SchedulerObservation \<Rightarrow> timeline_state \<Rightarrow> timeline_state" where
  "track_row row ts =
     (case ts of (ivs, current, reasons) \<Rightarrow>
        (case current of
           None \<Rightarrow>
             if can_open row \<and> has_resources row
             then (ivs, Some (open_interval (or_else (so_started_at row) (so_observed_at row)) row), reasons)
             else ts
         | Some cur \<Rightarrow>
             if so_state row \<in> set active_states \<and> has_resources row \<and> row_resources row \<noteq> iv_resources cur
             then (if so_observed_at row \<ge> iv_started_at cur
                   then (ivs @ [close_interval (so_observed_at row) cur], Some (open_interval (so_observed_at row) row), reasons)
                   else (ivs, current, ''non_monotonic_observation'' # reasons))
             else ts))"

definition note_missing :: "SchedulerObservation \<Rightarrow> timeline_state \<Rightarrow> timeline_state" where
  "note_missing row ts =
     (case ts of (ivs, current, reasons) \<Rightarrow>
        if can_open row \<and> \<not> has_resources row then (ivs, current, ''missing_allocation_size'' # reasons) else ts)"

definition close_terminal :: "SchedulerObservation \<Rightarrow> timeline_state \<Rightarrow> timeline_state" where
  "close_terminal row ts =
     (case ts of (ivs, current, reasons) \<Rightarrow>
        (case current of
           None \<Rightarrow> ts
         | Some cur \<Rightarrow>
             if so_state row \<notin> set terminal_states then ts
             else (let boundary = or_else (so_ended_at row) (so_observed_at row)
                   in if boundary \<ge> iv_started_at cur then (ivs @ [close_interval boundary cur], None, reasons)
                      else (ivs, None, ''invalid_terminal_interval'' # reasons))))"

definition timeline_row :: "SchedulerObservation \<Rightarrow> timeline_state \<Rightarrow> timeline_state" where
  "timeline_row row ts = close_terminal row (note_missing row (track_row row ts))"

definition final_reasons :: "SchedulerObservation list \<Rightarrow> AllocationInterval list \<Rightarrow> string list" where
  "final_reasons ordered ivs =
     (let latest = last ordered in
      (if ivs = [] then [''no_observed_allocation''] else [])
      @ (if list_ex (\<lambda>r. so_started_at r \<noteq> None) ordered then [] else [''missing_scheduler_start''])
      @ (if so_state latest \<in> set terminal_states \<and> so_ended_at latest = None then [''missing_scheduler_end''] else [])
      @ (if so_state latest \<notin> set terminal_states then [''attempt_not_terminal''] else [])
      @ (if ivs \<noteq> [] then [''poll_sampled''] else []))"

definition derive_allocation_timeline :: "SchedulerObservation list \<Rightarrow> AllocationTimeline result" where
  "derive_allocation_timeline obs =
     (if obs = [] then Inl (ValueError ''at least one scheduler observation is required'')
      else
        (let ordered = sort_key so_observed_at obs; identity = so_source_identity (hd ordered)
         in if list_ex (\<lambda>r. so_source_identity r \<noteq> identity) ordered
            then Inl (ValueError ''observations must belong to one scheduler source identity'')
            else
              (let (ivs, current, reasons) = fold timeline_row ordered ([], None, []);
                   all = (case current of None \<Rightarrow> ivs | Some cur \<Rightarrow> ivs @ [cur]);
                   latest = last ordered
               in Inr \<lparr>tl_source_identity = identity, tl_job_id = so_job_id latest, tl_latest_state = so_state latest,
                    tl_latest_observed_at = so_observed_at latest,
                    tl_coverage_status = (if all \<noteq> [] then ''observed'' else ''unknown''),
                    tl_coverage_reasons = sort (remdups (reasons @ final_reasons ordered all)),
                    tl_intervals = all\<rparr>)))"

section \<open>The poller\<close>

record SchedulerPoller =
  sp_owner :: string
  sp_poll_interval :: int
  sp_lease_seconds :: int
  sp_lookback :: int
  sp_max_backoff :: int
  sp_jitter_ratio :: rat

definition make_poller :: "string \<Rightarrow> int \<Rightarrow> int \<Rightarrow> int \<Rightarrow> int \<Rightarrow> rat \<Rightarrow> SchedulerPoller result" where
  "make_poller owner interval lease lookback max_backoff jitter =
     (if interval \<le> 0 then Inl (ValueError ''poll_interval_seconds must be positive'')
      else if lease \<le> 0 then Inl (ValueError ''lease_seconds must be positive'')
      else if lookback < 0 then Inl (ValueError ''accounting_lookback_seconds cannot be negative'')
      else if max_backoff < interval then Inl (ValueError ''max_backoff_seconds cannot be less than poll interval'')
      else if jitter < 0 \<or> jitter > 1 then Inl (ValueError ''jitter_ratio must be within [0, 1]'')
      else Inr \<lparr>sp_owner = owner, sp_poll_interval = interval, sp_lease_seconds = lease, sp_lookback = lookback,
             sp_max_backoff = max_backoff, sp_jitter_ratio = jitter\<rparr>)"

record SchedulerPollLease =
  pl_tenant_id :: string
  pl_cluster_id :: string
  pl_generation :: int
  pl_owner :: string

record SchedulerPollResult =
  pr_lease :: SchedulerPollLease
  pr_reconciled :: "SchedulerReconcileResult option"
  pr_published :: bool
  pr_error :: "string option"

definition spc_key :: "SchedulerPollCursor \<Rightarrow> string \<times> string" where
  "spc_key x = (spc_tenant_id x, spc_cluster_id x)"

definition get_cursor :: "catalog \<Rightarrow> string \<times> string \<Rightarrow> SchedulerPollCursor option" where
  "get_cursor c k = List.find (\<lambda>x. spc_key x = k) (poll_cursors c)"

definition upd_cursor :: "string \<times> string \<Rightarrow> (SchedulerPollCursor \<Rightarrow> SchedulerPollCursor) \<Rightarrow> catalog \<Rightarrow> catalog" where
  "upd_cursor k f c = c\<lparr>poll_cursors := upd_where (\<lambda>x. spc_key x = k) f (poll_cursors c)\<rparr>"

definition register_txn :: "string \<Rightarrow> string \<Rightarrow> string \<Rightarrow> instant \<Rightarrow> catalog \<Rightarrow> unit result \<times> catalog" where
  "register_txn tenant_id cluster_id adapter now c =
     (case get_cursor c (tenant_id, cluster_id) of
        None \<Rightarrow> (Inr (), c\<lparr>poll_cursors := poll_cursors c @
          [\<lparr>spc_tenant_id = tenant_id, spc_cluster_id = cluster_id, spc_adapter = adapter, spc_cursor_at = None,
            spc_next_poll_at = now, spc_lease_owner = None, spc_lease_generation = 0, spc_lease_expires_at = None,
            spc_consecutive_failures = 0, spc_last_success_at = None, spc_last_error = None, spc_created_at = now,
            spc_updated_at = now\<rparr>]\<rparr>)
      | Some x \<Rightarrow>
          if spc_adapter x \<noteq> adapter
          then (Inl (ValueError ''registered scheduler adapter cannot be changed in place''), c)
          else (Inr (), c))"

definition register :: "string \<Rightarrow> string \<Rightarrow> string \<Rightarrow> instant \<Rightarrow> catalog \<Rightarrow> unit result \<times> catalog" where
  "register tenant_id cluster_id adapter now c =
     (if tenant_id = [] \<or> cluster_id = [] \<or> adapter = []
      then (Inl (ValueError ''tenant_id, cluster_id, and adapter are required''), c)
      else begin_txn (register_txn tenant_id cluster_id adapter now) c)"

definition cursor_claimable :: "instant \<Rightarrow> SchedulerPollCursor \<Rightarrow> bool" where
  "cursor_claimable now x = (spc_next_poll_at x \<le> now
     \<and> (spc_lease_owner x = None \<or> expired_before (spc_lease_expires_at x) now))"

definition claim_cursor_row :: "int \<Rightarrow> string \<Rightarrow> instant \<Rightarrow> SchedulerPollCursor \<Rightarrow> SchedulerPollCursor" where
  "claim_cursor_row lease_seconds own now x = x\<lparr>spc_lease_owner := Some own, spc_lease_generation := spc_lease_generation x + 1,
     spc_lease_expires_at := Some (now + seconds lease_seconds), spc_updated_at := now\<rparr>"

definition claim_cursor :: "SchedulerPoller \<Rightarrow> instant \<Rightarrow> catalog \<Rightarrow> SchedulerPollLease option \<times> catalog" where
  "claim_cursor sp now c =
     (case first_by (\<lambda>x. (spc_next_poll_at x, spc_tenant_id x, spc_cluster_id x))
             (filter (cursor_claimable now) (poll_cursors c)) of
        None \<Rightarrow> (None, c)
      | Some x \<Rightarrow>
          (Some \<lparr>pl_tenant_id = spc_tenant_id x, pl_cluster_id = spc_cluster_id x,
                 pl_generation = spc_lease_generation x + 1, pl_owner = sp_owner sp\<rparr>,
           upd_cursor (spc_key x) (claim_cursor_row (sp_lease_seconds sp) (sp_owner sp) now) c))"

text \<open>\<open>timedelta(seconds=x)\<close> rounds to the nearest microsecond, ties to even.\<close>

definition poll_delay :: "SchedulerPoller \<Rightarrow> rat \<Rightarrow> int \<Rightarrow> int" where
  "poll_delay sp random base_seconds =
     round_half_even (of_int base_seconds * (1 + sp_jitter_ratio sp * random) * 1000000)"

definition pl_key :: "SchedulerPollLease \<Rightarrow> string \<times> string" where
  "pl_key l = (pl_tenant_id l, pl_cluster_id l)"

definition holds_lease :: "SchedulerPollLease \<Rightarrow> SchedulerPollCursor option \<Rightarrow> bool" where
  "holds_lease l x = (case x of None \<Rightarrow> False
     | Some x \<Rightarrow> spc_lease_owner x = Some (pl_owner l) \<and> spc_lease_generation x = pl_generation l)"

definition advanced_row :: "instant \<Rightarrow> instant \<Rightarrow> instant \<Rightarrow> SchedulerPollCursor \<Rightarrow> SchedulerPollCursor" where
  "advanced_row started_at completed_at next_poll x = x\<lparr>spc_cursor_at := Some started_at, spc_next_poll_at := next_poll,
     spc_lease_owner := None, spc_lease_expires_at := None, spc_consecutive_failures := 0,
     spc_last_success_at := Some completed_at, spc_last_error := None, spc_updated_at := completed_at\<rparr>"

definition backed_off_row :: "SchedulerPoller \<Rightarrow> rat \<Rightarrow> string \<Rightarrow> instant \<Rightarrow> SchedulerPollCursor \<Rightarrow> SchedulerPollCursor" where
  "backed_off_row sp random message now x =
     (let failures = spc_consecutive_failures x + 1;
          exponent = min (failures - 1) 20;
          delay = min (sp_max_backoff sp) (sp_poll_interval sp * 2 ^ nat exponent)
      in x\<lparr>spc_consecutive_failures := failures, spc_next_poll_at := now + poll_delay sp random delay,
           spc_lease_owner := None, spc_lease_expires_at := None, spc_last_error := Some (take 512 message),
           spc_updated_at := now\<rparr>)"

definition poll_fail :: "SchedulerPoller \<Rightarrow> rat \<Rightarrow> SchedulerPollLease \<Rightarrow> string \<Rightarrow> instant \<Rightarrow> catalog \<Rightarrow> bool \<times> catalog" where
  "poll_fail sp random l message now c =
     (if \<not> holds_lease l (get_cursor c (pl_key l)) then (False, c)
      else (True, upd_cursor (pl_key l) (backed_off_row sp random message now) c))"

definition poll_settle :: "SchedulerPoller \<Rightarrow> rat \<Rightarrow> SchedulerPollLease \<Rightarrow> instant \<Rightarrow> instant \<Rightarrow> catalog \<Rightarrow> bool \<times> catalog" where
  "poll_settle sp random l started_at completed_at c =
     (if \<not> holds_lease l (get_cursor c (pl_key l)) then (False, c)
      else (True, upd_cursor (pl_key l)
              (advanced_row started_at completed_at (completed_at + poll_delay sp random (sp_poll_interval sp))) c))"

definition poll_since :: "SchedulerPoller \<Rightarrow> SchedulerPollCursor \<Rightarrow> instant option" where
  "poll_since sp x = map_option (\<lambda>t. t - seconds (sp_lookback sp)) (spc_cursor_at x)"

definition err_name :: "py_error \<Rightarrow> string" where
  "err_name e = (case e of ValueError _ \<Rightarrow> ''ValueError'' | LookupError _ \<Rightarrow> ''LookupError'' | RuntimeError _ \<Rightarrow> ''RuntimeError''
     | TypeErr _ \<Rightarrow> ''TypeError'' | OverflowErr _ \<Rightarrow> ''OverflowError'' | ZeroDivisionErr _ \<Rightarrow> ''ZeroDivisionError''
     | RunnerError _ \<Rightarrow> ''RunnerError'' | AssertionErr \<Rightarrow> ''AssertionError'' | OSErr _ \<Rightarrow> ''OSError''
     | UnicodeErr _ \<Rightarrow> ''UnicodeDecodeError'' | AdmissionError _ _ _ _ \<Rightarrow> ''AdmissionError'' | DeletionHeldError _ \<Rightarrow> ''DeletionHeldError''
     | ObjectIntegrityError _ \<Rightarrow> ''ObjectIntegrityError'' | ObjectSizeLimitError _ \<Rightarrow> ''ObjectSizeLimitError''
     | IntegrityViolation _ \<Rightarrow> ''IntegrityError'' | JSONDecodeError \<Rightarrow> ''JSONDecodeError''
     | SlurmAdapterError _ \<Rightarrow> ''SlurmAdapterError'' | RankAggregateError _ \<Rightarrow> ''RankAggregateError''
     | TelemetryError _ \<Rightarrow> ''TelemetryError'' | HTTPException _ _ \<Rightarrow> ''HTTPException'')"

record poll_inputs =
  pi_ids :: id_source
  pi_started_at :: instant
  pi_now :: instant
  pi_completed_at :: instant
  pi_random :: rat

text \<open>
  \<open>fetch cluster since\<close> is what the adapter of the cluster returns, or the exception it raises;
  \<open>meanwhile\<close> is what other processes did to the catalogue before the last transaction.
\<close>

definition poll_execute ::
  "SchedulerPoller \<Rightarrow> (string \<Rightarrow> instant option \<Rightarrow> SchedulerAttempt list result) \<Rightarrow> (catalog \<Rightarrow> catalog) \<Rightarrow> poll_inputs
   \<Rightarrow> SchedulerPollLease \<Rightarrow> catalog \<Rightarrow> SchedulerPollResult \<times> catalog" where
  "poll_execute sp fetch meanwhile inp l c =
     (case get_cursor c (pl_key l) of
        None \<Rightarrow> (\<lparr>pr_lease = l, pr_reconciled = None, pr_published = False, pr_error = None\<rparr>, c)
      | Some x \<Rightarrow>
          if \<not> holds_lease l (Some x)
          then (\<lparr>pr_lease = l, pr_reconciled = None, pr_published = False, pr_error = None\<rparr>, c)
          else (case poll_once (pl_tenant_id l) (fetch (pl_cluster_id l) (poll_since sp x)) (pi_now inp) (pi_ids inp) c of
              (Inl e, c1) \<Rightarrow>
                (let message = take 512 (err_name e @ '': '' @ err_text e)
                 in (\<lparr>pr_lease = l, pr_reconciled = None, pr_published = False, pr_error = Some message\<rparr>,
                     snd (poll_fail sp (pi_random inp) l message (pi_completed_at inp) (meanwhile c1))))
            | (Inr r, c1) \<Rightarrow>
                (case poll_settle sp (pi_random inp) l (pi_started_at inp) (pi_completed_at inp) (meanwhile c1) of
                   (published, c2) \<Rightarrow>
                     (\<lparr>pr_lease = l, pr_reconciled = Some r, pr_published = published, pr_error = None\<rparr>, c2))))"

definition poll_run_once ::
  "SchedulerPoller \<Rightarrow> (string \<Rightarrow> instant option \<Rightarrow> SchedulerAttempt list result) \<Rightarrow> (catalog \<Rightarrow> catalog) \<Rightarrow> poll_inputs
   \<Rightarrow> instant \<Rightarrow> catalog \<Rightarrow> bool \<times> catalog" where
  "poll_run_once sp fetch meanwhile inp claimed_at c =
     (case claim_cursor sp claimed_at c of
        (None, c1) \<Rightarrow> (False, c1)
      | (Some l, c1) \<Rightarrow> (True, snd (poll_execute sp fetch meanwhile inp l c1)))"


section \<open>The lease protocol\<close>

inductive cursor_row_step :: "SchedulerPollCursor \<Rightarrow> SchedulerPollCursor \<Rightarrow> bool" where
  claimed: "cursor_row_step x (claim_cursor_row secs own now x)"
| advanced: "cursor_row_step x (advanced_row s t n x)"
| backed_off: "cursor_row_step x (backed_off_row sp random m now x)"

inductive_cases cursor_row_stepE: "cursor_row_step x x'"

lemmas cursor_row_defs = claim_cursor_row_def advanced_row_def backed_off_row_def

interpretation sc: lease_protocol spc_lease_generation spc_lease_owner "\<lambda>_. True" "claim_cursor_row secs" cursor_row_step
proof unfold_locales
  fix x x' assume "cursor_row_step x x'"
  then show "spc_lease_generation x \<le> spc_lease_generation x'"
    by (rule cursor_row_stepE) (auto simp: cursor_row_defs Let_def)
qed (simp_all add: claim_cursor_row_def)

lemma holds_lease_honours: "holds_lease l (Some x) \<longleftrightarrow> sc.honours x (pl_owner l) (pl_generation l)"
  by (simp add: holds_lease_def sc.honours_def)

lemma spc_key_steps [simp]:
  "spc_key (claim_cursor_row secs own now x) = spc_key x" "spc_key (advanced_row s t n x) = spc_key x"
  "spc_key (backed_off_row sp random m now x) = spc_key x"
  by (simp_all add: spc_key_def cursor_row_defs Let_def)

lemma get_cursor_Some: "get_cursor c k = Some x \<Longrightarrow> x \<in> set (poll_cursors c) \<and> spc_key x = k"
  by (auto simp: get_cursor_def dest: find_Some_iff)

lemma get_cursor_upd:
  assumes "\<And>x. spc_key (f x) = spc_key x"
  shows "get_cursor (upd_cursor k f c) j = (if j = k then map_option f (get_cursor c k) else get_cursor c j)"
proof (cases "get_cursor c j")
  case None
  then show ?thesis using assms by (auto simp: get_cursor_def upd_cursor_def find_upd_where)
next
  case (Some x)
  then have "spc_key x = j" by (simp add: get_cursor_Some)
  with Some show ?thesis using assms by (auto simp: get_cursor_def upd_cursor_def find_upd_where)
qed

section \<open>Laws of the reconciliation\<close>

lemma update_record_frame [simp]:
  "observations (update_record t a c) = observations c" "poll_cursors (update_record t a c) = poll_cursors c"
  by (simp_all add: update_record_def split: option.splits)

lemma so_key_new [simp]: "so_key (observation_from_attempt oid t a now) = sa_key t a"
  by (simp add: so_key_def sa_key_def observation_from_attempt_def)

lemma reconcile_cases:
  assumes "reconcile t now ids n (a # as) (i, d) c = (r, c')"
  obtains (seen) "sa_key t a \<in> so_key ` set (observations c)" "reconcile t now ids n as (i, d + 1) (update_record t a c) = (r, c')"
  | (clash) e where "r = Inl e" "c' = c"
  | (new) "sa_key t a \<notin> so_key ` set (observations c)"
      "reconcile t now ids (n + 1) as (i + 1, d) (update_record t a
         (c\<lparr>observations := observations c @ [observation_from_attempt (ids n) t a now]\<rparr>)) = (r, c')"
proof (cases "sa_key t a \<in> so_key ` set (observations c)")
  case True
  then have "list_ex (\<lambda>ob. so_key ob = sa_key t a) (observations c)" by (auto simp: list_ex_iff)
  with assms True seen show ?thesis by simp
next
  case False
  then have no: "\<not> list_ex (\<lambda>ob. so_key ob = sa_key t a) (observations c)"
    unfolding list_ex_iff by (metis (full_types) imageI)
  show ?thesis
  proof (cases "add_row so_clash ''scheduler_observations'' (observation_from_attempt (ids n) t a now) (observations c)")
    case (Inl e)
    with assms no have "r = Inl e" "c' = c" by simp_all
    then show ?thesis by (rule clash)
  next
    case (Inr obs)
    then have "obs = observations c @ [observation_from_attempt (ids n) t a now]" by (simp add: add_row_Inr_iff)
    with assms no Inr new False show ?thesis by simp
  qed
qed

lemma reconcile_observations:
  "reconcile t now ids n as (i, d) c = (Inr (i', d'), c') \<Longrightarrow> \<exists>new. observations c' = observations c @ new
     \<and> i' = i + int (length new) \<and> i' + d' = i + d + int (length as)
     \<and> so_key ` set (observations c') = so_key ` set (observations c) \<union> sa_key t ` set as
     \<and> (distinct (map so_key (observations c)) \<longrightarrow> distinct (map so_key (observations c')))"
proof (induction as arbitrary: n i d c)
  case (Cons a as)
  from Cons.prems show ?case
  proof (cases rule: reconcile_cases)
    case seen
    from Cons.IH [OF seen(2)] seen(1) show ?thesis by auto
  next
    case (clash e)
    then show ?thesis by simp
  next
    case new
    from Cons.IH [OF new(2)] new(1) obtain xs where
      "observations c' = observations c @ observation_from_attempt (ids n) t a now # xs"
      "i' = i + 1 + int (length xs)" "i' + d' = i + 1 + d + int (length as)"
      "so_key ` set (observations c') = insert (sa_key t a) (so_key ` set (observations c)) \<union> sa_key t ` set as"
      "distinct (map so_key (observations c)) \<longrightarrow> distinct (map so_key (observations c'))" by auto
    then show ?thesis by (intro exI [of _ "observation_from_attempt (ids n) t a now # xs"]) auto
  qed
qed simp

lemma reconcile_cursors: "reconcile t now ids n as k c = (r, c') \<Longrightarrow> poll_cursors c' = poll_cursors c"
proof (induction as arbitrary: n k c)
  case (Cons a as)
  obtain i d where k: "k = (i, d)" by fastforce
  from Cons.prems [unfolded k] show ?case
    by (cases rule: reconcile_cases) (use Cons.IH in \<open>fastforce+\<close>)
qed simp

lemma reconcile_known:
  "sa_key t ` set as \<subseteq> so_key ` set (observations c) \<Longrightarrow>
     \<exists>c'. reconcile t now ids n as (i, d) c = (Inr (i, d + int (length as)), c') \<and> observations c' = observations c"
proof (induction as arbitrary: d c)
  case (Cons a as)
  have "list_ex (\<lambda>ob. so_key ob = sa_key t a) (observations c)" using Cons.prems by (force simp: list_ex_iff)
  moreover from Cons.prems have "sa_key t ` set as \<subseteq> so_key ` set (observations (update_record t a c))" by simp
  from Cons.IH [OF this, of "d + 1"] obtain c' where
    "reconcile t now ids n as (i, d + 1) (update_record t a c) = (Inr (i, d + 1 + int (length as)), c')"
    "observations c' = observations c" by auto
  ultimately show ?case by (intro exI [of _ c']) simp
qed simp

text \<open>
  Under the unique constraints of the attempt table a refresh touches the one row that names the attempt, so
  that a batch is a fold over each row on its own.
\<close>

definition sources_unique :: "AttemptRecord list \<Rightarrow> bool" where
  "sources_unique rs = (distinct (map ar_identity rs) \<and> (\<forall>a \<in> set rs. \<forall>b \<in> set rs. ar_tenant_id a = ar_tenant_id b
     \<and> ar_cluster_id a = ar_cluster_id b \<and> ar_scheduler_source_identity a \<noteq> None
     \<and> ar_scheduler_source_identity a = ar_scheduler_source_identity b \<longrightarrow> a = b))"

definition refreshed :: "string \<Rightarrow> SchedulerAttempt \<Rightarrow> AttemptRecord \<Rightarrow> AttemptRecord" where
  "refreshed t a r =
     (if names_record t a r \<and> (case ar_scheduler_observed_at r of None \<Rightarrow> True | Some s \<Rightarrow> s \<le> sa_observed_at a)
      then refresh_record a r else r)"

lemma refresh_record_simps [simp]:
  "ar_identity (refresh_record a r) = ar_identity r" "ar_tenant_id (refresh_record a r) = ar_tenant_id r"
  "ar_cluster_id (refresh_record a r) = ar_cluster_id r"
  "ar_scheduler_source_identity (refresh_record a r) = ar_scheduler_source_identity r"
  "ar_scheduler_observed_at (refresh_record a r) = Some (sa_observed_at a)"
  "refresh_record a (refresh_record b r) = refresh_record a r"
  "names_record t b (refresh_record a r) = names_record t b r"
  by (simp_all add: refresh_record_def ar_identity_def names_record_def)

lemma update_record_map:
  assumes "sources_unique (attempt_records c)"
  shows "update_record t a c = c\<lparr>attempt_records := map (refreshed t a) (attempt_records c)\<rparr>"
proof (cases "List.find (names_record t a) (attempt_records c)")
  case None
  then have "map (refreshed t a) (attempt_records c) = attempt_records c"
    by (intro map_idI) (simp add: find_None_all refreshed_def)
  with None show ?thesis by (simp add: update_record_def)
next
  case (Some r)
  note r = find_Some_iff [OF Some]
  have only: "x = r" if "x \<in> set (attempt_records c)" "names_record t a x" for x
    using assms r that by (auto simp: sources_unique_def names_record_def)
  have id: "x = r" if "x \<in> set (attempt_records c)" "ar_identity x = ar_identity r" for x
    using assms r that by (auto simp: sources_unique_def distinct_map inj_on_def)
  have "map (refreshed t a) (attempt_records c) =
      (if (case ar_scheduler_observed_at r of None \<Rightarrow> True | Some s \<Rightarrow> s \<le> sa_observed_at a)
       then upd_where (\<lambda>x. ar_identity x = ar_identity r) (refresh_record a) (attempt_records c) else attempt_records c)"
    using r by (auto simp: refreshed_def upd_where_def dest: only id intro!: map_idI)
  with Some show ?thesis by (simp add: update_record_def)
qed

lemma refreshed_keys [simp]:
  "ar_identity (refreshed t a r) = ar_identity r" "ar_tenant_id (refreshed t a r) = ar_tenant_id r"
  "ar_cluster_id (refreshed t a r) = ar_cluster_id r"
  "ar_scheduler_source_identity (refreshed t a r) = ar_scheduler_source_identity r"
  "names_record t' b (refreshed t a r) = names_record t' b r"
  by (simp_all add: refreshed_def)

lemma refreshed_observed:
  "ar_scheduler_observed_at (refreshed t a r) =
     (if names_record t a r \<and> (case ar_scheduler_observed_at r of None \<Rightarrow> True | Some s \<Rightarrow> s \<le> sa_observed_at a)
      then Some (sa_observed_at a) else ar_scheduler_observed_at r)"
  by (simp add: refreshed_def)

lemma sources_unique_refreshed:
  assumes "sources_unique rs"
  shows "sources_unique (map (refreshed t a) rs)"
proof -
  have "ar_identity \<circ> refreshed t a = ar_identity" by (rule ext) simp
  then have "distinct (map ar_identity (map (refreshed t a) rs))" using assms by (simp add: sources_unique_def)
  moreover have "p = q" if p: "p \<in> set (map (refreshed t a) rs)" "q \<in> set (map (refreshed t a) rs)"
    and eq: "ar_tenant_id p = ar_tenant_id q \<and> ar_cluster_id p = ar_cluster_id q
      \<and> ar_scheduler_source_identity p \<noteq> None \<and> ar_scheduler_source_identity p = ar_scheduler_source_identity q" for p q
  proof -
    from p obtain x y where xy: "x \<in> set rs" "y \<in> set rs" "p = refreshed t a x" "q = refreshed t a y" by auto
    from eq have "ar_tenant_id x = ar_tenant_id y \<and> ar_cluster_id x = ar_cluster_id y
      \<and> ar_scheduler_source_identity x \<noteq> None \<and> ar_scheduler_source_identity x = ar_scheduler_source_identity y"
      unfolding xy(3,4) refreshed_keys .
    with assms xy(1,2) have "x = y" unfolding sources_unique_def by blast
    with xy show ?thesis by simp
  qed
  ultimately show ?thesis unfolding sources_unique_def by blast
qed

lemma reconcile_records:
  "reconcile t now ids n as counts c = (Inr counts', c') \<Longrightarrow> sources_unique (attempt_records c) \<Longrightarrow>
     c' = c\<lparr>observations := observations c', attempt_records := map (fold (refreshed t) as) (attempt_records c)\<rparr>"
proof (induction as arbitrary: n counts c)
  case (Cons a as)
  obtain i d where k: "counts = (i, d)" by fastforce
  from Cons.prems(1) [unfolded k] show ?case
  proof (cases rule: reconcile_cases)
    case seen
    from Cons.IH [OF seen(2)] sources_unique_refreshed [OF Cons.prems(2), of t a]
    show ?thesis unfolding update_record_map [OF Cons.prems(2)] by (simp add: comp_def)
  next
    case new
    let ?c = "c\<lparr>observations := observations c @ [observation_from_attempt (ids n) t a now]\<rparr>"
    have u: "update_record t a ?c = ?c\<lparr>attempt_records := map (refreshed t a) (attempt_records c)\<rparr>"
      using update_record_map [of ?c t a] Cons.prems(2) by simp
    from Cons.IH [OF new(2)] sources_unique_refreshed [OF Cons.prems(2), of t a] show ?thesis unfolding u by (simp add: comp_def)
  qed simp
qed (simp add: map_idI)

text \<open>The row after a batch carries the latest observation, and refreshing again changes nothing.\<close>

lemma fold_refreshed_keys [simp]:
  "names_record t' b (fold (refreshed t) as r) = names_record t' b r"
  "refresh_record b (fold (refreshed t) as r) = refresh_record b r"
proof -
  show "names_record t' b (fold (refreshed t) as r) = names_record t' b r" by (induction as arbitrary: r) simp_all
  have "refresh_record b (refreshed t a r) = refresh_record b r" for a r by (simp add: refreshed_def)
  then show "refresh_record b (fold (refreshed t) as r) = refresh_record b r" by (induction as arbitrary: r) simp_all
qed

definition seen_by :: "instant \<Rightarrow> AttemptRecord \<Rightarrow> bool" where
  "seen_by s r = (\<exists>s'. ar_scheduler_observed_at r = Some s' \<and> s \<le> s')"

lemma seen_by_refreshed: "seen_by s r \<Longrightarrow> seen_by s (refreshed t a r)"
  by (auto simp: seen_by_def refreshed_def)

lemma refreshed_seen: "names_record t a r \<Longrightarrow> seen_by (sa_observed_at a) (refreshed t a r)"
  by (auto simp: seen_by_def refreshed_def split: option.splits)

lemma fold_refreshed_seen:
  "seen_by s r \<Longrightarrow> seen_by s (fold (refreshed t) as r)"
  "a \<in> set as \<Longrightarrow> names_record t a r \<Longrightarrow> seen_by (sa_observed_at a) (fold (refreshed t) as r)"
proof -
  show keep: "seen_by s r \<Longrightarrow> seen_by s (fold (refreshed t) as r)" for s r as
    by (induction as arbitrary: r) (simp_all add: seen_by_refreshed)
  show "a \<in> set as \<Longrightarrow> names_record t a r \<Longrightarrow> seen_by (sa_observed_at a) (fold (refreshed t) as r)"
    by (induction as arbitrary: r) (auto simp: refreshed_seen keep)
qed

lemma fold_refreshed_again: "fold (refreshed t) as (fold (refreshed t) as r) = fold (refreshed t) as r"
proof (induction as rule: rev_induct)
  case (snoc a as)
  let ?g = "fold (refreshed t) as r"
  show ?case
  proof (cases "refreshed t a ?g = ?g")
    case True
    with snoc show ?thesis by simp
  next
    case False
    then have n: "names_record t a r" and r2: "refreshed t a ?g = refresh_record a r"
      by (auto simp: refreshed_def split: if_splits)
    let ?h = "fold (refreshed t) as (refresh_record a r)"
    have late: "seen_by (sa_observed_at b) ?g" if "b \<in> set as" "names_record t b r" for b
      using that by (rule fold_refreshed_seen(2))
    have upto: "ar_scheduler_observed_at (fold (refreshed t) bs (refresh_record a r)) = Some (sa_observed_at a)"
      if "set bs \<subseteq> set as" for bs
      using that
    proof (induction bs rule: rev_induct)
      case (snoc b bs)
      have "sa_observed_at b \<le> sa_observed_at a" if "names_record t b r"
        using late [of b] snoc.prems that False by (auto simp: seen_by_def refreshed_def split: if_splits)
      with snoc show ?case by (auto simp: refreshed_observed)
    qed simp
    have "refreshed t a ?h = refresh_record a r" using upto [of as] n by (simp add: refreshed_def)
    with r2 show ?thesis by simp
  qed
qed simp


section \<open>Laws of the timeline\<close>

text \<open>
  What the intervals are made of: instants and resources that some observation reported.
\<close>

definition row_times :: "SchedulerObservation \<Rightarrow> instant set" where
  "row_times row = {so_observed_at row} \<union> set_option (so_started_at row) \<union> set_option (so_ended_at row)"

definition witnessed :: "SchedulerObservation set \<Rightarrow> AllocationInterval \<Rightarrow> bool" where
  "witnessed rows iv = (iv_started_at iv \<in> \<Union> (row_times ` rows) \<and> set_option (iv_ended_at iv) \<subseteq> \<Union> (row_times ` rows)
     \<and> (\<exists>row \<in> rows. has_resources row \<and> iv_resources iv = row_resources row))"

definition closed_interval :: "AllocationInterval \<Rightarrow> bool" where
  "closed_interval iv = (\<exists>e. iv_ended_at iv = Some e \<and> iv_started_at iv \<le> e)"

definition timeline_ok :: "SchedulerObservation set \<Rightarrow> timeline_state \<Rightarrow> bool" where
  "timeline_ok rows ts = (case ts of (ivs, current, reasons) \<Rightarrow>
     (\<forall>iv \<in> set ivs. closed_interval iv \<and> witnessed rows iv)
     \<and> (case current of None \<Rightarrow> True | Some iv \<Rightarrow> iv_ended_at iv = None \<and> witnessed rows iv))"

lemma interval_simps [simp]:
  "iv_ended_at (open_interval t row) = None" "iv_started_at (open_interval t row) = t"
  "iv_resources (open_interval t row) = row_resources row" "iv_ended_at (close_interval t iv) = Some t"
  "iv_started_at (close_interval t iv) = iv_started_at iv" "iv_resources (close_interval t iv) = iv_resources iv"
  by (simp_all add: open_interval_def close_interval_def iv_resources_def row_resources_def)

lemma row_times_simps [simp]: "so_observed_at row \<in> row_times row"
  "or_else (so_started_at row) (so_observed_at row) \<in> row_times row" "or_else (so_ended_at row) (so_observed_at row) \<in> row_times row"
  by (auto simp: row_times_def or_else_def split: option.splits)

lemma witnessed_open: "row \<in> rows \<Longrightarrow> has_resources row \<Longrightarrow> t \<in> row_times row \<Longrightarrow> witnessed rows (open_interval t row)"
  by (auto simp: witnessed_def)

lemma witnessed_close: "row \<in> rows \<Longrightarrow> witnessed rows iv \<Longrightarrow> t \<in> row_times row \<Longrightarrow> witnessed rows (close_interval t iv)"
  by (auto simp: witnessed_def)

lemma timeline_row_ok:
  assumes "row \<in> rows" "timeline_ok rows ts"
  shows "timeline_ok rows (timeline_row row ts)"
proof -
  have 1: "timeline_ok rows (track_row row ts)"
    using assms witnessed_open [OF assms(1)] witnessed_close [OF assms(1)]
    by (auto simp: timeline_ok_def track_row_def closed_interval_def split: prod.splits option.splits)
  then have 2: "timeline_ok rows (note_missing row (track_row row ts))"
    by (auto simp: timeline_ok_def note_missing_def split: prod.splits)
  then show ?thesis unfolding timeline_row_def using witnessed_close [OF assms(1)]
    by (auto simp: timeline_ok_def close_terminal_def closed_interval_def Let_def split: prod.splits option.splits)
qed

lemma fold_timeline_ok:
  "set obs \<subseteq> rows \<Longrightarrow> timeline_ok rows ts \<Longrightarrow> timeline_ok rows (fold timeline_row obs ts)"
  by (induction obs arbitrary: ts) (simp_all add: timeline_row_ok)

lemma derive_Inr:
  assumes "derive_allocation_timeline obs = Inr tm"
  obtains ivs current reasons where "fold timeline_row (sort_key so_observed_at obs) ([], None, []) = (ivs, current, reasons)"
    "tl_intervals tm = (case current of None \<Rightarrow> ivs | Some cur \<Rightarrow> ivs @ [cur])"
    "tl_coverage_reasons tm = sort (remdups (reasons @ final_reasons (sort_key so_observed_at obs) (tl_intervals tm)))"
    "tl_latest_state tm = so_state (last (sort_key so_observed_at obs))"
    "tl_latest_observed_at tm = so_observed_at (last (sort_key so_observed_at obs))"
    "obs \<noteq> []" "\<forall>row \<in> set obs. so_source_identity row = tl_source_identity tm"
    "tl_coverage_status tm = (if tl_intervals tm \<noteq> [] then ''observed'' else ''unknown'')"
  using assms
  by (auto simp: derive_allocation_timeline_def Let_def list_ex_iff split: if_splits prod.splits)

section \<open>Laws of the poller\<close>

lemma poll_delay_bounds:
  assumes "0 \<le> sp_jitter_ratio sp" "sp_jitter_ratio sp \<le> 1" "0 \<le> random" "random \<le> 1" "0 \<le> base"
  shows "seconds base \<le> poll_delay sp random base \<and> poll_delay sp random base \<le> 2 * seconds base"
proof -
  let ?j = "sp_jitter_ratio sp * random"
  have j: "0 \<le> ?j" "?j \<le> 1" using assms by (simp_all add: mult_le_one)
  have b: "(0::rat) \<le> of_int base" using assms(5) by simp
  have "of_int base * 1 \<le> of_int base * (1 + ?j)" using b j(1) by (intro mult_left_mono) simp_all
  moreover have "of_int base * (1 + ?j) \<le> of_int base * 2" using b j(2) by (intro mult_left_mono) simp_all
  ultimately show ?thesis unfolding poll_delay_def seconds_def
    by (intro round_half_even_between) simp_all
qed


section \<open>Properties of the scheduler component\<close>

text \<open>The example scheduler: one job observed running, then finished.\<close>

definition demo_job :: "ExecutionState \<Rightarrow> instant \<Rightarrow> instant option \<Rightarrow> SchedulerAttempt" where
  "demo_job s t e = \<lparr>sa_adapter = ''slurm'', sa_adapter_version = ''v1'', sa_cluster_id = ''alpha'', sa_source_identity = ''j1'',
     sa_job_id = ''1'', sa_array_job_id = None, sa_array_task_id = None, sa_step_id = None, sa_restart_count = 0,
     sa_state = s, sa_state_reason = None, sa_submitted_at = Some 1, sa_started_at = Some 5, sa_ended_at = e,
     sa_allocated_nodes = Some 2, sa_allocated_cpus = Some 8, sa_account = None, sa_partition = None, sa_user_ref = None,
     sa_observed_at = t, sa_raw = JObj []\<rparr>"

definition demo_polled :: "SchedulerAttempt list" where
  "demo_polled = [demo_job RUNNING 10 None, demo_job SUCCEEDED 20 (Some 18)]"

definition demo_observations :: "SchedulerObservation list" where
  "demo_observations = map (\<lambda>a. observation_from_attempt ''o'' ''site'' a 30) demo_polled"

definition demo_poller :: SchedulerPoller where
  "demo_poller = \<lparr>sp_owner = ''s1'', sp_poll_interval = 30, sp_lease_seconds = 60, sp_lookback = 300,
     sp_max_backoff = 900, sp_jitter_ratio = 1 / 5\<rparr>"

definition demo_registered :: catalog where
  "demo_registered = snd (register ''site'' ''alpha'' ''slurm'' 100 empty_catalog)"

definition demo_poll_lease :: SchedulerPollLease where
  "demo_poll_lease = \<lparr>pl_tenant_id = ''site'', pl_cluster_id = ''alpha'', pl_generation = 1, pl_owner = ''s1''\<rparr>"

definition demo_polling :: catalog where
  "demo_polling = snd (claim_cursor demo_poller 100 demo_registered)"

definition demo_poll_inputs :: poll_inputs where
  "demo_poll_inputs = \<lparr>pi_ids = (\<lambda>n. show_nat n), pi_started_at = 101, pi_now = 102, pi_completed_at = 103, pi_random = 1 / 2\<rparr>"

text \<open>C24. A batch of scheduler attempts is recorded exactly once: the observations keep distinct keys and gain exactly
  the keys of the batch, inserted and duplicate counts add up to the batch, every attempt row named by the batch ends
  at least as late as each of its observations, and reconciling the same batch again changes nothing.\<close>

theorem poll_batch_once:
  assumes "reconcile t now ids n as (0, 0) c = (Inr (i, d), c')" "sources_unique (attempt_records c)"
    "distinct (map so_key (observations c))"
  shows "distinct (map so_key (observations c'))
    \<and> so_key ` set (observations c') = so_key ` set (observations c) \<union> sa_key t ` set as
    \<and> i = int (length (observations c')) - int (length (observations c)) \<and> i + d = int (length as)
    \<and> (\<forall>r \<in> set (attempt_records c'). \<forall>a \<in> set as. names_record t a r \<longrightarrow> seen_by (sa_observed_at a) r)
    \<and> reconcile t now' ids' n' as (0, 0) c' = (Inr (0, int (length as)), c')"
proof -
  note ob = reconcile_observations [OF assms(1)]
  have rows: "c' = c\<lparr>observations := observations c', attempt_records := map (fold (refreshed t) as) (attempt_records c)\<rparr>"
    by (rule reconcile_records [OF assms(1,2)])
  have rec': "attempt_records c' = map (fold (refreshed t) as) (attempt_records c)" by (subst rows) simp
  have uniq: "sources_unique (map (fold (refreshed t) bs) rs)" if "sources_unique rs" for bs rs
    using that
  proof (induction bs arbitrary: rs)
    case (Cons b bs)
    from Cons.IH [OF sources_unique_refreshed [OF Cons.prems, of t b]] show ?case by (simp add: comp_def)
  qed simp
  from ob have known: "sa_key t ` set as \<subseteq> so_key ` set (observations c')" by auto
  obtain c2 where again: "reconcile t now' ids' n' as (0, 0) c' = (Inr (0, int (length as)), c2)" "observations c2 = observations c'"
    using reconcile_known [OF known, of now' ids' n' 0 0] by auto
  have "c2 = c'\<lparr>observations := observations c', attempt_records := map (fold (refreshed t) as) (attempt_records c')\<rparr>"
    using reconcile_records [OF again(1)] uniq [OF assms(2)] again(2) rec' by simp
  also have "map (fold (refreshed t) as) (attempt_records c') = attempt_records c'"
    by (simp add: rec' fold_refreshed_again)
  finally have "c2 = c'" by simp
  moreover have "\<forall>r \<in> set (attempt_records c'). \<forall>a \<in> set as. names_record t a r \<longrightarrow> seen_by (sa_observed_at a) r"
    by (auto simp: rec' fold_refreshed_seen(2))
  ultimately show ?thesis using ob assms(3) again(1) by auto
qed

theorem poll_batch_once_witness:
  "\<exists>c'. reconcile ''site'' 30 show_nat 0 demo_polled (0, 0) empty_catalog = (Inr (2, 0), c')
     \<and> reconcile ''site'' 40 show_nat 5 demo_polled (0, 0) c' = (Inr (0, 2), c')"
proof -
  have "fst (reconcile ''site'' 30 show_nat 0 demo_polled (0, 0) empty_catalog) = Inr (2, 0)" by code_simp
  then obtain c' where r: "reconcile ''site'' 30 show_nat 0 demo_polled (0, 0) empty_catalog = (Inr (2, 0), c')"
    by (metis prod.collapse)
  have "sources_unique (attempt_records empty_catalog)" "distinct (map so_key (observations empty_catalog))"
    by (simp_all add: empty_catalog_def sources_unique_def)
  from poll_batch_once [OF r this, of 40 show_nat 5] r show ?thesis by (auto simp: demo_polled_def)
qed

text \<open>The timeline claims nothing that was not observed: every interval starts and ends at instants some observation
  reported, with resources some observation reported; all but possibly the last are closed, none ends before it starts;
  a timeline with intervals is marked as poll-sampled; and the latest observation is the latest one.\<close>

theorem timeline_evidence_bounded:
  assumes "derive_allocation_timeline obs = Inr tm"
  shows "(\<forall>iv \<in> set (tl_intervals tm). witnessed (set obs) iv)
    \<and> (\<forall>iv \<in> set (butlast (tl_intervals tm)). closed_interval iv)
    \<and> (tl_intervals tm \<noteq> [] \<longrightarrow> (closed_interval (last (tl_intervals tm)) \<or> iv_ended_at (last (tl_intervals tm)) = None)
         \<and> tl_coverage_status tm = ''observed'' \<and> ''poll_sampled'' \<in> set (tl_coverage_reasons tm))
    \<and> (\<forall>row \<in> set obs. so_source_identity row = tl_source_identity tm \<and> so_observed_at row \<le> tl_latest_observed_at tm)"
proof -
  let ?o = "sort_key so_observed_at obs"
  from assms obtain ivs current reasons where f: "fold timeline_row ?o ([], None, []) = (ivs, current, reasons)"
    and iv: "tl_intervals tm = (case current of None \<Rightarrow> ivs | Some cur \<Rightarrow> ivs @ [cur])"
    and rs: "tl_coverage_reasons tm = sort (remdups (reasons @ final_reasons ?o (tl_intervals tm)))"
    and late: "tl_latest_observed_at tm = so_observed_at (last ?o)" and ne: "obs \<noteq> []"
    and idn: "\<forall>row \<in> set obs. so_source_identity row = tl_source_identity tm"
    and cov: "tl_coverage_status tm = (if tl_intervals tm \<noteq> [] then ''observed'' else ''unknown'')" by (rule derive_Inr)
  have "timeline_ok (set obs) ([], None, [])" by (simp add: timeline_ok_def)
  then have "timeline_ok (set obs) (ivs, current, reasons)"
    using fold_timeline_ok [of ?o "set obs"] f by (metis set_sort subset_refl)
  then have ok: "\<forall>iv \<in> set ivs. closed_interval iv \<and> witnessed (set obs) iv"
    "\<And>cur. current = Some cur \<Longrightarrow> iv_ended_at cur = None \<and> witnessed (set obs) cur" by (auto simp: timeline_ok_def)
  have "\<forall>iv \<in> set (tl_intervals tm). witnessed (set obs) iv" using ok iv by (cases current) auto
  moreover have "\<forall>iv \<in> set (butlast (tl_intervals tm)). closed_interval iv"
    using ok iv by (cases current) (auto dest: in_set_butlastD)
  moreover have "closed_interval (last (tl_intervals tm)) \<or> iv_ended_at (last (tl_intervals tm)) = None" if "tl_intervals tm \<noteq> []"
    using ok iv that by (cases current) auto
  moreover have "''poll_sampled'' \<in> set (tl_coverage_reasons tm)" if "tl_intervals tm \<noteq> []"
    using that by (simp add: rs final_reasons_def Let_def)
  moreover have "so_observed_at row \<le> so_observed_at (last ?o)" if "row \<in> set obs" for row
  proof -
    from that have "row \<in> set ?o" by simp
    then obtain j where j: "j < length ?o" "row = ?o ! j" by (metis in_set_conv_nth)
    have "sorted (map so_observed_at ?o)" by simp
    then have "map so_observed_at ?o ! j \<le> map so_observed_at ?o ! (length ?o - 1)"
      using j(1) by (intro sorted_nth_mono) simp_all
    moreover have "last ?o = ?o ! (length ?o - 1)" using \<open>row \<in> set ?o\<close> by (intro last_conv_nth) fastforce
    ultimately show ?thesis using j by simp
  qed
  ultimately show ?thesis using idn cov late by auto
qed

theorem timeline_evidence_bounded_witness:
  "\<exists>tm. derive_allocation_timeline demo_observations = Inr tm \<and> length (tl_intervals tm) = 1
     \<and> ''poll_sampled'' \<in> set (tl_coverage_reasons tm)"
proof -
  define n where "n = (case derive_allocation_timeline demo_observations of Inl _ \<Rightarrow> 0 | Inr tm \<Rightarrow> length (tl_intervals tm))"
  have n: "n = 1" unfolding n_def by code_simp
  obtain tm where tm: "derive_allocation_timeline demo_observations = Inr tm"
    using n by (cases "derive_allocation_timeline demo_observations") (auto simp: n_def)
  with n have "length (tl_intervals tm) = 1" by (simp add: n_def)
  with timeline_evidence_bounded [OF tm] tm show ?thesis by (metis length_0_conv zero_neq_one)
qed

text \<open>The timeline does not depend on the order in which the observations are given, as long as they were taken at
  different instants.\<close>

theorem timeline_order_independent:
  assumes "mset obs = mset obs'" "distinct (map so_observed_at obs)"
  shows "derive_allocation_timeline obs = derive_allocation_timeline obs'"
proof -
  have inj: "inj_on so_observed_at (set obs)" using assms(2) by (simp add: distinct_map)
  have "sort_key so_observed_at obs = sort_key so_observed_at obs'"
    by (rule sort_key_inj_key_eq [OF _ inj]) (simp_all add: assms(1))
  moreover have "(obs = []) = (obs' = [])" using assms(1) by (metis mset_zero_iff)
  ultimately show ?thesis unfolding derive_allocation_timeline_def by simp
qed

theorem timeline_order_independent_witness:
  "derive_allocation_timeline demo_observations = derive_allocation_timeline (rev demo_observations)"
proof -
  have "distinct (map so_observed_at demo_observations)" by code_simp
  then show ?thesis by (intro timeline_order_independent) simp_all
qed


text \<open>The cursor of a polling stream advances only after a successful query and its observation transaction: a
  published poll has recorded everything the adapter returned for the window it asked for, sets the cursor to the start
  of the poll, and the next window begins no later than that; a poll that is not published leaves the cursor where it
  was and every observation as it was.\<close>

theorem poll_progress:
  assumes "poll_execute sp fetch (\<lambda>c. c) inp l c = (r, c')" "get_cursor c (pl_key l) = Some x" "holds_lease l (Some x)"
    "0 \<le> sp_lookback sp"
  shows "\<exists>x'. get_cursor c' (pl_key l) = Some x'
    \<and> (pr_published r \<longrightarrow> spc_cursor_at x' = Some (pi_started_at inp)
         \<and> (\<exists>s. poll_since sp x' = Some s \<and> s \<le> pi_started_at inp)
         \<and> (\<exists>as. fetch (pl_cluster_id l) (poll_since sp x) = Inr as
              \<and> sa_key (pl_tenant_id l) ` set as \<subseteq> so_key ` set (observations c')))
    \<and> (\<not> pr_published r \<longrightarrow> spc_cursor_at x' = spc_cursor_at x \<and> observations c' = observations c
         \<and> spc_consecutive_failures x' = spc_consecutive_failures x + 1)"
proof -
  let ?f = "fetch (pl_cluster_id l) (poll_since sp x)"
  obtain q c1 where p: "poll_once (pl_tenant_id l) ?f (pi_now inp) (pi_ids inp) c = (q, c1)" by fastforce
  have cur: "get_cursor (upd_cursor (pl_key l) f c2) (pl_key l) = Some (f x)"
    if "poll_cursors c2 = poll_cursors c" "\<And>y. spc_key (f y) = spc_key y" for f c2
    using get_cursor_upd [of f, OF that(2)] that(1) assms(2) by (simp add: get_cursor_def)
  show ?thesis
  proof (cases q)
    case (Inl e)
    with p have c1: "c1 = c" by (auto simp: poll_once_def begin_txn_def split: if_splits sum.splits prod.splits)
    let ?m = "take 512 (err_name e @ '': '' @ err_text e)"
    have "c' = upd_cursor (pl_key l) (backed_off_row sp (pi_random inp) ?m (pi_completed_at inp)) c" "\<not> pr_published r"
      using assms(1-3) p Inl c1 by (auto simp: poll_execute_def poll_fail_def Let_def)
    moreover from this(1) have "get_cursor c' (pl_key l) = Some (backed_off_row sp (pi_random inp) ?m (pi_completed_at inp) x)"
      using cur [of c] by simp
    moreover have "observations c' = observations c" by (simp add: calculation(1) upd_cursor_def)
    ultimately show ?thesis by (simp add: backed_off_row_def Let_def)
  next
    case (Inr res)
    with p obtain as k where as: "?f = Inr as" "reconcile (pl_tenant_id l) (pi_now inp) (pi_ids inp) 0 as (0, 0) c = (Inr k, c1)"
      by (auto simp: poll_once_def begin_txn_def split: if_splits sum.splits prod.splits)
    have pc: "poll_cursors c1 = poll_cursors c" by (rule reconcile_cursors [OF as(2)])
    then have "get_cursor c1 (pl_key l) = Some x" using assms(2) by (simp add: get_cursor_def)
    then have "c' = upd_cursor (pl_key l) (advanced_row (pi_started_at inp) (pi_completed_at inp)
        (pi_completed_at inp + poll_delay sp (pi_random inp) (sp_poll_interval sp))) c1" "pr_published r"
      using assms(1-3) p Inr by (auto simp: poll_execute_def poll_settle_def)
    moreover have "sa_key (pl_tenant_id l) ` set as \<subseteq> so_key ` set (observations c1)"
    proof -
      obtain i d where "k = (i, d)" by fastforce
      with reconcile_observations [OF as(2) [unfolded this]] show ?thesis by auto
    qed
    moreover have "observations c' = observations c1" by (simp add: calculation(1) upd_cursor_def)
    moreover from calculation(1) have "get_cursor c' (pl_key l) = Some (advanced_row (pi_started_at inp) (pi_completed_at inp)
        (pi_completed_at inp + poll_delay sp (pi_random inp) (sp_poll_interval sp)) x)" using cur [OF pc] by simp
    ultimately show ?thesis using as(1) assms(4) by (simp add: advanced_row_def poll_since_def seconds_def)
  qed
qed

theorem poll_progress_witness:
  "\<exists>x'. get_cursor (snd (poll_execute demo_poller (\<lambda>_ _. Inr demo_polled) (\<lambda>c. c) demo_poll_inputs demo_poll_lease demo_polling))
      (''site'', ''alpha'') = Some x' \<and> spc_cursor_at x' = Some 101"
proof -
  let ?e = "poll_execute demo_poller (\<lambda>_ _. Inr demo_polled) (\<lambda>c. c) demo_poll_inputs demo_poll_lease demo_polling"
  have "get_cursor demo_polling (pl_key demo_poll_lease) \<noteq> None" by code_simp
  then obtain x where x: "get_cursor demo_polling (pl_key demo_poll_lease) = Some x" by auto
  have "holds_lease demo_poll_lease (get_cursor demo_polling (pl_key demo_poll_lease))" by code_simp
  then have h: "holds_lease demo_poll_lease (Some x)" by (simp add: x)
  have "pr_published (fst ?e)" by code_simp
  moreover have "0 \<le> sp_lookback demo_poller" by (simp add: demo_poller_def)
  moreover have "pl_key demo_poll_lease = (''site'', ''alpha'')" "pi_started_at demo_poll_inputs = 101"
    by (simp_all add: pl_key_def demo_poll_lease_def demo_poll_inputs_def)
  ultimately show ?thesis using poll_progress [OF surjective_pairing [of ?e] x h] by auto
qed

text \<open>A failed poll is retried no sooner than the poll interval and no later than twice the maximum backoff, however
  often it failed and whatever the random source returns.\<close>

theorem poll_backoff_bounded:
  assumes "make_poller owner interval lease lookback mx jitter = Inr sp" "0 \<le> random" "random < 1" "0 \<le> spc_consecutive_failures x"
  shows "now + seconds interval \<le> spc_next_poll_at (backed_off_row sp random m now x)
    \<and> spc_next_poll_at (backed_off_row sp random m now x) \<le> now + 2 * seconds mx"
proof -
  from assms(1) have sp: "sp_poll_interval sp = interval" "sp_max_backoff sp = mx" "0 \<le> sp_jitter_ratio sp" "sp_jitter_ratio sp \<le> 1"
    "0 < interval" "interval \<le> mx" by (auto simp: make_poller_def split: if_splits)
  let ?d = "min mx (interval * 2 ^ nat (min (spc_consecutive_failures x) 20))"
  have "interval * 1 \<le> interval * 2 ^ nat (min (spc_consecutive_failures x) 20)" using sp(5) by (intro mult_left_mono) simp_all
  then have d: "interval \<le> ?d" "?d \<le> mx" using sp(6) by auto
  have "seconds ?d \<le> poll_delay sp random ?d \<and> poll_delay sp random ?d \<le> 2 * seconds ?d"
    using assms(2,3) sp(3-5) d by (intro poll_delay_bounds) simp_all
  moreover have "seconds interval \<le> seconds ?d" "seconds ?d \<le> seconds mx" using d by (simp_all add: seconds_mono)
  ultimately show ?thesis by (simp add: backed_off_row_def Let_def sp(1,2))
qed

theorem poll_backoff_bounded_witness:
  "make_poller ''s1'' 30 60 300 900 (1 / 5) = Inr demo_poller
   \<and> spc_next_poll_at (backed_off_row demo_poller (1 / 2) '''' 100 (hd (poll_cursors demo_polling))) \<le> 100 + 2 * seconds 900"
proof -
  have m: "make_poller ''s1'' 30 60 300 900 (1 / 5) = Inr demo_poller" by (simp add: make_poller_def demo_poller_def)
  have "0 \<le> spc_consecutive_failures (hd (poll_cursors demo_polling))" by code_simp
  from poll_backoff_bounded [OF m _ _ this, of "1 / 2" 100 "''''"] m show ?thesis by simp
qed

text \<open>A poller whose lease was superseded writes nothing to the cursor.\<close>

lemma superseded_poll_lease_inert:
  assumes "cursor_row_step\<^sup>*\<^sup>* (claim_cursor_row secs own t x) x1" "cursor_row_step\<^sup>*\<^sup>* (claim_cursor_row secs' own' t' x1) x2"
    "get_cursor c (pl_key l) = Some x2" "pl_owner l = own" "pl_generation l = spc_lease_generation x + 1"
  shows "poll_settle sp random l s e c = (False, c) \<and> poll_fail sp random l m now c = (False, c)"
proof -
  have "spc_lease_generation x + 1 \<le> spc_lease_generation x1" using sc.evolves_star_gen [OF assms(1)] by (simp add: claim_cursor_row_def)
  moreover have "spc_lease_generation x1 + 1 \<le> spc_lease_generation x2" using sc.evolves_star_gen [OF assms(2)] by (simp add: claim_cursor_row_def)
  ultimately have "\<not> holds_lease l (Some x2)" using assms(5) by (simp add: holds_lease_def)
  then show ?thesis by (simp add: poll_settle_def poll_fail_def assms(3))
qed

end
