(* ===== verification/Service_Settings.thy ===== *)
theory Service_Settings
  imports Contracts
begin

text \<open>
  \<^verbatim>\<open>settings.py\<close>: the fail-closed configuration.  \<open>from_environment\<close> reads the environment (a partial map), decodes
  and validates the machine credentials, the timing settings and the signing key of the integrity webhook, and
  raises \<open>RuntimeError\<close> at the first violation, in the order of the source.  \<open>json.loads\<close>, \<open>fromisoformat\<close> and
  \<open>urlparse\<close> are parameters.
\<close>

section \<open>Data\<close>

definition MACHINE_PERMISSIONS :: "string list" where
  "MACHINE_PERMISSIONS = [''segments:write'', ''telemetry:read'', ''retention:admin'', ''credentials:revoke'',
     ''integrity:admin'', ''evidence:download'']"

record MachineCredential =
  mc_token_sha256 :: string
  mc_principal :: MachinePrincipal
  mc_not_before :: "instant option"
  mc_expires_at :: "instant option"

record Settings =
  st_database_url :: string
  st_object_root :: string
  st_machine_credentials :: "MachineCredential list"
  st_max_expanded_segment_bytes :: int
  st_max_evidence_download_bytes :: int
  st_reservation_ttl_seconds :: int
  st_reservation_sweep_seconds :: int
  st_object_gc_grace_seconds :: int
  st_object_gc_sweep_seconds :: int
  st_object_gc_audit_interval_seconds :: int
  st_object_gc_audit_sweep_seconds :: int
  st_object_gc_audit_batch_size :: int
  st_default_retention_seconds :: int
  st_retention_sweep_seconds :: int
  st_retention_sweep_batch_size :: int
  st_integrity_webhook_url :: "string option"
  st_integrity_webhook_secret :: "string option"
  st_integrity_webhook_key_id :: "string option"
  st_integrity_webhook_timeout_seconds :: int
  st_bootstrap_schema :: bool

text \<open>What the source reads of the value of \<open>urlparse\<close>.\<close>

record url_parts =
  up_scheme :: string
  up_hostname :: "string option"
  up_username :: "string option"
  up_password :: "string option"
  up_fragment :: string

type_synonym environment = "string \<rightharpoonup> string"

section \<open>Credentials\<close>

definition optional_utc_datetime :: "iso_reader \<Rightarrow> json \<Rightarrow> string \<Rightarrow> instant option result" where
  "optional_utc_datetime fromiso v field =
     (case v of
        JNull \<Rightarrow> Inr None
      | JStr s \<Rightarrow>
          (case fromiso (replace_Z s) of
             None \<Rightarrow> Inl (RuntimeError (''machine credential '' @ field @ '' must be an ISO-8601 timestamp''))
           | Some d \<Rightarrow>
               if dt_offset d = None
               then Inl (RuntimeError (''machine credential '' @ field @ '' must include a UTC offset''))
               else Inr (Some (dt_instant d)))
      | _ \<Rightarrow> Inl (RuntimeError (''machine credential '' @ field @ '' must be an ISO-8601 timestamp'')))"

definition allowed_fields :: "string list" where
  "allowed_fields = [''token_sha256'', ''tenant_id'', ''clusters'', ''permissions'', ''not_before'', ''expires_at'']"

fun json_strings :: "json list \<Rightarrow> string list option" where
  "json_strings [] = Some []"
| "json_strings (JStr s # vs) = map_option ((#) s) (json_strings vs)"
| "json_strings (_ # vs) = None"

definition empty_window :: "instant option \<Rightarrow> instant option \<Rightarrow> bool" where
  "empty_window not_before expires_at =
     (case (not_before, expires_at) of (Some a, Some b) \<Rightarrow> b \<le> a | _ \<Rightarrow> False)"

text \<open>The checks of one item, in the order of the loop body; \<open>seen\<close> are the digests of the items before it.\<close>

definition token_digest :: "string list \<Rightarrow> json \<Rightarrow> string result" where
  "token_digest seen v =
     (case v of
        JStr d \<Rightarrow>
          if \<not> sha256_hex d
          then Inl (RuntimeError ''each machine credential requires a lowercase SHA-256 token digest'')
          else if d \<in> set seen then Inl (RuntimeError ''machine credential token digests must be unique'')
          else Inr d
      | _ \<Rightarrow> Inl (RuntimeError ''each machine credential requires a lowercase SHA-256 token digest''))"

definition credential_scope :: "json \<Rightarrow> json \<Rightarrow> (string \<times> string list) result" where
  "credential_scope tenant clusters =
     (case (tenant, clusters) of
        (JStr t, JArr cs) \<Rightarrow>
          if t = [] then Inl (RuntimeError ''each machine credential requires tenant_id and clusters'')
          else (case json_strings cs of
              None \<Rightarrow> Inl (RuntimeError ''machine-credential clusters must be a nonempty string list'')
            | Some ss \<Rightarrow>
                if ss = [] \<or> [] \<in> set ss
                then Inl (RuntimeError ''machine-credential clusters must be a nonempty string list'')
                else Inr (t, ss))
      | _ \<Rightarrow> Inl (RuntimeError ''each machine credential requires tenant_id and clusters''))"

definition credential_permissions :: "json \<Rightarrow> string list result" where
  "credential_permissions v =
     (case v of
        JArr ps \<Rightarrow>
          (case json_strings ps of
             None \<Rightarrow> Inl (RuntimeError ''machine-credential permissions are missing or unsupported'')
           | Some ss \<Rightarrow>
               if ss = [] \<or> \<not> set ss \<subseteq> set MACHINE_PERMISSIONS
               then Inl (RuntimeError ''machine-credential permissions are missing or unsupported'')
               else Inr ss)
      | _ \<Rightarrow> Inl (RuntimeError ''machine-credential permissions are missing or unsupported''))"

definition parse_credential :: "iso_reader \<Rightarrow> string list \<Rightarrow> string \<Rightarrow> json \<Rightarrow> MachineCredential result" where
  "parse_credential fromiso seen credential_id v =
     (case v of
        JObj kvs \<Rightarrow>
          if \<not> safe_identifier credential_id
          then Inl (RuntimeError ''machine credential IDs must be safe nonempty identifiers'')
          else if \<not> fst ` set kvs \<subseteq> set allowed_fields
          then Inl (RuntimeError ''machine credentials contain unknown fields'')
          else
            bindE (token_digest seen (jget kvs ''token_sha256'')) (\<lambda>digest.
            bindE (credential_scope (jget kvs ''tenant_id'') (jget kvs ''clusters'')) (\<lambda>(tenant, clusters).
            bindE (credential_permissions (jget kvs ''permissions'')) (\<lambda>permissions.
            bindE (optional_utc_datetime fromiso (jget kvs ''not_before'') ''not_before'') (\<lambda>not_before.
            bindE (optional_utc_datetime fromiso (jget kvs ''expires_at'') ''expires_at'') (\<lambda>expires_at.
              if empty_window not_before expires_at
              then Inl (RuntimeError ''machine credential expires_at must be after not_before'')
              else Inr \<lparr>mc_token_sha256 = digest,
                     mc_principal = \<lparr>mp_tenant_id = tenant, mp_clusters = clusters, mp_credential_id = credential_id,
                       mp_permissions = permissions\<rparr>,
                     mc_not_before = not_before, mc_expires_at = expires_at\<rparr>)))))
      | _ \<Rightarrow> Inl (RuntimeError ''machine credential IDs must be safe nonempty identifiers''))"

fun parse_credentials :: "iso_reader \<Rightarrow> string list \<Rightarrow> (string \<times> json) list \<Rightarrow> MachineCredential list result" where
  "parse_credentials fromiso seen [] = Inr []"
| "parse_credentials fromiso seen ((credential_id, v) # items) =
     bindE (parse_credential fromiso seen credential_id v) (\<lambda>cr.
     bindE (parse_credentials fromiso (mc_token_sha256 cr # seen) items) (\<lambda>crs. Inr (cr # crs)))"

definition env_or :: "environment \<Rightarrow> string \<Rightarrow> string \<Rightarrow> string" where
  "env_or env name d = (case env name of None \<Rightarrow> d | Some s \<Rightarrow> s)"

definition env_opt :: "environment \<Rightarrow> string \<Rightarrow> string option" where
  "env_opt env name = (case env name of None \<Rightarrow> None | Some s \<Rightarrow> if s = [] then None else Some s)"

definition read_credentials :: "runtime \<Rightarrow> iso_reader \<Rightarrow> environment \<Rightarrow> MachineCredential list result" where
  "read_credentials R fromiso env =
     (case env_opt env ''RANKLENS_MACHINE_CREDENTIALS_JSON'' of
        None \<Rightarrow> Inl (RuntimeError ''RANKLENS_MACHINE_CREDENTIALS_JSON is required'')
      | Some raw \<Rightarrow>
          (case rt_json_loads R (utf8 raw) of
             None \<Rightarrow> Inl (RuntimeError ''RANKLENS_MACHINE_CREDENTIALS_JSON must be valid JSON'')
           | Some (JObj items) \<Rightarrow>
               if items = [] then Inl (RuntimeError ''at least one machine credential is required'')
               else parse_credentials fromiso [] items
           | Some _ \<Rightarrow> Inl (RuntimeError ''at least one machine credential is required'')))"

section \<open>Timing settings\<close>

record timings =
  tm_reservation_ttl :: int
  tm_reservation_sweep :: int
  tm_object_gc_grace :: int
  tm_object_gc_sweep :: int
  tm_object_gc_audit_interval :: int
  tm_object_gc_audit_sweep :: int
  tm_object_gc_audit_batch :: int
  tm_default_retention :: int
  tm_retention_sweep :: int
  tm_retention_sweep_batch :: int
  tm_integrity_webhook_timeout :: int
  tm_max_evidence_download :: int

definition int_setting :: "environment \<Rightarrow> string \<Rightarrow> int \<Rightarrow> int result" where
  "int_setting env name d =
     (case py_int (env_or env name (show_int d)) of
        None \<Rightarrow> Inl (RuntimeError ''lifecycle timing settings must be integers'')
      | Some i \<Rightarrow> Inr i)"

definition read_timings :: "environment \<Rightarrow> timings result" where
  "read_timings env =
     bindE (int_setting env ''RANKLENS_RESERVATION_TTL_SECONDS'' 900) (\<lambda>ttl.
     bindE (int_setting env ''RANKLENS_RESERVATION_SWEEP_SECONDS'' 30) (\<lambda>sweep.
     bindE (int_setting env ''RANKLENS_OBJECT_GC_GRACE_SECONDS'' 3600) (\<lambda>grace.
     bindE (int_setting env ''RANKLENS_OBJECT_GC_SWEEP_SECONDS'' 30) (\<lambda>gc_sweep.
     bindE (int_setting env ''RANKLENS_OBJECT_GC_AUDIT_INTERVAL_SECONDS'' 86400) (\<lambda>audit_interval.
     bindE (int_setting env ''RANKLENS_OBJECT_GC_AUDIT_SWEEP_SECONDS'' 300) (\<lambda>audit_sweep.
     bindE (int_setting env ''RANKLENS_OBJECT_GC_AUDIT_BATCH_SIZE'' 100) (\<lambda>audit_batch.
     bindE (int_setting env ''RANKLENS_DEFAULT_RETENTION_SECONDS'' 0) (\<lambda>retention.
     bindE (int_setting env ''RANKLENS_RETENTION_SWEEP_SECONDS'' 300) (\<lambda>retention_sweep.
     bindE (int_setting env ''RANKLENS_RETENTION_SWEEP_BATCH_SIZE'' 100) (\<lambda>retention_batch.
     bindE (int_setting env ''RANKLENS_INTEGRITY_WEBHOOK_TIMEOUT_SECONDS'' 10) (\<lambda>timeout.
     bindE (int_setting env ''RANKLENS_MAX_EVIDENCE_DOWNLOAD_BYTES'' (64 * 1024 * 1024)) (\<lambda>download.
       Inr \<lparr>tm_reservation_ttl = ttl, tm_reservation_sweep = sweep, tm_object_gc_grace = grace, tm_object_gc_sweep = gc_sweep,
         tm_object_gc_audit_interval = audit_interval, tm_object_gc_audit_sweep = audit_sweep,
         tm_object_gc_audit_batch = audit_batch, tm_default_retention = retention, tm_retention_sweep = retention_sweep,
         tm_retention_sweep_batch = retention_batch, tm_integrity_webhook_timeout = timeout,
         tm_max_evidence_download = download\<rparr>))))))))))))"

definition check_lifecycle :: "timings \<Rightarrow> unit result" where
  "check_lifecycle tm =
     (if tm_reservation_ttl tm < 60 \<or> tm_reservation_ttl tm > 86400
      then Inl (RuntimeError ''RANKLENS_RESERVATION_TTL_SECONDS must be within [60, 86400]'')
      else if tm_reservation_sweep tm < 1 \<or> tm_reservation_sweep tm > 3600
      then Inl (RuntimeError ''RANKLENS_RESERVATION_SWEEP_SECONDS must be within [1, 3600]'')
      else if tm_object_gc_grace tm < 300 \<or> tm_object_gc_grace tm > 604800
      then Inl (RuntimeError ''RANKLENS_OBJECT_GC_GRACE_SECONDS must be within [300, 604800]'')
      else if tm_object_gc_sweep tm < 1 \<or> tm_object_gc_sweep tm > 3600
      then Inl (RuntimeError ''RANKLENS_OBJECT_GC_SWEEP_SECONDS must be within [1, 3600]'')
      else if tm_object_gc_audit_interval tm < 300 \<or> tm_object_gc_audit_interval tm > 604800
      then Inl (RuntimeError ''RANKLENS_OBJECT_GC_AUDIT_INTERVAL_SECONDS must be within [300, 604800]'')
      else if tm_object_gc_audit_sweep tm < 1 \<or> tm_object_gc_audit_sweep tm > 3600
      then Inl (RuntimeError ''RANKLENS_OBJECT_GC_AUDIT_SWEEP_SECONDS must be within [1, 3600]'')
      else if tm_object_gc_audit_batch tm < 1 \<or> tm_object_gc_audit_batch tm > 10000
      then Inl (RuntimeError ''RANKLENS_OBJECT_GC_AUDIT_BATCH_SIZE must be within [1, 10000]'')
      else if tm_default_retention tm \<noteq> 0 \<and> \<not> (3600 \<le> tm_default_retention tm \<and> tm_default_retention tm \<le> 315360000)
      then Inl (RuntimeError ''RANKLENS_DEFAULT_RETENTION_SECONDS must be 0 or within [3600, 315360000]'')
      else if tm_retention_sweep tm < 1 \<or> tm_retention_sweep tm > 3600
      then Inl (RuntimeError ''RANKLENS_RETENTION_SWEEP_SECONDS must be within [1, 3600]'')
      else if tm_retention_sweep_batch tm < 1 \<or> tm_retention_sweep_batch tm > 10000
      then Inl (RuntimeError ''RANKLENS_RETENTION_SWEEP_BATCH_SIZE must be within [1, 10000]'')
      else Inr ())"

section \<open>The integrity webhook\<close>

definition secret_length_ok :: "string \<Rightarrow> bool" where
  "secret_length_ok s = (32 \<le> length s \<and> int (length s) \<le> 1024)"

definition webhook_key_ok :: "string \<times> json \<Rightarrow> bool" where
  "webhook_key_ok kv = (safe_identifier (fst kv) \<and> (case snd kv of JStr s \<Rightarrow> secret_length_ok s | _ \<Rightarrow> False))"

definition select_webhook_key :: "runtime \<Rightarrow> string \<Rightarrow> string option \<Rightarrow> string result" where
  "select_webhook_key R raw key_id =
     (case rt_json_loads R (utf8 raw) of
        None \<Rightarrow> Inl (RuntimeError ''RANKLENS_INTEGRITY_WEBHOOK_KEYS_JSON must be valid JSON'')
      | Some (JObj keys) \<Rightarrow>
          if \<not> (1 \<le> length keys \<and> length keys \<le> 5) \<or> \<not> list_all webhook_key_ok keys
          then Inl (RuntimeError ''webhook signing keys must contain 1 to 5 safe key IDs with 32 to 1024 character secrets'')
          else (case Option.bind key_id (map_of keys) of
              Some (JStr s) \<Rightarrow> Inr s
            | _ \<Rightarrow> Inl (RuntimeError ''RANKLENS_INTEGRITY_WEBHOOK_ACTIVE_KEY_ID must select a configured webhook signing key''))
      | Some _ \<Rightarrow>
          Inl (RuntimeError ''webhook signing keys must contain 1 to 5 safe key IDs with 32 to 1024 character secrets''))"

text \<open>The secret and the key identifier the environment selects.\<close>

definition webhook_secret :: "runtime \<Rightarrow> environment \<Rightarrow> (string option \<times> string option) result" where
  "webhook_secret R env =
     (let legacy = env_opt env ''RANKLENS_INTEGRITY_WEBHOOK_SECRET'';
          raw = env_opt env ''RANKLENS_INTEGRITY_WEBHOOK_KEYS_JSON'';
          key_id = env_opt env ''RANKLENS_INTEGRITY_WEBHOOK_ACTIVE_KEY_ID''
      in if legacy \<noteq> None \<and> raw \<noteq> None
         then Inl (RuntimeError ''legacy webhook secret and webhook signing key set cannot both be configured'')
         else (case raw of
             Some keys \<Rightarrow> bindE (select_webhook_key R keys key_id) (\<lambda>s. Inr (Some s, key_id))
           | None \<Rightarrow>
               if key_id \<noteq> None
               then Inl (RuntimeError ''RANKLENS_INTEGRITY_WEBHOOK_ACTIVE_KEY_ID requires RANKLENS_INTEGRITY_WEBHOOK_KEYS_JSON'')
               else Inr (legacy, if legacy \<noteq> None then Some ''legacy'' else None)))"

definition https_url :: "url_parts \<Rightarrow> bool" where
  "https_url u = (up_scheme u = ''https'' \<and> up_hostname u \<noteq> None \<and> up_hostname u \<noteq> Some [] \<and> up_username u = None
     \<and> up_password u = None \<and> up_fragment u = [])"

definition check_webhook :: "(string \<Rightarrow> url_parts result) \<Rightarrow> string option \<Rightarrow> string option \<Rightarrow> unit result" where
  "check_webhook urlparse url secret =
     (if (url = None) \<noteq> (secret = None)
      then Inl (RuntimeError ''RANKLENS_INTEGRITY_WEBHOOK_URL and RANKLENS_INTEGRITY_WEBHOOK_SECRET must be configured together'')
      else (case url of
          None \<Rightarrow> Inr ()
        | Some u \<Rightarrow>
            bindE (urlparse u) (\<lambda>parts.
              if \<not> https_url parts
              then Inl (RuntimeError ''RANKLENS_INTEGRITY_WEBHOOK_URL must be an HTTPS URL without user info or a fragment'')
              else if \<not> opt_ok secret_length_ok secret
              then Inl (RuntimeError ''RANKLENS_INTEGRITY_WEBHOOK_SECRET must contain between 32 and 1024 characters'')
              else Inr ())))"

section \<open>The configuration\<close>

definition required_paths :: "environment \<Rightarrow> (string \<times> string) result" where
  "required_paths env =
     (case (env_opt env ''RANKLENS_DATABASE_URL'', env_opt env ''RANKLENS_OBJECT_ROOT'') of
        (Some database_url, Some object_root) \<Rightarrow> Inr (database_url, object_root)
      | _ \<Rightarrow> Inl (RuntimeError ''RANKLENS_DATABASE_URL and RANKLENS_OBJECT_ROOT are required''))"

definition check_limits :: "timings \<Rightarrow> unit result" where
  "check_limits tm =
     (if tm_integrity_webhook_timeout tm < 1 \<or> tm_integrity_webhook_timeout tm > 60
      then Inl (RuntimeError ''RANKLENS_INTEGRITY_WEBHOOK_TIMEOUT_SECONDS must be within [1, 60]'')
      else if \<not> (1024 * 1024 \<le> tm_max_evidence_download tm \<and> tm_max_evidence_download tm \<le> 1024 * 1024 * 1024)
      then Inl (RuntimeError ''RANKLENS_MAX_EVIDENCE_DOWNLOAD_BYTES must be within [1048576, 1073741824]'')
      else Inr ())"

definition bootstrap_requested :: "environment \<Rightarrow> bool" where
  "bootstrap_requested env =
     (map lower_char (env_or env ''RANKLENS_BOOTSTRAP_SCHEMA'' ''0'') \<in> {''1'', ''true'', ''yes''})"

definition make_settings ::
  "string \<times> string \<Rightarrow> MachineCredential list \<Rightarrow> timings \<Rightarrow> string option \<Rightarrow> string option \<times> string option \<Rightarrow> bool \<Rightarrow> Settings" where
  "make_settings paths credentials tm url key bootstrap =
     \<lparr>st_database_url = fst paths, st_object_root = snd paths, st_machine_credentials = credentials,
      st_max_expanded_segment_bytes = 8 * 1024 * 1024,
      st_max_evidence_download_bytes = tm_max_evidence_download tm,
      st_reservation_ttl_seconds = tm_reservation_ttl tm,
      st_reservation_sweep_seconds = tm_reservation_sweep tm,
      st_object_gc_grace_seconds = tm_object_gc_grace tm, st_object_gc_sweep_seconds = tm_object_gc_sweep tm,
      st_object_gc_audit_interval_seconds = tm_object_gc_audit_interval tm,
      st_object_gc_audit_sweep_seconds = tm_object_gc_audit_sweep tm,
      st_object_gc_audit_batch_size = tm_object_gc_audit_batch tm,
      st_default_retention_seconds = tm_default_retention tm,
      st_retention_sweep_seconds = tm_retention_sweep tm,
      st_retention_sweep_batch_size = tm_retention_sweep_batch tm,
      st_integrity_webhook_url = url, st_integrity_webhook_secret = fst key, st_integrity_webhook_key_id = snd key,
      st_integrity_webhook_timeout_seconds = tm_integrity_webhook_timeout tm, st_bootstrap_schema = bootstrap\<rparr>"

definition webhook_url :: "environment \<Rightarrow> string option" where
  "webhook_url env = env_opt env ''RANKLENS_INTEGRITY_WEBHOOK_URL''"

definition from_environment ::
  "runtime \<Rightarrow> iso_reader \<Rightarrow> (string \<Rightarrow> url_parts result) \<Rightarrow> environment \<Rightarrow> Settings result" where
  "from_environment R fromiso urlparse env =
     bindE (read_credentials R fromiso env) (\<lambda>credentials.
     bindE (required_paths env) (\<lambda>paths.
     bindE (read_timings env) (\<lambda>tm.
     bindE (check_lifecycle tm) (\<lambda>_.
     bindE (webhook_secret R env) (\<lambda>key.
     bindE (check_webhook urlparse (webhook_url env) (fst key)) (\<lambda>_.
     bindE (check_limits tm) (\<lambda>_.
       Inr (make_settings paths credentials tm (webhook_url env) key (bootstrap_requested env)))))))))"

section \<open>What a loaded configuration guarantees\<close>

definition credential_ok :: "MachineCredential \<Rightarrow> bool" where
  "credential_ok cr = (let p = mc_principal cr in
     sha256_hex (mc_token_sha256 cr) \<and> safe_identifier (mp_credential_id p) \<and> mp_tenant_id p \<noteq> []
     \<and> mp_clusters p \<noteq> [] \<and> [] \<notin> set (mp_clusters p)
     \<and> mp_permissions p \<noteq> [] \<and> set (mp_permissions p) \<subseteq> set MACHINE_PERMISSIONS
     \<and> \<not> empty_window (mc_not_before cr) (mc_expires_at cr))"

definition credentials_ok :: "MachineCredential list \<Rightarrow> bool" where
  "credentials_ok crs = (crs \<noteq> [] \<and> list_all credential_ok crs \<and> distinct (map mc_token_sha256 crs)
     \<and> distinct (map (mp_credential_id \<circ> mc_principal) crs))"

definition timings_ok :: "timings \<Rightarrow> bool" where
  "timings_ok tm = (60 \<le> tm_reservation_ttl tm \<and> tm_reservation_ttl tm \<le> 86400
     \<and> 1 \<le> tm_reservation_sweep tm \<and> tm_reservation_sweep tm \<le> 3600
     \<and> 300 \<le> tm_object_gc_grace tm \<and> tm_object_gc_grace tm \<le> 604800
     \<and> 1 \<le> tm_object_gc_sweep tm \<and> tm_object_gc_sweep tm \<le> 3600
     \<and> 300 \<le> tm_object_gc_audit_interval tm \<and> tm_object_gc_audit_interval tm \<le> 604800
     \<and> 1 \<le> tm_object_gc_audit_sweep tm \<and> tm_object_gc_audit_sweep tm \<le> 3600
     \<and> 1 \<le> tm_object_gc_audit_batch tm \<and> tm_object_gc_audit_batch tm \<le> 10000
     \<and> (tm_default_retention tm = 0 \<or> 3600 \<le> tm_default_retention tm \<and> tm_default_retention tm \<le> 315360000)
     \<and> 1 \<le> tm_retention_sweep tm \<and> tm_retention_sweep tm \<le> 3600
     \<and> 1 \<le> tm_retention_sweep_batch tm \<and> tm_retention_sweep_batch tm \<le> 10000
     \<and> 1 \<le> tm_integrity_webhook_timeout tm \<and> tm_integrity_webhook_timeout tm \<le> 60
     \<and> 1048576 \<le> tm_max_evidence_download tm \<and> tm_max_evidence_download tm \<le> 1073741824)"

definition timings_of :: "Settings \<Rightarrow> timings" where
  "timings_of s = \<lparr>tm_reservation_ttl = st_reservation_ttl_seconds s, tm_reservation_sweep = st_reservation_sweep_seconds s,
     tm_object_gc_grace = st_object_gc_grace_seconds s, tm_object_gc_sweep = st_object_gc_sweep_seconds s,
     tm_object_gc_audit_interval = st_object_gc_audit_interval_seconds s,
     tm_object_gc_audit_sweep = st_object_gc_audit_sweep_seconds s,
     tm_object_gc_audit_batch = st_object_gc_audit_batch_size s, tm_default_retention = st_default_retention_seconds s,
     tm_retention_sweep = st_retention_sweep_seconds s, tm_retention_sweep_batch = st_retention_sweep_batch_size s,
     tm_integrity_webhook_timeout = st_integrity_webhook_timeout_seconds s,
     tm_max_evidence_download = st_max_evidence_download_bytes s\<rparr>"

text \<open>Either no webhook is configured, or an HTTPS one with a signing secret and the identifier of its key.\<close>

definition webhook_ok :: "(string \<Rightarrow> url_parts result) \<Rightarrow> Settings \<Rightarrow> bool" where
  "webhook_ok urlparse s =
     (case (st_integrity_webhook_url s, st_integrity_webhook_secret s, st_integrity_webhook_key_id s) of
        (None, None, None) \<Rightarrow> True
      | (Some u, Some secret, Some k) \<Rightarrow>
          u \<noteq> [] \<and> (case urlparse u of Inl _ \<Rightarrow> False | Inr parts \<Rightarrow> https_url parts)
          \<and> secret_length_ok secret \<and> safe_identifier k
      | _ \<Rightarrow> False)"

definition settings_ok :: "(string \<Rightarrow> url_parts result) \<Rightarrow> Settings \<Rightarrow> bool" where
  "settings_ok urlparse s = (st_database_url s \<noteq> [] \<and> st_object_root s \<noteq> [] \<and> credentials_ok (st_machine_credentials s)
     \<and> st_max_expanded_segment_bytes s = 8388608 \<and> timings_ok (timings_of s) \<and> webhook_ok urlparse s)"

text \<open>A decoded JSON object is a \<open>dict\<close>: its keys are distinct.\<close>

definition decodes_to_dict :: "runtime \<Rightarrow> environment \<Rightarrow> string \<Rightarrow> bool" where
  "decodes_to_dict R env name = (\<forall>raw items. env name = Some raw \<longrightarrow> rt_json_loads R (utf8 raw) = Some (JObj items)
     \<longrightarrow> distinct (map fst items))"

lemma parse_credential_ok:
  assumes "parse_credential fromiso seen k v = Inr cr"
  shows "credential_ok cr \<and> mp_credential_id (mc_principal cr) = k \<and> mc_token_sha256 cr \<notin> set seen"
  using assms
  by (auto simp: parse_credential_def bindE_Inr_iff token_digest_def credential_scope_def credential_permissions_def
      credential_ok_def split: json.splits if_splits option.splits)

lemma parse_credentials_ok:
  assumes "parse_credentials fromiso seen items = Inr crs"
  shows "list_all credential_ok crs \<and> distinct (map mc_token_sha256 crs)
    \<and> mc_token_sha256 ` set crs \<inter> set seen = {} \<and> map (mp_credential_id \<circ> mc_principal) crs = map fst items"
  using assms
proof (induction fromiso seen items arbitrary: crs rule: parse_credentials.induct)
  case (2 fromiso seen k v items)
  then obtain cr rest where cr: "parse_credential fromiso seen k v = Inr cr"
    "parse_credentials fromiso (mc_token_sha256 cr # seen) items = Inr rest" "crs = cr # rest"
    by (auto simp: bindE_Inr_iff)
  from "2.IH" [OF cr(2)] parse_credential_ok [OF cr(1)] show ?case by (auto simp: cr(3))
qed simp

lemma read_credentials_ok:
  assumes "read_credentials R fromiso env = Inr crs" "decodes_to_dict R env ''RANKLENS_MACHINE_CREDENTIALS_JSON''"
  shows "credentials_ok crs"
proof -
  from assms(1) obtain raw items where i: "env ''RANKLENS_MACHINE_CREDENTIALS_JSON'' = Some raw"
    "rt_json_loads R (utf8 raw) = Some (JObj items)" "items \<noteq> []" "parse_credentials fromiso [] items = Inr crs"
    by (auto simp: read_credentials_def env_opt_def split: option.splits json.splits if_splits)
  from parse_credentials_ok [OF i(4)]
  have "list_all credential_ok crs" "distinct (map mc_token_sha256 crs)" "map (mp_credential_id \<circ> mc_principal) crs = map fst items"
    by simp_all
  moreover have "distinct (map fst items)" using assms(2) i(1,2) by (simp add: decodes_to_dict_def)
  moreover have "crs \<noteq> []" using i(3) calculation(3) by auto
  ultimately show ?thesis by (simp add: credentials_ok_def)
qed

lemma timings_checked: "check_lifecycle tm = Inr u \<and> check_limits tm = Inr v \<longleftrightarrow> timings_ok tm"
proof
  assume c: "check_lifecycle tm = Inr u \<and> check_limits tm = Inr v"
  then show "timings_ok tm" unfolding timings_ok_def
    by (auto simp: check_lifecycle_def check_limits_def not_less split: if_split_asm)
next
  assume "timings_ok tm"
  then show "check_lifecycle tm = Inr u \<and> check_limits tm = Inr v"
    by (simp add: timings_ok_def check_lifecycle_def check_limits_def not_less)
qed

lemma select_webhook_key_ok:
  assumes "select_webhook_key R raw key_id = Inr s"
  shows "\<exists>k. key_id = Some k \<and> safe_identifier k \<and> secret_length_ok s"
  using assms
  by (auto simp: select_webhook_key_def list_all_iff webhook_key_ok_def bind_eq_Some_conv
      split: option.splits json.splits if_splits dest!: map_of_SomeD)

lemma webhook_secret_ok:
  assumes "webhook_secret R env = Inr (secret, key_id)" "check_webhook urlparse url secret = Inr u" "opt_ok (\<lambda>x. x \<noteq> []) url"
    "st_integrity_webhook_url s = url" "st_integrity_webhook_secret s = secret" "st_integrity_webhook_key_id s = key_id"
  shows "webhook_ok urlparse s"
proof -
  have "safe_identifier ''legacy''" by code_simp
  with assms(1) have "(secret = None) = (key_id = None)" "opt_ok safe_identifier key_id"
    by (auto simp: webhook_secret_def Let_def bindE_Inr_iff split: if_splits option.splits dest!: select_webhook_key_ok)
  with assms(2-) show ?thesis
    by (auto simp: webhook_ok_def check_webhook_def bindE_Inr_iff split: option.splits if_splits)
qed

lemma loaded_settings_ok:
  assumes "from_environment R fromiso urlparse env = Inr s" "decodes_to_dict R env ''RANKLENS_MACHINE_CREDENTIALS_JSON''"
  shows "settings_ok urlparse s"
proof -
  from assms(1) obtain crs paths tm key where
    e: "read_credentials R fromiso env = Inr crs" "required_paths env = Inr paths" "check_lifecycle tm = Inr ()"
      "webhook_secret R env = Inr key" "check_webhook urlparse (webhook_url env) (fst key) = Inr ()" "check_limits tm = Inr ()"
    and s: "s = make_settings paths crs tm (webhook_url env) key (bootstrap_requested env)"
    by (auto simp: from_environment_def bindE_Inr_iff)
  have nonempty: "env_opt env k = Some x \<Longrightarrow> x \<noteq> []" for k x
    by (auto simp: env_opt_def split: option.splits if_splits)
  have "opt_ok (\<lambda>x. x \<noteq> []) (webhook_url env)"
    by (cases "webhook_url env") (simp_all add: nonempty webhook_url_def)
  then have "webhook_ok urlparse s"
    using webhook_secret_ok [of R env "fst key" "snd key" urlparse "webhook_url env" "()" s] e(4,5)
    by (simp add: s make_settings_def)
  moreover have "timings_of s = tm" by (simp add: s make_settings_def timings_of_def)
  then have "timings_ok (timings_of s)" using e(3,6) timings_checked by blast
  moreover have "credentials_ok crs" using e(1) assms(2) by (rule read_credentials_ok)
  moreover have "fst paths \<noteq> []" "snd paths \<noteq> []" using e(2)
    by (auto simp: required_paths_def nonempty split: option.splits)
  ultimately show ?thesis by (simp add: settings_ok_def s make_settings_def)
qed

text \<open>C26. Configuration is fail-closed: an environment that loads yields settings in which every timing and size is within
  its documented bounds, there is at least one credential, every credential is well formed and unexpired from the start,
  token digests and credential identifiers are unique, and a webhook is configured completely, over HTTPS and with a signing
  secret of the required length, or not at all.\<close>

theorem settings_fail_closed:
  assumes "from_environment R fromiso urlparse env = Inr s" "decodes_to_dict R env ''RANKLENS_MACHINE_CREDENTIALS_JSON''"
  shows "settings_ok urlparse s"
  by (rule loaded_settings_ok [OF assms])

section \<open>Every admissible configuration can be expressed\<close>

definition time_json :: "iso_writer \<Rightarrow> instant option \<Rightarrow> json" where
  "time_json isof t = (case t of None \<Rightarrow> JNull | Some x \<Rightarrow> JStr (isof x))"

definition credential_item :: "iso_writer \<Rightarrow> MachineCredential \<Rightarrow> string \<times> json" where
  "credential_item isof cr = (let p = mc_principal cr in (mp_credential_id p,
     JObj [(''token_sha256'', JStr (mc_token_sha256 cr)), (''tenant_id'', JStr (mp_tenant_id p)),
       (''clusters'', JArr (map JStr (mp_clusters p))), (''permissions'', JArr (map JStr (mp_permissions p))),
       (''not_before'', time_json isof (mc_not_before cr)), (''expires_at'', time_json isof (mc_expires_at cr))]))"

definition timing_variables :: "timings \<Rightarrow> (string \<times> string) list" where
  "timing_variables tm =
     [(''RANKLENS_RESERVATION_TTL_SECONDS'', show_int (tm_reservation_ttl tm)),
      (''RANKLENS_RESERVATION_SWEEP_SECONDS'', show_int (tm_reservation_sweep tm)),
      (''RANKLENS_OBJECT_GC_GRACE_SECONDS'', show_int (tm_object_gc_grace tm)),
      (''RANKLENS_OBJECT_GC_SWEEP_SECONDS'', show_int (tm_object_gc_sweep tm)),
      (''RANKLENS_OBJECT_GC_AUDIT_INTERVAL_SECONDS'', show_int (tm_object_gc_audit_interval tm)),
      (''RANKLENS_OBJECT_GC_AUDIT_SWEEP_SECONDS'', show_int (tm_object_gc_audit_sweep tm)),
      (''RANKLENS_OBJECT_GC_AUDIT_BATCH_SIZE'', show_int (tm_object_gc_audit_batch tm)),
      (''RANKLENS_DEFAULT_RETENTION_SECONDS'', show_int (tm_default_retention tm)),
      (''RANKLENS_RETENTION_SWEEP_SECONDS'', show_int (tm_retention_sweep tm)),
      (''RANKLENS_RETENTION_SWEEP_BATCH_SIZE'', show_int (tm_retention_sweep_batch tm)),
      (''RANKLENS_INTEGRITY_WEBHOOK_TIMEOUT_SECONDS'', show_int (tm_integrity_webhook_timeout tm)),
      (''RANKLENS_MAX_EVIDENCE_DOWNLOAD_BYTES'', show_int (tm_max_evidence_download tm))]"

definition optional_variable :: "string \<Rightarrow> string option \<Rightarrow> (string \<times> string) list" where
  "optional_variable name v = (case v of None \<Rightarrow> [] | Some x \<Rightarrow> [(name, x)])"

definition webhook_variables :: "string \<Rightarrow> Settings \<Rightarrow> (string \<times> string) list" where
  "webhook_variables keys s =
     optional_variable ''RANKLENS_INTEGRITY_WEBHOOK_URL'' (st_integrity_webhook_url s)
     @ optional_variable ''RANKLENS_INTEGRITY_WEBHOOK_KEYS_JSON'' (map_option (\<lambda>_. keys) (st_integrity_webhook_key_id s))
     @ optional_variable ''RANKLENS_INTEGRITY_WEBHOOK_ACTIVE_KEY_ID'' (st_integrity_webhook_key_id s)"

definition settings_environment :: "string \<Rightarrow> string \<Rightarrow> Settings \<Rightarrow> environment" where
  "settings_environment credentials keys s = map_of (
     [(''RANKLENS_MACHINE_CREDENTIALS_JSON'', credentials), (''RANKLENS_DATABASE_URL'', st_database_url s),
      (''RANKLENS_OBJECT_ROOT'', st_object_root s),
      (''RANKLENS_BOOTSTRAP_SCHEMA'', if st_bootstrap_schema s then ''1'' else ''0'')]
     @ timing_variables (timings_of s) @ webhook_variables keys s)"

lemma json_strings_map [simp]: "json_strings (map JStr ss) = Some ss"
  by (induction ss) simp_all

lemma parse_credential_item:
  assumes "credential_ok cr" "mc_token_sha256 cr \<notin> set seen" "iso_roundtrip isof fromiso"
  shows "parse_credential fromiso seen (fst (credential_item isof cr)) (snd (credential_item isof cr)) = Inr cr"
proof -
  have t: "optional_utc_datetime fromiso (time_json isof t) f = Inr t" for t f
    using assms(3)
    by (cases t) (simp_all add: time_json_def optional_utc_datetime_def iso_roundtrip_def utc_def dt_instant_def)
  have p: "credential_permissions (JArr (map JStr (mp_permissions (mc_principal cr)))) = Inr (mp_permissions (mc_principal cr))"
    "credential_scope (JStr (mp_tenant_id (mc_principal cr))) (JArr (map JStr (mp_clusters (mc_principal cr))))
       = Inr (mp_tenant_id (mc_principal cr), mp_clusters (mc_principal cr))"
    "token_digest seen (JStr (mc_token_sha256 cr)) = Inr (mc_token_sha256 cr)"
    using assms(1,2) by (simp_all add: credential_ok_def Let_def credential_permissions_def credential_scope_def token_digest_def)
  show ?thesis using assms(1)
    by (simp add: credential_item_def Let_def parse_credential_def allowed_fields_def jget_def t p credential_ok_def)
qed

lemma parse_credential_items:
  assumes "list_all credential_ok crs" "distinct (map mc_token_sha256 crs)" "iso_roundtrip isof fromiso"
    "mc_token_sha256 ` set crs \<inter> set seen = {}"
  shows "parse_credentials fromiso seen (map (credential_item isof) crs) = Inr crs"
  using assms(1,2,4)
proof (induction crs arbitrary: seen)
  case (Cons cr crs)
  have "parse_credentials fromiso (mc_token_sha256 cr # seen) (map (credential_item isof) crs) = Inr crs"
    by (rule Cons.IH) (use Cons.prems in auto)
  moreover have "parse_credential fromiso seen (fst (credential_item isof cr)) (snd (credential_item isof cr)) = Inr cr"
    by (rule parse_credential_item) (use Cons.prems assms(3) in auto)
  ultimately show ?case by (cases "credential_item isof cr") simp
qed simp

lemma optional_variable_simps [simp]:
  "optional_variable name None = []" "optional_variable name (Some x) = [(name, x)]"
  by (simp_all add: optional_variable_def)

lemma base_lookups:
  "settings_environment c k s ''RANKLENS_MACHINE_CREDENTIALS_JSON'' = Some c"
  "settings_environment c k s ''RANKLENS_DATABASE_URL'' = Some (st_database_url s)"
  "settings_environment c k s ''RANKLENS_OBJECT_ROOT'' = Some (st_object_root s)"
  "settings_environment c k s ''RANKLENS_BOOTSTRAP_SCHEMA'' = Some (if st_bootstrap_schema s then ''1'' else ''0'')"
  by (simp_all add: settings_environment_def)

lemma webhook_lookups:
  assumes "webhook_ok urlparse s"
  shows "settings_environment c k s ''RANKLENS_INTEGRITY_WEBHOOK_SECRET'' = None"
    "settings_environment c k s ''RANKLENS_INTEGRITY_WEBHOOK_URL'' = st_integrity_webhook_url s"
    "settings_environment c k s ''RANKLENS_INTEGRITY_WEBHOOK_KEYS_JSON'' = map_option (\<lambda>_. k) (st_integrity_webhook_key_id s)"
    "settings_environment c k s ''RANKLENS_INTEGRITY_WEBHOOK_ACTIVE_KEY_ID'' = st_integrity_webhook_key_id s"
  using assms
  by (cases "st_integrity_webhook_url s"; cases "st_integrity_webhook_key_id s";
      simp add: settings_environment_def timing_variables_def webhook_variables_def webhook_ok_def split: option.splits)+

lemma timing_lookups:
  "settings_environment c k s ''RANKLENS_RESERVATION_TTL_SECONDS'' = Some (show_int (tm_reservation_ttl (timings_of s)))"
  "settings_environment c k s ''RANKLENS_RESERVATION_SWEEP_SECONDS'' = Some (show_int (tm_reservation_sweep (timings_of s)))"
  "settings_environment c k s ''RANKLENS_OBJECT_GC_GRACE_SECONDS'' = Some (show_int (tm_object_gc_grace (timings_of s)))"
  "settings_environment c k s ''RANKLENS_OBJECT_GC_SWEEP_SECONDS'' = Some (show_int (tm_object_gc_sweep (timings_of s)))"
  "settings_environment c k s ''RANKLENS_OBJECT_GC_AUDIT_INTERVAL_SECONDS'' = Some (show_int (tm_object_gc_audit_interval (timings_of s)))"
  "settings_environment c k s ''RANKLENS_OBJECT_GC_AUDIT_SWEEP_SECONDS'' = Some (show_int (tm_object_gc_audit_sweep (timings_of s)))"
  "settings_environment c k s ''RANKLENS_OBJECT_GC_AUDIT_BATCH_SIZE'' = Some (show_int (tm_object_gc_audit_batch (timings_of s)))"
  "settings_environment c k s ''RANKLENS_DEFAULT_RETENTION_SECONDS'' = Some (show_int (tm_default_retention (timings_of s)))"
  "settings_environment c k s ''RANKLENS_RETENTION_SWEEP_SECONDS'' = Some (show_int (tm_retention_sweep (timings_of s)))"
  "settings_environment c k s ''RANKLENS_RETENTION_SWEEP_BATCH_SIZE'' = Some (show_int (tm_retention_sweep_batch (timings_of s)))"
  "settings_environment c k s ''RANKLENS_INTEGRITY_WEBHOOK_TIMEOUT_SECONDS'' = Some (show_int (tm_integrity_webhook_timeout (timings_of s)))"
  "settings_environment c k s ''RANKLENS_MAX_EVIDENCE_DOWNLOAD_BYTES'' = Some (show_int (tm_max_evidence_download (timings_of s)))"
  by (simp_all add: settings_environment_def timing_variables_def)

lemma read_timings_environment: "read_timings (settings_environment c k s) = Inr (timings_of s)"
  by (simp add: read_timings_def int_setting_def env_or_def timing_lookups)

text \<open>C27. Every admissible configuration can be expressed: writing settings that satisfy the guarantees above into the
  environment, with the credentials and the signing key as JSON objects, and loading them gives back the same settings.\<close>

theorem settings_reload:
  assumes "settings_ok urlparse s" "iso_roundtrip isof fromiso" "credentials \<noteq> []" "keys \<noteq> []"
    "rt_json_loads R (utf8 credentials) = Some (JObj (map (credential_item isof) (st_machine_credentials s)))"
    "\<And>k x. st_integrity_webhook_key_id s = Some k \<Longrightarrow> st_integrity_webhook_secret s = Some x \<Longrightarrow>
       rt_json_loads R (utf8 keys) = Some (JObj [(k, JStr x)])"
  shows "from_environment R fromiso urlparse (settings_environment credentials keys s) = Inr s"
proof -
  let ?env = "settings_environment credentials keys s"
  from assms(1) have ok: "credentials_ok (st_machine_credentials s)" "timings_ok (timings_of s)" "webhook_ok urlparse s"
    "st_database_url s \<noteq> []" "st_object_root s \<noteq> []" "st_max_expanded_segment_bytes s = 8388608"
    by (simp_all add: settings_ok_def)
  have o: "env_opt ?env n = Some v" if "?env n = Some v" "v \<noteq> []" for n v using that by (simp add: env_opt_def)
  have "parse_credentials fromiso [] (map (credential_item isof) (st_machine_credentials s)) = Inr (st_machine_credentials s)"
    by (rule parse_credential_items) (use ok(1) assms(2) in \<open>simp_all add: credentials_ok_def\<close>)
  then have c: "read_credentials R fromiso ?env = Inr (st_machine_credentials s)"
    using ok(1) by (simp add: read_credentials_def o [OF base_lookups(1)] assms(3,5) credentials_ok_def)
  have p: "required_paths ?env = Inr (st_database_url s, st_object_root s)"
    by (simp add: required_paths_def o [OF base_lookups(2)] o [OF base_lookups(3)] ok)
  have b: "bootstrap_requested ?env = st_bootstrap_schema s"
    by (simp add: bootstrap_requested_def env_or_def base_lookups lower_char_def in_range_def)
  note w = webhook_lookups [OF ok(3)]
  have u: "webhook_url ?env = st_integrity_webhook_url s"
    using ok(3) by (auto simp: webhook_url_def env_opt_def w webhook_ok_def split: option.splits)
  have k: "webhook_secret R ?env = Inr (st_integrity_webhook_secret s, st_integrity_webhook_key_id s)"
  proof (cases "st_integrity_webhook_key_id s")
    case None
    with ok(3) show ?thesis by (auto simp: webhook_secret_def Let_def env_opt_def w webhook_ok_def split: option.splits)
  next
    case (Some kid)
    with ok(3) obtain x where x: "st_integrity_webhook_secret s = Some x" "secret_length_ok x" "safe_identifier kid"
      by (auto simp: webhook_ok_def split: option.splits)
    then have "kid \<noteq> []" by (auto simp: safe_identifier_def)
    have "select_webhook_key R keys (Some kid) = Inr x"
      using x by (simp add: select_webhook_key_def assms(6) [OF Some x(1)] webhook_key_ok_def)
    with Some x \<open>kid \<noteq> []\<close> assms(4) show ?thesis by (simp add: webhook_secret_def Let_def env_opt_def w)
  qed
  have h: "check_webhook urlparse (st_integrity_webhook_url s) (st_integrity_webhook_secret s) = Inr ()"
    using ok(3) by (auto simp: check_webhook_def webhook_ok_def split: option.splits sum.splits)
  have t: "check_lifecycle (timings_of s) = Inr ()" "check_limits (timings_of s) = Inr ()"
    using ok(2) timings_checked by blast+
  have "make_settings (st_database_url s, st_object_root s) (st_machine_credentials s) (timings_of s) (st_integrity_webhook_url s)
      (st_integrity_webhook_secret s, st_integrity_webhook_key_id s) (st_bootstrap_schema s) = s"
    by (simp add: make_settings_def timings_of_def ok(6))
  then show ?thesis by (simp add: from_environment_def c p read_timings_environment b u k h t)
qed

section \<open>Witnesses\<close>

definition demo_credential :: MachineCredential where
  "demo_credential = \<lparr>mc_token_sha256 = replicate 64 (CHR ''a''),
     mc_principal = \<lparr>mp_tenant_id = ''t'', mp_clusters = [''c''], mp_credential_id = ''agent'',
       mp_permissions = [''segments:write'']\<rparr>,
     mc_not_before = None, mc_expires_at = Some 7\<rparr>"

definition demo_settings :: Settings where
  "demo_settings = \<lparr>st_database_url = ''d'', st_object_root = ''o'', st_machine_credentials = [demo_credential],
     st_max_expanded_segment_bytes = 8388608, st_max_evidence_download_bytes = 67108864, st_reservation_ttl_seconds = 900,
     st_reservation_sweep_seconds = 30, st_object_gc_grace_seconds = 3600, st_object_gc_sweep_seconds = 30,
     st_object_gc_audit_interval_seconds = 86400, st_object_gc_audit_sweep_seconds = 300,
     st_object_gc_audit_batch_size = 100, st_default_retention_seconds = 0, st_retention_sweep_seconds = 300,
     st_retention_sweep_batch_size = 100, st_integrity_webhook_url = Some ''h'',
     st_integrity_webhook_secret = Some (replicate 32 (CHR ''s'')), st_integrity_webhook_key_id = Some ''k'',
     st_integrity_webhook_timeout_seconds = 10, st_bootstrap_schema = False\<rparr>"

definition demo_urlparse :: "string \<Rightarrow> url_parts result" where
  "demo_urlparse u = Inr \<lparr>up_scheme = ''https'', up_hostname = Some u, up_username = None, up_password = None, up_fragment = []\<rparr>"

definition demo_loads :: runtime where
  "demo_loads = \<lparr>rt_sha256 = (\<lambda>_. []), rt_hmac_sha256 = (\<lambda>_ _. []), rt_b64decode = (\<lambda>_. None),
     rt_json_loads = (\<lambda>b. if b = ''C'' then Some (JObj (map (credential_item demo_iso) [demo_credential]))
        else Some (JObj [(''k'', JStr (replicate 32 (CHR ''s'')))]))\<rparr>"

lemma demo_credential_ok: "credential_ok demo_credential"
proof -
  have "sha256_hex (replicate 64 (CHR ''a''))" by code_simp
  moreover have "safe_identifier ''agent''" by code_simp
  ultimately show ?thesis by (simp add: credential_ok_def demo_credential_def MACHINE_PERMISSIONS_def empty_window_def)
qed

lemma demo_settings_ok: "settings_ok demo_urlparse demo_settings"
proof -
  have "safe_identifier ''k''" by code_simp
  then show ?thesis
    by (simp add: settings_ok_def demo_settings_def credentials_ok_def demo_credential_ok timings_ok_def timings_of_def
        webhook_ok_def demo_urlparse_def https_url_def secret_length_ok_def)
qed

lemma demo_decoded:
  "rt_json_loads demo_loads (utf8 ''C'') = Some (JObj (map (credential_item demo_iso) (st_machine_credentials demo_settings)))"
  "rt_json_loads demo_loads (utf8 ''K'') = Some (JObj [(''k'', JStr (replicate 32 (CHR ''s'')))])"
  by (simp_all add: demo_loads_def demo_settings_def utf8_def utf8_char_def)

theorem settings_reload_witness:
  "from_environment demo_loads demo_fromiso demo_urlparse (settings_environment ''C'' ''K'' demo_settings) = Inr demo_settings"
  by (rule settings_reload [OF demo_settings_ok demo_iso_roundtrip _ _ demo_decoded(1)])
     (simp_all add: demo_decoded(2) demo_settings_def)

lemma demo_loaded:
  "from_environment demo_loads demo_fromiso demo_urlparse
     [''RANKLENS_MACHINE_CREDENTIALS_JSON'' \<mapsto> ''C'', ''RANKLENS_DATABASE_URL'' \<mapsto> ''d'', ''RANKLENS_OBJECT_ROOT'' \<mapsto> ''o'']
   = Inr (demo_settings\<lparr>st_integrity_webhook_url := None, st_integrity_webhook_secret := None,
       st_integrity_webhook_key_id := None\<rparr>)" (is "from_environment _ _ _ ?env = _")
proof -
  have c: "read_credentials demo_loads demo_fromiso ?env = Inr [demo_credential]"
    using parse_credential_items [of "[demo_credential]" demo_iso demo_fromiso "[]"] demo_credential_ok demo_iso_roundtrip demo_decoded(1)
    by (simp add: read_credentials_def env_opt_def demo_settings_def)
  have t: "read_timings ?env = Inr (timings_of demo_settings)"
    by (simp add: read_timings_def int_setting_def env_or_def timings_of_def demo_settings_def)
  have l: "check_lifecycle (timings_of demo_settings) = Inr ()" "check_limits (timings_of demo_settings) = Inr ()"
    using timings_checked demo_settings_ok by (auto simp: settings_ok_def)
  have m: "make_settings (''d'', ''o'') [demo_credential] (timings_of demo_settings) None (None, None) False
      = demo_settings\<lparr>st_integrity_webhook_url := None, st_integrity_webhook_secret := None, st_integrity_webhook_key_id := None\<rparr>"
    by (simp add: make_settings_def timings_of_def demo_settings_def)
  show ?thesis
    by (simp add: from_environment_def c t l m required_paths_def env_opt_def webhook_secret_def check_webhook_def webhook_url_def
        bootstrap_requested_def env_or_def lower_char_def in_range_def)
qed

theorem settings_fail_closed_witness:
  "\<exists>s. from_environment demo_loads demo_fromiso demo_urlparse
     [''RANKLENS_MACHINE_CREDENTIALS_JSON'' \<mapsto> ''C'', ''RANKLENS_DATABASE_URL'' \<mapsto> ''d'', ''RANKLENS_OBJECT_ROOT'' \<mapsto> ''o'']
     = Inr s \<and> settings_ok demo_urlparse s"
proof -
  have "decodes_to_dict demo_loads [''RANKLENS_MACHINE_CREDENTIALS_JSON'' \<mapsto> ''C'', ''RANKLENS_DATABASE_URL'' \<mapsto> ''d'',
      ''RANKLENS_OBJECT_ROOT'' \<mapsto> ''o''] ''RANKLENS_MACHINE_CREDENTIALS_JSON''"
    by (simp add: decodes_to_dict_def demo_decoded(1) demo_settings_def)
  with demo_loaded settings_fail_closed show ?thesis by blast
qed

end
