(* ===== verification/Auth.thy ===== *)
theory Auth
  imports Service_Settings Catalog
begin

text \<open>
  \<^verbatim>\<open>auth.py\<close>: bearer authentication of machine credentials against the configuration and the revocation table,
  the permission each surface asks for, and the revocation of a credential by a security administrator of its tenant.
  An \<open>HTTPException\<close> carries its status code and the \<open>code\<close> of its detail.
\<close>

section \<open>Authentication\<close>

record MachineAuthenticator =
  ma_credentials :: "MachineCredential list"

definition cred_id :: "MachineCredential \<Rightarrow> string" where
  "cred_id cr = mp_credential_id (mc_principal cr)"

definition credentials_by_id :: "MachineCredential list \<Rightarrow> (string \<times> MachineCredential) list" where
  "credentials_by_id crs = dict_of (map (\<lambda>cr. (cred_id cr, cr)) crs)"

definition make_authenticator :: "Settings \<Rightarrow> MachineAuthenticator result" where
  "make_authenticator s =
     (let crs = st_machine_credentials s
      in if length (credentials_by_id crs) \<noteq> length crs then Inl (RuntimeError ''machine credential IDs must be unique'')
         else Inr \<lparr>ma_credentials = crs\<rparr>)"

definition get_revocation :: "catalog \<Rightarrow> string \<times> string \<Rightarrow> MachineCredentialRevocation option" where
  "get_revocation c k = List.find (\<lambda>r. (mcr_tenant_id r, mcr_credential_id r) = k) (revocations c)"

definition is_revoked :: "catalog \<Rightarrow> MachinePrincipal \<Rightarrow> bool" where
  "is_revoked c p = (get_revocation c (mp_tenant_id p, mp_credential_id p) \<noteq> None)"

text \<open>\<open>authorization.partition(" ")\<close>, and the token when the scheme is \<open>bearer\<close>.\<close>

definition bearer_token :: "string \<Rightarrow> string option" where
  "bearer_token authorization =
     (let scheme = takeWhile (\<lambda>ch. ch \<noteq> CHR '' '') authorization;
          rest = dropWhile (\<lambda>ch. ch \<noteq> CHR '' '') authorization
      in if rest = [] \<or> map lower_char scheme \<noteq> ''bearer'' \<or> List.tl rest = [] then None else Some (List.tl rest))"

definition matching_credential :: "MachineCredential list \<Rightarrow> string \<Rightarrow> MachineCredential option" where
  "matching_credential crs digest = fold (\<lambda>cr m. if mc_token_sha256 cr = digest then Some cr else m) crs None"

definition outside_window :: "MachineCredential \<Rightarrow> instant \<Rightarrow> bool" where
  "outside_window cr now = ((case mc_not_before cr of None \<Rightarrow> False | Some t \<Rightarrow> now < t)
     \<or> (case mc_expires_at cr of None \<Rightarrow> False | Some t \<Rightarrow> t \<le> now))"

definition auth_invalid :: py_error where
  "auth_invalid = HTTPException 401 ''machine_auth_invalid''"

definition authenticate ::
  "runtime \<Rightarrow> MachineAuthenticator \<Rightarrow> string \<Rightarrow> string \<Rightarrow> datetime \<Rightarrow> catalog \<Rightarrow> MachinePrincipal result" where
  "authenticate R ma authorization permission now c =
     (case bearer_token authorization of
        None \<Rightarrow> Inl (HTTPException 401 ''machine_auth_required'')
      | Some supplied \<Rightarrow>
          (case matching_credential (ma_credentials ma) (rt_sha256 R (utf8 supplied)) of
             None \<Rightarrow> Inl auth_invalid
           | Some matched \<Rightarrow>
               if dt_offset now = None then Inl (RuntimeError ''machine authentication clock must be timezone-aware'')
               else if outside_window matched (dt_instant now) then Inl auth_invalid
               else if is_revoked c (mc_principal matched) then Inl auth_invalid
               else if permission \<notin> set (mp_permissions (mc_principal matched))
               then Inl (HTTPException 403 ''machine_auth_forbidden'')
               else Inr (mc_principal matched)))"

definition authenticate_ingest where
  "authenticate_ingest R ma authorization = authenticate R ma authorization ''segments:write''"

definition authenticate_read where
  "authenticate_read R ma authorization = authenticate R ma authorization ''telemetry:read''"

definition authenticate_retention_admin where
  "authenticate_retention_admin R ma authorization = authenticate R ma authorization ''retention:admin''"

definition authenticate_security_admin where
  "authenticate_security_admin R ma authorization = authenticate R ma authorization ''credentials:revoke''"

definition authenticate_integrity_admin where
  "authenticate_integrity_admin R ma authorization = authenticate R ma authorization ''integrity:admin''"

definition authenticate_evidence_download where
  "authenticate_evidence_download R ma authorization = authenticate R ma authorization ''evidence:download''"

section \<open>Revocation\<close>

definition revoke_txn ::
  "MachinePrincipal \<Rightarrow> string \<Rightarrow> string \<Rightarrow> instant \<Rightarrow> catalog \<Rightarrow> MachineCredentialRevocation result \<times> catalog" where
  "revoke_txn p credential_id reason now c =
     (case get_revocation c (mp_tenant_id p, credential_id) of
        Some existing \<Rightarrow>
          if mcr_reason existing \<noteq> reason \<or> mcr_revoked_by_credential_id existing \<noteq> mp_credential_id p
          then (Inl (ValueError ''machine credential already has a different revocation''), c)
          else (Inr existing, c)
      | None \<Rightarrow>
          (let revocation = \<lparr>mcr_tenant_id = mp_tenant_id p, mcr_credential_id = credential_id, mcr_reason = reason,
                 mcr_revoked_by_credential_id = mp_credential_id p, mcr_revoked_at = now\<rparr>
           in (Inr revocation, c\<lparr>revocations := revocations c @ [revocation]\<rparr>)))"

definition revoke_credential ::
  "MachineAuthenticator \<Rightarrow> MachinePrincipal \<Rightarrow> string \<Rightarrow> string \<Rightarrow> datetime \<Rightarrow> catalog
   \<Rightarrow> MachineCredentialRevocation result \<times> catalog" where
  "revoke_credential ma p credential_id raw_reason now c =
     (let reason = str_strip raw_reason in
      if reason = [] \<or> length reason > 512
      then (Inl (ValueError ''revocation reason must contain between 1 and 512 characters''), c)
      else if credential_id = mp_credential_id p
      then (Inl (ValueError ''a security credential cannot revoke itself''), c)
      else (case map_of (credentials_by_id (ma_credentials ma)) credential_id of
          None \<Rightarrow> (Inl (LookupError ''machine credential does not exist''), c)
        | Some target \<Rightarrow>
            if mp_tenant_id (mc_principal target) \<noteq> mp_tenant_id p
            then (Inl (LookupError ''machine credential does not exist''), c)
            else if dt_offset now = None
            then (Inl (RuntimeError ''machine authentication clock must be timezone-aware''), c)
            else begin_txn (revoke_txn p credential_id reason (dt_instant now)) c))"

section \<open>Laws\<close>

lemma matching_fold:
  "fold (\<lambda>cr m. if mc_token_sha256 cr = d then Some cr else m) crs init = Some cr \<Longrightarrow>
     (cr \<in> set crs \<and> mc_token_sha256 cr = d) \<or> init = Some cr"
  by (induction crs arbitrary: init) (auto split: if_splits)

lemma matching_fold_None:
  "fold (\<lambda>cr m. if mc_token_sha256 cr = d then Some cr else m) crs init = None \<Longrightarrow>
     init = None \<and> (\<forall>cr \<in> set crs. mc_token_sha256 cr \<noteq> d)"
proof (induction crs arbitrary: init)
  case (Cons cr crs)
  from Cons.prems have "fold (\<lambda>cr m. if mc_token_sha256 cr = d then Some cr else m) crs
      (if mc_token_sha256 cr = d then Some cr else init) = None" by (simp only: fold_Cons o_apply)
  then have i: "(if mc_token_sha256 cr = d then Some cr else init) = None \<and> (\<forall>x \<in> set crs. mc_token_sha256 x \<noteq> d)"
    by (rule Cons.IH)
  then have "mc_token_sha256 cr \<noteq> d" by (auto split: if_splits)
  with i show ?case by simp
qed simp

lemma matching_credential_Some: "matching_credential crs d = Some cr \<Longrightarrow> cr \<in> set crs \<and> mc_token_sha256 cr = d"
  unfolding matching_credential_def by (drule matching_fold) simp

lemma matching_credential_unique:
  assumes "distinct (map mc_token_sha256 crs)"
  shows "matching_credential crs d = Some cr \<longleftrightarrow> cr \<in> set crs \<and> mc_token_sha256 cr = d"
proof
  assume cr: "cr \<in> set crs \<and> mc_token_sha256 cr = d"
  have "matching_credential crs d \<noteq> None"
  proof
    assume "matching_credential crs d = None"
    from matching_fold_None [OF this [unfolded matching_credential_def]] cr show False by blast
  qed
  then obtain cr' where m: "matching_credential crs d = Some cr'" by blast
  have "inj_on mc_token_sha256 (set crs)" using assms by (simp add: distinct_map)
  then have "cr' = cr" by (rule inj_onD) (use cr matching_credential_Some [OF m] in simp_all)
  with m show "matching_credential crs d = Some cr" by simp
qed (rule matching_credential_Some)

lemma make_authenticator_iff:
  "make_authenticator s = Inr ma \<longleftrightarrow> distinct (map cred_id (st_machine_credentials s)) \<and> ma = \<lparr>ma_credentials = st_machine_credentials s\<rparr>"
  using dict_of_shorter [of "map (\<lambda>cr. (cred_id cr, cr)) (st_machine_credentials s)"]
  by (auto simp: make_authenticator_def credentials_by_id_def Let_def o_def)

lemma by_id_unique:
  assumes "distinct (map cred_id crs)"
  shows "map_of (credentials_by_id crs) k = Some cr \<longleftrightarrow> cr \<in> set crs \<and> cred_id cr = k"
proof -
  have d: "credentials_by_id crs = map (\<lambda>cr. (cred_id cr, cr)) crs"
    using assms dict_of_distinct [of "map (\<lambda>cr. (cred_id cr, cr)) crs"] by (simp add: credentials_by_id_def o_def)
  have "distinct (map fst (map (\<lambda>cr. (cred_id cr, cr)) crs))" using assms by (simp add: o_def)
  then show ?thesis unfolding d by (subst map_of_eq_Some_iff) auto
qed

section \<open>Who is authenticated\<close>

text \<open>A request presents a credential when it carries a bearer token with the configured digest.\<close>

definition presents :: "runtime \<Rightarrow> string \<Rightarrow> MachineCredential \<Rightarrow> bool" where
  "presents R authorization cr =
     (case bearer_token authorization of None \<Rightarrow> False | Some t \<Rightarrow> rt_sha256 R (utf8 t) = mc_token_sha256 cr)"

text \<open>A credential counts when it is configured, presented, inside its window and not revoked.\<close>

definition valid_credential ::
  "runtime \<Rightarrow> MachineAuthenticator \<Rightarrow> string \<Rightarrow> instant \<Rightarrow> catalog \<Rightarrow> MachineCredential \<Rightarrow> bool" where
  "valid_credential R ma authorization now c cr = (cr \<in> set (ma_credentials ma) \<and> presents R authorization cr
     \<and> \<not> outside_window cr now \<and> \<not> is_revoked c (mc_principal cr))"

definition unique_digests :: "MachineAuthenticator \<Rightarrow> bool" where
  "unique_digests ma = distinct (map mc_token_sha256 (ma_credentials ma))"

lemma presents_iff:
  assumes "unique_digests ma" "bearer_token authorization = Some t"
  shows "matching_credential (ma_credentials ma) (rt_sha256 R (utf8 t)) = Some cr
    \<longleftrightarrow> cr \<in> set (ma_credentials ma) \<and> presents R authorization cr"
  using assms(2) matching_credential_unique [OF assms(1) [unfolded unique_digests_def]] by (auto simp: presents_def)

lemma valid_credential_unique:
  assumes "unique_digests ma" "valid_credential R ma a now c cr" "valid_credential R ma a now' c' cr'"
  shows "cr' = cr"
proof -
  from assms(2) obtain t where t: "bearer_token a = Some t"
    by (auto simp: valid_credential_def presents_def split: option.splits)
  from presents_iff [OF assms(1) t, of R cr] presents_iff [OF assms(1) t, of R cr'] assms(2,3) show ?thesis
    by (simp add: valid_credential_def)
qed

lemma authenticate_valid:
  assumes "unique_digests ma" "dt_offset now \<noteq> None" "valid_credential R ma a (dt_instant now) c cr"
  shows "authenticate R ma a perm now c =
    (if perm \<in> set (mp_permissions (mc_principal cr)) then Inr (mc_principal cr) else Inl (HTTPException 403 ''machine_auth_forbidden''))"
proof -
  from assms(3) obtain t where t: "bearer_token a = Some t"
    by (auto simp: valid_credential_def presents_def split: option.splits)
  with presents_iff [OF assms(1) t, of R cr] assms(2,3) show ?thesis by (simp add: authenticate_def valid_credential_def)
qed

lemma authenticate_invalid:
  assumes "unique_digests ma" "dt_offset now \<noteq> None" "\<And>cr. \<not> valid_credential R ma a (dt_instant now) c cr"
  shows "authenticate R ma a perm now c = Inl (HTTPException 401
    (if bearer_token a = None then ''machine_auth_required'' else ''machine_auth_invalid''))"
proof (cases "bearer_token a")
  case None
  then show ?thesis by (simp add: authenticate_def)
next
  case (Some t)
  show ?thesis
  proof (cases "matching_credential (ma_credentials ma) (rt_sha256 R (utf8 t))")
    case None
    with Some show ?thesis by (simp add: authenticate_def auth_invalid_def)
  next
    case m: (Some cr)
    with presents_iff [OF assms(1) Some, of R cr] assms(3) [of cr] have
      "outside_window cr (dt_instant now) \<or> is_revoked c (mc_principal cr)" by (simp add: valid_credential_def)
    with Some m assms(2) show ?thesis by (auto simp: authenticate_def auth_invalid_def)
  qed
qed

text \<open>C28. Authentication is exact: a request is authenticated as a principal precisely when it presents a configured
  credential of that principal that is inside its validity window, not revoked, and carries the permission the surface asks
  for; the answer is 403 precisely when only the permission is missing, and 401 in every other case.\<close>

theorem authentication_exact:
  assumes "unique_digests ma" "dt_offset now \<noteq> None"
  shows "(authenticate R ma a perm now c = Inr p \<longleftrightarrow>
      (\<exists>cr. valid_credential R ma a (dt_instant now) c cr \<and> perm \<in> set (mp_permissions p) \<and> p = mc_principal cr))
    \<and> (authenticate R ma a perm now c = Inl (HTTPException 403 code) \<longleftrightarrow> code = ''machine_auth_forbidden'' \<and>
      (\<exists>cr. valid_credential R ma a (dt_instant now) c cr \<and> perm \<notin> set (mp_permissions (mc_principal cr))))
    \<and> (authenticate R ma a perm now c = Inl (HTTPException 401 code') \<longleftrightarrow>
      (\<forall>cr. \<not> valid_credential R ma a (dt_instant now) c cr)
      \<and> code' = (if bearer_token a = None then ''machine_auth_required'' else ''machine_auth_invalid''))"
proof (cases "\<exists>cr. valid_credential R ma a (dt_instant now) c cr")
  case True
  then obtain cr where cr: "valid_credential R ma a (dt_instant now) c cr" by blast
  have u: "valid_credential R ma a (dt_instant now) c cr' \<longleftrightarrow> cr' = cr" for cr'
    using valid_credential_unique [OF assms(1) cr] cr by blast
  show ?thesis unfolding u authenticate_valid [OF assms cr] by auto
next
  case False
  then have "authenticate R ma a perm now c = Inl (HTTPException 401
      (if bearer_token a = None then ''machine_auth_required'' else ''machine_auth_invalid''))"
    using authenticate_invalid [OF assms] by blast
  with False show ?thesis by auto
qed

section \<open>Revocation is immediate, final and confined\<close>

lemma revoke_credential_Inr:
  assumes "revoke_credential ma p k reason now c = (Inr rv, c')"
  shows "k \<noteq> mp_credential_id p \<and> (\<exists>cr. map_of (credentials_by_id (ma_credentials ma)) k = Some cr
      \<and> mp_tenant_id (mc_principal cr) = mp_tenant_id p)
    \<and> revoke_txn p k (str_strip reason) (dt_instant now) c = (Inr rv, c')
    \<and> (\<forall>now'. dt_offset now' \<noteq> None \<longrightarrow> revoke_credential ma p k reason now' c'
         = begin_txn (revoke_txn p k (str_strip reason) (dt_instant now')) c')"
  using assms by (auto simp: revoke_credential_def Let_def begin_txn_commit split: if_splits option.splits)

lemma revoke_txn_Inr:
  assumes "revoke_txn p k reason now c = (Inr rv, c')"
  shows "get_revocation c' (mp_tenant_id p, k) = Some rv \<and> mcr_reason rv = reason
    \<and> mcr_revoked_by_credential_id rv = mp_credential_id p
    \<and> (\<forall>j. j \<noteq> (mp_tenant_id p, k) \<longrightarrow> get_revocation c' j = get_revocation c j)
    \<and> set (revocations c) \<subseteq> set (revocations c')"
proof (cases "get_revocation c (mp_tenant_id p, k)")
  case None
  let ?r = "\<lparr>mcr_tenant_id = mp_tenant_id p, mcr_credential_id = k, mcr_reason = reason,
    mcr_revoked_by_credential_id = mp_credential_id p, mcr_revoked_at = now\<rparr>"
  from assms None have e: "rv = ?r" "c' = c\<lparr>revocations := revocations c @ [?r]\<rparr>" by (auto simp: revoke_txn_def Let_def)
  have "get_revocation c' (mp_tenant_id p, k) = Some rv"
    using find_append_None [OF None [unfolded get_revocation_def]] by (simp add: e get_revocation_def)
  moreover have "get_revocation c' j = get_revocation c j" if "j \<noteq> (mp_tenant_id p, k)" for j
  proof (cases "get_revocation c j")
    case n: None
    with find_append_None [OF n [unfolded get_revocation_def]] that show ?thesis by (auto simp: e get_revocation_def)
  next
    case s: (Some r)
    with find_append_Some [OF s [unfolded get_revocation_def]] show ?thesis by (simp add: e get_revocation_def)
  qed
  ultimately show ?thesis by (auto simp: e)
next
  case (Some r)
  with assms show ?thesis by (auto simp: revoke_txn_def split: if_splits)
qed

lemma revoked_rejected:
  assumes "unique_digests ma" "cr \<in> set (ma_credentials ma)" "is_revoked c (mc_principal cr)" "presents R a cr"
    "dt_offset now \<noteq> None"
  shows "authenticate R ma a perm now c = Inl (HTTPException 401 ''machine_auth_invalid'')"
proof -
  from assms(4) obtain t where t: "bearer_token a = Some t" by (auto simp: presents_def split: option.splits)
  from presents_iff [OF assms(1) t, of R cr] assms(2-) t show ?thesis by (auto simp: authenticate_def auth_invalid_def)
qed

lemma is_revoked_mono: "set (revocations c) \<subseteq> set (revocations c') \<Longrightarrow> is_revoked c p \<Longrightarrow> is_revoked c' p"
  by (auto simp: is_revoked_def get_revocation_def find_None_all)

text \<open>C29. A revocation takes effect at once and for good: the revoked credential belongs to the tenant of the administrator
  and is not the administrator's own; from then on, in every catalogue that keeps the revocation rows, its token is refused
  with 401 for every permission; requests with other credentials are answered as before; and repeating the revocation returns
  the same row and changes nothing.\<close>

theorem revocation_effective:
  assumes "revoke_credential ma p k reason now c = (Inr rv, c')" "unique_digests ma"
    "distinct (map cred_id (ma_credentials ma))" "dt_offset now \<noteq> None" "dt_offset now' \<noteq> None"
  shows "\<exists>cr \<in> set (ma_credentials ma). cred_id cr = k \<and> k \<noteq> mp_credential_id p
      \<and> mp_tenant_id (mc_principal cr) = mp_tenant_id p
      \<and> (\<forall>later a perm. set (revocations c') \<subseteq> set (revocations later) \<longrightarrow> presents R a cr \<longrightarrow>
           authenticate R ma a perm now' later = Inl (HTTPException 401 ''machine_auth_invalid''))
      \<and> (\<forall>a perm. \<not> presents R a cr \<longrightarrow> authenticate R ma a perm now' c' = authenticate R ma a perm now' c)
      \<and> revoke_credential ma p k reason now' c' = (Inr rv, c')"
proof -
  note r = revoke_credential_Inr [OF assms(1)]
  from r obtain cr where cr: "cr \<in> set (ma_credentials ma)" "cred_id cr = k" "mp_tenant_id (mc_principal cr) = mp_tenant_id p"
    using by_id_unique [OF assms(3)] by blast
  have t: "get_revocation c' (mp_tenant_id p, k) = Some rv" "mcr_reason rv = str_strip reason"
    "mcr_revoked_by_credential_id rv = mp_credential_id p"
    "\<And>j. j \<noteq> (mp_tenant_id p, k) \<Longrightarrow> get_revocation c' j = get_revocation c j"
    using revoke_txn_Inr r by blast+
  have rev: "is_revoked c' (mc_principal cr)" using cr t(1) by (simp add: is_revoked_def cred_id_def)
  have other: "authenticate R ma a perm now' c' = authenticate R ma a perm now' c" if np: "\<not> presents R a cr" for a perm
  proof (cases "bearer_token a")
    case (Some s)
    show ?thesis
    proof (cases "matching_credential (ma_credentials ma) (rt_sha256 R (utf8 s))")
      case m: (Some x)
      from presents_iff [OF assms(2) Some, of R x] m have x: "x \<in> set (ma_credentials ma)" "presents R a x" by simp_all
      have "cred_id x \<noteq> k"
      proof
        assume "cred_id x = k"
        with cr x(1) assms(3) have "x = cr" by (auto simp: distinct_map dest: inj_onD)
        with np x(2) show False by simp
      qed
      then have "is_revoked c' (mc_principal x) = is_revoked c (mc_principal x)" by (simp add: is_revoked_def t(4) cred_id_def)
      with Some m show ?thesis by (simp add: authenticate_def)
    qed (simp add: authenticate_def Some)
  qed (simp add: authenticate_def)
  have again: "revoke_credential ma p k reason now' c' = (Inr rv, c')"
    using r assms(5) t(1-3) by (simp add: revoke_txn_def begin_txn_def)
  have "authenticate R ma a perm now' later = Inl (HTTPException 401 ''machine_auth_invalid'')"
    if "set (revocations c') \<subseteq> set (revocations later)" "presents R a cr" for later a perm
    by (rule revoked_rejected [OF assms(2) cr(1) is_revoked_mono [OF that(1) rev] that(2) assms(5)])
  with other again cr r show ?thesis by blast
qed

section \<open>Witnesses\<close>

definition demo_hash :: runtime where
  "demo_hash = \<lparr>rt_sha256 = id, rt_hmac_sha256 = (\<lambda>_ _. []), rt_b64decode = (\<lambda>_. None), rt_json_loads = (\<lambda>_. None)\<rparr>"

definition demo_agent :: MachineCredential where
  "demo_agent = \<lparr>mc_token_sha256 = ''a'', mc_principal = \<lparr>mp_tenant_id = ''t'', mp_clusters = [''c''], mp_credential_id = ''agent'',
     mp_permissions = [''segments:write'']\<rparr>, mc_not_before = Some 3, mc_expires_at = Some 9\<rparr>"

definition demo_security :: MachineCredential where
  "demo_security = \<lparr>mc_token_sha256 = ''s'', mc_principal = \<lparr>mp_tenant_id = ''t'', mp_clusters = [''c''], mp_credential_id = ''sec'',
     mp_permissions = [''credentials:revoke'']\<rparr>, mc_not_before = None, mc_expires_at = None\<rparr>"

definition demo_authenticator :: MachineAuthenticator where
  "demo_authenticator = \<lparr>ma_credentials = [demo_agent, demo_security]\<rparr>"

lemma demo_unique: "unique_digests demo_authenticator" "distinct (map cred_id (ma_credentials demo_authenticator))"
  by (simp_all add: unique_digests_def cred_id_def demo_authenticator_def demo_agent_def demo_security_def)

theorem authentication_exact_witness:
  "authenticate demo_hash demo_authenticator ''Bearer a'' ''segments:write'' (utc 3) empty_catalog = Inr (mc_principal demo_agent)
   \<and> authenticate demo_hash demo_authenticator ''Bearer a'' ''telemetry:read'' (utc 3) empty_catalog
       = Inl (HTTPException 403 ''machine_auth_forbidden'')
   \<and> authenticate demo_hash demo_authenticator ''Bearer a'' ''segments:write'' (utc 9) empty_catalog
       = Inl (HTTPException 401 ''machine_auth_invalid'')"
proof -
  have b: "bearer_token ''Bearer a'' = Some ''a''" by code_simp
  have u: "utf8 ''a'' = ''a''" by code_simp
  note d = valid_credential_def presents_def outside_window_def is_revoked_def get_revocation_def b u
    demo_authenticator_def demo_agent_def demo_security_def demo_hash_def empty_catalog_def
  have aware: "dt_offset (utc t) \<noteq> None" for t by (simp add: utc_def)
  have v: "valid_credential demo_hash demo_authenticator ''Bearer a'' (dt_instant (utc 3)) empty_catalog demo_agent"
    by (simp add: d)
  have n: "\<not> valid_credential demo_hash demo_authenticator ''Bearer a'' (dt_instant (utc 9)) empty_catalog cr" for cr
  proof
    assume "valid_credential demo_hash demo_authenticator ''Bearer a'' (dt_instant (utc 9)) empty_catalog cr"
    moreover from this have "cr = demo_agent" by (auto simp: d)
    ultimately show False by (simp add: d)
  qed
  have "authenticate demo_hash demo_authenticator ''Bearer a'' ''segments:write'' (utc 3) empty_catalog = Inr (mc_principal demo_agent)"
    using authentication_exact [OF demo_unique(1) aware, of demo_hash "''Bearer a''" "''segments:write''" 3 empty_catalog
        "mc_principal demo_agent"] v by (auto simp: demo_agent_def)
  moreover have "authenticate demo_hash demo_authenticator ''Bearer a'' ''telemetry:read'' (utc 3) empty_catalog
      = Inl (HTTPException 403 ''machine_auth_forbidden'')"
    using authentication_exact [OF demo_unique(1) aware, of demo_hash "''Bearer a''" "''telemetry:read''" 3 empty_catalog
        "mc_principal demo_agent" "''machine_auth_forbidden''"] v by (auto simp: demo_agent_def)
  moreover have "authenticate demo_hash demo_authenticator ''Bearer a'' ''segments:write'' (utc 9) empty_catalog
      = Inl (HTTPException 401 ''machine_auth_invalid'')"
    using authentication_exact [OF demo_unique(1) aware, of demo_hash "''Bearer a''" "''segments:write''" 9 empty_catalog
        "mc_principal demo_agent" "[]" "''machine_auth_invalid''"] n by (simp add: b)
  ultimately show ?thesis by blast
qed

theorem revocation_effective_witness:
  "\<exists>rv c'. revoke_credential demo_authenticator (mc_principal demo_security) ''agent'' '' leaked '' (utc 5) empty_catalog = (Inr rv, c')
     \<and> authenticate demo_hash demo_authenticator ''Bearer a'' ''segments:write'' (utc 6) c' = Inl (HTTPException 401 ''machine_auth_invalid'')
     \<and> revoke_credential demo_authenticator (mc_principal demo_security) ''agent'' '' leaked '' (utc 6) c' = (Inr rv, c')"
proof -
  let ?p = "mc_principal demo_security" and ?c = empty_catalog
  have s: "str_strip '' leaked '' = ''leaked''" by code_simp
  have k: "map_of (credentials_by_id (ma_credentials demo_authenticator)) ''agent'' = Some demo_agent"
    using by_id_unique [OF demo_unique(2)] by (simp add: demo_authenticator_def demo_agent_def cred_id_def)
  have "get_revocation ?c j = None" for j by (simp add: get_revocation_def empty_catalog_def)
  then obtain rv c' where t: "revoke_txn ?p ''agent'' ''leaked'' 5 ?c = (Inr rv, c')" by (simp add: revoke_txn_def Let_def)
  have ids: "mp_credential_id ?p = ''sec''" "mp_tenant_id (mc_principal demo_agent) = mp_tenant_id ?p"
    by (simp_all add: demo_security_def demo_agent_def)
  have r: "revoke_credential demo_authenticator ?p ''agent'' '' leaked '' (utc 5) ?c = (Inr rv, c')"
    unfolding revoke_credential_def s k Let_def
    by (simp add: ids begin_txn_commit t utc_def dt_instant_def)
  have aware: "dt_offset (utc t) \<noteq> None" for t by (simp add: utc_def)
  obtain cr where cr: "cr \<in> set (ma_credentials demo_authenticator)" "cred_id cr = ''agent''"
      "presents demo_hash ''Bearer a'' cr \<Longrightarrow>
         authenticate demo_hash demo_authenticator ''Bearer a'' ''segments:write'' (utc 6) c' = Inl (HTTPException 401 ''machine_auth_invalid'')"
      "revoke_credential demo_authenticator ?p ''agent'' '' leaked '' (utc 6) c' = (Inr rv, c')"
    using revocation_effective [OF r demo_unique aware aware [of 6], of demo_hash] by blast
  have "cr = demo_agent" using cr(1,2) by (auto simp: demo_authenticator_def demo_agent_def demo_security_def cred_id_def)
  moreover have "bearer_token ''Bearer a'' = Some ''a''" "utf8 ''a'' = ''a''" by code_simp+
  ultimately have "presents demo_hash ''Bearer a'' cr" by (simp add: presents_def demo_agent_def demo_hash_def)
  with r cr show ?thesis by blast
qed

end
