(* ===== verification/System.thy ===== *)
theory System
  imports Reports Notifications Recovery Scheduler Auth
begin

text \<open>
  The services side by side.  Every transaction of the program is one atomic step of \<open>site_step\<close>, with
  arbitrary arguments and in any order, so that a run of the relation is an arbitrary interleaving of
  API calls, workers, sweepers and operators.  Object writes outside a transaction are steps of their own;
  object operations inside one happen with it, under the advisory locks the code takes.  The invariant
  \<open>site_ok\<close> and the fate of deleted attempts are proved by rule induction over \<open>site_step\<close>.
\<close>

section \<open>Steps\<close>

inductive site_step :: "runtime \<Rightarrow> world \<Rightarrow> world \<Rightarrow> bool" for R :: runtime where
  reserve: "segment_ok s \<Longrightarrow> prepare_payload R sv (mp_tenant_id prin) s = Inr p \<Longrightarrow>
    begin_txn (admit_reserve prin s (pp_object_key p) inp) (cat w) = (out, c') \<Longrightarrow> site_step R w (w\<lparr>cat := c'\<rparr>)"
| store: "segment_ok s \<Longrightarrow> prepare_payload R sv t s = Inr p \<Longrightarrow>
    tmp_fresh tmp (objs w) (pp_object_key p) \<Longrightarrow> put_object R tmp p s (objs w) = (done, st) \<Longrightarrow>
    site_step R w (w\<lparr>objs := st\<rparr>)"
| commit: "segment_ok s \<Longrightarrow> prepare_payload R sv (mp_tenant_id prin) s = Inr p \<Longrightarrow>
    begin_txn (admit_commit R sv prin s (pp_object_key p) rid inp (objs w)) (cat w) = (ack, c') \<Longrightarrow>
    site_step R w (w\<lparr>cat := c'\<rparr>)"
| policy: "create_retention_policy_revision t cl secs actor eff case_id now (cat w) = (dec, c') \<Longrightarrow>
    site_step R w (w\<lparr>cat := c'\<rparr>)"
| cancel: "cancel_retention_policy_revision t cl v reason actor now (cat w) = (canc, c') \<Longrightarrow> site_step R w (w\<lparr>cat := c'\<rparr>)"
| backfill: "apply_retention_policy_backfill R isof t cl v mx ee ed eg actor src rsn bid now (cat w) = (bd, c') \<Longrightarrow>
    site_step R w (w\<lparr>cat := c'\<rparr>)"
| hold: "place_attempt_hold i hid reason actor now (cat w) = (u, c') \<Longrightarrow> site_step R w (w\<lparr>cat := c'\<rparr>)"
| release: "release_attempt_hold hid actor expected tm now (cat w) = (rel, c') \<Longrightarrow> site_step R w (w\<lparr>cat := c'\<rparr>)"
| delete: "delete_attempt i now (cat w) = (gen, c') \<Longrightarrow> site_step R w (w\<lparr>cat := c'\<rparr>)"
| claim_deletion: "claim_deletion own secs now (cat w) = (dl, c') \<Longrightarrow> site_step R w (w\<lparr>cat := c'\<rparr>)"
| erase: "world_txn (execute_deletion_txn R l now) w = (fin, w') \<Longrightarrow> site_step R w w'"
| erase_failed: "site_step R w (w\<lparr>cat := fail_deletion l msg (cat w)\<rparr>)"
| sweep: "reservation_sweep sw ids clock (cat w) = (n, c') \<Longrightarrow> site_step R w (w\<lparr>cat := c'\<rparr>)"
| collect: "object_gc_run_once R now w = (verdict, w') \<Longrightarrow> site_step R w w'"
| audit: "gc_audit_run_once R isof aw idss now w = (counts, w') \<Longrightarrow> site_step R w w'"
| claim_event: "claim_event ev own secs now (cat w) = (wl, c') \<Longrightarrow> site_step R w (w\<lparr>cat := c'\<rparr>)"
| publish: "begin_txn (publish wl pb oid t1 t2) (cat w) = (fin, c') \<Longrightarrow> site_step R w (w\<lparr>cat := c'\<rparr>)"
| event_failed: "site_step R w (w\<lparr>cat := fail_event wl msg (cat w)\<rparr>)"
| reserve_artifacts: "read_report R wt rw wl w0 = Inr (Some b) \<Longrightarrow> reserve_artifacts rw ids now b (cat w) = (u, c') \<Longrightarrow>
    site_step R w (w\<lparr>cat := c'\<rparr>)"
| publish_report: "read_report R wt rw wl w0 = Inr (Some b) \<Longrightarrow> report_tmp_fresh R pin b (objs w) \<Longrightarrow>
    world_txn (publish_report R rw wl b pin) w = (fin, w') \<Longrightarrow> site_step R w w'"
| claim_notification: "claim_notification nw now (cat w) = (nl, c') \<Longrightarrow> site_step R w (w\<lparr>cat := c'\<rparr>)"
| delivered: "notification_settle nl now (cat w) = (ok, c') \<Longrightarrow> site_step R w (w\<lparr>cat := c'\<rparr>)"
| delivery_failed: "site_step R w (w\<lparr>cat := notification_fail nw nl msg now (cat w)\<rparr>)"
| redrive: "redrive t cl nid actor reason rid now (cat w) = (nt, c') \<Longrightarrow> site_step R w (w\<lparr>cat := c'\<rparr>)"
| resolve: "resolve R isof t cl iid actor reason rid nid now w = (inc, w') \<Longrightarrow> site_step R w w'"
| restore: "apply_completed_tombstones R fromiso bundle secret actor tm (cat w) = (imp, c') \<Longrightarrow> site_step R w (w\<lparr>cat := c'\<rparr>)"
| revoke: "revoke_credential ma prin cid reason at_dt (cat w) = (rv, c') \<Longrightarrow> site_step R w (w\<lparr>cat := c'\<rparr>)"
| download: "site_step R w (w\<lparr>cat := (cat w)\<lparr>download_audits := download_audits (cat w) @ [da]\<rparr>\<rparr>)"
| register_poll: "register t cl ad now (cat w) = (u, c') \<Longrightarrow> site_step R w (w\<lparr>cat := c'\<rparr>)"
| claim_poll: "claim_cursor sp now (cat w) = (pl, c') \<Longrightarrow> site_step R w (w\<lparr>cat := c'\<rparr>)"
| poll: "poll_once t fetched now ids (cat w) = (rc, c') \<Longrightarrow> site_step R w (w\<lparr>cat := c'\<rparr>)"
| poll_settled: "poll_settle sp rnd lease started tm (cat w) = (pub, c') \<Longrightarrow> site_step R w (w\<lparr>cat := c'\<rparr>)"
| poll_failed: "poll_fail sp rnd lease msg now (cat w) = (pub, c') \<Longrightarrow> site_step R w (w\<lparr>cat := c'\<rparr>)"

section \<open>The invariant\<close>

text \<open>
  A reservation names a segment object and is reserved, committed or expired.
\<close>

definition reservations_ok :: "catalog \<Rightarrow> bool" where
  "reservations_ok c = (\<forall>r \<in> set (reservations c). is_segment_key (res_object_key r)
     \<and> res_state r \<noteq> Fenced \<and> res_state r \<noteq> Conflicted)"

definition store_refs_ok :: "catalog \<Rightarrow> bool" where
  "store_refs_ok c = (reservations_ok c \<and> candidates_ok c)"

definition site_ok :: "runtime \<Rightarrow> world \<Rightarrow> bool" where
  "site_ok R w = (streams_ok (manifests (cat w)) \<and> attempt_totals_ok (cat w) \<and> lifecycle_ok (cat w)
     \<and> keys_ok (cat w) \<and> store_refs_ok (cat w) \<and> durable R w)"

definition totals :: "catalog \<Rightarrow> (attempt_identity \<times> int \<times> int) list" where
  "totals c = map (\<lambda>r. (ar_identity r, ar_segment_count r, ar_record_count r)) (attempt_records c)"

text \<open>
  A quiet change of the catalogue leaves the admitted evidence alone, never lowers a generation, and keeps
  the invariants of holds, deletions, reservations and candidates.
\<close>

definition quiet :: "catalog \<Rightarrow> catalog \<Rightarrow> bool" where
  "quiet c c' = (manifests c' = manifests c \<and> totals c' = totals c \<and> report_revisions c' = report_revisions c
     \<and> (lifecycle_ok c \<longrightarrow> lifecycle_ok c' \<and> generations_grow c c') \<and> (store_refs_ok c \<longrightarrow> store_refs_ok c'))"

definition same_rows :: "catalog \<Rightarrow> catalog \<Rightarrow> bool" where
  "same_rows c c' = (manifests c' = manifests c \<and> attempt_records c' = attempt_records c
     \<and> report_revisions c' = report_revisions c \<and> generations c' = generations c \<and> deletions c' = deletions c
     \<and> holds c' = holds c \<and> reservations c' = reservations c \<and> gc_candidates c' = gc_candidates c)"

lemma same_rows_quiet: "same_rows c c' \<Longrightarrow> quiet c c'"
  using lifecycle_ok_cong [of c' c] generations_grow_same [of c' c]
  by (simp add: same_rows_def quiet_def totals_def store_refs_ok_def reservations_ok_def candidates_ok_def)

lemma same_rows_refl [simp]: "same_rows c c"
  by (simp add: same_rows_def)

lemma quiet_refl [simp]: "quiet c c"
  by (simp add: same_rows_quiet)

lemma begin_txn_quiet:
  assumes "begin_txn body c = (r, c')" "\<And>a c1. body c = (Inr a, c1) \<Longrightarrow> quiet c c1"
  shows "quiet c c'"
proof (cases r)
  case (Inl e)
  with assms(1) begin_txn_rollback have "c' = c" by metis
  then show ?thesis by simp
next
  case (Inr a)
  with assms show ?thesis by (simp add: begin_txn_commit)
qed

lemma attempt_totals_cong:
  assumes "manifests c' = manifests c" "totals c' = totals c"
  shows "attempt_totals_ok c' = attempt_totals_ok c"
proof -
  have ids: "map ar_identity (attempt_records x) = map fst (totals x)" for x by (simp add: totals_def)
  have cover: "(\<exists>r \<in> set (attempt_records x). ar_identity r = i) \<longleftrightarrow> i \<in> fst ` set (totals x)" for x i
    by (auto simp: totals_def image_iff)
  have sums: "(\<forall>r \<in> set (attempt_records x). ar_segment_count r = f (ar_identity r) \<and> ar_record_count r = g (ar_identity r))
      \<longleftrightarrow> (\<forall>(i, n, k) \<in> set (totals x). n = f i \<and> k = g i)" for x f g
    by (auto simp: totals_def)
  show ?thesis unfolding attempt_totals_ok_def ids cover assms
    sums [of _ "\<lambda>i. count_where (\<lambda>m. mf_identity m = i) (manifests c)"
      "\<lambda>i. sum_list (map mf_record_count (filter (\<lambda>m. mf_identity m = i) (manifests c)))"] ..
qed

lemma durable_grows:
  assumes "durable R w" "manifests (cat w') = manifests (cat w)" "generations_grow (cat w) (cat w')"
    "\<And>m. m \<in> set (manifests (cat w)) \<Longrightarrow> intact (rt_sha256 R) (objs w) (mf_object_key m) (mf_payload_sha256 m)
       \<Longrightarrow> intact (rt_sha256 R) (objs w') (mf_object_key m) (mf_payload_sha256 m)"
  shows "durable R w'"
  unfolding durable_def
proof
  fix m assume "m \<in> set (manifests (cat w'))"
  then have m: "m \<in> set (manifests (cat w))" by (simp add: assms(2))
  from assms(1) m consider "fenced (cat w) (mf_identity m)"
    | "intact (rt_sha256 R) (objs w) (mf_object_key m) (mf_payload_sha256 m)" by (auto simp: durable_def)
  then show "fenced (cat w') (mf_identity m) \<or> intact (rt_sha256 R) (objs w') (mf_object_key m) (mf_payload_sha256 m)"
    by cases (simp_all add: assms(4) [OF m] fenced_grows [OF assms(3)])
qed

lemma quiet_site_ok:
  assumes "site_ok R w" "quiet (cat w) c'"
  shows "site_ok R (w\<lparr>cat := c'\<rparr>)"
proof -
  have q: "manifests c' = manifests (cat w)" "totals c' = totals (cat w)" "report_revisions c' = report_revisions (cat w)"
    "lifecycle_ok c'" "generations_grow (cat w) c'" "store_refs_ok c'"
    using assms by (simp_all add: quiet_def site_ok_def)
  have "durable R (w\<lparr>cat := c'\<rparr>)"
    by (rule durable_grows [of R w]) (use assms(1) q in \<open>simp_all add: site_ok_def\<close>)
  with q assms(1) show ?thesis
    using attempt_totals_cong [OF q(1,2)] by (simp add: site_ok_def keys_ok_def)
qed


section \<open>Quiet transactions\<close>

lemma segment_key_ok:
  assumes "hex_digests R" "prepare_payload R sv t s = Inr p"
  shows "is_segment_key (pp_object_key p)"
proof -
  let ?d = "su_payload_sha256 s"
  let ?h = "\<lambda>v. take 16 (rt_sha256 R (utf8 v))"
  note p = prepare_payload_key [OF assms(2)]
  have hex: "sha256_hex (rt_sha256 R x)" for x using assms(1) by (simp add: hex_digests_def)
  have d: "list_all hex_char ?d" "length ?d = 64" using hex [of "pp_content p"] p by (simp_all add: sha256_hex_def)
  have h: "list_all hex_char (?h v)" "length (?h v) = 16" for v
    using hex [of "utf8 v"] by (auto simp: sha256_hex_def list_all_iff dest: in_set_takeD)
  have d2: "list_all hex_char (take 2 ?d)" using d(1) by (auto simp: list_all_iff dest: in_set_takeD)
  have f: "CHR ''/'' \<notin> set (?d @ ''.segment'')" using hex_no_slash [OF d(1)] by simp
  have key: "pp_object_key p = ''v2'' @ CHR ''/'' # ?h t @ CHR ''/'' # ?h (su_cluster_id s) @ CHR ''/''
      # take 2 ?d @ CHR ''/'' # ?d @ ''.segment''"
    using p by (simp add: segment_object_key_def Let_def)
  have v2: "CHR ''/'' \<notin> set ''v2''" by simp
  have parts: "split_path (pp_object_key p) = [''v2'', ?h t, ?h (su_cluster_id s), take 2 ?d, ?d @ ''.segment'']"
    unfolding key split_path_append [OF v2] split_path_append [OF hex_no_slash [OF h(1)]]
      split_path_append [OF hex_no_slash [OF d2]] split_path_plain [OF f] by simp
  have plain: "x \<noteq> '''' \<and> x \<noteq> ''.'' \<and> x \<noteq> ''..''" if "list_all hex_char x" "0 < length x" for x
  proof -
    have "\<not> hex_char (CHR ''.'')" by code_simp
    with that show ?thesis by auto
  qed
  have "?d @ ''.segment'' \<noteq> ''..''" "?d @ ''.segment'' \<noteq> ''.''" by (auto dest!: arg_cong [of _ _ length])
  moreover have "0 < length (?h v)" "0 < length (take 2 ?d)" for v using h(2) [of v] d(2) by simp_all
  ultimately have "clean_key (pp_object_key p)" unfolding clean_key_def parts
    using plain [OF h(1)] plain [OF d2] by simp
  moreover have "take 3 (pp_object_key p) = ''v2/''" by (simp add: key)
  ultimately show ?thesis by (simp add: is_segment_key_def)
qed

lemma touched_grows: "touched_generations c i gs \<Longrightarrow> generations_grow c (c\<lparr>generations := gs\<rparr>)"
  by (simp add: generations_grow_touched)

lemma touched_quiet:
  assumes "touched_generations c i gs" "store_refs_ok c \<Longrightarrow> reservations_ok (c\<lparr>reservations := rs\<rparr>)"
  shows "quiet c (c\<lparr>generations := gs, reservations := rs\<rparr>)"
proof -
  have "lifecycle_ok c \<Longrightarrow> lifecycle_ok (c\<lparr>generations := gs\<rparr>)"
    by (rule lifecycle_ok_generations [OF _ assms(1)])
  then have "lifecycle_ok c \<Longrightarrow> lifecycle_ok (c\<lparr>generations := gs, reservations := rs\<rparr>)"
    using lifecycle_ok_cong [of "c\<lparr>generations := gs, reservations := rs\<rparr>" "c\<lparr>generations := gs\<rparr>"] by simp
  moreover have "generations_grow c (c\<lparr>generations := gs, reservations := rs\<rparr>)"
    by (rule generations_grow_trans [OF touched_grows [OF assms(1)]], rule generations_grow_same) simp
  moreover have "store_refs_ok (c\<lparr>generations := gs, reservations := rs\<rparr>)" if "store_refs_ok c"
    using assms(2) [OF that] that by (simp add: store_refs_ok_def reservations_ok_def candidates_ok_def)
  ultimately show ?thesis unfolding quiet_def by (simp add: totals_def)
qed


lemma reserve_quiet:
  assumes "begin_txn (admit_reserve prin s key inp) c = (r, c')" "is_segment_key key"
  shows "quiet c c'"
  using assms(1)
proof (rule begin_txn_quiet)
  fix a c1 assume "admit_reserve prin s key inp c = (Inr a, c1)"
  then show "quiet c c1"
  proof (cases rule: admit_reserve_Inr)
    case (replay gs m)
    have "quiet c (c\<lparr>generations := gs, reservations := reservations c\<rparr>)"
      using replay(1) by (rule touched_quiet) (simp add: store_refs_ok_def)
    then show ?thesis by (simp add: replay(2))
  next
    case (reuse gs m)
    have "quiet c (c\<lparr>generations := gs, reservations := reservations c\<rparr>)"
      using reuse(1) by (rule touched_quiet) (simp add: store_refs_ok_def)
    then show ?thesis by (simp add: reuse(2))
  next
    case (fresh gs P)
    show ?thesis unfolding fresh(2) using fresh(1)
      by (rule touched_quiet)
         (auto simp: store_refs_ok_def reservations_ok_def set_delete_where new_reservation_def assms(2))
  qed
qed

lemma policy_quiet:
  "create_retention_policy_revision t cl secs actor eff case_id now c = (r, c') \<Longrightarrow> quiet c c'"
  "cancel_retention_policy_revision t cl v reason actor now c = (r', c'') \<Longrightarrow> quiet c c''"
proof -
  assume "create_retention_policy_revision t cl secs actor eff case_id now c = (r, c')"
  then consider "c' = c" | eff' where "begin_txn (insert_policy_revision t cl secs actor now eff' case_id) c = (r, c')"
    by (auto simp: create_retention_policy_revision_def split: if_splits sum.splits)
  then show "quiet c c'"
  proof cases
    case 2
    then show ?thesis
      by (rule begin_txn_quiet)
         (auto simp: insert_policy_revision_def Let_def same_rows_def intro!: same_rows_quiet split: sum.splits)
  qed simp
next
  assume "cancel_retention_policy_revision t cl v reason actor now c = (r', c'')"
  then consider "c'' = c" | rs where "begin_txn (cancel_policy_txn t cl v rs actor now) c = (r', c'')"
    by (auto simp: cancel_retention_policy_revision_def Let_def split: if_splits)
  then show "quiet c c''"
  proof cases
    case 2
    then show ?thesis
      by (rule begin_txn_quiet)
         (auto simp: cancel_policy_txn_def Let_def same_rows_def intro!: same_rows_quiet split: option.splits if_splits)
  qed simp
qed

lemma backfill_quiet:
  assumes "apply_retention_policy_backfill R isof t cl v mx ee ed eg actor src rsn bid now c = (r, c')"
  shows "quiet c c'"
proof -
  have same: "totals (c\<lparr>attempt_records := upd_where P (rebase_attempt p) (attempt_records c)\<rparr>) = totals c" for P p
    unfolding totals_def by (simp add: rebase_attempt_def ar_identity_def upd_where_def Let_def)
  from assms consider "c' = c"
    | "begin_txn (apply_backfill_txn R isof t cl v mx ee ed eg actor src rsn bid now) c = (r, c')"
    by (auto simp: apply_retention_policy_backfill_def split: if_splits)
  then show ?thesis
  proof cases
    case 2
    then show ?thesis
    proof (rule begin_txn_quiet)
      fix a c1 assume "apply_backfill_txn R isof t cl v mx ee ed eg actor src rsn bid now c = (Inr a, c1)"
      then obtain p P where "manifests c1 = manifests c" "report_revisions c1 = report_revisions c"
        "attempt_records c1 = upd_where P (rebase_attempt p) (attempt_records c)"
        "generations c1 = generations c" "deletions c1 = deletions c" "holds c1 = holds c"
        "reservations c1 = reservations c" "gc_candidates c1 = gc_candidates c"
        by (auto simp: apply_backfill_txn_def split: sum.splits prod.splits if_splits)
      with same [of P p] lifecycle_ok_cong [of c1 c] generations_grow_same [of c1 c]
      show "quiet c c1" by (simp add: quiet_def totals_def store_refs_ok_def reservations_ok_def candidates_ok_def)
    qed
  qed simp
qed

text \<open>Operations on holds and deletions: the lifecycle laws and the frame give quietness.\<close>

lemma lifecycle_quiet:
  assumes "lifecycle_ok c \<Longrightarrow> lifecycle_ok c'" "generations_grow c c'" "manifests c' = manifests c"
    "attempt_records c' = attempt_records c" "report_revisions c' = report_revisions c"
    "reservations c' = reservations c" "gc_candidates c' = gc_candidates c"
  shows "quiet c c'"
  using assms by (simp add: quiet_def totals_def store_refs_ok_def reservations_ok_def candidates_ok_def)

lemma delete_quiet: "delete_attempt i now c = (r, c') \<Longrightarrow> quiet c c'"
  using delete_attempt_ok [of c i now r c'] delete_attempt_grows [of i now c r c'] delete_attempt_frame [of i now c r c']
  by (intro lifecycle_quiet) simp_all

lemma hold_quiet:
  assumes "place_attempt_hold i hid reason actor now c = (r, c')"
  shows "quiet c c'"
proof -
  from assms consider "c' = c" | rs where "begin_txn (place_hold_txn i hid rs actor now) c = (r, c')"
    by (auto simp: place_attempt_hold_def Let_def split: if_splits)
  then show ?thesis
  proof cases
    case (2 rs)
    then show ?thesis
    proof (rule begin_txn_quiet)
      fix u c1 assume p: "place_hold_txn i hid rs actor now c = (Inr u, c1)"
      from place_hold_ok [OF _ p] place_hold_grows [OF p]
      show "quiet c c1"
        by (rule lifecycle_quiet) (use p in \<open>auto simp: place_hold_txn_def Let_def split: if_splits option.splits\<close>)
    qed
  qed simp
qed

lemma release_quiet:
  assumes "release_attempt_hold hid actor expected tm now c = (r, c')"
  shows "quiet c c'"
proof -
  from assms consider "c' = c" | "begin_txn (release_hold_txn hid actor expected tm now) c = (r, c')"
    by (auto simp: release_attempt_hold_def split: if_splits)
  then show ?thesis
  proof cases
    case 2
    then show ?thesis
    proof (rule begin_txn_quiet)
      fix b c1 assume p: "release_hold_txn hid actor expected tm now c = (Inr b, c1)"
      have fr: "\<exists>hs ds gs. c1 = c\<lparr>holds := hs, deletions := ds, generations := gs\<rparr>" using p
      proof (cases rule: release_hold_Inr)
        case noop
        then show ?thesis by (intro exI [of _ "holds c"] exI [of _ "deletions c"] exI [of _ "generations c"]) simp
      next
        case (kept hold c2)
        then show ?thesis by (intro exI [of _ "holds c1"] exI [of _ "deletions c"] exI [of _ "generations c"]) simp
      next
        case (requeued hold c2 d g c3)
        from fence_generation_cases(4) [OF requeued(7)] obtain gs where "c3 = c2\<lparr>generations := gs\<rparr>" by blast
        with requeued(3,8) show ?thesis
          by (intro exI [of _ "holds c2"] exI [of _ "deletions c1"] exI [of _ gs]) (simp add: upd_deletion_def)
      qed
      from release_hold_ok [OF _ p] release_hold_grows [OF p] show "quiet c c1"
        by (rule lifecycle_quiet) (use fr in auto)
    qed
  qed simp
qed

lemma claim_deletion_quiet: "claim_deletion own secs now c = (r, c') \<Longrightarrow> quiet c c'"
  by (rule lifecycle_quiet, erule (1) claim_deletion_ok)
     (auto simp: claim_deletion_def Let_def intro: generations_grow_same split: option.splits)

lemma fail_deletion_quiet: "quiet c (fail_deletion l m c)"
proof (rule lifecycle_quiet)
  show "gc_candidates (fail_deletion l m c) = gc_candidates c"
    by (simp add: fail_deletion_def split: option.splits)
qed (simp_all add: fail_deletion_ok generations_grow_same)


text \<open>Changes of candidates, events, incidents and notifications.\<close>

lemma candidates_quiet:
  assumes "same_rows (c\<lparr>gc_candidates := []\<rparr>) (c'\<lparr>gc_candidates := []\<rparr>)"
    "\<forall>key \<in> gc_object_key ` set (gc_candidates c'). key \<in> gc_object_key ` set (gc_candidates c) \<or> clean_key key"
  shows "quiet c c'"
proof -
  have same: "manifests c' = manifests c" "attempt_records c' = attempt_records c" "report_revisions c' = report_revisions c"
    "generations c' = generations c" "deletions c' = deletions c" "holds c' = holds c" "reservations c' = reservations c"
    using assms(1) by (simp_all add: same_rows_def)
  have "candidates_ok c'" if "candidates_ok c" using assms(2) that by (auto simp: candidates_ok_def)
  then have "store_refs_ok c \<longrightarrow> store_refs_ok c'" by (simp add: store_refs_ok_def reservations_ok_def same(7))
  with same lifecycle_ok_cong [of c' c] generations_grow_same [of c' c] show ?thesis by (simp add: quiet_def totals_def)
qed

lemma expire_reservations_keys:
  "gc_object_key ` set (gc_candidates (expire_reservations grace ids clock n batch c))
     \<subseteq> gc_object_key ` set (gc_candidates c) \<union> res_object_key ` set batch"
proof (induction batch arbitrary: n c)
  case (Cons r batch)
  let ?c = "expire_reservation grace (ids n) (clock (n + 1)) r c"
  have "gc_object_key ` set (gc_candidates ?c) \<subseteq> gc_object_key ` set (gc_candidates c) \<union> {res_object_key r}"
    by (auto simp: expire_reservation_def Let_def new_candidate_def set_reservation_state_def)
  with Cons [of "n + 1" ?c] show ?case by auto
qed simp

lemma sweep_quiet:
  assumes "reservation_sweep sw ids clock c = (n, c')"
  shows "quiet c c'"
proof -
  let ?b = "sweep_batch sw (clock 0) c"
  have c': "c' = expire_reservations (rs_gc_grace_seconds sw) ids clock 0 ?b c"
    using assms by (simp add: reservation_sweep_def Let_def)
  obtain rs ks where fr: "c' = c\<lparr>reservations := rs, gc_candidates := ks\<rparr>"
    unfolding c' using expire_reservations_frame by blast
  have rs: "reservations c' = upd_where (\<lambda>x. res_reservation_id x \<in> res_reservation_id ` set ?b)
      (\<lambda>x. x\<lparr>res_state := Expired\<rparr>) (reservations c)" unfolding c' by (simp add: expire_reservations_spec)
  have "store_refs_ok c'" if ok: "store_refs_ok c"
  proof -
    have r: "is_segment_key (res_object_key r)" if "r \<in> set (reservations c)" for r
      using ok that by (simp add: store_refs_ok_def reservations_ok_def)
    have "reservations_ok c'" using ok by (auto simp: reservations_ok_def rs set_upd_where store_refs_ok_def)
    moreover have "candidates_ok c'" unfolding candidates_ok_def
    proof
      fix k assume "k \<in> set (gc_candidates c')"
      then have "gc_object_key k \<in> gc_object_key ` set (gc_candidates c) \<union> res_object_key ` set ?b"
        using expire_reservations_keys [of "rs_gc_grace_seconds sw" ids clock 0 ?b c] by (auto simp: c')
      then consider x where "x \<in> set (gc_candidates c)" "gc_object_key k = gc_object_key x"
        | r where "r \<in> set (reservations c)" "gc_object_key k = res_object_key r"
        using sweep_batch_member by blast
      then show "clean_key (gc_object_key k)"
        using ok r by cases (auto simp: store_refs_ok_def candidates_ok_def is_segment_key_def)
    qed
    ultimately show ?thesis by (simp add: store_refs_ok_def)
  qed
  then show ?thesis using lifecycle_ok_cong [of c' c] generations_grow_same [of c' c]
    by (simp add: quiet_def totals_def fr)
qed

lemma image_upd_where: "(\<And>x. k (f x) = k x) \<Longrightarrow> k ` set (upd_where P f xs) = k ` set xs"
  by (metis map_upd_where set_map)

lemma upd_candidate_quiet: "(\<And>x. gc_object_key (f x) = gc_object_key x) \<Longrightarrow> quiet c (upd_candidate kid f c)"
  by (rule candidates_quiet) (simp_all add: image_upd_where same_rows_def)

lemma audit_candidate_keys:
  "gc_object_key ` set (gc_candidates (snd (audit_candidate R isof aw ids now st k c))) = gc_object_key ` set (gc_candidates c)"
proof -
  have "gc_candidates (snd (record_integrity_incidents isof ids k cg d now c)) = gc_candidates c" for cg d
    using record_incidents_frame [of isof ids k cg d now c] by (metis catalog.select_convs(12) catalog.surjective
      catalog.update_convs(13,15) prod.collapse)
  then show ?thesis
    by (simp add: audit_candidate_def Let_def image_upd_where audit_mark_def audit_requeue_def split: sum.splits)
qed

lemma audit_candidates_keys:
  "gc_object_key ` set (gc_candidates (snd (audit_candidates R isof aw ids n now st batch c))) = gc_object_key ` set (gc_candidates c)"
proof (induction batch arbitrary: n c)
  case (Cons k batch)
  obtain o1 c1 where a: "audit_candidate R isof aw (ids n) now st k c = (o1, c1)" by fastforce
  with Cons [of "n + 1" c1] audit_candidate_keys [of R isof aw "ids n" now st k c] show ?case
    by (auto split: prod.splits)
qed simp

lemma audit_quiet:
  assumes "gc_audit_run_once R isof aw ids now w = (r, w')"
  shows "\<exists>c'. w' = w\<lparr>cat := c'\<rparr> \<and> quiet (cat w) c'"
proof -
  let ?b = "audit_batch aw now (cat w)"
  let ?c = "snd (audit_candidates R isof aw ids 0 now (objs w) ?b (cat w))"
  obtain ks xs ns where fr: "?c = (cat w)\<lparr>gc_candidates := ks, incidents := xs, notifications := ns\<rparr>"
    using audit_candidates_frame by blast
  have "quiet (cat w) ?c"
    by (rule candidates_quiet) (simp_all add: audit_candidates_keys, simp add: fr same_rows_def)
  with assms show ?thesis by (auto simp: gc_audit_run_once_def split: prod.splits)
qed

lemma upd_outbox_quiet: "quiet c (upd_outbox oid f c)"
  by (rule same_rows_quiet) (simp add: same_rows_def upd_outbox_def)

lemma claim_event_quiet: "claim_event ev own secs now c = (r, c') \<Longrightarrow> quiet c c'"
  by (auto simp: claim_event_def upd_outbox_quiet split: option.splits)

lemma fail_event_quiet: "quiet c (fail_event l m c)"
  by (simp add: fail_event_def upd_outbox_quiet split: option.splits)

lemma publish_quiet:
  assumes "begin_txn (publish l p oid t1 t2) c = (r, c')"
  shows "quiet c c'"
  using assms
proof (rule begin_txn_quiet)
  fix b c1 assume "publish l p oid t1 t2 c = (Inr b, c1)"
  then show "quiet c c1"
    by (cases rule: publish_Inr) (simp_all add: upd_outbox_quiet same_rows_quiet same_rows_def upd_outbox_def)
qed

lemma report_build_keys:
  assumes "read_report R wt rw l w0 = Inr (Some b)" "hex_digests R"
  shows "is_report_key (rb_key b)" "is_report_key (rb_parquet_key b)"
proof -
  obtain i g inputs where "build_report R wt rw i g inputs (objs w0) = Inr b"
    using assms(1) by (auto simp: read_report_def bindE_Inr_iff Let_def split: option.splits if_splits prod.splits)
  from build_report_keys [OF this assms(2)] show "is_report_key (rb_key b)" "is_report_key (rb_parquet_key b)" by auto
qed

lemma ensure_artifacts_quiet:
  assumes "ensure_artifacts ids n now nb (sort_key fst (artifacts b)) c = (u, c')" "clean_key (rb_key b)" "clean_key (rb_parquet_key b)"
  shows "quiet c c'"
proof (rule candidates_quiet)
  note f = ensure_artifacts_frame [OF assms(1)]
  show "same_rows (c\<lparr>gc_candidates := []\<rparr>) (c'\<lparr>gc_candidates := []\<rparr>)" by (subst conjunct1 [OF f]) simp
  show "\<forall>key \<in> gc_object_key ` set (gc_candidates c'). key \<in> gc_object_key ` set (gc_candidates c) \<or> clean_key key"
  proof
    fix key assume "key \<in> gc_object_key ` set (gc_candidates c')"
    with conjunct2 [OF f] have "key \<in> fst ` set (artifacts b) \<or> key \<in> gc_object_key ` set (gc_candidates c)" by auto
    with assms(2,3) show "key \<in> gc_object_key ` set (gc_candidates c) \<or> clean_key key" by (auto simp: artifacts_keys)
  qed
qed

lemma notification_quiet:
  "claim_notification nw now c = (r, c') \<Longrightarrow> quiet c c'"
  "notification_settle nl now c = (b, c') \<Longrightarrow> quiet c c'"
  "quiet c (notification_fail nw nl msg now c)"
  "redrive t cl nid actor reason rid now c = (n, c') \<Longrightarrow> quiet c c'"
proof -
  have u: "quiet c (upd_notification i f c)" for i f by (rule same_rows_quiet) (simp add: same_rows_def upd_notification_def)
  show "claim_notification nw now c = (r, c') \<Longrightarrow> quiet c c'" by (erule claim_notification_cases) (simp_all add: u)
  show "notification_settle nl now c = (b, c') \<Longrightarrow> quiet c c'" by (auto simp: notification_settle_def u split: if_splits)
  show "quiet c (notification_fail nw nl msg now c)" by (simp add: notification_fail_def u)
  assume "redrive t cl nid actor reason rid now c = (n, c')"
  then consider "c' = c" | "begin_txn (redrive_txn t cl nid actor (str_strip reason) rid now) c = (n, c')"
    by (auto simp: redrive_def Let_def split: if_splits)
  then show "quiet c c'"
  proof cases
    case 2
    then show ?thesis
      by (rule begin_txn_quiet)
         (auto simp: redrive_txn_def upd_notification_def same_rows_def intro!: same_rows_quiet split: option.splits if_splits)
  qed simp
qed

lemma resolve_quiet:
  assumes "resolve R isof t cl iid actor reason rid nid now w = (r, w')"
  shows "\<exists>c'. w' = w\<lparr>cat := c'\<rparr> \<and> quiet (cat w) c'"
proof -
  have close: "quiet c c1" if "close_incident isof rid nid now actor rs x c = (Inr y, c1)" for rs x y c c1
    using that by (auto simp: close_incident_def Let_def enqueue_notification_def same_rows_def intro!: same_rows_quiet)
  have txn: "quiet c c'" if "begin_txn (resolve_txn R isof st t cl iid actor rs rid nid now) c = (r, c')" for rs st c c'
    using that
    by (rule begin_txn_quiet)
       (auto simp: resolve_txn_def intro: close split: option.splits if_splits sum.splits bool.splits)
  from assms consider "w' = w" | rs c' where "w' = w\<lparr>cat := c'\<rparr>"
      "begin_txn (resolve_txn R isof (objs w) t cl iid actor rs rid nid now) (cat w) = (r, c')"
    by (auto simp: resolve_def Let_def split: if_splits prod.splits)
  then show ?thesis
  proof cases
    case 1
    then show ?thesis by (intro exI [of _ "cat w"]) simp
  qed (blast intro: txn)
qed

text \<open>Polling changes observations, cursors and the scheduler columns of the attempts only.\<close>

lemma update_record_quiet: "quiet c (update_record t a (c\<lparr>observations := obs\<rparr>))"
proof -
  have same: "totals (c\<lparr>attempt_records := upd_where P (refresh_record a) (attempt_records c)\<rparr>) = totals c" for P
    by (simp add: totals_def upd_where_def refresh_record_def ar_identity_def Let_def)
  have "\<exists>rs. update_record t a (c\<lparr>observations := obs\<rparr>) = c\<lparr>attempt_records := rs, observations := obs\<rparr>
      \<and> totals (c\<lparr>attempt_records := rs\<rparr>) = totals c"
  proof (cases "List.find (names_record t a) (attempt_records c)")
    case None
    then show ?thesis by (intro exI [of _ "attempt_records c"]) (simp add: update_record_def totals_def)
  next
    case (Some r)
    let ?rs = "if (case ar_scheduler_observed_at r of None \<Rightarrow> True | Some s \<Rightarrow> s \<le> sa_observed_at a)
      then upd_where (\<lambda>x. ar_identity x = ar_identity r) (refresh_record a) (attempt_records c) else attempt_records c"
    from Some same show ?thesis by (intro exI [of _ ?rs]) (simp add: update_record_def totals_def)
  qed
  then obtain rs where rs: "update_record t a (c\<lparr>observations := obs\<rparr>) = c\<lparr>attempt_records := rs, observations := obs\<rparr>"
    "totals (c\<lparr>attempt_records := rs\<rparr>) = totals c" by blast
  let ?c = "c\<lparr>attempt_records := rs, observations := obs\<rparr>"
  from rs(2) lifecycle_ok_cong [of ?c c] generations_grow_same [of ?c c]
  have "quiet c ?c" by (simp add: quiet_def totals_def store_refs_ok_def reservations_ok_def candidates_ok_def)
  with rs(1) show ?thesis by simp
qed

lemma quiet_trans: "quiet c c1 \<Longrightarrow> quiet c1 c2 \<Longrightarrow> quiet c c2"
  using generations_grow_trans [of c c1 c2] by (simp add: quiet_def)

lemma reconcile_quiet: "reconcile t now ids n as k c = (r, c') \<Longrightarrow> quiet c c'"
proof (induction as arbitrary: n k c)
  case (Cons a as)
  obtain i d where k: "k = (i, d)" by (cases k)
  from Cons.prems [unfolded k] show ?case
  proof (cases rule: reconcile_cases)
    case seen
    from quiet_trans [OF _ Cons.IH [OF seen(2)]] update_record_quiet [of c t a "observations c"] show ?thesis by simp
  next
    case new
    from quiet_trans [OF update_record_quiet Cons.IH [OF new(2)]] show ?thesis .
  qed simp
qed simp

lemma poll_quiet:
  "poll_once t fetched now ids c = (r, c') \<Longrightarrow> quiet c c'"
  "register t cl ad now c = (u, c') \<Longrightarrow> quiet c c'"
  "claim_cursor sp now c = (pl, c') \<Longrightarrow> quiet c c'"
  "poll_settle sp rnd lease started tm c = (b, c') \<Longrightarrow> quiet c c'"
  "poll_fail sp rnd lease msg now c = (b, c') \<Longrightarrow> quiet c c'"
proof -
  have cursor: "quiet c (upd_cursor k f c)" for k f by (rule same_rows_quiet) (simp add: same_rows_def upd_cursor_def)
  show "claim_cursor sp now c = (pl, c') \<Longrightarrow> quiet c c'" by (auto simp: claim_cursor_def cursor split: option.splits)
  show "poll_settle sp rnd lease started tm c = (b, c') \<Longrightarrow> quiet c c'" by (auto simp: poll_settle_def cursor split: if_splits)
  show "poll_fail sp rnd lease msg now c = (b, c') \<Longrightarrow> quiet c c'" by (auto simp: poll_fail_def cursor split: if_splits)
  show "quiet c c'" if "register t cl ad now c = (u, c')"
  proof -
    from that consider "c' = c" | "begin_txn (register_txn t cl ad now) c = (u, c')" by (auto simp: register_def split: if_splits)
    then show ?thesis
    proof cases
      case 2
      then show ?thesis
        by (rule begin_txn_quiet) (auto simp: register_txn_def same_rows_def intro!: same_rows_quiet split: option.splits if_splits)
    qed simp
  qed
  assume p: "poll_once t fetched now ids c = (r, c')"
  then consider "c' = c" | as r' where "begin_txn (reconcile t now ids 0 as (0, 0)) c = (r', c')"
    by (auto simp: poll_once_def split: if_splits sum.splits prod.splits)
  then show "quiet c c'"
  proof cases
    case 2
    then show ?thesis by (rule begin_txn_quiet) (rule reconcile_quiet)
  qed simp
qed

lemma revoke_quiet:
  assumes "revoke_credential ma prin cid reason tm c = (r, c')"
  shows "quiet c c'"
proof -
  from assms consider "c' = c" | rs at_time where "begin_txn (revoke_txn prin cid rs at_time) c = (r, c')"
    by (auto simp: revoke_credential_def Let_def split: if_splits option.splits)
  then show ?thesis
  proof cases
    case 2
    then show ?thesis
      by (rule begin_txn_quiet) (auto simp: revoke_txn_def same_rows_def Let_def intro!: same_rows_quiet split: option.splits if_splits)
  qed simp
qed

lemma download_quiet: "quiet c (c\<lparr>download_audits := da\<rparr>)"
  by (rule same_rows_quiet) (simp add: same_rows_def)

lemma apply_entries_frame:
  "apply_entries a es n c = (r, c') \<Longrightarrow> \<exists>gs ds hs. c' = c\<lparr>generations := gs, deletions := ds, holds := hs\<rparr>"
proof (induction es arbitrary: n c)
  case Nil
  then show ?case by (intro exI [of _ "generations c"] exI [of _ "deletions c"] exI [of _ "holds c"]) simp
next
  case (Cons e es)
  obtain ap st where n: "n = (ap, st)" by fastforce
  have one: "\<exists>gs ds hs. apply_tombstone a e c = c\<lparr>generations := gs, deletions := ds, holds := hs\<rparr>"
    by (intro exI [of _ "generations (apply_tombstone a e c)"] exI [of _ "deletions (apply_tombstone a e c)"]
        exI [of _ "holds (apply_tombstone a e c)"])
       (simp add: apply_tombstone_def release_holds_def queue_erasure_def fence_to_def upd_generation_def upd_deletion_def
         split: option.splits)
  from Cons.prems [unfolded n] show ?case
  proof (cases rule: apply_entries_induct_step)
    case (conflict g)
    then show ?thesis by (intro exI [of _ "generations c"] exI [of _ "deletions c"] exI [of _ "holds c"]) simp
  next
    case (stale g)
    then show ?thesis using Cons.IH by blast
  next
    case applied
    from Cons.IH [OF applied(2)] one show ?thesis by force
  qed
qed

lemma restore_quiet:
  assumes "apply_completed_tombstones R fromiso bundle secret actor tm c = (r, c')"
  shows "quiet c c'"
proof -
  from assms consider "c' = c" | t es where "begin_txn (apply_txn (rt_sha256 R bundle) actor t (dt_instant tm) es) c = (r, c')"
    by (auto simp: apply_completed_tombstones_def split: sum.splits prod.splits if_splits)
  then show ?thesis
  proof cases
    case (2 t es)
    then show ?thesis
    proof (rule begin_txn_quiet)
      fix x c1 assume t: "apply_txn (rt_sha256 R bundle) actor t (dt_instant tm) es c = (Inr x, c1)"
      then consider "c1 = c" | q c2 ti where "apply_entries actor es (0, 0) c = (q, c2)" "c1 = c2\<lparr>tombstone_imports := ti\<rparr>"
        by (auto simp: apply_txn_def split: option.splits prod.splits sum.splits)
      then show "quiet c c1"
      proof cases
        case (2 q c2 ti)
        from apply_entries_frame [OF 2(1)] obtain gs ds hs where fr: "c2 = c\<lparr>generations := gs, deletions := ds, holds := hs\<rparr>" by blast
        have "lifecycle_ok c1 \<and> generations_grow c c1" if "lifecycle_ok c"
          using apply_entries_ok [OF 2(1) that] lifecycle_ok_cong [of c1 c2] generations_grow_trans [OF _ generations_grow_same, of c c2 c1]
          by (simp add: 2(2))
        then show ?thesis by (simp add: quiet_def totals_def store_refs_ok_def reservations_ok_def candidates_ok_def 2(2) fr)
      qed simp
    qed
  qed simp
qed


section \<open>Steps that change the evidence\<close>

text \<open>
  The abstract specification: a ledger of admitted segments and of deleted attempts.  A segment enters once,
  beside the ranges its stream already has and never for a deleted attempt; attempts are deleted for good; and
  the segments of a deleted attempt may be erased, all of them.
\<close>

record ledger =
  entries :: "SegmentManifest set"
  fences :: "attempt_identity set"

inductive ledger_step :: "ledger \<Rightarrow> ledger \<Rightarrow> bool" where
  admit: "mf_identity m \<notin> fences L \<Longrightarrow> mf_first_sequence m \<le> mf_last_sequence m \<Longrightarrow>
    \<forall>x \<in> entries L. mf_receipt_id x \<noteq> mf_receipt_id m \<and> (mf_stream x = mf_stream m \<longrightarrow> ranges_disjoint x m) \<Longrightarrow>
    ledger_step L (L\<lparr>entries := insert m (entries L)\<rparr>)"
| fence: "fences L \<subseteq> F \<Longrightarrow> ledger_step L (L\<lparr>fences := F\<rparr>)"
| erase: "i \<in> fences L \<Longrightarrow> ledger_step L (L\<lparr>entries := {m \<in> entries L. mf_identity m \<noteq> i}\<rparr>)"

inductive_cases ledger_stepE: "ledger_step L L'"

definition ledger_of :: "catalog \<Rightarrow> ledger" where
  "ledger_of c = \<lparr>entries = set (manifests c), fences = {i. fenced c i}\<rparr>"

definition ledger_moves :: "catalog \<Rightarrow> catalog \<Rightarrow> bool" where
  "ledger_moves c c' = ledger_step (ledger_of c) (ledger_of c')"

lemma fence_moves: "manifests c' = manifests c \<Longrightarrow> generations_grow c c' \<Longrightarrow> ledger_moves c c'"
proof -
  assume "manifests c' = manifests c" "generations_grow c c'"
  moreover from this(2) have "fences (ledger_of c) \<subseteq> fences (ledger_of c')" using fenced_grows by (auto simp: ledger_of_def)
  from ledger_step.fence [OF this] have "ledger_step (ledger_of c) ((ledger_of c)\<lparr>fences := fences (ledger_of c')\<rparr>)" .
  ultimately show ?thesis by (simp add: ledger_moves_def ledger_of_def)
qed

lemma ledger_moves_refl [simp]: "ledger_moves c c"
  by (simp add: fence_moves)

lemma quiet_ledger_moves: "quiet c c' \<Longrightarrow> lifecycle_ok c \<Longrightarrow> ledger_moves c c'"
  by (simp add: quiet_def fence_moves)

lemma set_reservation_state_ok:
  assumes "reservations_ok c" "st \<noteq> Fenced" "st \<noteq> Conflicted"
  shows "reservations_ok (set_reservation_state rid st c)"
  using assms by (auto simp: reservations_ok_def set_reservation_state_def set_upd_where)

lemma set_reservation_state_rest [simp]:
  "holds (set_reservation_state rid st c) = holds c" "deletions (set_reservation_state rid st c) = deletions c"
  "gc_candidates (set_reservation_state rid st c) = gc_candidates c"
  "report_revisions (set_reservation_state rid st c) = report_revisions c"
  by (simp_all add: set_reservation_state_def)

lemma committed_quiet:
  assumes "touched_generations c i gs"
  shows "quiet c (set_reservation_state rid Committed (c\<lparr>generations := gs\<rparr>))"
proof -
  let ?rs = "reservations (set_reservation_state rid Committed c)"
  have "reservations_ok (c\<lparr>reservations := ?rs\<rparr>)" if "store_refs_ok c"
  proof -
    from that have "reservations_ok c" by (simp add: store_refs_ok_def)
    then have "reservations_ok (set_reservation_state rid Committed c)" by (rule set_reservation_state_ok) simp_all
    then show ?thesis by (simp add: reservations_ok_def)
  qed
  from touched_quiet [OF assms this] show ?thesis by (simp add: set_reservation_state_def)
qed

lemma commit_site_ok:
  assumes ok: "site_ok R w" and s: "segment_ok s" and key: "is_segment_key key"
    and c: "admit_commit R sv prin s key rid inp (objs w) (cat w) = (Inr out, c')"
  shows "site_ok R (w\<lparr>cat := c'\<rparr>) \<and> ledger_moves (cat w) c'"
  using c
proof (cases rule: admit_commit_Inr)
  case (again gs m)
  have "quiet (cat w) c'" unfolding again(2) by (rule committed_quiet [OF again(1)])
  then show ?thesis using quiet_site_ok [OF ok] quiet_ledger_moves ok unfolding site_ok_def by blast
next
  case (commit gs r g)
  let ?c = "(cat w)\<lparr>generations := gs\<rparr>"
  let ?m = "new_manifest prin s key (su_deletion_generation s) r inp"
  from commit_manifest_Inr [OF commit(11)] obtain rs where
    cm: "\<forall>m \<in> set (manifests ?c). \<not> mf_clash ?m m" "record_admission sv ?c (mp_tenant_id prin) s (ai_committed_at inp) = Inr rs"
    "c' = set_reservation_state (res_reservation_id r) Committed
       (?c\<lparr>manifests := manifests ?c @ [?m], attempt_records := rs, outbox := outbox ?c @ [admitted_event prin s inp]\<rparr>)" by metis
  have range: "su_first_sequence s \<le> su_last_sequence s" using s by (simp add: segment_ok_def)
  have ok0: "streams_ok (manifests (cat w))" "attempt_totals_ok (cat w)" "lifecycle_ok (cat w)" "keys_ok (cat w)"
    "store_refs_ok (cat w)" "durable R w" using ok by (simp_all add: site_ok_def)
  have grow: "generations_grow (cat w) c'"
    by (rule generations_grow_trans [OF touched_grows [OF commit(1)]], rule generations_grow_same) (simp add: cm(3))
  have "streams_ok (manifests c')" using streams_ok_append [OF ok0(1) range commit(10)] cm(1) by (simp add: cm(3))
  moreover have "attempt_totals_ok c'"
    by (rule attempt_totals_commit [OF _ cm(2), of c' key "su_deletion_generation s" r inp])
       (use ok0(2) in \<open>simp_all add: cm(3) attempt_totals_ok_def\<close>)
  moreover have "lifecycle_ok c'"
    using lifecycle_ok_generations [OF ok0(3) commit(1)] lifecycle_ok_cong [of c' ?c] by (simp add: cm(3))
  moreover have "keys_ok c'" using ok0(4) key by (auto simp: cm(3) keys_ok_def new_manifest_def)
  moreover have "store_refs_ok c'"
    using ok0(5) set_reservation_state_ok [of "cat w" Committed "res_reservation_id r"]
    by (simp add: store_refs_ok_def reservations_ok_def candidates_ok_def cm(3) set_reservation_state_def)
  moreover have "durable R (w\<lparr>cat := c'\<rparr>)" unfolding durable_def
  proof
    fix m assume "m \<in> set (manifests (cat (w\<lparr>cat := c'\<rparr>)))"
    then consider "m \<in> set (manifests (cat w))" | "m = ?m" by (auto simp: cm(3))
    then show "fenced (cat (w\<lparr>cat := c'\<rparr>)) (mf_identity m)
        \<or> intact (rt_sha256 R) (objs (w\<lparr>cat := c'\<rparr>)) (mf_object_key m) (mf_payload_sha256 m)"
    proof cases
      case 1
      with ok0(6) fenced_grows [OF grow, of "mf_identity m"] show ?thesis by (auto simp: durable_def)
    next
      case 2
      with commit(9) show ?thesis by (simp add: new_manifest_def)
    qed
  qed
  moreover have "ledger_moves (cat w) c'"
  proof -
  have live: "mf_identity ?m \<notin> fences (ledger_of (cat w))"
    using commit(1,5,6) fenced_grows [OF touched_grows [OF commit(1)], of "mf_identity ?m"] by (auto simp: fenced_def ledger_of_def)
  have same: "fenced c' i = fenced (cat w) i" for i
  proof -
    have "fenced ?c i = fenced (cat w) i"
      using commit(1) by (auto simp: touched_generations_def fenced_def get_generation_append split: option.splits if_splits)
    then show ?thesis by (simp add: fenced_def cm(3) get_generation_def)
  qed
  have new: "mf_first_sequence ?m = su_first_sequence s" "mf_last_sequence ?m = su_last_sequence s" by (simp_all add: new_manifest_def)
  have "\<forall>x \<in> entries (ledger_of (cat w)). mf_receipt_id x \<noteq> mf_receipt_id ?m
      \<and> (mf_stream x = mf_stream ?m \<longrightarrow> ranges_disjoint x ?m)"
    using commit(10) cm(1) by (auto simp: ledger_of_def ranges_disjoint_def overlap_filter_def range_filter_def mf_clash_def new)
  then have "ledger_step (ledger_of (cat w)) ((ledger_of (cat w))\<lparr>entries := insert ?m (entries (ledger_of (cat w)))\<rparr>)"
    by (intro ledger_step.admit live) (simp_all add: new range)
  moreover have "manifests c' = manifests (cat w) @ [?m]" by (simp add: cm(3))
  ultimately show ?thesis by (simp add: ledger_moves_def ledger_of_def same)
  qed
  ultimately show ?thesis by (simp add: site_ok_def)
qed

lemma put_site_ok:
  assumes "site_ok R w" "tmp_fresh tmp (objs w) key" "put_verified (rt_sha256 R) tmp (objs w) key payload d = (r, st)"
  shows "site_ok R (w\<lparr>objs := st\<rparr>)"
proof -
  have "durable R (w\<lparr>objs := st\<rparr>)"
    by (rule durable_grows [of R w]) (use assms put_keeps_intact in \<open>auto simp: site_ok_def\<close>)
  with assms(1) show ?thesis by (simp add: site_ok_def)
qed

lemma collect_site_ok:
  assumes "site_ok R w" "object_gc_run_once R now w = (out, w')"
  shows "site_ok R w' \<and> ledger_moves (cat w) (cat w')"
proof -
  have d: "durable R w'"
    by (rule object_gc_durable [OF _ _ _ assms(2)]) (use assms(1) in \<open>simp_all add: site_ok_def store_refs_ok_def\<close>)
  have q: "quiet (cat w) (cat w')" using assms(2)
  proof (cases rule: object_gc_cases)
    case (protected k)
    then show ?thesis by (simp add: upd_candidate_quiet finish_candidate_def)
  next
    case (tried k r st f)
    have "gc_object_key (f x) = gc_object_key x" for x
      using tried(6) by (auto simp: retry_candidate_def finish_candidate_def Let_def split: sum.splits)
    with tried(5) show ?thesis by (simp add: upd_candidate_quiet)
  qed simp
  with assms(1) quiet_site_ok [of R w "cat w'"] d quiet_ledger_moves show ?thesis by (simp add: site_ok_def)
qed


lemma attempt_totals_erase:
  assumes "attempt_totals_ok c" "manifests c' = delete_where (\<lambda>m. mf_identity m = i) (manifests c)"
    "attempt_records c' = delete_where (\<lambda>r. ar_identity r = i) (attempt_records c)"
  shows "attempt_totals_ok c'"
proof -
  have keep: "filter (\<lambda>m. mf_identity m = j) (manifests c') = filter (\<lambda>m. mf_identity m = j) (manifests c)" if "j \<noteq> i" for j
    using that by (auto simp: assms(2) delete_where_def intro!: filter_cong)
  from assms(1) show ?thesis unfolding attempt_totals_ok_def count_where_def
    by (auto simp: assms(3) set_delete_where distinct_map_delete_where keep) (metis (mono_tags, lifting) assms(2) mem_Collect_eq set_delete_where)
qed

lemma erase_site_ok:
  assumes ok: "site_ok R w" and t: "world_txn (execute_deletion_txn R l now) w = (fin, w')"
  shows "site_ok R w' \<and> ledger_moves (cat w) (cat w')"
proof -
  have ok0: "streams_ok (manifests (cat w))" "attempt_totals_ok (cat w)" "lifecycle_ok (cat w)" "keys_ok (cat w)"
    "reservations_ok (cat w)" "candidates_ok (cat w)" "durable R w"
    using ok by (simp_all add: site_ok_def store_refs_ok_def)
  show ?thesis
  proof (cases fin)
    case (Inl e)
    have c: "cat w' = cat w" using t Inl world_txn_rollback by metis
    let ?w = "w'\<lparr>cat := fail_deletion l (err_text e) (cat w')\<rparr>"
    have ex: "execute_deletion R l now w = (False, ?w)" using t Inl by (simp add: execute_deletion_def)
    have "durable R ?w" by (rule execute_deletion_durable [OF ok0(7,4) ex])
    then have "durable R w'" by (simp add: durable_def fenced_def get_generation_def)
    with ok c show ?thesis by (simp add: site_ok_def)
  next
    case (Inr b)
    have ex: "execute_deletion R l now w = (b, w')" using t Inr by (simp add: execute_deletion_def)
    have d: "durable R w'" by (rule execute_deletion_durable [OF ok0(7,4) ex])
    have lc: "lifecycle_ok (cat w')" by (rule execute_deletion_ok [OF ok0(3) ex])
    from t Inr have "execute_deletion_txn R l now w = (Inr b, w')" by (simp add: world_txn_commit)
    then show ?thesis
    proof (cases rule: execute_deletion_txn_cases)
      case (blocked x)
      then have "quiet (cat w) (cat w')" using lc
        by (intro lifecycle_quiet) (simp_all add: generations_grow_same)
      with quiet_site_ok [OF ok] quiet_ledger_moves ok0(3) blocked(5) show ?thesis by simp
    next
      case (erase x)
      from erase(5) show ?thesis
      proof (cases rule: erase_attempt_cases)
        case (full u st rows c1)
        note er = erase_rows_simps [OF full(2)]
        have rows: "manifests (cat w') = delete_where (\<lambda>m. mf_identity m = dl_identity l) (manifests (cat w))"
          "attempt_records (cat w') = delete_where (\<lambda>r. ar_identity r = dl_identity l) (attempt_records (cat w))"
          "generations (cat w') = generations (cat w)"
          by (simp_all add: full(4) er)
        have "streams_ok (manifests (cat w'))" using streams_ok_delete [OF ok0(1)] by (simp add: rows)
        moreover have "attempt_totals_ok (cat w')" by (rule attempt_totals_erase [OF ok0(2) rows(1,2)])
        moreover have "keys_ok (cat w')" using ok0(4) by (auto simp: keys_ok_def full(4) er set_delete_where)
        moreover have "store_refs_ok (cat w')" using ok0(5,6)
          by (auto simp: store_refs_ok_def reservations_ok_def candidates_ok_def full(4) er set_delete_where)
        moreover have "ledger_moves (cat w) (cat w')"
          using ledger_step.erase [of "dl_identity l" "ledger_of (cat w)"] fence_of_fenced [OF erase(4)] get_deletion_Some [OF erase(1)]
          by (simp add: ledger_moves_def ledger_of_def rows set_delete_where fenced_cong [OF rows(3)])
        ultimately show ?thesis using d lc by (simp add: site_ok_def)
      qed simp
    qed (use ok in simp_all)
  qed
qed

lemma advance_head_evidence:
  assumes "advance_head l b rid now c = (Inr t, c')" "is_report_key (rb_key b)" "is_report_key (rb_parquet_key b)"
  shows "quiet c (c'\<lparr>report_revisions := report_revisions c\<rparr>) \<and> (keys_ok c \<longrightarrow> keys_ok c')"
proof -
  have fin: "quiet d (d'\<lparr>report_revisions := report_revisions d\<rparr>) \<and> report_revisions d' = report_revisions d \<and> manifests d' = manifests d"
    if "finish_report l b now d = (Inr t, d')" for d d'
  proof -
    from finish_report_Inr(3) [OF that] obtain ks where
      d': "d' = (upd_outbox (wl_outbox_id l) (release_outbox_row OCompleted None) d)\<lparr>gc_candidates := ks\<rparr>"
      "gc_object_key ` set ks = gc_object_key ` set (gc_candidates d)" by blast
    have "quiet d (d'\<lparr>report_revisions := report_revisions d\<rparr>)"
      by (rule candidates_quiet) (simp_all add: d' upd_outbox_def same_rows_def)
    then show ?thesis by (simp add: d'(1) upd_outbox_def)
  qed
  show ?thesis using assms(1)
  proof (cases rule: advance_head_Inr)
    case (same h)
    from fin [OF same(4)] show ?thesis by (auto simp: keys_ok_def)
  next
    case (moved r c1)
    let ?d = "set_head r b now c1"
    note f = fin [OF moved(2)]
    have c1: "\<exists>rs. c1 = c\<lparr>report_revisions := rs\<rparr> \<and> (\<forall>x \<in> set rs. x \<in> set (report_revisions c)
        \<or> (rr_report_object_key x = rb_key b \<and> rr_parquet_object_key x = Some (rb_parquet_key b)))"
      using moved(1)
    proof (cases rule: obtain_revision_Inr)
      case old
      then show ?thesis by (intro exI [of _ "report_revisions c"]) simp
    next
      case new
      then show ?thesis by (intro exI [of _ "report_revisions c @ [r]"]) (simp add: new_revision_def)
    qed
    then obtain rs where rs: "c1 = c\<lparr>report_revisions := rs\<rparr>" "\<forall>x \<in> set rs. x \<in> set (report_revisions c)
        \<or> (rr_report_object_key x = rb_key b \<and> rr_parquet_object_key x = Some (rb_parquet_key b))" by blast
    have "keys_ok c'" if "keys_ok c"
      using that f rs(2) assms(2,3) by (auto simp: keys_ok_def rs(1))
    moreover from finish_report_Inr(3) [OF moved(2)] obtain ks where
      d': "c' = (upd_outbox (wl_outbox_id l) (release_outbox_row OCompleted None) ?d)\<lparr>gc_candidates := ks\<rparr>"
      "gc_object_key ` set ks = gc_object_key ` set (gc_candidates ?d)" by blast
    have "quiet c (c'\<lparr>report_revisions := report_revisions c\<rparr>)"
      by (rule candidates_quiet) (simp_all add: d' upd_outbox_def same_rows_def rs(1))
    ultimately show ?thesis by blast
  qed
qed


lemma publish_report_site_ok:
  assumes ok: "site_ok R w" and b: "read_report R wt rw l w0 = Inr (Some b)" and hex: "hex_digests R"
    and fresh: "report_tmp_fresh R pin b (objs w)" and t: "world_txn (publish_report R rw l b pin) w = (fin, w')"
  shows "site_ok R w' \<and> ledger_moves (cat w) (cat w')"
proof -
  note key = report_build_keys [OF b hex]
  have clean: "clean_key (rb_key b)" "clean_key (rb_parquet_key b)" using key by (simp_all add: is_report_key_def)
  obtain r w1 where p: "publish_report R rw l b pin w = (r, w1)" by fastforce
  have w1: "objs w' = objs w1" "r = fin" "cat w' = (if isl fin then cat w else cat w1)"
    using t p by (auto simp: world_txn_def split: sum.splits)
  have store: "intact (rt_sha256 R) (objs w') k d" if "intact (rt_sha256 R) (objs w) k d" for k d
    using p
  proof (cases rule: publish_report_cases)
    case (unstored e)
    from store_artifacts_keeps [OF unstored(2) fresh that] show ?thesis by (simp add: w1(1))
  next
    case (stored x c1)
    from store_artifacts_keeps [OF stored(6) fresh that] show ?thesis by (simp add: w1(1))
  qed (use that w1(1) in simp_all)
  have lift: ?thesis if q: "quiet (cat w) ((cat w')\<lparr>report_revisions := report_revisions (cat w)\<rparr>)" and k: "keys_ok (cat w')"
  proof -
    have lc: "lifecycle_ok (cat w)" using ok by (simp add: site_ok_def)
    have sr: "store_refs_ok ((cat w')\<lparr>report_revisions := report_revisions (cat w)\<rparr>) = store_refs_ok (cat w')"
      "totals ((cat w')\<lparr>report_revisions := report_revisions (cat w)\<rparr>) = totals (cat w')"
      by (simp_all add: store_refs_ok_def reservations_ok_def candidates_ok_def totals_def)
    from q lc have g: "generations_grow (cat w) ((cat w')\<lparr>report_revisions := report_revisions (cat w)\<rparr>)"
      "manifests (cat w') = manifests (cat w)" "store_refs_ok (cat w) \<longrightarrow> store_refs_ok (cat w')"
      "lifecycle_ok ((cat w')\<lparr>report_revisions := report_revisions (cat w)\<rparr>)" "totals (cat w') = totals (cat w)"
      unfolding quiet_def sr by simp_all
    have grow: "generations_grow (cat w) (cat w')"
      by (rule generations_grow_trans [OF g(1)], rule generations_grow_same) simp
    have "durable R w'" using durable_grows [OF _ g(2) grow, of R] store ok by (simp add: site_ok_def)
    moreover have "lifecycle_ok (cat w')" using g(4) lifecycle_ok_cong [of "cat w'" "(cat w')\<lparr>report_revisions := report_revisions (cat w)\<rparr>"] by simp
    ultimately show ?thesis using ok k g(2,3) fence_moves [OF g(2) grow] attempt_totals_cong [OF g(2,5)] by (simp add: site_ok_def)
  qed
  have keys: "keys_ok (cat w)" using ok by (simp add: site_ok_def)
  have same: ?thesis if "same_rows (cat w) (cat w')"
    by (rule lift [OF same_rows_quiet]) (use that keys in \<open>simp_all add: keys_ok_def same_rows_def\<close>)
  show ?thesis
  proof (cases fin)
    case (Inl e)
    with w1(3) show ?thesis by (intro same) simp
  next
    case (Inr v)
    with w1(3) have c: "cat w' = cat w1" by simp
    from p show ?thesis
    proof (cases rule: publish_report_cases)
      case (stored x c1)
      have "quiet (cat w) c1" by (rule ensure_artifacts_quiet [OF stored(5) clean])
      moreover from stored(7) have "quiet c1 ((cat w1)\<lparr>report_revisions := report_revisions c1\<rparr>) \<and> (keys_ok c1 \<longrightarrow> keys_ok (cat w1))"
        using advance_head_evidence [OF _ key] Inr w1(2) by simp
      moreover have "keys_ok c1" using keys calculation(1) by (simp add: quiet_def keys_ok_def)
      ultimately have "quiet (cat w) ((cat w')\<lparr>report_revisions := report_revisions (cat w)\<rparr>)" "keys_ok (cat w')"
        using generations_grow_trans by (auto simp: quiet_def c)
      then show ?thesis by (rule lift)
    next
      case lost
      with c show ?thesis by (intro same) simp
    next
      case (suppressed x)
      with c show ?thesis by (intro same) (simp add: same_rows_def upd_outbox_def)
    next
      case (changed x)
      with c show ?thesis by (intro same) (simp add: same_rows_def upd_outbox_def)
    qed (use Inr w1(2) in simp_all)
  qed
qed

section \<open>Runs\<close>

lemma quiet_step:
  assumes "site_ok R w" "quiet (cat w) c'"
  shows "site_ok R (w\<lparr>cat := c'\<rparr>) \<and> ledger_moves (cat w) (cat (w\<lparr>cat := c'\<rparr>))"
  using quiet_site_ok [OF assms] quiet_ledger_moves [OF assms(2)] assms(1) by (simp add: site_ok_def)

lemma site_step_ok:
  assumes "site_step R w w'" "hex_digests R" "site_ok R w"
  shows "site_ok R w' \<and> ledger_moves (cat w) (cat w')"
  using assms(1)
proof (cases rule: site_step.cases)
  case (reserve s sv prin p inp out c')
  with quiet_step [OF assms(3) reserve_quiet [OF reserve(4)]] segment_key_ok [OF assms(2) reserve(3)] show ?thesis by simp
next
  case (store s sv t p tmp r st)
  then have "\<exists>r'. put_verified (rt_sha256 R) tmp (objs w) (pp_object_key p) (pp_content p) (su_payload_sha256 s) = (r', st)"
    by (auto simp: put_object_def split: prod.splits sum.splits py_error.splits)
  with put_site_ok [OF assms(3) store(4)] store(1) show ?thesis by auto
next
  case (commit s sv prin p rid inp ack c')
  show ?thesis
  proof (cases ack)
    case (Inl e)
    with commit begin_txn_rollback have "c' = cat w" by metis
    with commit(1) assms(3) show ?thesis by simp
  next
    case (Inr out)
    with commit_site_ok [OF assms(3) commit(2) segment_key_ok [OF assms(2) commit(3)]] commit show ?thesis
      by (simp add: begin_txn_commit)
  qed
next
  case (erase l now fin)
  with erase_site_ok [OF assms(3)] show ?thesis by blast
next
  case (collect now v)
  with collect_site_ok [OF assms(3)] show ?thesis by blast
next
  case (audit isof aw idss now counts)
  from audit_quiet [OF audit(1)] quiet_step [OF assms(3)] show ?thesis by blast
next
  case (resolve isof t cl iid actor reason rid nid now inc)
  from resolve_quiet [OF resolve(1)] quiet_step [OF assms(3)] show ?thesis by blast
next
  case (publish_report wt rw wl w0 b pin fin)
  from publish_report_site_ok [OF assms(3) publish_report(1) assms(2) publish_report(2,3)] show ?thesis .
next
  case (reserve_artifacts wt rw wl w0 b ids now u c')
  have "clean_key (rb_key b)" "clean_key (rb_parquet_key b)"
    using report_build_keys [OF reserve_artifacts(2) assms(2)] by (simp_all add: is_report_key_def)
  then have "quiet (cat w) c'"
    using reserve_artifacts(3) begin_txn_quiet ensure_artifacts_quiet unfolding reserve_artifacts_def by blast
  with quiet_step [OF assms(3)] reserve_artifacts(1) show ?thesis by simp
qed (hypsubst, rule quiet_step [OF assms(3)],
     (erule policy_quiet backfill_quiet hold_quiet release_quiet delete_quiet claim_deletion_quiet sweep_quiet
        claim_event_quiet publish_quiet notification_quiet restore_quiet poll_quiet revoke_quiet
      | rule fail_deletion_quiet fail_event_quiet notification_quiet download_quiet))+


lemma run_site_ok:
  assumes "(site_step R)\<^sup>*\<^sup>* w w'" "hex_digests R" "site_ok R w"
  shows "site_ok R w' \<and> ledger_step\<^sup>*\<^sup>* (ledger_of (cat w)) (ledger_of (cat w'))"
  using assms(1)
proof (induction rule: rtranclp_induct)
  case (step y z)
  from site_step_ok [OF step(2) assms(2)] step(3) show ?case
    by (auto simp: ledger_moves_def intro: rtranclp.rtrancl_into_rtrancl)
qed (use assms(3) in simp)

lemma ledger_run_final:
  assumes "ledger_step\<^sup>*\<^sup>* L L'" "i \<in> fences L"
  shows "i \<in> fences L' \<and> {m \<in> entries L'. mf_identity m = i} \<subseteq> entries L"
  using assms(1)
proof (induction rule: rtranclp_induct)
  case (step L1 L2)
  from step(2) step(3) show ?case by (cases rule: ledger_step.cases) auto
qed (use assms(2) in simp)

text \<open>The state a newly initialised schema leaves.\<close>

lemma empty_site_ok: "cat w = empty_catalog \<Longrightarrow> site_ok R w"
  by (simp add: site_ok_def empty_catalog_def streams_ok_def attempt_totals_ok_def lifecycle_ok_def lifecycle_keys_def
      deletions_fenced_def holds_block_def keys_ok_def store_refs_ok_def reservations_ok_def candidates_ok_def durable_def)

section \<open>Composed operations are runs\<close>

lemma admit_run:
  assumes "admit R sv prin s inp w = (r, w')" "segment_ok s"
    and fresh: "\<And>p. prepare_payload R sv (mp_tenant_id prin) s = Inr p \<Longrightarrow> tmp_fresh (ai_tmp inp) (objs w) (pp_object_key p)"
  shows "(site_step R)\<^sup>*\<^sup>* w w'"
proof (cases "assert_scope prin s")
  case (Inl e)
  with assms(1) show ?thesis by (simp add: admit_def)
next
  case (Inr u)
  note sc = this
  show ?thesis
  proof (cases "prepare_payload R sv (mp_tenant_id prin) s")
    case (Inl e)
    with assms(1) sc show ?thesis by (simp add: admit_def)
  next
    case (Inr p)
    obtain out c1 where res: "begin_txn (admit_reserve prin s (pp_object_key p) inp) (cat w) = (out, c1)" by fastforce
    have s1: "site_step R w (w\<lparr>cat := c1\<rparr>)" by (rule site_step.reserve [OF assms(2) Inr res])
    show ?thesis
    proof (cases "\<exists>rid. out = Inr (Reservation rid)")
      case False
      with assms(1) sc Inr res have "w' = w\<lparr>cat := c1\<rparr>"
        by (auto simp: admit_def split: sum.splits reserve_outcome.splits)
      with s1 show ?thesis by blast
    next
      case True
      then obtain rid where rid: "out = Inr (Reservation rid)" by blast
      obtain q st where put: "put_object R (ai_tmp inp) p s (objs w) = (q, st)" by fastforce
      let ?w1 = "w\<lparr>cat := c1\<rparr>"
      let ?w2 = "w\<lparr>cat := c1, objs := st\<rparr>"
      have s2: "site_step R ?w1 ?w2"
        using site_step.store [OF assms(2) Inr, of "ai_tmp inp" ?w1 q st] fresh [OF Inr] put by simp
      obtain ack c2 where com: "begin_txn (admit_commit R sv prin s (pp_object_key p) rid inp st) c1 = (ack, c2)" by fastforce
      have s3: "site_step R ?w2 (w\<lparr>objs := st, cat := c2\<rparr>)"
        using site_step.commit [OF assms(2) Inr, of rid inp ?w2 ack c2] com by simp
      have "w' = ?w2 \<or> w' = w\<lparr>objs := st, cat := c2\<rparr>"
        using assms(1) sc Inr res rid put com by (cases q) (auto simp: admit_def)
      with s1 s2 s3 show ?thesis by (meson converse_rtranclp_into_rtranclp rtranclp.rtrancl_refl)
    qed
  qed
qed

lemma deletion_run:
  assumes "deletion_run_once R own secs claimed_at now w = (b, w')"
  shows "(site_step R)\<^sup>*\<^sup>* w w'"
proof -
  obtain r c1 where cl: "claim_deletion own secs claimed_at (cat w) = (r, c1)" by fastforce
  let ?w1 = "w\<lparr>cat := c1\<rparr>"
  have s1: "site_step R w ?w1" by (rule site_step.claim_deletion [OF cl])
  show ?thesis
  proof (cases r)
    case None
    with assms cl s1 show ?thesis by (auto simp: deletion_run_once_def)
  next
    case (Some l)
    obtain fin w2 where t: "world_txn (execute_deletion_txn R l now) ?w1 = (fin, w2)" by fastforce
    have s2: "site_step R ?w1 w2" by (rule site_step.erase [OF t])
    have "w' = w2 \<or> (\<exists>m. w' = w2\<lparr>cat := fail_deletion l m (cat w2)\<rparr>)"
      using assms cl Some t by (auto simp: deletion_run_once_def execute_deletion_def split: sum.splits)
    with s1 s2 site_step.erase_failed [of R w2 l] show ?thesis
      by (metis converse_rtranclp_into_rtranclp rtranclp.rtrancl_refl)
  qed
qed

lemma report_run:
  assumes "report_run_once R wt rw own secs claimed_at ids reserved_at inp w = (b, w')"
    and fresh: "\<And>l bd. read_report R wt rw l (w\<lparr>cat := snd (report_claim own secs claimed_at (cat w))\<rparr>) = Inr (Some bd)
      \<Longrightarrow> report_tmp_fresh R inp bd (objs w)"
  shows "(site_step R)\<^sup>*\<^sup>* w w'"
proof -
  obtain r c1 where cl: "report_claim own secs claimed_at (cat w) = (r, c1)" by fastforce
  let ?w1 = "w\<lparr>cat := c1\<rparr>"
  have s1: "site_step R w ?w1" using cl by (simp add: report_claim_def site_step.claim_event)
  show ?thesis
  proof (cases r)
    case None
    with assms cl s1 show ?thesis by (auto simp: report_run_once_def)
  next
    case (Some l)
    obtain q w2 where ex: "report_execute R wt rw l ids reserved_at inp ?w1 = (q, w2)" by fastforce
    have w': "w' = w2" using assms(1) cl Some ex by (auto simp: report_run_once_def split: sum.splits)
    have handle: "(site_step R)\<^sup>*\<^sup>* x y" if "(if caught e then (Inr False, x\<lparr>cat := fail_event l m (cat x)\<rparr>) else (Inl e, x)) = (q, y)" for e m x y
      using that site_step.event_failed [of R x l m] by (auto split: if_splits)
    have "(site_step R)\<^sup>*\<^sup>* ?w1 w2"
    proof (cases "read_report R wt rw l ?w1")
      case (Inl e)
      with ex handle [where e = e and x = "?w1" and m = "err_text e" and y = w2] show ?thesis by (simp add: report_execute_def Let_def)
    next
      case (Inr ob)
      show ?thesis
      proof (cases ob)
        case None
        with ex Inr show ?thesis by (simp add: report_execute_def)
      next
        case (Some bd)
        with Inr have rd: "read_report R wt rw l ?w1 = Inr (Some bd)" by simp
        obtain u c2 where ra: "reserve_artifacts rw ids reserved_at bd c1 = (u, c2)" by fastforce
        let ?w2 = "w\<lparr>cat := c2\<rparr>"
        have s2: "site_step R ?w1 ?w2"
          using site_step.reserve_artifacts [OF rd, of ids reserved_at ?w1 u c2] ra by simp
        have fr: "report_tmp_fresh R inp bd (objs w)" using fresh [of l bd] rd cl by simp
        obtain fin w3 where pub: "world_txn (publish_report R rw l bd inp) ?w2 = (fin, w3)" by fastforce
        have s3: "site_step R ?w2 w3" by (rule site_step.publish_report [OF rd _ pub]) (simp add: fr)
        show ?thesis
        proof (cases u)
          case (Inl e)
          with ex rd ra handle [where e = e and x = "?w2" and m = "err_text e" and y = w2] s2 show ?thesis
            by (simp add: report_execute_def Let_def converse_rtranclp_into_rtranclp)
        next
          case (Inr v)
          have "(site_step R)\<^sup>*\<^sup>* w3 w2"
          proof (cases fin)
            case (Inl e)
            with ex rd ra Inr pub handle [where e = e and x = "w3" and m = "err_text e" and y = w2] show ?thesis by (simp add: report_execute_def Let_def)
          next
            case fin: (Inr b')
            with ex rd ra Inr pub show ?thesis by (simp add: report_execute_def)
          qed
          with s2 s3 show ?thesis by (meson converse_rtranclp_into_rtranclp)
        qed
      qed
    qed
    with s1 w' show ?thesis by (meson converse_rtranclp_into_rtranclp)
  qed
qed


section \<open>Properties of the whole site\<close>

text \<open>The example site: one admission, then a deletion request.\<close>

lemma demo_empty: "cat demo_world = empty_catalog"
  by (simp add: demo_world_def)

lemma demo_admission_run: "(site_step demo_runtime)\<^sup>*\<^sup>* demo_world demo_admitted"
proof (rule admit_run [OF demo_admit demo_segment_ok])
  fix p assume "prepare_payload demo_runtime demo_service (mp_tenant_id demo_principal) demo_segment = Inr p"
  show "tmp_fresh (ai_tmp demo_inputs) (objs demo_world) (pp_object_key p)"
    by (simp add: tmp_fresh_def demo_world_def split: sum.splits)
qed

definition demo_fenced :: world where
  "demo_fenced = demo_admitted\<lparr>cat := snd (delete_attempt demo_identity 9 (cat demo_admitted))\<rparr>"

lemma demo_deletion_step: "site_step demo_runtime demo_admitted demo_fenced"
  unfolding demo_fenced_def by (rule site_step.delete [of demo_identity 9 _ "fst (delete_attempt demo_identity 9 (cat demo_admitted))"]) simp

text \<open>C1. In every state the services can reach from an empty catalogue, by any interleaving of admissions,
  deletions, holds, sweeps, collections, normalisation, report publication, policy changes, incident handling and
  restores: the admitted ranges of every stream are disjoint and well formed, the totals of every attempt are the
  sums over its segments, and the object of every segment of an attempt that was not deleted is stored intact.\<close>

theorem reachable_evidence_durable:
  assumes "hex_digests R" "cat w\<^sub>0 = empty_catalog" "(site_step R)\<^sup>*\<^sup>* w\<^sub>0 w"
  shows "streams_ok (manifests (cat w)) \<and> attempt_totals_ok (cat w) \<and> durable R w"
  using run_site_ok [OF assms(3,1) empty_site_ok [OF assms(2)]] by (simp add: site_ok_def)

theorem reachable_evidence_durable_witness:
  "manifests (cat demo_admitted) \<noteq> [] \<and> attempt_totals_ok (cat demo_admitted) \<and> durable demo_runtime demo_admitted"
proof -
  have "manifests (cat demo_admitted) \<noteq> []" by code_simp
  with reachable_evidence_durable [OF demo_hex demo_empty demo_admission_run] show ?thesis by simp
qed

text \<open>C2. The services implement the ledger: every step of the site, whoever takes it, moves the admitted segments
  and the deleted attempts by one step of the abstract specification, and keeps the invariant under which it does.\<close>

theorem site_implements_ledger:
  assumes "hex_digests R" "site_ok R w" "site_step R w w'"
  shows "ledger_step (ledger_of (cat w)) (ledger_of (cat w')) \<and> site_ok R w'"
  using site_step_ok [OF assms(3,1,2)] by (simp add: ledger_moves_def)

theorem site_implements_ledger_witness:
  "ledger_step (ledger_of (cat demo_admitted)) (ledger_of (cat demo_fenced)) \<and> site_ok demo_runtime demo_fenced"
proof -
  have "site_ok demo_runtime demo_admitted"
    using run_site_ok [OF demo_admission_run demo_hex empty_site_ok [OF demo_empty]] by simp
  from site_implements_ledger [OF demo_hex this demo_deletion_step] show ?thesis .
qed

text \<open>C3. Deletion is final: once an attempt is fenced it stays fenced whatever happens afterwards, and no
  segment is ever admitted for it again.\<close>

theorem deletion_is_final:
  assumes "hex_digests R" "cat w\<^sub>0 = empty_catalog" "(site_step R)\<^sup>*\<^sup>* w\<^sub>0 w" "(site_step R)\<^sup>*\<^sup>* w w'" "fenced (cat w) i"
  shows "fenced (cat w') i \<and> {m \<in> set (manifests (cat w')). mf_identity m = i} \<subseteq> set (manifests (cat w))"
proof -
  have "site_ok R w" using run_site_ok [OF assms(3,1) empty_site_ok [OF assms(2)]] by simp
  from run_site_ok [OF assms(4,1) this] have "ledger_step\<^sup>*\<^sup>* (ledger_of (cat w)) (ledger_of (cat w'))" by simp
  from ledger_run_final [OF this, of i] assms(5) show ?thesis by (simp add: ledger_of_def)
qed

theorem deletion_is_final_witness:
  "fenced (cat (snd (admit demo_runtime demo_service demo_principal demo_segment demo_inputs demo_fenced))) demo_identity"
proof -
  let ?w = "snd (admit demo_runtime demo_service demo_principal demo_segment demo_inputs demo_fenced)"
  have f: "fenced (cat demo_fenced) demo_identity" by code_simp
  have a: "admit demo_runtime demo_service demo_principal demo_segment demo_inputs demo_fenced
      = (fst (admit demo_runtime demo_service demo_principal demo_segment demo_inputs demo_fenced), ?w)" by simp
  have "(site_step demo_runtime)\<^sup>*\<^sup>* demo_fenced ?w"
  proof (rule admit_run [OF a demo_segment_ok])
    fix p assume p: "prepare_payload demo_runtime demo_service (mp_tenant_id demo_principal) demo_segment = Inr p"
    show "tmp_fresh (ai_tmp demo_inputs) (objs demo_fenced) (pp_object_key p)"
      unfolding prepare_payload_key [THEN conjunct1, OF p] by code_simp
  qed
  from deletion_is_final [OF demo_hex demo_empty _ this f] demo_admission_run demo_deletion_step show ?thesis
    by (metis rtranclp.rtrancl_into_rtrancl)
qed

text \<open>The composed operations are interleavings of the atomic steps: an admission, a run of the deletion worker
  and a run of the report worker, whatever they return, are runs of the site relation, so that every property of
  runs holds with them at any point.\<close>

theorem operations_are_runs:
  assumes "segment_ok s" "\<And>p. prepare_payload R sv (mp_tenant_id prin) s = Inr p \<Longrightarrow> tmp_fresh (ai_tmp inp) (objs w) (pp_object_key p)"
    "\<And>l bd. read_report R wt rw l (w\<lparr>cat := snd (report_claim own secs t (cat w))\<rparr>) = Inr (Some bd) \<Longrightarrow> report_tmp_fresh R pin bd (objs w)"
  shows "(site_step R)\<^sup>*\<^sup>* w (snd (admit R sv prin s inp w))
    \<and> (site_step R)\<^sup>*\<^sup>* w (snd (deletion_run_once R own secs t now w))
    \<and> (site_step R)\<^sup>*\<^sup>* w (snd (report_run_once R wt rw own secs t ids now pin w))"
proof (intro conjI)
  show "(site_step R)\<^sup>*\<^sup>* w (snd (admit R sv prin s inp w))"
    by (rule admit_run [OF surjective_pairing assms(1)]) (rule assms(2))
  show "(site_step R)\<^sup>*\<^sup>* w (snd (deletion_run_once R own secs t now w))" by (rule deletion_run [OF surjective_pairing])
  show "(site_step R)\<^sup>*\<^sup>* w (snd (report_run_once R wt rw own secs t ids now pin w))"
    by (rule report_run [OF surjective_pairing]) (rule assms(3))
qed

theorem operations_are_runs_witness:
  "(site_step demo_runtime)\<^sup>*\<^sup>* demo_world (snd (admit demo_runtime demo_service demo_principal demo_segment demo_inputs demo_world))"
proof -
  have a: "tmp_fresh (ai_tmp demo_inputs) (objs demo_world) (pp_object_key p)"
    if "prepare_payload demo_runtime demo_service (mp_tenant_id demo_principal) demo_segment = Inr p" for p
    by (simp add: tmp_fresh_def demo_world_def split: sum.splits)
  have b: "report_tmp_fresh demo_runtime demo_publish_inputs bd (objs demo_world)"
    if "read_report demo_runtime demo_writer demo_report_worker l (demo_world\<lparr>cat := snd (report_claim ''w'' 60 1 (cat demo_world))\<rparr>)
      = Inr (Some bd)" for l bd
    using that by (simp add: read_report_def report_claim_def claim_event_def demo_world_def empty_catalog_def get_outbox_def first_by_def)
  show ?thesis
  proof (rule conjunct1 [OF operations_are_runs [where R = demo_runtime and sv = demo_service and prin = demo_principal and s = demo_segment
      and inp = demo_inputs and w = demo_world and wt = demo_writer and rw = demo_report_worker and own = "''w''" and secs = 60
      and t = 1 and pin = demo_publish_inputs and now = 2 and ids = "\<lambda>_. ''i''", OF demo_segment_ok]])
  qed (erule a, erule b)
qed

text \<open>No reservation ever reaches the states \<open>fenced\<close> or \<open>conflicted\<close>: the commit block assigns them and raises,
  and the rollback undoes the assignment.\<close>

theorem reservation_states_unreachable:
  assumes "hex_digests R" "cat w\<^sub>0 = empty_catalog" "(site_step R)\<^sup>*\<^sup>* w\<^sub>0 w"
  shows "Fenced \<notin> res_state ` set (reservations (cat w)) \<and> Conflicted \<notin> res_state ` set (reservations (cat w))"
  using run_site_ok [OF assms(3,1) empty_site_ok [OF assms(2)]]
  by (auto simp: site_ok_def store_refs_ok_def reservations_ok_def)

theorem reservation_states_unreachable_witness:
  "reservations (cat demo_admitted) \<noteq> [] \<and> Fenced \<notin> res_state ` set (reservations (cat demo_admitted))"
proof -
  have "reservations (cat demo_admitted) \<noteq> []" by code_simp
  with reservation_states_unreachable [OF demo_hex demo_empty demo_admission_run] show ?thesis by simp
qed

end
