(* ===== verification/Slurm.thy ===== *)
theory Slurm
  imports Scheduler Recovery
begin

text \<open>
  \<^verbatim>\<open>slurm.py\<close>: the read-only accounting adapter.  It unwraps the values of the Slurm JSON data parser, maps job
  states to the scheduler-neutral ones, derives a stable identity for every job, and turns the answer of
  \<open>sacct --json\<close> into attempts.  The process call, \<open>strftime\<close>, \<open>fromisoformat\<close> and the arithmetic of floats are
  parameters.
\<close>

section \<open>Rendering Python values\<close>

definition printable_char :: "char \<Rightarrow> bool" where
  "printable_char c = (let n = (of_char c :: nat) in (32 \<le> n \<and> n < 127) \<or> (161 \<le> n \<and> n \<noteq> 173))"

definition repr_char :: "char \<Rightarrow> char \<Rightarrow> string" where
  "repr_char quote c = (let n = (of_char c :: nat) in
     if c = quote \<or> c = CHR 0x5C then [CHR 0x5C, c]
     else if c = LF then [CHR 0x5C, CHR ''n'']
     else if c = CR then [CHR 0x5C, CHR ''r'']
     else if c = CHR 0x09 then [CHR 0x5C, CHR ''t'']
     else if printable_char c then [c]
     else [CHR 0x5C, CHR ''x'', hex_digit (n div 16), hex_digit (n mod 16)])"

definition repr_str :: "string \<Rightarrow> string" where
  "repr_str s =
     (let quote = (if CHR 0x27 \<in> set s \<and> CHR 0x22 \<notin> set s then CHR 0x22 else CHR 0x27)
      in quote # concat (map (repr_char quote) s) @ [quote])"

primrec py_repr :: "json \<Rightarrow> string" where
  "py_repr JNull = ''None''"
| "py_repr (JBool b) = (if b then ''True'' else ''False'')"
| "py_repr (JInt i) = show_int i"
| "py_repr (JFloat r) = r"
| "py_repr (JStr s) = repr_str s"
| "py_repr (JArr xs) = ''['' @ join '', '' (map py_repr xs) @ '']''"
| "py_repr (JObj kvs) = ''{'' @ join '', '' (map (\<lambda>(k, d). repr_str k @ '': '' @ d) (map (map_prod id py_repr) kvs)) @ ''}''"

definition py_str :: "json \<Rightarrow> string" where
  "py_str v = (case v of JStr s \<Rightarrow> s | _ \<Rightarrow> py_repr v)"

text \<open>
  Floats are kept as their \<open>repr\<close>: \<open>fl_int\<close> is \<open>int(x)\<close>, \<open>fl_timestamp\<close> is \<open>datetime.fromtimestamp(x, timezone.utc)\<close>,
  with the exception either may raise, and \<open>fl_is_zero\<close> is \<open>x == 0\<close>.
\<close>

record python_floats =
  fl_int :: "string \<Rightarrow> int result"
  fl_timestamp :: "string \<Rightarrow> instant result"
  fl_is_zero :: "string \<Rightarrow> bool"

section \<open>Values of the data parser\<close>

definition is_container :: "json \<Rightarrow> bool" where
  "is_container v = (case v of JArr _ \<Rightarrow> True | JObj _ \<Rightarrow> True | _ \<Rightarrow> False)"

fun first_scalar :: "(string \<times> json) list \<Rightarrow> string list \<Rightarrow> json option" where
  "first_scalar kvs [] = None"
| "first_scalar kvs (k # ks) =
     (case map_of kvs k of
        None \<Rightarrow> first_scalar kvs ks
      | Some v \<Rightarrow> if is_container v then first_scalar kvs ks else Some v)"

definition scalar :: "json \<Rightarrow> json" where
  "scalar v =
     (case v of
        JObj kvs \<Rightarrow>
          if map_of kvs ''set'' = Some (JBool False) then JNull
          else (case first_scalar kvs [''number'', ''string'', ''value'', ''id''] of
              Some x \<Rightarrow> x
            | None \<Rightarrow>
                (case jget kvs ''current'' of
                   JArr (x # _) \<Rightarrow> x
                 | JStr s \<Rightarrow> JStr s
                 | _ \<Rightarrow> JNull))
      | _ \<Rightarrow> v)"

definition sacct_text :: "json \<Rightarrow> string option" where
  "sacct_text v =
     (case scalar v of
        JNull \<Rightarrow> None
      | x \<Rightarrow> (let rendered = str_strip (py_str x) in if rendered = [] then None else Some rendered))"

definition integer_of :: "python_floats \<Rightarrow> json \<Rightarrow> int option result" where
  "integer_of F v =
     (case scalar v of
        JNull \<Rightarrow> Inr None
      | JBool _ \<Rightarrow> Inr None
      | JInt i \<Rightarrow> Inr (Some i)
      | JStr s \<Rightarrow> Inr (py_int s)
      | JFloat r \<Rightarrow> (case fl_int F r of
            Inr i \<Rightarrow> Inr (Some i)
          | Inl (ValueError _) \<Rightarrow> Inr None
          | Inl (TypeErr _) \<Rightarrow> Inr None
          | Inl e \<Rightarrow> Inl e)
      | _ \<Rightarrow> Inr None)"

text \<open>\<open>datetime.fromtimestamp(float(n), timezone.utc)\<close> of an integer: the years 1 to 9999.\<close>

definition from_timestamp :: "int \<Rightarrow> instant result" where
  "from_timestamp n = (if -62135596800 \<le> n \<and> n \<le> 253402300799 then Inr (seconds n)
     else Inl (ValueError ''year is out of range''))"

definition instant_of :: "python_floats \<Rightarrow> iso_reader \<Rightarrow> json \<Rightarrow> instant option result" where
  "instant_of F fromiso v =
     (case scalar v of
        JNull \<Rightarrow> Inr None
      | JBool _ \<Rightarrow> Inr None
      | JInt n \<Rightarrow> if n = 0 then Inr None else bindE (from_timestamp n) (\<lambda>t. Inr (Some t))
      | JFloat r \<Rightarrow> if fl_is_zero F r then Inr None else bindE (fl_timestamp F r) (\<lambda>t. Inr (Some t))
      | JStr s \<Rightarrow>
          if s \<in> {''0'', ''Unknown'', ''N/A''} then Inr None
          else (case fromiso (replace_Z (str_strip s)) of
              None \<Rightarrow> Inr None
            | Some d \<Rightarrow> Inr (Some (dt_instant d)))
      | _ \<Rightarrow> Inr None)"

section \<open>Job states\<close>

definition state_token :: "json \<Rightarrow> string" where
  "state_token v = takeWhile (\<lambda>c. c \<noteq> CHR ''+'') (map upper_char (case sacct_text v of None \<Rightarrow> ''UNKNOWN'' | Some t \<Rightarrow> t))"

definition token_state :: "string \<Rightarrow> ExecutionState" where
  "token_state token =
     (if token \<in> {''PENDING'', ''CONFIGURING'', ''RESV_DEL_HOLD'', ''REQUEUE_HOLD'', ''REQUEUED''} then PENDING
      else if token \<in> {''RUNNING'', ''SUSPENDED''} then RUNNING
      else if token \<in> {''COMPLETING'', ''STAGE_OUT''} then COMPLETING
      else if token = ''COMPLETED'' then SUCCEEDED
      else if token \<in> {''CANCELLED'', ''DEADLINE'', ''REVOKED''} then CANCELLED
      else if token \<in> {''PREEMPTED'', ''REQUEUE_FED''} then PREEMPTED
      else if token = ''TIMEOUT'' then TIMED_OUT
      else if token \<in> {''BOOT_FAIL'', ''FAILED'', ''NODE_FAIL'', ''OUT_OF_MEMORY'', ''SPECIAL_EXIT'', ''STOPPED'', ''LAUNCH_FAILED''}
      then FAILED
      else UNKNOWN)"

definition state_of :: "json \<Rightarrow> ExecutionState \<times> string option" where
  "state_of v = (token_state (state_token v),
     case v of JObj kvs \<Rightarrow> sacct_text (jget kvs ''reason'') | _ \<Rightarrow> None)"

section \<open>Identity\<close>

definition or_text :: "string option \<Rightarrow> string option \<Rightarrow> string option" where
  "or_text a b = (case a of None \<Rightarrow> b | Some s \<Rightarrow> Some s)"

definition or_int :: "int option result \<Rightarrow> int option result \<Rightarrow> int option result" where
  "or_int a b = bindE a (\<lambda>x. case x of None \<Rightarrow> b | Some i \<Rightarrow> if i = 0 then b else Inr (Some i))"

definition array_of :: "(string \<times> json) list \<Rightarrow> (string \<times> json) list" where
  "array_of job = (case jget job ''array'' of JObj kvs \<Rightarrow> kvs | _ \<Rightarrow> [])"

definition text_or :: "string \<Rightarrow> string option \<Rightarrow> string" where
  "text_or d x = (case x of None \<Rightarrow> d | Some s \<Rightarrow> s)"

definition array_job_text :: "(string \<times> json) list \<Rightarrow> string option" where
  "array_job_text job = or_text (sacct_text (jget (array_of job) ''job_id'')) (sacct_text (jget job ''array_job_id''))"

definition array_task_text :: "(string \<times> json) list \<Rightarrow> string option" where
  "array_task_text job = or_text (sacct_text (jget (array_of job) ''task_id'')) (sacct_text (jget job ''array_task_id''))"

definition restart_count_of :: "python_floats \<Rightarrow> (string \<times> json) list \<Rightarrow> int result" where
  "restart_count_of F job = bindE (integer_of F (jget job ''restart_count'')) (\<lambda>n. Inr (case n of None \<Rightarrow> 0 | Some i \<Rightarrow> i))"

definition unit_separator :: string where
  "unit_separator = [CHR 0x1F]"

definition identity_fields :: "string \<Rightarrow> (string \<times> json) list \<Rightarrow> int \<Rightarrow> string list" where
  "identity_fields cluster_id job restarts =
     [cluster_id, text_or ''unknown'' (sacct_text (jget job ''job_id'')), text_or '''' (array_job_text job),
      text_or '''' (array_task_text job), text_or '''' (sacct_text (jget job ''submit_time'')), show_int restarts]"

definition source_identity :: "runtime \<Rightarrow> python_floats \<Rightarrow> string \<Rightarrow> (string \<times> json) list \<Rightarrow> string result" where
  "source_identity R F cluster_id job =
     (let sluid = or_text (sacct_text (jget job ''sluid'')) (sacct_text (jget job ''SLUID''));
          original = or_text (sacct_text (jget job ''original_sluid'')) (sacct_text (jget job ''OriginalSLUID''))
      in if original \<noteq> None \<or> sluid \<noteq> None
         then Inr (''slurm:'' @ cluster_id @ '':sluid:'' @ text_or '''' (or_text original sluid) @ '':''
                @ text_or '''' (or_text sluid original))
         else bindE (restart_count_of F job) (\<lambda>n.
                Inr (''slurm:'' @ cluster_id @ '':derived:''
                  @ rt_sha256 R (utf8 (join unit_separator (identity_fields cluster_id job n))))))"

section \<open>The answer of sacct\<close>

definition ADAPTER_VERSION :: string where
  "ADAPTER_VERSION = ''slurm-sacct-json-v1''"

definition parse_job ::
  "runtime \<Rightarrow> python_floats \<Rightarrow> iso_reader \<Rightarrow> string \<Rightarrow> instant \<Rightarrow> json \<Rightarrow> SchedulerAttempt result" where
  "parse_job R F fromiso cluster_id observed j =
     (case j of
        JObj job \<Rightarrow>
          (case sacct_text (jget job ''job_id'') of
             None \<Rightarrow> Inl (SlurmAdapterError ''sacct job is missing job_id'')
           | Some job_id \<Rightarrow>
               (let (st, reason) = state_of (jget job ''state'') in
                bindE (source_identity R F cluster_id job) (\<lambda>identity.
                bindE (restart_count_of F job) (\<lambda>restarts.
                bindE (instant_of F fromiso (jget job ''submit_time'')) (\<lambda>submitted.
                bindE (instant_of F fromiso (jget job ''start_time'')) (\<lambda>started.
                bindE (instant_of F fromiso (jget job ''end_time'')) (\<lambda>ended.
                bindE (or_int (integer_of F (jget job ''allocation_nodes'')) (integer_of F (jget job ''nodes''))) (\<lambda>nodes.
                bindE (or_int (integer_of F (jget job ''allocation_cpus'')) (integer_of F (jget job ''cpus''))) (\<lambda>cpus.
                  Inr \<lparr>sa_adapter = ''slurm'', sa_adapter_version = ADAPTER_VERSION, sa_cluster_id = cluster_id,
                    sa_source_identity = identity, sa_job_id = job_id, sa_array_job_id = array_job_text job,
                    sa_array_task_id = array_task_text job, sa_step_id = None, sa_restart_count = restarts,
                    sa_state = st, sa_state_reason = reason, sa_submitted_at = submitted, sa_started_at = started,
                    sa_ended_at = ended, sa_allocated_nodes = nodes, sa_allocated_cpus = cpus,
                    sa_account = sacct_text (jget job ''account''), sa_partition = sacct_text (jget job ''partition''),
                    sa_user_ref = sacct_text (jget job ''user''), sa_observed_at = observed, sa_raw = j\<rparr>)))))))))
      | _ \<Rightarrow> Inl (SlurmAdapterError ''sacct jobs must be objects''))"

definition parse_sacct_json ::
  "runtime \<Rightarrow> python_floats \<Rightarrow> iso_reader \<Rightarrow> (string \<times> json) list \<Rightarrow> string \<Rightarrow> instant \<Rightarrow> SchedulerAttempt list result" where
  "parse_sacct_json R F fromiso payload cluster_id observed =
     (case jget payload ''jobs'' of
        JArr jobs \<Rightarrow> mapE (parse_job R F fromiso cluster_id observed) jobs
      | _ \<Rightarrow> Inl (SlurmAdapterError ''sacct JSON must contain a jobs list''))"

section \<open>The adapter\<close>

record SlurmAccountingAdapter =
  sl_cluster_id :: string
  sl_sacct :: string
  sl_timeout_seconds :: rat

definition make_adapter :: "string \<Rightarrow> string \<Rightarrow> rat \<Rightarrow> SlurmAccountingAdapter result" where
  "make_adapter cluster_id sacct timeout =
     (if timeout \<le> 0 \<or> timeout > 60 then Inl (ValueError ''timeout_seconds must be within (0, 60]'')
      else Inr \<lparr>sl_cluster_id = cluster_id, sl_sacct = sacct, sl_timeout_seconds = timeout\<rparr>)"

definition sacct_command ::
  "SlurmAccountingAdapter \<Rightarrow> (instant \<Rightarrow> string) \<Rightarrow> string list \<Rightarrow> instant option \<Rightarrow> string list result" where
  "sacct_command ad strftime job_ids since =
     (if job_ids \<noteq> [] \<and> (length job_ids > 1000 \<or> \<not> list_all (\<lambda>i. i \<noteq> [] \<and> CHR '','' \<notin> set i) job_ids)
      then Inl (ValueError ''job_ids must contain at most 1000 nonempty identifiers'')
      else Inr ([sl_sacct ad, ''--json'', ''--duplicates'']
             @ (if job_ids = [] then [] else [''--jobs'', join '','' job_ids])
             @ (case since of None \<Rightarrow> [] | Some t \<Rightarrow> [''--starttime'', strftime t])))"

text \<open>The outcome of \<open>subprocess.run\<close>: an exception text, or return code, standard output and standard error.\<close>

datatype process_outcome = ProcessError string | Completed int string string

definition one_line :: "string \<Rightarrow> string" where
  "one_line s = map (\<lambda>c. if c = LF then CHR '' '' else c) s"

definition fetch_attempts ::
  "runtime \<Rightarrow> python_floats \<Rightarrow> iso_reader \<Rightarrow> (instant \<Rightarrow> string) \<Rightarrow> (rat \<Rightarrow> string list \<Rightarrow> process_outcome)
   \<Rightarrow> SlurmAccountingAdapter \<Rightarrow> instant \<Rightarrow> string list \<Rightarrow> instant option \<Rightarrow> SchedulerAttempt list result" where
  "fetch_attempts R F fromiso strftime run ad observed job_ids since =
     bindE (sacct_command ad strftime job_ids since) (\<lambda>command.
       case run (sl_timeout_seconds ad) command of
         ProcessError m \<Rightarrow> Inl (SlurmAdapterError (''sacct query failed: '' @ m))
       | Completed code out err \<Rightarrow>
           if code \<noteq> 0
           then Inl (SlurmAdapterError (''sacct exited with '' @ show_int code @ '': '' @ take 512 (one_line (str_strip err))))
           else (case rt_json_loads R (utf8 out) of
               None \<Rightarrow> Inl (SlurmAdapterError ''sacct returned invalid JSON'')
             | Some (JObj payload) \<Rightarrow> parse_sacct_json R F fromiso payload (sl_cluster_id ad) observed
             | Some _ \<Rightarrow> Inl (SlurmAdapterError ''sacct JSON root must be an object'')))"


section \<open>Laws\<close>

lemma parse_job_Inr:
  assumes "parse_job R F fromiso cl t j = Inr a"
  obtains job where "j = JObj job" "sacct_text (jget job ''job_id'') = Some (sa_job_id a)"
    "source_identity R F cl job = Inr (sa_source_identity a)" "sa_state a = token_state (state_token (jget job ''state''))"
    "sa_cluster_id a = cl" "sa_observed_at a = t" "sa_raw a = j" "sa_adapter a = ''slurm''"
    "instant_of F fromiso (jget job ''end_time'') = Inr (sa_ended_at a)"
proof (cases j)
  case (JObj job)
  with assms obtain i where "sacct_text (jget job ''job_id'') = Some i" by (auto simp: parse_job_def split: option.splits)
  with assms JObj that [of job] show ?thesis by (auto simp: parse_job_def bindE_Inr_iff Let_def state_of_def)
qed (use assms in \<open>simp_all add: parse_job_def\<close>)

lemma parse_sacct_Inr:
  assumes "parse_sacct_json R F fromiso payload cl t = Inr as"
  obtains jobs where "jget payload ''jobs'' = JArr jobs" "length as = length jobs"
    "\<And>i. i < length jobs \<Longrightarrow> parse_job R F fromiso cl t (jobs ! i) = Inr (as ! i)"
proof (cases "jget payload ''jobs''")
  case (JArr jobs)
  with assms have "mapE (parse_job R F fromiso cl t) jobs = Inr as" by (simp add: parse_sacct_json_def)
  note m = mapE_Inr_length [OF this] mapE_Inr_nth [OF this]
  show ?thesis by (rule that [OF JArr m(1)]) (rule m(2))
qed (use assms in \<open>simp_all add: parse_sacct_json_def\<close>)

text \<open>A separator that occurs in no field makes joining injective.\<close>

lemma split_at_sep:
  assumes "x @ s # xs = y @ s # ys" "s \<notin> set x" "s \<notin> set y"
  shows "x = y \<and> xs = ys"
  using assms
proof (induction x arbitrary: y)
  case Nil
  then show ?case by (cases y) auto
next
  case (Cons a x)
  then show ?case by (cases y) auto
qed

lemma join_inject:
  assumes "join [s] xs = join [s] ys" "length xs = length ys" "\<forall>x \<in> set xs. s \<notin> set x" "\<forall>y \<in> set ys. s \<notin> set y"
  shows "xs = ys"
  using assms
proof (induction xs arbitrary: ys)
  case (Cons x xs)
  then obtain y ys' where ys: "ys = y # ys'" by (cases ys) auto
  show ?case
  proof (cases xs)
    case Nil
    with Cons.prems ys show ?thesis by auto
  next
    case (Cons x2 xs2)
    with Cons.prems(2) ys obtain y2 ys2 where ys': "ys' = y2 # ys2" by (cases ys') auto
    have "x @ s # join [s] xs = y @ s # join [s] ys'" using Cons.prems(1) ys Cons ys' by simp
    from split_at_sep [OF this] Cons.prems(3,4) ys have "x = y" "join [s] xs = join [s] ys'" by auto
    with Cons.IH [of ys'] Cons.prems ys show ?thesis by simp
  qed
qed simp

definition derived :: "(string \<times> json) list \<Rightarrow> bool" where
  "derived job = (sacct_text (jget job ''sluid'') = None \<and> sacct_text (jget job ''SLUID'') = None
     \<and> sacct_text (jget job ''original_sluid'') = None \<and> sacct_text (jget job ''OriginalSLUID'') = None)"

lemma derived_identity:
  assumes "derived job" "restart_count_of F job = Inr n"
  shows "source_identity R F cl job = Inr (''slurm:'' @ cl @ '':derived:''
     @ rt_sha256 R (utf8 (join unit_separator (identity_fields cl job n))))"
  using assms by (simp add: source_identity_def derived_def or_text_def)

text \<open>The job states the adapter knows.\<close>

definition documented_tokens :: "string list" where
  "documented_tokens = [''PENDING'', ''CONFIGURING'', ''RESV_DEL_HOLD'', ''REQUEUE_HOLD'', ''REQUEUED'', ''RUNNING'', ''SUSPENDED'',
     ''COMPLETING'', ''STAGE_OUT'', ''COMPLETED'', ''CANCELLED'', ''DEADLINE'', ''REVOKED'', ''PREEMPTED'', ''REQUEUE_FED'', ''TIMEOUT'',
     ''BOOT_FAIL'', ''FAILED'', ''NODE_FAIL'', ''OUT_OF_MEMORY'', ''SPECIAL_EXIT'', ''STOPPED'', ''LAUNCH_FAILED'']"

lemma token_states:
  "token_state t = SUCCEEDED \<longleftrightarrow> t = ''COMPLETED''" "token_state t = UNKNOWN \<longleftrightarrow> t \<notin> set documented_tokens"
  by (auto simp: token_state_def documented_tokens_def)

section \<open>Properties of the adapter\<close>

definition demo_floats :: python_floats where
  "demo_floats = \<lparr>fl_int = (\<lambda>_. Inr 0), fl_timestamp = (\<lambda>_. Inr 0), fl_is_zero = (\<lambda>s. s = ''0.0'')\<rparr>"

definition demo_sacct_job :: "int \<Rightarrow> string \<Rightarrow> (string \<times> json) list" where
  "demo_sacct_job n st = [(''job_id'', JInt n), (''state'', JObj [(''current'', JArr [JStr st]), (''reason'', JStr ''None'')]),
     (''submit_time'', JObj [(''set'', JBool True), (''number'', JInt 5)]), (''nodes'', JStr ''4'')]"

text \<open>C25. Parsing the accounting answer loses and invents nothing: there is one attempt per job, in order, carrying the
  job's own record; a job counts as succeeded only when Slurm reports it completed, and as unknown exactly when the
  reported state is none of the documented ones.\<close>

theorem sacct_parse_faithful:
  assumes "parse_sacct_json R F fromiso payload cl t = Inr as"
  shows "\<exists>jobs. jget payload ''jobs'' = JArr jobs \<and> map sa_raw as = jobs
    \<and> (\<forall>a \<in> set as. sa_cluster_id a = cl \<and> sa_observed_at a = t
        \<and> (\<exists>job. sa_raw a = JObj job \<and> sacct_text (jget job ''job_id'') = Some (sa_job_id a)
             \<and> (sa_state a = SUCCEEDED \<longleftrightarrow> state_token (jget job ''state'') = ''COMPLETED'')
             \<and> (sa_state a = UNKNOWN \<longleftrightarrow> state_token (jget job ''state'') \<notin> set documented_tokens)))"
proof -
  obtain jobs where j: "jget payload ''jobs'' = JArr jobs" "length as = length jobs"
    "\<And>i. i < length jobs \<Longrightarrow> parse_job R F fromiso cl t (jobs ! i) = Inr (as ! i)"
    using parse_sacct_Inr [OF assms] by metis
  have raw: "sa_raw (as ! i) = jobs ! i" if "i < length jobs" for i
    using j(3) [OF that] by (rule parse_job_Inr) simp
  then have "map sa_raw as = jobs" using j(2) by (intro nth_equalityI) simp_all
  moreover have "sa_cluster_id a = cl \<and> sa_observed_at a = t
        \<and> (\<exists>job. sa_raw a = JObj job \<and> sacct_text (jget job ''job_id'') = Some (sa_job_id a)
             \<and> (sa_state a = SUCCEEDED \<longleftrightarrow> state_token (jget job ''state'') = ''COMPLETED'')
             \<and> (sa_state a = UNKNOWN \<longleftrightarrow> state_token (jget job ''state'') \<notin> set documented_tokens))" if "a \<in> set as" for a
  proof -
    from that j(2) obtain i where "i < length jobs" "a = as ! i" by (metis in_set_conv_nth)
    with j(3) [of i] have "parse_job R F fromiso cl t (jobs ! i) = Inr a" by simp
    then show ?thesis by (rule parse_job_Inr) (simp add: token_states)
  qed
  ultimately show ?thesis using j(1) by blast
qed

theorem sacct_parse_faithful_witness:
  "\<exists>as. parse_sacct_json demo_runtime demo_floats demo_fromiso [(''jobs'', JArr [JObj (demo_sacct_job 7 ''completed+'')])] ''alpha'' 9 = Inr as
     \<and> map sa_raw as = [JObj (demo_sacct_job 7 ''completed+'')] \<and> map sa_state as = [SUCCEEDED]"
proof -
  let ?p = "parse_sacct_json demo_runtime demo_floats demo_fromiso [(''jobs'', JArr [JObj (demo_sacct_job 7 ''completed+'')])] ''alpha'' 9"
  have s: "(case ?p of Inl _ \<Rightarrow> [] | Inr as \<Rightarrow> map sa_state as) = [SUCCEEDED]" by code_simp
  then obtain as where p: "?p = Inr as" by (cases ?p) simp_all
  with s have "map sa_state as = [SUCCEEDED]" by simp
  with p sacct_parse_faithful [OF p] show ?thesis by (auto simp: jget_def)
qed

text \<open>The derived identity tells jobs apart: when their digests do not collide and no field holds the separator, two jobs
  that carry no Slurm-assigned unique identifier have the same identity exactly when they agree on job, array, submission
  time and restart count; in particular the identity does not change while the job runs.\<close>

theorem derived_identity_exact:
  assumes "derived job" "derived job'" "restart_count_of F job = Inr n" "restart_count_of F job' = Inr n'"
    "rt_sha256 R (utf8 (join unit_separator (identity_fields cl job n)))
       = rt_sha256 R (utf8 (join unit_separator (identity_fields cl job' n')))
     \<Longrightarrow> join unit_separator (identity_fields cl job n) = join unit_separator (identity_fields cl job' n')"
    "\<forall>x \<in> set (identity_fields cl job n) \<union> set (identity_fields cl job' n'). CHR 0x1F \<notin> set x"
  shows "source_identity R F cl job = source_identity R F cl job' \<longleftrightarrow> identity_fields cl job n = identity_fields cl job' n'"
proof
  assume "source_identity R F cl job = source_identity R F cl job'"
  then have "join unit_separator (identity_fields cl job n) = join unit_separator (identity_fields cl job' n')"
    using assms(5) by (simp add: derived_identity [OF assms(1,3)] derived_identity [OF assms(2,4)])
  then show "identity_fields cl job n = identity_fields cl job' n'"
    unfolding unit_separator_def
    by (rule join_inject) (use assms(6) in \<open>simp add: identity_fields_def\<close>, use assms(6) in \<open>blast+\<close>)
next
  assume "identity_fields cl job n = identity_fields cl job' n'"
  then show "source_identity R F cl job = source_identity R F cl job'"
    by (simp add: derived_identity [OF assms(1,3)] derived_identity [OF assms(2,4)])
qed

definition identity_runtime :: runtime where
  "identity_runtime = demo_runtime\<lparr>rt_sha256 := (\<lambda>b. b)\<rparr>"


theorem derived_identity_exact_witness:
  "source_identity identity_runtime demo_floats ''alpha'' (demo_sacct_job 7 ''RUNNING'')
     = source_identity identity_runtime demo_floats ''alpha'' (demo_sacct_job 7 ''COMPLETED'')
   \<and> source_identity identity_runtime demo_floats ''alpha'' (demo_sacct_job 7 ''RUNNING'')
     \<noteq> source_identity identity_runtime demo_floats ''alpha'' (demo_sacct_job 8 ''RUNNING'')"
proof -
  let ?f = "\<lambda>n s. identity_fields ''alpha'' (demo_sacct_job n s) 0"
  have d: "derived (demo_sacct_job 7 ''RUNNING'')" "derived (demo_sacct_job 7 ''COMPLETED'')" "derived (demo_sacct_job 8 ''RUNNING'')"
    by code_simp+
  have n: "restart_count_of demo_floats (demo_sacct_job 7 ''RUNNING'') = Inr 0"
    "restart_count_of demo_floats (demo_sacct_job 7 ''COMPLETED'') = Inr 0"
    "restart_count_of demo_floats (demo_sacct_job 8 ''RUNNING'') = Inr 0" by code_simp+
  have eq: "?f 7 ''RUNNING'' = ?f 7 ''COMPLETED''" "?f 7 ''RUNNING'' \<noteq> ?f 8 ''RUNNING''" by code_simp+
  have ne: "rt_sha256 identity_runtime (utf8 (join unit_separator (?f 7 ''RUNNING'')))
      \<noteq> rt_sha256 identity_runtime (utf8 (join unit_separator (?f 8 ''RUNNING'')))" by code_simp
  have sep: "\<forall>x \<in> set (?f 7 ''RUNNING'') \<union> set (?f 7 ''COMPLETED''). CHR 0x1F \<notin> set x"
    "\<forall>x \<in> set (?f 7 ''RUNNING'') \<union> set (?f 8 ''RUNNING''). CHR 0x1F \<notin> set x" by code_simp+
  have "source_identity identity_runtime demo_floats ''alpha'' (demo_sacct_job 7 ''RUNNING'')
     = source_identity identity_runtime demo_floats ''alpha'' (demo_sacct_job 7 ''COMPLETED'')"
    by (rule derived_identity_exact [OF d(1,2) n(1,2) _ sep(1), THEN iffD2]) (simp_all add: eq(1))
  moreover have "source_identity identity_runtime demo_floats ''alpha'' (demo_sacct_job 7 ''RUNNING'')
     \<noteq> source_identity identity_runtime demo_floats ''alpha'' (demo_sacct_job 8 ''RUNNING'')"
    using derived_identity_exact [OF d(1,3) n(1,3) _ sep(2), of identity_runtime] ne eq(2) by blast
  ultimately show ?thesis by blast
qed

end
