(* ===== verification/Analytics.thy ===== *)
theory Analytics
  imports Parquet Complex_Main
begin

text \<open>
  \<^verbatim>\<open>analytics.py\<close>: the bounded latest-row-per-rank view over a report projection.  Reading the Parquet file is \<open>pyarrow\<close>, the
  parameter \<open>open_file\<close>: what the file holds, or nothing when it is not readable.  The median of an even number of runtimes
  is the exact mean of the middle two.
\<close>

section \<open>The projection\<close>

record parquet_file =
  pf_num_rows :: int
  pf_schema :: "string option"
  pf_names :: "string list"
  pf_rows :: "parquet_row list option"

definition aggregate_columns :: "string list" where
  "aggregate_columns = [''record_type'', ''rank'', ''hostname'', ''world_size'', ''runtime_ns'', ''mpi_time_ns'', ''mpi_calls'',
     ''request_completions'', ''failed_calls'', ''complete'', ''capture_state'']"

record RankAggregate =
  ra_source_row_count :: int
  ra_projected_summary_records :: int
  ra_rank_count :: int
  ra_expected_world_size :: "int option"
  ra_finalized_rank_count :: int
  ra_runtime_min_ns :: "int option"
  ra_runtime_median_ns :: "rat option"
  ra_runtime_max_ns :: "int option"
  ra_mpi_time_total_ns :: int
  ra_mpi_calls_total :: int
  ra_request_completions_total :: int
  ra_failed_calls_total :: int
  ra_coverage_status :: string
  ra_coverage_reasons :: "string list"

definition read_projection :: "(bytes \<Rightarrow> parquet_file option) \<Rightarrow> int \<Rightarrow> bytes \<Rightarrow> (int \<times> parquet_row list) result" where
  "read_projection open_file max_source_rows payload =
     (if max_source_rows < 1 then Inl (ValueError ''max_source_rows must be positive'')
      else (case open_file payload of
          None \<Rightarrow> Inl (RankAggregateError ''report projection is not readable Parquet'')
        | Some f \<Rightarrow>
            if pf_num_rows f > max_source_rows
            then Inl (RankAggregateError (''report projection has '' @ show_int (pf_num_rows f) @ '' rows; query limit is ''
                   @ show_int max_source_rows))
            else if pf_schema f \<noteq> Some ''normalized-record-v2''
            then Inl (RankAggregateError ''report projection schema is not supported'')
            else if \<not> set aggregate_columns \<subseteq> set (pf_names f)
            then Inl (RankAggregateError ''report projection is missing required typed columns'')
            else (case pf_rows f of
                None \<Rightarrow> Inl (RankAggregateError ''report projection cannot be decoded'')
              | Some rows \<Rightarrow> Inr (pf_num_rows f, rows))))"

section \<open>The view\<close>

definition summary_row :: "parquet_row \<Rightarrow> bool" where
  "summary_row r = (pr_record_type r = ''rank_summary'' \<and> pr_rank r \<noteq> None)"

definition rank_of :: "parquet_row \<Rightarrow> int" where
  "rank_of r = the (pr_rank r)"

definition latest_by_rank :: "parquet_row list \<Rightarrow> parquet_row list" where
  "latest_by_rank rows = map snd (dict_of (map (\<lambda>r. (rank_of r, r)) (filter summary_row rows)))"

definition finalized :: "parquet_row \<Rightarrow> bool" where
  "finalized r = (pr_complete r = Some True \<and> pr_capture_state r = Some ''finalized'')"

definition world_sizes :: "parquet_row list \<Rightarrow> int list" where
  "world_sizes latest = remdups (List.map_filter pr_world_size latest)"

definition expected_world_size :: "parquet_row list \<Rightarrow> int option" where
  "expected_world_size latest = (case world_sizes latest of [n] \<Rightarrow> Some n | _ \<Rightarrow> None)"

definition coverage_reasons :: "int \<Rightarrow> parquet_row list \<Rightarrow> string list" where
  "coverage_reasons summary_records latest =
     (let final = filter finalized latest in
      (if latest = [] then [''no_rank_summaries''] else [])
      @ (if summary_records > int (length latest) then [''duplicate_rank_summaries''] else [])
      @ (if length (world_sizes latest) > 1 then [''inconsistent_world_size''] else [])
      @ (if latest \<noteq> [] \<and> length final \<noteq> length latest then [''incomplete_or_nonfinal_rank_summaries''] else [])
      @ (if latest \<noteq> [] \<and> final = [] then [''no_finalized_rank_summaries''] else [])
      @ (case expected_world_size latest of None \<Rightarrow> []
         | Some n \<Rightarrow> if int (length final) \<noteq> n then [''finalized_rank_count_world_size_mismatch''] else []))"

definition median :: "int list \<Rightarrow> rat" where
  "median xs = (let s = sort xs; n = length s in
     if odd n then of_int (s ! (n div 2)) else (of_int (s ! (n div 2 - 1)) + of_int (s ! (n div 2))) / 2)"

definition total_of :: "(parquet_row \<Rightarrow> int option) \<Rightarrow> parquet_row list \<Rightarrow> int" where
  "total_of f rows = sum_list (map (\<lambda>r. case f r of None \<Rightarrow> 0 | Some n \<Rightarrow> n) rows)"

definition aggregate_rows :: "int \<Rightarrow> parquet_row list \<Rightarrow> RankAggregate" where
  "aggregate_rows source_rows rows =
     (let summary_records = int (length (filter summary_row rows));
          latest = latest_by_rank rows;
          final = filter finalized latest;
          runtimes = List.map_filter pr_runtime_ns final;
          reasons = coverage_reasons summary_records latest
      in \<lparr>ra_source_row_count = source_rows, ra_projected_summary_records = summary_records,
          ra_rank_count = int (length latest), ra_expected_world_size = expected_world_size latest,
          ra_finalized_rank_count = int (length final),
          ra_runtime_min_ns = (if runtimes = [] then None else Some (Min (set runtimes))),
          ra_runtime_median_ns = (if runtimes = [] then None else Some (median runtimes)),
          ra_runtime_max_ns = (if runtimes = [] then None else Some (Max (set runtimes))),
          ra_mpi_time_total_ns = total_of pr_mpi_time_ns final, ra_mpi_calls_total = total_of pr_mpi_calls final,
          ra_request_completions_total = total_of pr_request_completions final,
          ra_failed_calls_total = total_of pr_failed_calls final,
          ra_coverage_status = (if reasons = [] then ''complete'' else ''partial''),
          ra_coverage_reasons = sort (remdups reasons)\<rparr>)"

definition aggregate_rank_summaries :: "(bytes \<Rightarrow> parquet_file option) \<Rightarrow> int \<Rightarrow> bytes \<Rightarrow> RankAggregate result" where
  "aggregate_rank_summaries open_file max_source_rows payload =
     bindE (read_projection open_file max_source_rows payload) (\<lambda>(n, rows). Inr (aggregate_rows n rows))"

section \<open>Laws\<close>

lemma latest_distinct:
  assumes "distinct (map rank_of (filter summary_row rows))"
  shows "latest_by_rank rows = filter summary_row rows"
  using dict_of_distinct [of "map (\<lambda>r. (rank_of r, r)) (filter summary_row rows)"] assms
  by (simp add: latest_by_rank_def o_def)

lemma latest_length:
  "length (latest_by_rank rows) \<le> length (filter summary_row rows)"
  "length (latest_by_rank rows) = length (filter summary_row rows) \<longleftrightarrow> distinct (map rank_of (filter summary_row rows))"
  using length_dict_of [of "map (\<lambda>r. (rank_of r, r)) (filter summary_row rows)"]
    dict_of_shorter [of "map (\<lambda>r. (rank_of r, r)) (filter summary_row rows)"]
  by (simp_all add: latest_by_rank_def o_def)

lemma latest_ranks:
  "distinct (map rank_of (latest_by_rank rows))"
  "rank_of ` set (latest_by_rank rows) = rank_of ` {r \<in> set rows. summary_row r}"
  "set (latest_by_rank rows) \<subseteq> {r \<in> set rows. summary_row r}"
proof -
  let ?items = "map (\<lambda>r. (rank_of r, r)) (filter summary_row rows)"
  have l: "latest_by_rank rows = map snd (dict_of ?items)" by (simp add: latest_by_rank_def)
  have sub: "set (dict_of ?items) \<subseteq> set ?items" by (rule set_dict_of)
  then show "set (latest_by_rank rows) \<subseteq> {r \<in> set rows. summary_row r}" unfolding l by auto
  have "rank_of (snd x) = fst x" if "x \<in> set (dict_of ?items)" for x using that sub by auto
  then have m: "map rank_of (latest_by_rank rows) = map fst (dict_of ?items)" by (simp add: l)
  then show "distinct (map rank_of (latest_by_rank rows))" using length_dict_of [of ?items] by simp
  have "rank_of ` set (latest_by_rank rows) = fst ` set (dict_of ?items)"
    using arg_cong [OF m, of set] by (simp only: set_map)
  also have "\<dots> = fst ` set ?items" by (rule keys_dict_of)
  finally show "rank_of ` set (latest_by_rank rows) = rank_of ` {r \<in> set rows. summary_row r}" by (auto simp: image_iff)
qed

lemma world_size_rule:
  "length (world_sizes L) \<le> 1 \<and> (case expected_world_size L of None \<Rightarrow> True | Some w \<Rightarrow> n = w)
     \<longleftrightarrow> (\<forall>r \<in> set L. \<forall>w. pr_world_size r = Some w \<longrightarrow> w = n)"
proof -
  let ?ws = "world_sizes L"
  have s: "set ?ws = {w. \<exists>r \<in> set L. pr_world_size r = Some w}"
    by (auto simp: world_sizes_def List.map_filter_def image_iff) (metis option.sel)
  have d: "distinct ?ws" by (simp add: world_sizes_def)
  have "length ?ws \<le> 1 \<and> (case expected_world_size L of None \<Rightarrow> True | Some w \<Rightarrow> n = w) \<longleftrightarrow> (\<forall>w \<in> set ?ws. w = n)"
  proof (cases ?ws)
    case Nil
    then show ?thesis by (simp add: expected_world_size_def)
  next
    case (Cons w ws)
    show ?thesis
    proof (cases ws)
      case (Cons v vs)
      with \<open>?ws = w # ws\<close> d show ?thesis by auto
    qed (use Cons in \<open>auto simp: expected_world_size_def\<close>)
  qed
  with s show ?thesis by auto
qed

lemma reasons_empty:
  "coverage_reasons k L = [] \<longleftrightarrow> L \<noteq> [] \<and> k \<le> int (length L) \<and> list_all finalized L
     \<and> (\<forall>r \<in> set L. \<forall>w. pr_world_size r = Some w \<longrightarrow> w = int (length L))"
proof -
  have fin: "length (filter finalized L) = length L \<longleftrightarrow> list_all finalized L"
    using length_filter_less [of _ L finalized] by (fastforce simp: list_all_iff filter_id_conv)
  have "coverage_reasons k L = [] \<longleftrightarrow> L \<noteq> [] \<and> k \<le> int (length L) \<and> length (filter finalized L) = length L
      \<and> (length (world_sizes L) \<le> 1
         \<and> (case expected_world_size L of None \<Rightarrow> True | Some w \<Rightarrow> int (length (filter finalized L)) = w))"
    unfolding coverage_reasons_def Let_def by (cases "expected_world_size L") auto
  then show ?thesis unfolding world_size_rule [symmetric] fin using fin by (metis (no_types, lifting))
qed

lemma median_between:
  assumes "xs \<noteq> []"
  shows "of_int (Min (set xs)) \<le> median xs \<and> median xs \<le> of_int (Max (set xs))"
proof -
  have m: "Min (set xs) \<le> sort xs ! i \<and> sort xs ! i \<le> Max (set xs)" if "i < length xs" for i
  proof -
    have "sort xs ! i \<in> set (sort xs)" using that by (intro nth_mem) simp
    then show ?thesis by simp
  qed
  have h: "length xs div 2 < length xs" "length xs div 2 - 1 < length xs" using assms by (cases xs; simp)+
  show ?thesis using m [OF h(1)] m [OF h(2)] by (auto simp: median_def Let_def)
qed

text \<open>The rank view says complete exactly when the evidence is: there are summaries, one per rank, every one of them final,
  and every world size they report is the number of ranks seen; then the totals are the sums over all summaries.  In every case
  the counts are ordered and the median lies between the extremes.\<close>

theorem rank_view_complete:
  assumes "aggregate_rank_summaries open_file limit payload = Inr a"
  shows "\<exists>rows. read_projection open_file limit payload = Inr (ra_source_row_count a, rows) \<and> ra_source_row_count a \<le> limit
    \<and> (let S = filter summary_row rows in
        (ra_coverage_status a = ''complete'' \<longleftrightarrow> S \<noteq> [] \<and> distinct (map rank_of S) \<and> list_all finalized S
           \<and> (\<forall>r \<in> set S. \<forall>w. pr_world_size r = Some w \<longrightarrow> w = int (length S)))
      \<and> (ra_coverage_status a = ''complete'' \<longrightarrow> ra_rank_count a = int (length S) \<and> ra_finalized_rank_count a = int (length S)
           \<and> ra_mpi_time_total_ns a = total_of pr_mpi_time_ns S \<and> ra_mpi_calls_total a = total_of pr_mpi_calls S))
    \<and> ra_finalized_rank_count a \<le> ra_rank_count a \<and> ra_rank_count a \<le> ra_projected_summary_records a
    \<and> (case (ra_runtime_min_ns a, ra_runtime_median_ns a, ra_runtime_max_ns a) of
         (Some lo, Some m, Some hi) \<Rightarrow> of_int lo \<le> m \<and> m \<le> of_int hi
       | (x, y, z) \<Rightarrow> x = None \<and> y = None \<and> z = None)"
proof -
  obtain n rows where p: "read_projection open_file limit payload = Inr (n, rows)" and a: "a = aggregate_rows n rows"
    using assms by (auto simp: aggregate_rank_summaries_def bindE_Inr_iff)
  have n: "n \<le> limit" using p by (auto simp: read_projection_def split: option.splits if_splits)
  let ?S = "filter summary_row rows" and ?L = "latest_by_rank rows"
  have st: "ra_coverage_status a = ''complete'' \<longleftrightarrow> coverage_reasons (int (length ?S)) ?L = []"
    by (simp add: a aggregate_rows_def Let_def)
  have dist: "distinct (map rank_of ?S) \<and> ?L = ?S" if "int (length ?S) \<le> int (length ?L)"
  proof -
    have "distinct (map rank_of ?S)" using that latest_length [of rows] by simp
    then show ?thesis using latest_distinct by blast
  qed
  have iff: "ra_coverage_status a = ''complete'' \<longleftrightarrow> ?S \<noteq> [] \<and> distinct (map rank_of ?S) \<and> list_all finalized ?S
      \<and> (\<forall>r \<in> set ?S. \<forall>w. pr_world_size r = Some w \<longrightarrow> w = int (length ?S))" (is "_ \<longleftrightarrow> ?R")
  proof
    assume "ra_coverage_status a = ''complete''"
    then have r: "coverage_reasons (int (length ?S)) ?L = []" by (simp only: st)
    with reasons_empty have "int (length ?S) \<le> int (length ?L)" by blast
    from dist [OF this] r show ?R unfolding reasons_empty by (metis (no_types, lifting))
  next
    assume R: ?R
    then have "?L = ?S" using latest_distinct by blast
    with R have "coverage_reasons (int (length ?S)) ?L = []" unfolding reasons_empty by simp
    then show "ra_coverage_status a = ''complete''" by (simp only: st)
  qed
  have whole: "ra_rank_count a = int (length ?S) \<and> ra_finalized_rank_count a = int (length ?S)
      \<and> ra_mpi_time_total_ns a = total_of pr_mpi_time_ns ?S \<and> ra_mpi_calls_total a = total_of pr_mpi_calls ?S"
    if "ra_coverage_status a = ''complete''"
  proof -
    from that iff have "?L = ?S" "list_all finalized ?S" using latest_distinct by blast+
    moreover from this(2) have "filter finalized ?S = ?S" unfolding list_all_iff filter_id_conv by blast
    ultimately show ?thesis by (simp add: a aggregate_rows_def Let_def del: filter_filter)
  qed
  have ordered: "ra_finalized_rank_count a \<le> ra_rank_count a" "ra_rank_count a \<le> ra_projected_summary_records a"
    using latest_length [of rows] by (simp_all add: a aggregate_rows_def Let_def)
  let ?t = "List.map_filter pr_runtime_ns (filter finalized ?L)"
  have mid: "case (ra_runtime_min_ns a, ra_runtime_median_ns a, ra_runtime_max_ns a) of
      (Some lo, Some m, Some hi) \<Rightarrow> of_int lo \<le> m \<and> m \<le> of_int hi | (x, y, z) \<Rightarrow> x = None \<and> y = None \<and> z = None"
    using median_between [of ?t] by (simp add: a aggregate_rows_def Let_def)
  have src: "ra_source_row_count a = n" by (simp add: a aggregate_rows_def Let_def)
  show ?thesis unfolding Let_def src using p n iff whole ordered mid by blast
qed


section \<open>Witnesses\<close>

definition demo_summary :: "int \<Rightarrow> parquet_row" where
  "demo_summary k = \<lparr>pr_receipt_id = [], pr_payload_sha256 = [], pr_record_index = k, pr_record_type = ''rank_summary'',
     pr_schema_version = None, pr_rank = Some k, pr_sequence = None, pr_operation = None, pr_record_kind = None,
     pr_timestamp_ns = None, pr_duration_ns = None, pr_payload_bytes = None, pr_error_code = None, pr_hostname = None,
     pr_world_size = Some 2, pr_runtime_ns = Some (10 + k), pr_mpi_time_ns = Some 4, pr_mpi_calls = Some 1,
     pr_request_completions = None, pr_failed_calls = None, pr_complete = Some True, pr_capture_state = Some ''finalized'',
     pr_record_json = []\<rparr>"

definition demo_file :: "parquet_row list \<Rightarrow> parquet_file" where
  "demo_file rows = \<lparr>pf_num_rows = int (length rows), pf_schema = Some ''normalized-record-v2'', pf_names = aggregate_columns,
     pf_rows = Some rows\<rparr>"

theorem rank_view_complete_witness:
  "\<exists>a. aggregate_rank_summaries (\<lambda>_. Some (demo_file [demo_summary 0, demo_summary 1])) 9 [] = Inr a
     \<and> ra_coverage_status a = ''complete'' \<and> ra_mpi_time_total_ns a = 8"
proof -
  let ?rows = "[demo_summary 0, demo_summary 1]"
  have p: "read_projection (\<lambda>_. Some (demo_file ?rows)) 9 [] = Inr (2, ?rows)" by (simp add: read_projection_def demo_file_def)
  then obtain a where a: "aggregate_rank_summaries (\<lambda>_. Some (demo_file ?rows)) 9 [] = Inr a"
    by (simp add: aggregate_rank_summaries_def)
  have s: "summary_row (demo_summary k)" "finalized (demo_summary k)" "rank_of (demo_summary k) = k" "pr_world_size (demo_summary k) = Some 2"
    "pr_mpi_time_ns (demo_summary k) = Some 4" for k
    by (simp_all add: summary_row_def finalized_def rank_of_def demo_summary_def)
  from rank_view_complete [OF a] a show ?thesis by (auto simp: p s total_of_def)
qed


end
