(* ===== verification/Api_Read.thy ===== *)
theory Api_Read
  imports Auth Reports Notifications Scheduler
begin

text \<open>
  The reading half of \<^verbatim>\<open>api.py\<close> with the response models of \<^verbatim>\<open>contracts.py\<close>: every \<open>GET\<close> handler as a function of its
  parameters, the authenticated principal and the catalogue.  The constraints FastAPI enforces on parameters are checks that
  answer 422; an \<open>HTTPException\<close> carries its status and code.  \<open>read_request\<close> is the routing table, \<open>serve_read\<close> the
  dispatcher.
\<close>

section \<open>Parameters\<close>

definition require :: "bool \<Rightarrow> unit result" where
  "require b = (if b then Inr () else Inl (HTTPException 422 ''validation_error''))"

definition text_within :: "nat \<Rightarrow> nat \<Rightarrow> string \<Rightarrow> bool" where
  "text_within lo hi s = (lo \<le> length s \<and> length s \<le> hi)"

definition limit_ok :: "int \<Rightarrow> bool" where
  "limit_ok n = (1 \<le> n \<and> n \<le> 500)"

definition revision_ok :: "int option \<Rightarrow> bool" where
  "revision_ok n = opt_ok (\<lambda>v. 1 \<le> v \<and> v \<le> max_bigint) n"

definition cluster_scope :: "MachinePrincipal \<Rightarrow> string \<Rightarrow> unit result" where
  "cluster_scope p cluster_id =
     (if cluster_id \<notin> set (mp_clusters p) then Inl (HTTPException 404 ''cluster_not_found'') else Inr ())"

text \<open>What every cluster-scoped handler does first: validate its parameters, then check the cluster.\<close>

definition scoped :: "bool \<Rightarrow> MachinePrincipal \<Rightarrow> string \<Rightarrow> 'a result \<Rightarrow> 'a result" where
  "scoped valid p cluster_id body =
     bindE (require (valid \<and> text_within 1 128 cluster_id)) (\<lambda>_. bindE (cluster_scope p cluster_id) (\<lambda>_. body))"

section \<open>Integrity incidents and notifications\<close>

definition notification_state_name :: "notification_state \<Rightarrow> string" where
  "notification_state_name s = (case s of NPending \<Rightarrow> ''pending'' | NProcessing \<Rightarrow> ''processing''
     | NDelivered \<Rightarrow> ''delivered'' | NFailed \<Rightarrow> ''failed'')"

record IntegrityIncidentView =
  ix_incident_id :: string
  ix_candidate_id :: string
  ix_tenant_id :: string
  ix_cluster_id :: string
  ix_attempt_id :: "string option"
  ix_object_key :: string
  ix_payload_sha256 :: string
  ix_category :: incident_category
  ix_state :: incident_state
  ix_details :: string
  ix_occurrences :: int
  ix_first_detected_at :: instant
  ix_last_detected_at :: instant
  ix_resolved_at :: "instant option"
  ix_resolved_by_credential_id :: "string option"
  ix_resolution :: "string option"

definition integrity_incident_view :: "IntegrityIncident \<Rightarrow> IntegrityIncidentView" where
  "integrity_incident_view x = \<lparr>ix_incident_id = inc_incident_id x, ix_candidate_id = inc_candidate_id x,
     ix_tenant_id = inc_tenant_id x, ix_cluster_id = inc_cluster_id x, ix_attempt_id = inc_attempt_id x,
     ix_object_key = inc_object_key x, ix_payload_sha256 = inc_payload_sha256 x, ix_category = inc_category x,
     ix_state = inc_state x, ix_details = inc_details x, ix_occurrences = inc_occurrences x,
     ix_first_detected_at = inc_first_detected_at x, ix_last_detected_at = inc_last_detected_at x,
     ix_resolved_at = inc_resolved_at x, ix_resolved_by_credential_id = inc_resolved_by_credential_id x,
     ix_resolution = inc_resolution x\<rparr>"

definition integrity_incidents ::
  "string \<Rightarrow> string \<Rightarrow> int \<Rightarrow> MachinePrincipal \<Rightarrow> catalog \<Rightarrow> IntegrityIncidentView list result" where
  "integrity_incidents cluster_id st limit p c =
     scoped (st \<in> {''open'', ''resolved''} \<and> limit_ok limit) p cluster_id
       (Inr (map integrity_incident_view (take (nat limit)
          (sort_key (\<lambda>x. (- inc_last_detected_at x, inc_incident_id x))
            (filter (\<lambda>x. inc_tenant_id x = mp_tenant_id p \<and> inc_cluster_id x = cluster_id
               \<and> incident_state_name (inc_state x) = st) (incidents c))))))"

record IntegrityNotificationView =
  nv_notification_id :: string
  nv_incident_id :: string
  nv_tenant_id :: string
  nv_cluster_id :: string
  nv_occurrence :: int
  nv_event_type :: notification_event
  nv_state :: notification_state
  nv_attempts :: int
  nv_next_attempt_at :: instant
  nv_last_error :: "string option"
  nv_created_at :: instant
  nv_delivered_at :: "instant option"

definition integrity_notification_view :: "IntegrityNotification \<Rightarrow> IntegrityNotificationView" where
  "integrity_notification_view n = \<lparr>nv_notification_id = ntf_notification_id n, nv_incident_id = ntf_incident_id n,
     nv_tenant_id = ntf_tenant_id n, nv_cluster_id = ntf_cluster_id n, nv_occurrence = ntf_occurrence n,
     nv_event_type = ntf_event_type n, nv_state = ntf_state n, nv_attempts = ntf_attempts n,
     nv_next_attempt_at = ntf_next_attempt_at n, nv_last_error = ntf_last_error n, nv_created_at = ntf_created_at n,
     nv_delivered_at = ntf_delivered_at n\<rparr>"

definition integrity_notifications ::
  "string \<Rightarrow> string \<Rightarrow> int \<Rightarrow> MachinePrincipal \<Rightarrow> catalog \<Rightarrow> IntegrityNotificationView list result" where
  "integrity_notifications cluster_id st limit p c =
     scoped (st \<in> {''pending'', ''processing'', ''delivered'', ''failed''} \<and> limit_ok limit) p cluster_id
       (Inr (map integrity_notification_view (take (nat limit)
          (sort_key (\<lambda>n. (- ntf_created_at n, ntf_notification_id n))
            (filter (\<lambda>n. ntf_tenant_id n = mp_tenant_id p \<and> ntf_cluster_id n = cluster_id
               \<and> notification_state_name (ntf_state n) = st) (notifications c))))))"

record IntegrityNotificationSummary =
  ny_tenant_id :: string
  ny_cluster_id :: string
  ny_status :: string
  ny_total_count :: int
  ny_pending_count :: int
  ny_processing_count :: int
  ny_delivered_count :: int
  ny_failed_count :: int
  ny_max_attempts :: int
  ny_oldest_outstanding_at :: "instant option"
  ny_oldest_outstanding_age_seconds :: "int option"
  ny_last_delivered_at :: "instant option"
  ny_observed_at :: instant

text \<open>SQL \<open>min\<close> and \<open>max\<close> ignore nulls and are null on no rows.\<close>

definition sql_min :: "int list \<Rightarrow> int option" where
  "sql_min xs = (if xs = [] then None else Some (Min (set xs)))"

definition sql_max :: "int list \<Rightarrow> int option" where
  "sql_max xs = (if xs = [] then None else Some (Max (set xs)))"

definition summary_status :: "int \<Rightarrow> int \<Rightarrow> int \<Rightarrow> int \<Rightarrow> string" where
  "summary_status tot failed pending processing =
     (if tot = 0 then ''idle'' else if failed \<noteq> 0 then ''failed''
      else if pending \<noteq> 0 \<or> processing \<noteq> 0 then ''degraded'' else ''healthy'')"

definition summarise_notifications :: "string \<Rightarrow> string \<Rightarrow> instant \<Rightarrow> IntegrityNotification list \<Rightarrow> IntegrityNotificationSummary" where
  "summarise_notifications tenant_id cluster_id now rows =
     (let tot = int (length rows);
          pending = count_where (\<lambda>n. ntf_state n = NPending) rows;
          processing = count_where (\<lambda>n. ntf_state n = NProcessing) rows;
          delivered = count_where (\<lambda>n. ntf_state n = NDelivered) rows;
          failed = count_where (\<lambda>n. ntf_state n = NFailed) rows;
          oldest = sql_min (map ntf_created_at (filter (\<lambda>n. ntf_state n \<in> {NPending, NProcessing, NFailed}) rows));
          last_at = sql_max (List.map_filter ntf_delivered_at (filter (\<lambda>n. ntf_state n = NDelivered) rows))
      in \<lparr>ny_tenant_id = tenant_id, ny_cluster_id = cluster_id, ny_status = summary_status tot failed pending processing,
          ny_total_count = tot, ny_pending_count = pending, ny_processing_count = processing,
          ny_delivered_count = delivered, ny_failed_count = failed,
          ny_max_attempts = (case sql_max (map ntf_attempts rows) of None \<Rightarrow> 0 | Some n \<Rightarrow> n),
          ny_oldest_outstanding_at = oldest,
          ny_oldest_outstanding_age_seconds = map_option (\<lambda>t. max 0 ((now - t) div 1000000)) oldest,
          ny_last_delivered_at = last_at, ny_observed_at = now\<rparr>)"

definition integrity_notification_summary ::
  "string \<Rightarrow> instant \<Rightarrow> MachinePrincipal \<Rightarrow> catalog \<Rightarrow> IntegrityNotificationSummary result" where
  "integrity_notification_summary cluster_id now p c =
     scoped True p cluster_id
       (Inr (summarise_notifications (mp_tenant_id p) cluster_id now
          (filter (\<lambda>n. ntf_tenant_id n = mp_tenant_id p \<and> ntf_cluster_id n = cluster_id) (notifications c))))"

section \<open>Credentials and receipts\<close>

record MachineCredentialRevocationView =
  cv_tenant_id :: string
  cv_credential_id :: string
  cv_reason :: string
  cv_revoked_by_credential_id :: string
  cv_revoked_at :: instant

definition machine_credential_revocation_view :: "MachineCredentialRevocation \<Rightarrow> MachineCredentialRevocationView" where
  "machine_credential_revocation_view r = \<lparr>cv_tenant_id = mcr_tenant_id r, cv_credential_id = mcr_credential_id r,
     cv_reason = mcr_reason r, cv_revoked_by_credential_id = mcr_revoked_by_credential_id r,
     cv_revoked_at = mcr_revoked_at r\<rparr>"

definition list_machine_credential_revocations ::
  "int \<Rightarrow> MachinePrincipal \<Rightarrow> catalog \<Rightarrow> MachineCredentialRevocationView list result" where
  "list_machine_credential_revocations limit p c =
     bindE (require (limit_ok limit)) (\<lambda>_.
       Inr (map machine_credential_revocation_view (take (nat limit)
         (sort_key (\<lambda>r. (- mcr_revoked_at r, mcr_credential_id r))
           (filter (\<lambda>r. mcr_tenant_id r = mp_tenant_id p) (revocations c))))))"

definition receipt_handler :: "string \<Rightarrow> MachinePrincipal \<Rightarrow> catalog \<Rightarrow> ReceiptView result" where
  "receipt_handler receipt_id p c =
     (case get_receipt c (mp_tenant_id p) receipt_id of
        None \<Rightarrow> Inl (HTTPException 404 ''receipt_not_found'')
      | Some r \<Rightarrow> if rv_cluster_id r \<notin> set (mp_clusters p) then Inl (HTTPException 404 ''receipt_not_found'') else Inr r)"

section \<open>Attempts\<close>

record AttemptView =
  av_tenant_id :: string
  av_cluster_id :: string
  av_attempt_id :: string
  av_workflow_execution_id :: "string option"
  av_logical_case_id :: "string option"
  av_scheduler_source_identity :: "string option"
  av_scheduler_state :: string
  av_scheduler_observed_at :: "instant option"
  av_telemetry_status :: string
  av_retention_status :: string
  av_active_retention_holds :: int
  av_retention_expires_at :: "instant option"
  av_retention_policy_version :: "int option"
  av_first_admitted_at :: instant
  av_last_admitted_at :: instant
  av_segment_count :: int
  av_record_count :: int
  av_latest_report_revision :: "int option"

definition attempt_view ::
  "AttemptRecord \<Rightarrow> AttemptGeneration option \<Rightarrow> ReportHead option \<Rightarrow> int \<Rightarrow> AttemptView" where
  "attempt_view r generation head active_hold_count =
     (let deleted = (case generation of None \<Rightarrow> False | Some g \<Rightarrow> ag_deleted_at g \<noteq> None);
          current_revision = (case (generation, head) of
              (Some g, Some h) \<Rightarrow> if \<not> deleted \<and> rh_deletion_generation h = ag_generation g then Some (rh_revision_number h) else None
            | _ \<Rightarrow> None)
      in \<lparr>av_tenant_id = ar_tenant_id r, av_cluster_id = ar_cluster_id r, av_attempt_id = ar_attempt_id r,
          av_workflow_execution_id = ar_workflow_execution_id r, av_logical_case_id = ar_logical_case_id r,
          av_scheduler_source_identity = ar_scheduler_source_identity r, av_scheduler_state = ar_scheduler_state r,
          av_scheduler_observed_at = ar_scheduler_observed_at r,
          av_telemetry_status = (if deleted then ''deleted'' else ''available''),
          av_retention_status = (if active_hold_count > 0 then ''held'' else ''none''),
          av_active_retention_holds = active_hold_count, av_retention_expires_at = ar_retention_expires_at r,
          av_retention_policy_version = ar_retention_policy_version r, av_first_admitted_at = ar_first_admitted_at r,
          av_last_admitted_at = ar_last_admitted_at r, av_segment_count = ar_segment_count r,
          av_record_count = ar_record_count r, av_latest_report_revision = current_revision\<rparr>)"

definition active_hold_count :: "catalog \<Rightarrow> attempt_identity \<Rightarrow> int" where
  "active_hold_count c i = count_where (\<lambda>h. ah_state h = HActive \<and> ah_identity h = i) (holds c)"

text \<open>
  The statement joins each attempt with its generation, its report head and the number of its active holds.
\<close>

definition attempt_rows :: "string \<Rightarrow> string \<Rightarrow> catalog \<Rightarrow> AttemptRecord list" where
  "attempt_rows tenant_id cluster_id c =
     filter (\<lambda>r. ar_tenant_id r = tenant_id \<and> ar_cluster_id r = cluster_id) (attempt_records c)"

definition joined_view :: "catalog \<Rightarrow> AttemptRecord \<Rightarrow> AttemptView" where
  "joined_view c r = attempt_view r (get_generation c (ar_identity r)) (get_head c (ar_identity r))
     (active_hold_count c (ar_identity r))"

record AttemptPage =
  ap_items :: "AttemptView list"
  ap_next_cursor :: "string option"

definition attempts_page ::
  "string \<Rightarrow> string option \<Rightarrow> int \<Rightarrow> MachinePrincipal \<Rightarrow> catalog \<Rightarrow> AttemptPage result" where
  "attempts_page cluster_id cursor limit p c =
     scoped (opt_ok safe_identifier cursor \<and> limit_ok limit) p cluster_id
       (let rows = take (nat limit + 1) (sort_key ar_attempt_id
              (filter (\<lambda>r. case cursor of None \<Rightarrow> True | Some k \<Rightarrow> k < ar_attempt_id r)
                (attempt_rows (mp_tenant_id p) cluster_id c)));
            page = take (nat limit) rows
        in Inr \<lparr>ap_items = map (joined_view c) page,
             ap_next_cursor = (if length rows > nat limit then Some (ar_attempt_id (last page)) else None)\<rparr>)"

definition attempt_handler :: "string \<Rightarrow> string \<Rightarrow> MachinePrincipal \<Rightarrow> catalog \<Rightarrow> AttemptView result" where
  "attempt_handler attempt_id cluster_id p c =
     scoped (safe_identifier attempt_id) p cluster_id
       (case List.find (\<lambda>r. ar_attempt_id r = attempt_id) (attempt_rows (mp_tenant_id p) cluster_id c) of
          None \<Rightarrow> Inl (HTTPException 404 ''attempt_not_found'')
        | Some r \<Rightarrow> Inr (joined_view c r))"

section \<open>Holds and policies\<close>

definition hold_state_name :: "hold_state \<Rightarrow> string" where
  "hold_state_name s = (case s of HActive \<Rightarrow> ''active'' | HReleased \<Rightarrow> ''released'')"

record RetentionHoldView =
  hv_hold_id :: string
  hv_tenant_id :: string
  hv_cluster_id :: string
  hv_attempt_id :: string
  hv_reason :: string
  hv_state :: hold_state
  hv_placed_by_credential_id :: string
  hv_released_by_credential_id :: "string option"
  hv_placed_at :: instant
  hv_released_at :: "instant option"

definition retention_hold_view :: "AttemptHold \<Rightarrow> RetentionHoldView" where
  "retention_hold_view h = \<lparr>hv_hold_id = ah_hold_id h, hv_tenant_id = ah_tenant_id h, hv_cluster_id = ah_cluster_id h,
     hv_attempt_id = ah_attempt_id h, hv_reason = ah_reason h, hv_state = ah_state h,
     hv_placed_by_credential_id = ah_placed_by_credential_id h,
     hv_released_by_credential_id = ah_released_by_credential_id h, hv_placed_at = ah_placed_at h,
     hv_released_at = ah_released_at h\<rparr>"

definition retention_holds ::
  "string \<Rightarrow> string \<Rightarrow> string option \<Rightarrow> int \<Rightarrow> MachinePrincipal \<Rightarrow> catalog \<Rightarrow> RetentionHoldView list result" where
  "retention_holds attempt_id cluster_id st limit p c =
     scoped (safe_identifier attempt_id \<and> opt_ok (\<lambda>s. s \<in> {''active'', ''released''}) st \<and> limit_ok limit) p cluster_id
       (Inr (map retention_hold_view (take (nat limit) (sort_key ah_hold_id
          (filter (\<lambda>h. ah_tenant_id h = mp_tenant_id p \<and> ah_cluster_id h = cluster_id \<and> ah_attempt_id h = attempt_id
             \<and> opt_ok (\<lambda>s. hold_state_name (ah_state h) = s) st) (holds c))))))"

record RetentionPolicyView =
  pv_tenant_id :: string
  pv_cluster_id :: string
  pv_version :: int
  pv_logical_case_id :: "string option"
  pv_retention_seconds :: int
  pv_automatic_expiry_enabled :: bool
  pv_created_by_credential_id :: string
  pv_created_at :: instant
  pv_effective_at :: instant
  pv_activation_status :: string
  pv_cancellation_reason :: "string option"
  pv_cancelled_by_credential_id :: "string option"
  pv_cancelled_at :: "instant option"

definition activation_status ::
  "RetentionPolicyRevision \<Rightarrow> int option \<Rightarrow> instant \<Rightarrow> RetentionPolicyCancellation option \<Rightarrow> string" where
  "activation_status pol active now cancellation =
     (if cancellation \<noteq> None then ''cancelled'' else if rpr_effective_at pol > now then ''scheduled''
      else if active = Some (rpr_version pol) then ''active'' else ''superseded'')"

definition retention_policy_view ::
  "RetentionPolicyRevision \<Rightarrow> int option \<Rightarrow> instant \<Rightarrow> RetentionPolicyCancellation option \<Rightarrow> RetentionPolicyView" where
  "retention_policy_view pol active now cancellation =
     \<lparr>pv_tenant_id = rpr_tenant_id pol, pv_cluster_id = rpr_cluster_id pol, pv_version = rpr_version pol,
      pv_logical_case_id = rpr_logical_case_id pol, pv_retention_seconds = rpr_retention_seconds pol,
      pv_automatic_expiry_enabled = (rpr_retention_seconds pol > 0),
      pv_created_by_credential_id = rpr_created_by_credential_id pol, pv_created_at = rpr_created_at pol,
      pv_effective_at = rpr_effective_at pol, pv_activation_status = activation_status pol active now cancellation,
      pv_cancellation_reason = map_option rpc_reason cancellation,
      pv_cancelled_by_credential_id = map_option rpc_cancelled_by_credential_id cancellation,
      pv_cancelled_at = map_option rpc_cancelled_at cancellation\<rparr>"

definition active_policy :: "catalog \<Rightarrow> string \<Rightarrow> string \<Rightarrow> instant \<Rightarrow> RetentionPolicyRevision \<Rightarrow> bool" where
  "active_policy c tenant_id cluster_id now pol = (rpr_tenant_id pol = tenant_id \<and> rpr_cluster_id pol = cluster_id
     \<and> rpr_effective_at pol \<le> now \<and> get_cancellation c tenant_id cluster_id (rpr_version pol) = None)"

definition active_retention_policy_version ::
  "catalog \<Rightarrow> string \<Rightarrow> string \<Rightarrow> instant \<Rightarrow> string option \<Rightarrow> int option" where
  "active_retention_policy_version c tenant_id cluster_id now logical_case_id =
     sql_max (map rpr_version (filter (\<lambda>pol. active_policy c tenant_id cluster_id now pol
        \<and> rpr_logical_case_id pol = logical_case_id) (policies c)))"

definition policy_history_rows :: "catalog \<Rightarrow> string \<Rightarrow> string \<Rightarrow> RetentionPolicyRevision list" where
  "policy_history_rows c tenant_id cluster_id =
     sort_key (\<lambda>pol. - rpr_version pol) (filter (in_scope tenant_id cluster_id) (policies c))"

definition current_policy_view :: "catalog \<Rightarrow> instant \<Rightarrow> RetentionPolicyRevision \<Rightarrow> RetentionPolicyView" where
  "current_policy_view c now pol = retention_policy_view pol
     (active_retention_policy_version c (rpr_tenant_id pol) (rpr_cluster_id pol) now (rpr_logical_case_id pol)) now
     (get_cancellation c (rpr_tenant_id pol) (rpr_cluster_id pol) (rpr_version pol))"

definition retention_policy_history ::
  "string \<Rightarrow> int \<Rightarrow> instant \<Rightarrow> MachinePrincipal \<Rightarrow> catalog \<Rightarrow> RetentionPolicyView list result" where
  "retention_policy_history cluster_id limit now p c =
     scoped (safe_identifier cluster_id \<and> limit_ok limit) p cluster_id
       (Inr (map (current_policy_view c now) (take (nat limit) (policy_history_rows c (mp_tenant_id p) cluster_id))))"

section \<open>Scheduler evidence\<close>

record SchedulerObservationView =
  sv_observation_id :: string
  sv_tenant_id :: string
  sv_cluster_id :: string
  sv_adapter :: string
  sv_adapter_version :: string
  sv_source_identity :: string
  sv_job_id :: string
  sv_array_job_id :: "string option"
  sv_array_task_id :: "string option"
  sv_step_id :: "string option"
  sv_restart_count :: int
  sv_state :: string
  sv_state_reason :: "string option"
  sv_submitted_at :: "instant option"
  sv_started_at :: "instant option"
  sv_ended_at :: "instant option"
  sv_allocated_nodes :: "int option"
  sv_allocated_cpus :: "int option"
  sv_account :: "string option"
  sv_partition :: "string option"
  sv_user_ref :: "string option"
  sv_observed_at :: instant
  sv_first_seen_at :: instant

definition scheduler_observation_view :: "SchedulerObservation \<Rightarrow> SchedulerObservationView" where
  "scheduler_observation_view ob = \<lparr>sv_observation_id = so_observation_id ob, sv_tenant_id = so_tenant_id ob,
     sv_cluster_id = so_cluster_id ob, sv_adapter = so_adapter ob, sv_adapter_version = so_adapter_version ob,
     sv_source_identity = so_source_identity ob, sv_job_id = so_job_id ob, sv_array_job_id = so_array_job_id ob,
     sv_array_task_id = so_array_task_id ob, sv_step_id = so_step_id ob, sv_restart_count = so_restart_count ob,
     sv_state = so_state ob, sv_state_reason = so_state_reason ob, sv_submitted_at = so_submitted_at ob,
     sv_started_at = so_started_at ob, sv_ended_at = so_ended_at ob, sv_allocated_nodes = so_allocated_nodes ob,
     sv_allocated_cpus = so_allocated_cpus ob, sv_account = so_account ob, sv_partition = so_partition ob,
     sv_user_ref = so_user_ref ob, sv_observed_at = so_observed_at ob, sv_first_seen_at = so_first_seen_at ob\<rparr>"

definition scheduler_observations ::
  "string \<Rightarrow> string option \<Rightarrow> int \<Rightarrow> MachinePrincipal \<Rightarrow> catalog \<Rightarrow> SchedulerObservationView list result" where
  "scheduler_observations cluster_id job_id limit p c =
     scoped (opt_ok (text_within 1 128) job_id \<and> limit_ok limit) p cluster_id
       (Inr (map scheduler_observation_view (take (nat limit) (sort_key (\<lambda>ob. - so_observed_at ob)
          (filter (\<lambda>ob. so_tenant_id ob = mp_tenant_id p \<and> so_cluster_id ob = cluster_id
             \<and> opt_ok (\<lambda>j. so_job_id ob = j) job_id) (observations c))))))"

definition scheduler_allocation ::
  "string \<Rightarrow> string \<Rightarrow> MachinePrincipal \<Rightarrow> catalog \<Rightarrow> AllocationTimeline result" where
  "scheduler_allocation cluster_id source_identity p c =
     scoped (text_within 1 256 source_identity) p cluster_id
       (let rows = take 501 (sort_key (\<lambda>ob. - so_observed_at ob)
              (filter (\<lambda>ob. so_tenant_id ob = mp_tenant_id p \<and> so_cluster_id ob = cluster_id
                 \<and> so_source_identity ob = source_identity) (observations c)))
        in if rows = [] then Inl (HTTPException 404 ''scheduler_attempt_not_found'')
           else bindE (derive_allocation_timeline (rev (take 500 rows))) (\<lambda>tm.
                  Inr (tm\<lparr>tl_coverage_reasons := sort (tl_coverage_reasons tm
                     @ (if length rows > 500 then [''observation_window_limited''] else []))\<rparr>)))"

section \<open>Reports\<close>

definition resolve_report_revision ::
  "attempt_identity \<Rightarrow> int option \<Rightarrow> catalog \<Rightarrow> (ReportRevision \<times> ReportHead) result" where
  "resolve_report_revision i revision_number c =
     (case (get_generation c i, get_head c i) of
        (Some g, Some h) \<Rightarrow>
          if ag_deleted_at g \<noteq> None \<or> rh_deletion_generation h \<noteq> ag_generation g
          then Inl (HTTPException 404 ''report_not_found'')
          else (case List.find (\<lambda>r. rr_identity r = i \<and> rr_deletion_generation r = ag_generation g
                  \<and> (case revision_number of None \<Rightarrow> rr_revision_id r = rh_revision_id h | Some n \<Rightarrow> rr_revision_number r = n))
                  (report_revisions c) of
              None \<Rightarrow> Inl (HTTPException 404 ''report_not_found'')
            | Some r \<Rightarrow> Inr (r, h))
      | _ \<Rightarrow> Inl (HTTPException 404 ''report_not_found''))"

record ReportRevisionView =
  vr_revision_id :: string
  vr_tenant_id :: string
  vr_cluster_id :: string
  vr_attempt_id :: string
  vr_deletion_generation :: int
  vr_revision_number :: int
  vr_input_fingerprint :: string
  vr_segment_count :: int
  vr_record_count :: int
  vr_report_sha256 :: string
  vr_parquet_sha256 :: "string option"
  vr_parquet_schema_version :: "string option"
  vr_parquet_row_count :: "int option"
  vr_parquet_available :: bool
  vr_builder_version :: string
  vr_created_at :: instant
  vr_current :: bool
  vr_download_available :: bool

definition truthy :: "string option \<Rightarrow> bool" where
  "truthy s = (case s of None \<Rightarrow> False | Some t \<Rightarrow> t \<noteq> [])"

definition report_revision_view :: "MachinePrincipal \<Rightarrow> ReportRevision \<Rightarrow> ReportHead \<Rightarrow> ReportRevisionView" where
  "report_revision_view p r h = \<lparr>vr_revision_id = rr_revision_id r, vr_tenant_id = rr_tenant_id r,
     vr_cluster_id = rr_cluster_id r, vr_attempt_id = rr_attempt_id r, vr_deletion_generation = rr_deletion_generation r,
     vr_revision_number = rr_revision_number r, vr_input_fingerprint = rr_input_fingerprint r,
     vr_segment_count = rr_segment_count r, vr_record_count = rr_record_count r, vr_report_sha256 = rr_report_sha256 r,
     vr_parquet_sha256 = rr_parquet_sha256 r, vr_parquet_schema_version = rr_parquet_schema_version r,
     vr_parquet_row_count = rr_parquet_row_count r,
     vr_parquet_available = (truthy (rr_parquet_object_key r) \<and> truthy (rr_parquet_sha256 r) \<and> truthy (rr_parquet_schema_version r)),
     vr_builder_version = rr_builder_version r, vr_created_at = rr_created_at r,
     vr_current = (rr_revision_id r = rh_revision_id h),
     vr_download_available = (''evidence:download'' \<in> set (mp_permissions p))\<rparr>"

definition report_revision_handler ::
  "string \<Rightarrow> string \<Rightarrow> int option \<Rightarrow> MachinePrincipal \<Rightarrow> catalog \<Rightarrow> ReportRevisionView result" where
  "report_revision_handler attempt_id cluster_id revision_number p c =
     scoped (safe_identifier attempt_id \<and> revision_ok revision_number) p cluster_id
       (bindE (resolve_report_revision (mp_tenant_id p, cluster_id, attempt_id) revision_number c)
          (\<lambda>(r, h). Inr (report_revision_view p r h)))"

record EvidenceDownloadAuditView =
  ev_download_id :: string
  ev_tenant_id :: string
  ev_cluster_id :: string
  ev_attempt_id :: string
  ev_revision_id :: string
  ev_revision_number :: int
  ev_artifact_kind :: string
  ev_payload_sha256 :: string
  ev_payload_bytes :: int
  ev_downloaded_by_credential_id :: string
  ev_downloaded_at :: instant

definition evidence_download_view :: "EvidenceDownloadAudit \<Rightarrow> EvidenceDownloadAuditView" where
  "evidence_download_view a = \<lparr>ev_download_id = eda_download_id a, ev_tenant_id = eda_tenant_id a,
     ev_cluster_id = eda_cluster_id a, ev_attempt_id = eda_attempt_id a, ev_revision_id = eda_revision_id a,
     ev_revision_number = eda_revision_number a, ev_artifact_kind = eda_artifact_kind a,
     ev_payload_sha256 = eda_payload_sha256 a, ev_payload_bytes = eda_payload_bytes a,
     ev_downloaded_by_credential_id = eda_downloaded_by_credential_id a, ev_downloaded_at = eda_downloaded_at a\<rparr>"

definition evidence_download_history ::
  "string \<Rightarrow> string option \<Rightarrow> int \<Rightarrow> MachinePrincipal \<Rightarrow> catalog \<Rightarrow> EvidenceDownloadAuditView list result" where
  "evidence_download_history cluster_id attempt_id limit p c =
     scoped (opt_ok safe_identifier attempt_id \<and> limit_ok limit) p cluster_id
       (Inr (map evidence_download_view (take (nat limit) (sort_key (\<lambda>a. (- eda_downloaded_at a, eda_download_id a))
          (filter (\<lambda>a. eda_tenant_id a = mp_tenant_id p \<and> eda_cluster_id a = cluster_id
             \<and> opt_ok (\<lambda>k. eda_attempt_id a = k) attempt_id) (download_audits c))))))"

section \<open>Routing\<close>

datatype read_request =
    GetIncidents string string int
  | GetNotifications string string int
  | GetNotificationSummary string
  | GetRevocations int
  | GetReceipt string
  | GetAttempts string "string option" int
  | GetAttempt string string
  | GetHolds string string "string option" int
  | GetPolicies string int
  | GetObservations string "string option" int
  | GetAllocation string string
  | GetReport string string "int option"
  | GetDownloads string "string option" int

datatype read_response =
    Incidents "IntegrityIncidentView list"
  | NotificationList "IntegrityNotificationView list"
  | Summary IntegrityNotificationSummary
  | Revocations "MachineCredentialRevocationView list"
  | Receipt ReceiptView
  | Attempts AttemptPage
  | Attempt AttemptView
  | Holds "RetentionHoldView list"
  | Policies "RetentionPolicyView list"
  | Observations "SchedulerObservationView list"
  | Allocation AllocationTimeline
  | Report ReportRevisionView
  | Downloads "EvidenceDownloadAuditView list"

text \<open>The permission each route asks its dependency for.\<close>

fun read_permission :: "read_request \<Rightarrow> string" where
  "read_permission (GetIncidents _ _ _) = ''integrity:admin''"
| "read_permission (GetNotifications _ _ _) = ''integrity:admin''"
| "read_permission (GetNotificationSummary _) = ''integrity:admin''"
| "read_permission (GetRevocations _) = ''credentials:revoke''"
| "read_permission (GetReceipt _) = ''segments:write''"
| "read_permission (GetAttempts _ _ _) = ''telemetry:read''"
| "read_permission (GetAttempt _ _) = ''telemetry:read''"
| "read_permission (GetHolds _ _ _ _) = ''retention:admin''"
| "read_permission (GetPolicies _ _) = ''retention:admin''"
| "read_permission (GetObservations _ _ _) = ''telemetry:read''"
| "read_permission (GetAllocation _ _) = ''telemetry:read''"
| "read_permission (GetReport _ _ _) = ''telemetry:read''"
| "read_permission (GetDownloads _ _ _) = ''evidence:download''"

definition respond :: "('a \<Rightarrow> read_response) \<Rightarrow> 'a result \<Rightarrow> read_response result" where
  "respond f r = bindE r (\<lambda>x. Inr (f x))"

fun serve_read :: "instant \<Rightarrow> read_request \<Rightarrow> MachinePrincipal \<Rightarrow> catalog \<Rightarrow> read_response result" where
  "serve_read now (GetIncidents cl st n) p c = respond Incidents (integrity_incidents cl st n p c)"
| "serve_read now (GetNotifications cl st n) p c = respond NotificationList (integrity_notifications cl st n p c)"
| "serve_read now (GetNotificationSummary cl) p c = respond Summary (integrity_notification_summary cl now p c)"
| "serve_read now (GetRevocations n) p c = respond Revocations (list_machine_credential_revocations n p c)"
| "serve_read now (GetReceipt rid) p c = respond Receipt (receipt_handler rid p c)"
| "serve_read now (GetAttempts cl cur n) p c = respond Attempts (attempts_page cl cur n p c)"
| "serve_read now (GetAttempt a cl) p c = respond Attempt (attempt_handler a cl p c)"
| "serve_read now (GetHolds a cl st n) p c = respond Holds (retention_holds a cl st n p c)"
| "serve_read now (GetPolicies cl n) p c = respond Policies (retention_policy_history cl n now p c)"
| "serve_read now (GetObservations cl j n) p c = respond Observations (scheduler_observations cl j n p c)"
| "serve_read now (GetAllocation cl s) p c = respond Allocation (scheduler_allocation cl s p c)"
| "serve_read now (GetReport a cl n) p c = respond Report (report_revision_handler a cl n p c)"
| "serve_read now (GetDownloads cl a n) p c = respond Downloads (evidence_download_history cl a n p c)"

definition get_endpoint ::
  "runtime \<Rightarrow> MachineAuthenticator \<Rightarrow> string \<Rightarrow> datetime \<Rightarrow> read_request \<Rightarrow> catalog \<Rightarrow> read_response result" where
  "get_endpoint R ma authorization now req c =
     bindE (authenticate R ma authorization (read_permission req) now c) (\<lambda>p. serve_read (dt_instant now) req p c)"

section \<open>Isolation of tenants and clusters\<close>

text \<open>
  The rows a principal may see: those of its tenant and of one of its clusters.  \<open>visible p c\<close> is the catalogue reduced
  to them.
\<close>

definition in_view :: "MachinePrincipal \<Rightarrow> string \<Rightarrow> string \<Rightarrow> bool" where
  "in_view p t cl = (t = mp_tenant_id p \<and> cl \<in> set (mp_clusters p))"

definition visible :: "MachinePrincipal \<Rightarrow> catalog \<Rightarrow> catalog" where
  "visible p c = empty_catalog\<lparr>
     revocations := filter (\<lambda>r. mcr_tenant_id r = mp_tenant_id p) (revocations c),
     generations := filter (\<lambda>g. in_view p (ag_tenant_id g) (ag_cluster_id g)) (generations c),
     holds := filter (\<lambda>h. in_view p (ah_tenant_id h) (ah_cluster_id h)) (holds c),
     attempt_records := filter (\<lambda>r. in_view p (ar_tenant_id r) (ar_cluster_id r)) (attempt_records c),
     policies := filter (\<lambda>r. in_view p (rpr_tenant_id r) (rpr_cluster_id r)) (policies c),
     policy_cancellations := filter (\<lambda>r. in_view p (rpc_tenant_id r) (rpc_cluster_id r)) (policy_cancellations c),
     incidents := filter (\<lambda>x. in_view p (inc_tenant_id x) (inc_cluster_id x)) (incidents c),
     notifications := filter (\<lambda>n. in_view p (ntf_tenant_id n) (ntf_cluster_id n)) (notifications c),
     manifests := filter (\<lambda>m. in_view p (mf_tenant_id m) (mf_cluster_id m)) (manifests c),
     report_revisions := filter (\<lambda>r. in_view p (rr_tenant_id r) (rr_cluster_id r)) (report_revisions c),
     report_heads := filter (\<lambda>h. in_view p (rh_tenant_id h) (rh_cluster_id h)) (report_heads c),
     download_audits := filter (\<lambda>a. in_view p (eda_tenant_id a) (eda_cluster_id a)) (download_audits c),
     observations := filter (\<lambda>ob. in_view p (so_tenant_id ob) (so_cluster_id ob)) (observations c)\<rparr>"

lemma filter_reduce: "(\<And>x. P x \<Longrightarrow> Q x) \<Longrightarrow> filter P (filter Q xs) = filter P xs"
  by (induction xs) auto

lemma find_reduce: "(\<And>x. P x \<Longrightarrow> Q x) \<Longrightarrow> List.find P (filter Q xs) = List.find P xs"
  by (induction xs) auto

lemma count_reduce: "(\<And>x. P x \<Longrightarrow> Q x) \<Longrightarrow> count_where P (filter Q xs) = count_where P xs"
  by (simp add: count_where_def filter_reduce del: filter_filter)

lemma visible_sel:
  "revocations (visible p c) = filter (\<lambda>r. mcr_tenant_id r = mp_tenant_id p) (revocations c)"
  "generations (visible p c) = filter (\<lambda>g. in_view p (ag_tenant_id g) (ag_cluster_id g)) (generations c)"
  "holds (visible p c) = filter (\<lambda>h. in_view p (ah_tenant_id h) (ah_cluster_id h)) (holds c)"
  "attempt_records (visible p c) = filter (\<lambda>r. in_view p (ar_tenant_id r) (ar_cluster_id r)) (attempt_records c)"
  "policies (visible p c) = filter (\<lambda>r. in_view p (rpr_tenant_id r) (rpr_cluster_id r)) (policies c)"
  "policy_cancellations (visible p c) = filter (\<lambda>r. in_view p (rpc_tenant_id r) (rpc_cluster_id r)) (policy_cancellations c)"
  "incidents (visible p c) = filter (\<lambda>x. in_view p (inc_tenant_id x) (inc_cluster_id x)) (incidents c)"
  "notifications (visible p c) = filter (\<lambda>n. in_view p (ntf_tenant_id n) (ntf_cluster_id n)) (notifications c)"
  "manifests (visible p c) = filter (\<lambda>m. in_view p (mf_tenant_id m) (mf_cluster_id m)) (manifests c)"
  "report_revisions (visible p c) = filter (\<lambda>r. in_view p (rr_tenant_id r) (rr_cluster_id r)) (report_revisions c)"
  "report_heads (visible p c) = filter (\<lambda>h. in_view p (rh_tenant_id h) (rh_cluster_id h)) (report_heads c)"
  "download_audits (visible p c) = filter (\<lambda>a. in_view p (eda_tenant_id a) (eda_cluster_id a)) (download_audits c)"
  "observations (visible p c) = filter (\<lambda>ob. in_view p (so_tenant_id ob) (so_cluster_id ob)) (observations c)"
  by (simp_all add: visible_def)

lemma scoped_cong:
  assumes "cluster_id \<in> set (mp_clusters p) \<Longrightarrow> body = body'"
  shows "scoped valid p cluster_id body = scoped valid p cluster_id body'"
  using assms by (auto simp: scoped_def cluster_scope_def require_def)

lemma visible_lookups:
  assumes "cl \<in> set (mp_clusters p)"
  shows "get_generation (visible p c) (mp_tenant_id p, cl, a) = get_generation c (mp_tenant_id p, cl, a)"
    "get_head (visible p c) (mp_tenant_id p, cl, a) = get_head c (mp_tenant_id p, cl, a)"
    "active_hold_count (visible p c) (mp_tenant_id p, cl, a) = active_hold_count c (mp_tenant_id p, cl, a)"
    "get_cancellation (visible p c) (mp_tenant_id p) cl v = get_cancellation c (mp_tenant_id p) cl v"
    "attempt_rows (mp_tenant_id p) cl (visible p c) = attempt_rows (mp_tenant_id p) cl c"
    "filter (in_scope (mp_tenant_id p) cl) (policies (visible p c)) = filter (in_scope (mp_tenant_id p) cl) (policies c)"
  using assms
  by (auto simp: get_generation_def get_head_def active_hold_count_def get_cancellation_def attempt_rows_def visible_sel
      in_view_def identity_defs in_scope_def intro!: find_reduce count_reduce filter_cong)

lemma joined_view_visible:
  assumes "cl \<in> set (mp_clusters p)" "r \<in> set (attempt_rows (mp_tenant_id p) cl c)"
  shows "joined_view (visible p c) r = joined_view c r"
proof -
  from assms(2) have "ar_identity r = (mp_tenant_id p, cl, ar_attempt_id r)" by (simp add: attempt_rows_def ar_identity_def)
  then show ?thesis by (simp add: joined_view_def visible_lookups [OF assms(1)])
qed

lemma list_visible:
  "integrity_incidents cl st n p (visible p c) = integrity_incidents cl st n p c"
  "integrity_notifications cl st n p (visible p c) = integrity_notifications cl st n p c"
  "integrity_notification_summary cl now p (visible p c) = integrity_notification_summary cl now p c"
  "retention_holds a cl hst n p (visible p c) = retention_holds a cl hst n p c"
  "scheduler_observations cl j n p (visible p c) = scheduler_observations cl j n p c"
  "scheduler_allocation cl s p (visible p c) = scheduler_allocation cl s p c"
  "evidence_download_history cl ao n p (visible p c) = evidence_download_history cl ao n p c"
proof -
  show "integrity_incidents cl st n p (visible p c) = integrity_incidents cl st n p c"
    unfolding integrity_incidents_def visible_sel by (intro scoped_cong, subst filter_reduce) (auto simp: in_view_def)
  show "integrity_notifications cl st n p (visible p c) = integrity_notifications cl st n p c"
    unfolding integrity_notifications_def visible_sel by (intro scoped_cong, subst filter_reduce) (auto simp: in_view_def)
  show "integrity_notification_summary cl now p (visible p c) = integrity_notification_summary cl now p c"
    unfolding integrity_notification_summary_def visible_sel by (intro scoped_cong, subst filter_reduce) (auto simp: in_view_def)
  show "retention_holds a cl hst n p (visible p c) = retention_holds a cl hst n p c"
    unfolding retention_holds_def visible_sel by (intro scoped_cong, subst filter_reduce) (auto simp: in_view_def)
  show "scheduler_observations cl j n p (visible p c) = scheduler_observations cl j n p c"
    unfolding scheduler_observations_def visible_sel by (intro scoped_cong, subst filter_reduce) (auto simp: in_view_def)
  show "scheduler_allocation cl s p (visible p c) = scheduler_allocation cl s p c"
    unfolding scheduler_allocation_def visible_sel by (intro scoped_cong, subst filter_reduce) (auto simp: in_view_def)
  show "evidence_download_history cl ao n p (visible p c) = evidence_download_history cl ao n p c"
    unfolding evidence_download_history_def visible_sel by (intro scoped_cong, subst filter_reduce) (auto simp: in_view_def)
qed

lemma attempts_page_visible: "attempts_page cl cur n p (visible p c) = attempts_page cl cur n p c"
  unfolding attempts_page_def
proof (rule scoped_cong)
  assume cl: "cl \<in> set (mp_clusters p)"
  have "map (joined_view (visible p c)) (take k (take j (sort_key ar_attempt_id (filter Q (attempt_rows (mp_tenant_id p) cl c)))))
      = map (joined_view c) (take k (take j (sort_key ar_attempt_id (filter Q (attempt_rows (mp_tenant_id p) cl c)))))" for k j Q
    by (rule map_cong [OF refl], rule joined_view_visible [OF cl]) (auto dest!: in_set_takeD)
  then show "(let rows = take (nat n + 1) (sort_key ar_attempt_id
              (filter (\<lambda>r. case cur of None \<Rightarrow> True | Some k \<Rightarrow> k < ar_attempt_id r) (attempt_rows (mp_tenant_id p) cl (visible p c))));
            page = take (nat n) rows
        in Inr \<lparr>ap_items = map (joined_view (visible p c)) page,
             ap_next_cursor = (if length rows > nat n then Some (ar_attempt_id (last page)) else None)\<rparr>) =
      (let rows = take (nat n + 1) (sort_key ar_attempt_id
              (filter (\<lambda>r. case cur of None \<Rightarrow> True | Some k \<Rightarrow> k < ar_attempt_id r) (attempt_rows (mp_tenant_id p) cl c)));
            page = take (nat n) rows
        in Inr \<lparr>ap_items = map (joined_view c) page,
             ap_next_cursor = (if length rows > nat n then Some (ar_attempt_id (last page)) else None)\<rparr>)"
    by (simp only: Let_def visible_lookups(5) [OF cl])
qed

lemma attempt_handler_visible: "attempt_handler a cl p (visible p c) = attempt_handler a cl p c"
  unfolding attempt_handler_def
proof (rule scoped_cong)
  assume cl: "cl \<in> set (mp_clusters p)"
  show "(case List.find (\<lambda>r. ar_attempt_id r = a) (attempt_rows (mp_tenant_id p) cl (visible p c)) of
          None \<Rightarrow> Inl (HTTPException 404 ''attempt_not_found'') | Some r \<Rightarrow> Inr (joined_view (visible p c) r)) =
      (case List.find (\<lambda>r. ar_attempt_id r = a) (attempt_rows (mp_tenant_id p) cl c) of
          None \<Rightarrow> Inl (HTTPException 404 ''attempt_not_found'') | Some r \<Rightarrow> Inr (joined_view c r))"
    using joined_view_visible [OF cl, of _ c]
    by (auto simp: visible_lookups(5) [OF cl] split: option.splits dest!: find_Some_iff)
qed

lemma policy_history_visible: "retention_policy_history cl n now p (visible p c) = retention_policy_history cl n now p c"
  unfolding retention_policy_history_def
proof (rule scoped_cong)
  assume cl: "cl \<in> set (mp_clusters p)"
  have rows: "policy_history_rows (visible p c) (mp_tenant_id p) cl = policy_history_rows c (mp_tenant_id p) cl"
    by (simp only: policy_history_rows_def visible_lookups(6) [OF cl])
  have view: "current_policy_view (visible p c) now pol = current_policy_view c now pol"
    if "pol \<in> set (policy_history_rows c (mp_tenant_id p) cl)" for pol
  proof -
    from that have s: "rpr_tenant_id pol = mp_tenant_id p" "rpr_cluster_id pol = cl"
      by (simp_all add: policy_history_rows_def in_scope_def)
    have "active_retention_policy_version (visible p c) (mp_tenant_id p) cl now lc
        = active_retention_policy_version c (mp_tenant_id p) cl now lc" for lc
    proof -
      have "filter (\<lambda>q. active_policy (visible p c) (mp_tenant_id p) cl now q \<and> rpr_logical_case_id q = lc) (policies (visible p c))
          = filter (\<lambda>q. active_policy c (mp_tenant_id p) cl now q \<and> rpr_logical_case_id q = lc) (policies c)"
        by (auto simp: visible_sel active_policy_def visible_lookups [OF cl] in_view_def intro!: filter_cong) (use cl in simp_all)
      then show ?thesis by (simp only: active_retention_policy_version_def)
    qed
    then show ?thesis by (simp add: current_policy_view_def s visible_lookups [OF cl])
  qed
  show "Inr (map (current_policy_view (visible p c) now) (take (nat n) (policy_history_rows (visible p c) (mp_tenant_id p) cl)))
      = Inr (map (current_policy_view c now) (take (nat n) (policy_history_rows c (mp_tenant_id p) cl)))"
    unfolding rows using view by (auto dest!: in_set_takeD)
qed

lemma report_visible: "report_revision_handler a cl n p (visible p c) = report_revision_handler a cl n p c"
  unfolding report_revision_handler_def
proof (rule scoped_cong)
  assume cl: "cl \<in> set (mp_clusters p)"
  have "List.find (\<lambda>r. rr_identity r = (mp_tenant_id p, cl, a) \<and> Q r) (report_revisions (visible p c))
      = List.find (\<lambda>r. rr_identity r = (mp_tenant_id p, cl, a) \<and> Q r) (report_revisions c)" for Q
    unfolding visible_sel by (rule find_reduce) (use cl in \<open>auto simp: in_view_def rr_identity_def\<close>)
  then have "resolve_report_revision (mp_tenant_id p, cl, a) n (visible p c) = resolve_report_revision (mp_tenant_id p, cl, a) n c"
    by (simp only: resolve_report_revision_def visible_lookups [OF cl])
  then show "bindE (resolve_report_revision (mp_tenant_id p, cl, a) n (visible p c)) (\<lambda>(r, h). Inr (report_revision_view p r h))
      = bindE (resolve_report_revision (mp_tenant_id p, cl, a) n c) (\<lambda>(r, h). Inr (report_revision_view p r h))" by simp
qed

lemma find_keyed_filter:
  assumes "distinct (map k xs)"
  shows "List.find (\<lambda>x. k x = i \<and> P x) (filter V xs)
    = (case List.find (\<lambda>x. k x = i \<and> P x) xs of None \<Rightarrow> None | Some x \<Rightarrow> if V x then Some x else None)"
  using assms
proof (induction xs)
  case (Cons x xs)
  have "List.find (\<lambda>y. k y = k x \<and> P y) xs = None" using Cons.prems by (auto simp: find_None_iff image_iff)
  with Cons show ?case by auto
qed simp

lemma receipt_visible:
  assumes "distinct (map mf_receipt_id (manifests c))"
  shows "receipt_handler rid p (visible p c) = receipt_handler rid p c"
proof -
  let ?P = "\<lambda>m. mf_receipt_id m = rid \<and> mf_tenant_id m = mp_tenant_id p"
  have f: "List.find ?P (manifests (visible p c)) = (case List.find ?P (manifests c) of None \<Rightarrow> None
      | Some m \<Rightarrow> if in_view p (mf_tenant_id m) (mf_cluster_id m) then Some m else None)"
    unfolding visible_sel using find_keyed_filter [OF assms, of rid "\<lambda>m. mf_tenant_id m = mp_tenant_id p"] .
  show ?thesis
  proof (cases "List.find ?P (manifests c)")
    case None
    with f show ?thesis by (simp add: receipt_handler_def get_receipt_def)
  next
    case (Some m)
    with find_Some_iff [OF Some] f show ?thesis by (simp add: receipt_handler_def get_receipt_def in_view_def)
  qed
qed

lemma serve_read_visible:
  assumes "\<And>rid. req = GetReceipt rid \<Longrightarrow> distinct (map mf_receipt_id (manifests c))"
  shows "serve_read now req p (visible p c) = serve_read now req p c"
proof (cases req)
  case (GetReceipt rid)
  with assms show ?thesis by (simp add: receipt_visible)
next
  case (GetRevocations n)
  then show ?thesis by (simp add: list_machine_credential_revocations_def visible_sel)
qed (simp_all add: list_visible attempts_page_visible attempt_handler_visible policy_history_visible report_visible)


section \<open>Paging\<close>

definition remaining_attempts :: "MachinePrincipal \<Rightarrow> string \<Rightarrow> string option \<Rightarrow> catalog \<Rightarrow> AttemptRecord list" where
  "remaining_attempts p cluster_id cursor c = sort_key ar_attempt_id
     (filter (\<lambda>r. case cursor of None \<Rightarrow> True | Some k \<Rightarrow> k < ar_attempt_id r) (attempt_rows (mp_tenant_id p) cluster_id c))"

lemma attempts_page_eq:
  assumes "attempts_page cl cur n p c = Inr pg"
  shows "limit_ok n" "pg = \<lparr>ap_items = map (joined_view c) (take (nat n) (remaining_attempts p cl cur c)),
    ap_next_cursor = (if nat n < length (remaining_attempts p cl cur c)
      then Some (ar_attempt_id (remaining_attempts p cl cur c ! (nat n - 1))) else None)\<rparr>"
proof -
  let ?rows = "remaining_attempts p cl cur c"
  from assms show lim: "limit_ok n"
    by (auto simp: attempts_page_def scoped_def require_def bindE_Inr_iff split: if_splits)
  then have n: "0 < nat n" by (simp add: limit_ok_def)
  have "last (take (nat n) ?rows) = ?rows ! (nat n - 1)" if "nat n < length ?rows"
    using that n by (subst last_conv_nth) (auto simp: min_def)
  moreover have "take (nat n) (take (nat n + 1) ?rows) = take (nat n) ?rows" by simp
  ultimately show "pg = \<lparr>ap_items = map (joined_view c) (take (nat n) ?rows),
    ap_next_cursor = (if nat n < length ?rows then Some (ar_attempt_id (?rows ! (nat n - 1))) else None)\<rparr>"
    using assms unfolding attempts_page_def remaining_attempts_def [symmetric]
    by (auto simp: scoped_def require_def bindE_Inr_iff Let_def split: if_splits)
qed

lemma sorted_filter_after:
  assumes "sorted (map k xs)" "distinct (map k xs)" "0 < n" "n < length xs"
  shows "filter (\<lambda>x. k (xs ! (n - 1)) < k x) xs = drop n xs"
proof -
  have lt: "k (xs ! i) < k (xs ! j)" if "i < j" "j < length xs" for i j
  proof -
    have "sorted_wrt (<) (map k xs)" using assms(1,2) by (simp add: strict_sorted_iff)
    from sorted_wrt_nth_less [OF this that(1)] that show ?thesis by simp
  qed
  have "filter (\<lambda>x. k (xs ! (n - 1)) < k x) (take n xs) = []"
    unfolding filter_empty_conv
  proof
    fix x assume "x \<in> set (take n xs)"
    then obtain i where i: "i < n" "x = xs ! i" using assms(4) by (auto simp: in_set_conv_nth)
    then show "\<not> k (xs ! (n - 1)) < k x"
    proof (cases "i = n - 1")
      case False
      with i assms(3,4) have "i < n - 1" "n - 1 < length xs" by linarith+
      from lt [OF this] i(2) show ?thesis by (simp add: order_less_not_sym)
    qed (simp add: i(2))
  qed
  moreover have "filter (\<lambda>x. k (xs ! (n - 1)) < k x) (drop n xs) = drop n xs"
  proof (rule filter_True)
    show "\<forall>x \<in> set (drop n xs). k (xs ! (n - 1)) < k x"
    proof
      fix x assume "x \<in> set (drop n xs)"
      then obtain i where "i < length xs - n" "x = xs ! (n + i)" by (auto simp: in_set_conv_nth)
      with lt [of "n - 1" "n + i"] assms(3) show "k (xs ! (n - 1)) < k x" by simp
    qed
  qed
  ultimately show ?thesis by (metis append_take_drop_id filter_append append_Nil)
qed

text \<open>C30. Following the cursor visits every attempt of the cluster exactly once and in order: the items of a page, followed by
  what remains after its cursor, are exactly what remained before it; a page with a cursor is never empty, so the walk ends.\<close>

theorem attempt_pages_partition:
  assumes "attempts_page cl cur n p c = Inr pg" "distinct (map ar_identity (attempt_records c))"
  shows "map (joined_view c) (remaining_attempts p cl cur c) = ap_items pg @
      (case ap_next_cursor pg of None \<Rightarrow> [] | Some k \<Rightarrow> map (joined_view c) (remaining_attempts p cl (Some k) c))
    \<and> (case ap_next_cursor pg of None \<Rightarrow> True
       | Some k \<Rightarrow> length (remaining_attempts p cl (Some k) c) < length (remaining_attempts p cl cur c))"
proof -
  let ?rows = "remaining_attempts p cl cur c"
  note pg = attempts_page_eq [OF assms(1)]
  from pg(1) have n: "0 < nat n" by (simp add: limit_ok_def)
  show ?thesis
  proof (cases "nat n < length ?rows")
    case True
    let ?k = "ar_attempt_id (?rows ! (nat n - 1))"
    have inj: "inj_on ar_attempt_id (set (attempt_rows (mp_tenant_id p) cl c))"
      using assms(2) by (auto simp: attempt_rows_def ar_identity_def inj_on_def distinct_map)
    have "distinct (attempt_rows (mp_tenant_id p) cl c)" using assms(2) by (simp add: attempt_rows_def distinct_map)
    then have "distinct ?rows" by (simp add: remaining_attempts_def)
    moreover have "inj_on ar_attempt_id (set ?rows)" by (rule inj_on_subset [OF inj]) (auto simp: remaining_attempts_def)
    ultimately have d: "distinct (map ar_attempt_id ?rows)" by (simp add: distinct_map)
    have s: "sorted (map ar_attempt_id ?rows)" by (simp add: remaining_attempts_def)
    have above: "\<forall>r \<in> set ?rows. case cur of None \<Rightarrow> True | Some k \<Rightarrow> k < ar_attempt_id r" by (simp add: remaining_attempts_def)
    have kin: "?rows ! (nat n - 1) \<in> set ?rows" using True n by simp
    have "filter (\<lambda>r. ?k < ar_attempt_id r) (filter (\<lambda>r. case cur of None \<Rightarrow> True | Some k \<Rightarrow> k < ar_attempt_id r)
        (attempt_rows (mp_tenant_id p) cl c)) = filter (\<lambda>r. ?k < ar_attempt_id r) (attempt_rows (mp_tenant_id p) cl c)"
      by (rule filter_reduce) (use above kin in \<open>auto split: option.splits\<close>)
    then have "remaining_attempts p cl (Some ?k) c = filter (\<lambda>r. ?k < ar_attempt_id r) ?rows"
      unfolding remaining_attempts_def by (simp add: filter_sort)
    also have "\<dots> = drop (nat n) ?rows" by (rule sorted_filter_after [OF s d n True])
    finally have rest: "remaining_attempts p cl (Some ?k) c = drop (nat n) ?rows" .
    have "map (joined_view c) (take (nat n) ?rows) @ map (joined_view c) (drop (nat n) ?rows) = map (joined_view c) ?rows"
      unfolding map_append [symmetric] by simp
    with True n show ?thesis by (simp add: pg(2) rest del: One_nat_def)
  next
    case False
    then show ?thesis by (simp add: pg(2))
  qed
qed

section \<open>What a deleted attempt still shows\<close>

text \<open>Once an attempt is fenced its reports are gone for readers: every report request for it, whatever the revision and the
  principal, is answered 404 or rejected earlier, and its row, if still listed, is marked deleted and shows no report.\<close>

theorem deleted_attempt_hidden:
  assumes "fenced c (mp_tenant_id p, cl, a)"
  shows "(\<exists>status code. report_revision_handler a cl n p c = Inl (HTTPException status code)
      \<and> (cl \<in> set (mp_clusters p) \<and> safe_identifier a \<and> revision_ok n \<and> text_within 1 128 cl \<longrightarrow>
           status = 404 \<and> code = ''report_not_found''))
    \<and> (attempt_handler a cl p c = Inr v \<longrightarrow> av_telemetry_status v = ''deleted'' \<and> av_latest_report_revision v = None)"
proof -
  obtain g where g: "get_generation c (mp_tenant_id p, cl, a) = Some g" "ag_deleted_at g \<noteq> None"
    using assms by (auto simp: fenced_def split: option.splits)
  have "resolve_report_revision (mp_tenant_id p, cl, a) n c = Inl (HTTPException 404 ''report_not_found'')"
    using g by (simp add: resolve_report_revision_def split: option.splits)
  then have r: "report_revision_handler a cl n p c = scoped (safe_identifier a \<and> revision_ok n) p cl
      (Inl (HTTPException 404 ''report_not_found''))" by (simp add: report_revision_handler_def)
  have "av_telemetry_status v = ''deleted'' \<and> av_latest_report_revision v = None" if "attempt_handler a cl p c = Inr v"
  proof -
    from that obtain r where "List.find (\<lambda>r. ar_attempt_id r = a) (attempt_rows (mp_tenant_id p) cl c) = Some r" "v = joined_view c r"
      by (auto simp: attempt_handler_def scoped_def bindE_Inr_iff split: option.splits)
    with g show ?thesis
      by (auto simp: joined_view_def attempt_view_def attempt_rows_def ar_identity_def Let_def dest!: find_Some_iff split: option.splits)
  qed
  with r show ?thesis by (simp add: scoped_def require_def cluster_scope_def)
qed

section \<open>The policy shown is the policy applied\<close>

lemma sql_max_Some: "sql_max xs = Some m \<longleftrightarrow> m \<in> set xs \<and> (\<forall>x \<in> set xs. x \<le> m)"
  by (auto simp: sql_max_def intro: Max_eqI)

lemma sql_max_None: "sql_max xs = None \<longleftrightarrow> xs = []"
  by (simp add: sql_max_def)

lemma policy_applies_active:
  "policy_applies c t s now q \<longleftrightarrow> active_policy c t (su_cluster_id s) now q
     \<and> (rpr_logical_case_id q = None \<or> su_logical_case_id s \<noteq> None \<and> rpr_logical_case_id q = su_logical_case_id s)"
proof -
  have "policy_cancelled c q \<longleftrightarrow> get_cancellation c (rpr_tenant_id q) (rpr_cluster_id q) (rpr_version q) \<noteq> None"
    unfolding policy_cancelled_def get_cancellation_def by (auto simp: find_None_iff list_ex_iff)
  then show ?thesis by (auto simp: policy_applies_def active_policy_def)
qed

text \<open>What the policy history shows as active is what admission applies: the version selected for the first segment of an
  attempt is the active version of its logical case or, when the case has none, the active version of the cluster.\<close>

theorem active_policy_applied:
  "map_option rpr_version (select_policy c t s now) =
     (case (if su_logical_case_id s = None then None
            else active_retention_policy_version c t (su_cluster_id s) now (su_logical_case_id s)) of
        Some v \<Rightarrow> Some v
      | None \<Rightarrow> active_retention_policy_version c t (su_cluster_id s) now None)"
proof -
  let ?lc = "su_logical_case_id s" and ?A = "filter (policy_applies c t s now) (policies c)"
  let ?key = "\<lambda>q. (rpr_logical_case_id q = None, - rpr_version q)"
  let ?act = "\<lambda>lc. active_retention_policy_version c t (su_cluster_id s) now lc"
  have act: "?act lc = sql_max (map rpr_version (filter (\<lambda>q. rpr_logical_case_id q = lc) ?A))"
    if "lc = None \<or> lc = ?lc \<and> ?lc \<noteq> None" for lc
  proof -
    have "filter (\<lambda>q. active_policy c t (su_cluster_id s) now q \<and> rpr_logical_case_id q = lc) (policies c)
        = filter (\<lambda>q. rpr_logical_case_id q = lc) ?A"
      unfolding filter_filter by (rule filter_cong [OF refl]) (use that in \<open>auto simp: policy_applies_active\<close>)
    then show ?thesis by (simp only: active_retention_policy_version_def)
  qed
  show ?thesis
  proof (cases "select_policy c t s now")
    case None
    then have "?A = []" by (simp only: select_policy_def first_by_None)
    then have "?act None = None" "?lc \<noteq> None \<Longrightarrow> ?act ?lc = None" by (simp_all add: act sql_max_None)
    with None show ?thesis by simp
  next
    case (Some q)
    then have q: "q \<in> set ?A" "\<And>y. y \<in> set ?A \<Longrightarrow> ?key q \<le> ?key y"
      unfolding select_policy_def by (auto dest: first_by_Some_set first_by_Some_least)
    have best: "?act (rpr_logical_case_id q) = Some (rpr_version q)"
    proof -
      have "rpr_version y \<le> rpr_version q" if "y \<in> set ?A" "rpr_logical_case_id y = rpr_logical_case_id q" for y
        using q(2) [OF that(1)] that(2) by (simp add: less_eq_prod_def)
      moreover have "rpr_logical_case_id q = None \<or> rpr_logical_case_id q = ?lc \<and> ?lc \<noteq> None"
        using q(1) by (auto simp: policy_applies_def)
      ultimately show ?thesis using q(1) by (subst act) (auto simp: sql_max_Some)
    qed
    show ?thesis
    proof (cases "rpr_logical_case_id q")
      case n: None
      have "filter (\<lambda>y. rpr_logical_case_id y = ?lc) ?A = []" if "?lc \<noteq> None"
        unfolding filter_empty_conv
      proof
        fix y assume "y \<in> set ?A"
        with q(2) [of y] n that show "rpr_logical_case_id y \<noteq> ?lc" by (auto simp: less_eq_prod_def)
      qed
      then have "?act ?lc = None" if "?lc \<noteq> None" using act [of ?lc] that by (simp add: sql_max_None del: filter_filter)
      with Some best n show ?thesis by (auto split: option.splits)
    next
      case (Some lc)
      with q(1) have "?lc = Some lc" by (auto simp: policy_applies_def)
      with best Some \<open>select_policy c t s now = Some q\<close> show ?thesis by simp
    qed
  qed
qed

section \<open>The notification summary\<close>

lemma summary_status_cases:
  assumes "0 \<le> pending" "0 \<le> processing" "0 \<le> delivered" "0 \<le> failed" "pending + processing + delivered + failed = tot"
  shows "(summary_status tot failed pending processing = ''idle'' \<longleftrightarrow> tot = 0)
    \<and> (summary_status tot failed pending processing = ''failed'' \<longleftrightarrow> 0 < failed)
    \<and> (summary_status tot failed pending processing = ''healthy'' \<longleftrightarrow> 0 < tot \<and> delivered = tot)"
  using assms by (auto simp: summary_status_def)

text \<open>The delivery summary accounts for every notification of the cluster once: the four counts add up to the total, and the
  status is idle, failed, degraded or healthy exactly as the counts say; an outstanding age is never negative.\<close>

theorem summary_accounts:
  assumes "integrity_notification_summary cl now p c = Inr y"
  shows "ny_pending_count y + ny_processing_count y + ny_delivered_count y + ny_failed_count y = ny_total_count y
    \<and> (ny_status y = ''idle'' \<longleftrightarrow> ny_total_count y = 0)
    \<and> (ny_status y = ''failed'' \<longleftrightarrow> 0 < ny_failed_count y)
    \<and> (ny_status y = ''healthy'' \<longleftrightarrow> 0 < ny_total_count y \<and> ny_delivered_count y = ny_total_count y)
    \<and> (ny_oldest_outstanding_at y = None \<longleftrightarrow> ny_delivered_count y = ny_total_count y)
    \<and> (case ny_oldest_outstanding_age_seconds y of None \<Rightarrow> True | Some n \<Rightarrow> 0 \<le> n)"
proof -
  obtain rows where y: "y = summarise_notifications (mp_tenant_id p) cl now rows"
    using assms by (auto simp: integrity_notification_summary_def scoped_def bindE_Inr_iff)
  have counts: "count_where (\<lambda>n. ntf_state n = NPending) rows + count_where (\<lambda>n. ntf_state n = NProcessing) rows
      + count_where (\<lambda>n. ntf_state n = NDelivered) rows + count_where (\<lambda>n. ntf_state n = NFailed) rows = int (length rows)"
  proof (induction rows)
    case (Cons n rows)
    then show ?case by (cases "ntf_state n") (simp_all add: count_where_def)
  qed (simp add: count_where_def)
  have none: "filter (\<lambda>n. ntf_state n \<in> {NPending, NProcessing, NFailed}) rows = []
      \<longleftrightarrow> count_where (\<lambda>n. ntf_state n = NDelivered) rows = int (length rows)"
  proof -
    have "(\<forall>n \<in> set rows. ntf_state n \<notin> {NPending, NProcessing, NFailed}) \<longleftrightarrow> (\<forall>n \<in> set rows. ntf_state n = NDelivered)"
    proof (intro ball_cong refl)
      fix n show "(ntf_state n \<notin> {NPending, NProcessing, NFailed}) = (ntf_state n = NDelivered)" by (cases "ntf_state n") simp_all
    qed
    moreover have "(\<forall>n \<in> set rows. ntf_state n = NDelivered) \<longleftrightarrow> length (filter (\<lambda>n. ntf_state n = NDelivered) rows) = length rows"
    proof (induction rows)
      case (Cons x rows)
      have "length (filter (\<lambda>n. ntf_state n = NDelivered) rows) \<noteq> Suc (length rows)"
        using length_filter_le [of "\<lambda>n. ntf_state n = NDelivered" rows] by linarith
      with Cons show ?case by auto
    qed simp
    ultimately show ?thesis by (simp add: filter_empty_conv count_where_def)
  qed
  have pos: "0 \<le> count_where (\<lambda>n. ntf_state n = k) rows" for k by simp
  note nonneg = pos [of NPending] pos [of NProcessing] pos [of NDelivered] pos [of NFailed]
  have age: "case map_option (\<lambda>t. max 0 ((now - t) div 1000000)) x of None \<Rightarrow> True | Some n \<Rightarrow> 0 \<le> n" for x :: "int option"
    by (cases x) simp_all
  have old: "sql_min (map ntf_created_at rows') = None \<longleftrightarrow> rows' = []" for rows' by (simp add: sql_min_def)
  let ?n = "\<lambda>k. count_where (\<lambda>n. ntf_state n = k) rows"
  have f: "ny_pending_count y = ?n NPending" "ny_processing_count y = ?n NProcessing" "ny_delivered_count y = ?n NDelivered"
    "ny_failed_count y = ?n NFailed" "ny_total_count y = int (length rows)"
    "ny_status y = summary_status (int (length rows)) (?n NFailed) (?n NPending) (?n NProcessing)"
    "ny_oldest_outstanding_at y = sql_min (map ntf_created_at (filter (\<lambda>n. ntf_state n \<in> {NPending, NProcessing, NFailed}) rows))"
    "ny_oldest_outstanding_age_seconds y = map_option (\<lambda>t. max 0 ((now - t) div 1000000)) (ny_oldest_outstanding_at y)"
    by (simp_all add: y summarise_notifications_def Let_def)
  have "ny_oldest_outstanding_at y = None \<longleftrightarrow> ny_delivered_count y = ny_total_count y"
    unfolding f(7) old none f ..
  moreover have "ny_status y = ''idle'' \<longleftrightarrow> int (length rows) = 0" "ny_status y = ''failed'' \<longleftrightarrow> 0 < ?n NFailed"
    "ny_status y = ''healthy'' \<longleftrightarrow> 0 < int (length rows) \<and> ?n NDelivered = int (length rows)"
    unfolding f(6) using summary_status_cases [OF nonneg counts] by simp_all
  ultimately show ?thesis using counts age by (simp add: f)
qed

section \<open>Witnesses\<close>

definition demo_reader :: MachinePrincipal where
  "demo_reader = \<lparr>mp_tenant_id = ''t'', mp_clusters = [''c''], mp_credential_id = ''r'', mp_permissions = [''telemetry:read'']\<rparr>"

definition demo_incident :: "string \<Rightarrow> IntegrityIncident" where
  "demo_incident t = \<lparr>inc_incident_id = ''i'', inc_candidate_id = ''k'', inc_tenant_id = t, inc_cluster_id = ''c'',
     inc_attempt_id = None, inc_object_key = ''o'', inc_payload_sha256 = ''d'', inc_category = Missing, inc_state = IOpen,
     inc_details = '''', inc_occurrences = 1, inc_first_detected_at = 0, inc_last_detected_at = 0, inc_resolved_at = None,
     inc_resolved_by_credential_id = None, inc_resolution = None\<rparr>"

lemma demo_short: "safe_identifier ''a''" "safe_identifier ''b''" "safe_identifier ''c''" by code_simp+


definition demo_attempt_row :: "string \<Rightarrow> AttemptRecord" where
  "demo_attempt_row a = \<lparr>ar_tenant_id = ''t'', ar_cluster_id = ''c'', ar_attempt_id = a, ar_workflow_execution_id = None,
     ar_logical_case_id = None, ar_scheduler_source_identity = None, ar_scheduler_state = ''unknown'',
     ar_scheduler_observed_at = None, ar_first_admitted_at = 0, ar_last_admitted_at = 0, ar_retention_expires_at = None,
     ar_retention_policy_version = None, ar_segment_count = 1, ar_record_count = 1\<rparr>"

definition demo_listing :: catalog where
  "demo_listing = empty_catalog\<lparr>attempt_records := [demo_attempt_row ''b'', demo_attempt_row ''a''],
     generations := [\<lparr>ag_tenant_id = ''t'', ag_cluster_id = ''c'', ag_attempt_id = ''b'', ag_generation = 1, ag_deleted_at = Some 5\<rparr>]\<rparr>"

lemma demo_rows:
  "remaining_attempts demo_reader ''c'' None demo_listing = [demo_attempt_row ''a'', demo_attempt_row ''b'']"
  "remaining_attempts demo_reader ''c'' (Some ''a'') demo_listing = [demo_attempt_row ''b'']"
  by (simp_all add: remaining_attempts_def attempt_rows_def demo_listing_def demo_reader_def demo_attempt_row_def empty_catalog_def)

lemma demo_page: "attempts_page ''c'' None 1 demo_reader demo_listing =
  Inr \<lparr>ap_items = [joined_view demo_listing (demo_attempt_row ''a'')], ap_next_cursor = Some ''a''\<rparr>"
  using demo_rows(1)
  by (simp add: attempts_page_def remaining_attempts_def scoped_def require_def cluster_scope_def text_within_def limit_ok_def
      demo_reader_def demo_attempt_row_def)

theorem attempt_pages_partition_witness:
  "map (joined_view demo_listing) (remaining_attempts demo_reader ''c'' None demo_listing)
     = joined_view demo_listing (demo_attempt_row ''a'')
       # map (joined_view demo_listing) (remaining_attempts demo_reader ''c'' (Some ''a'') demo_listing)"
proof -
  have "distinct (map ar_identity (attempt_records demo_listing))"
    by (simp add: demo_listing_def ar_identity_def demo_attempt_row_def)
  from attempt_pages_partition [OF demo_page this] show ?thesis by simp
qed

theorem deleted_attempt_hidden_witness:
  "report_revision_handler ''b'' ''c'' None demo_reader demo_listing = Inl (HTTPException 404 ''report_not_found'')"
proof -
  have "fenced demo_listing (mp_tenant_id demo_reader, ''c'', ''b'')"
    by (simp add: fenced_def get_generation_def demo_listing_def demo_reader_def ag_identity_def)
  from deleted_attempt_hidden [OF this, of None] show ?thesis
    using demo_short by (auto simp: demo_reader_def text_within_def revision_ok_def)
qed

theorem summary_accounts_witness:
  "\<exists>y. integrity_notification_summary ''c'' 0 demo_reader empty_catalog = Inr y \<and> ny_status y = ''idle'' \<and> ny_total_count y = 0"
proof -
  obtain y where y: "integrity_notification_summary ''c'' 0 demo_reader empty_catalog = Inr y" "ny_total_count y = 0"
    by (simp add: integrity_notification_summary_def scoped_def require_def cluster_scope_def text_within_def demo_reader_def
        empty_catalog_def summarise_notifications_def Let_def)
  from summary_accounts [OF y(1)] y show ?thesis by blast
qed

end
