(* ===== verification/Api_Commands.thy ===== *)
theory Api_Commands
  imports System Api_Read Analytics
begin

text \<open>
  The writing half of \<^verbatim>\<open>api.py\<close>: the request models of \<^verbatim>\<open>contracts.py\<close> with their constraints, every \<open>POST\<close>, \<open>PUT\<close> and
  \<open>DELETE\<close> handler and the two report endpoints that read objects.  A handler that first commits and then reads its answer in
  a second session takes \<open>meanwhile\<close>, what other processes did in between.  A value of type \<open>UUID\<close> is its canonical text.
\<close>

section \<open>Requests\<close>

definition reason_ok :: "string \<Rightarrow> bool" where
  "reason_ok raw = text_within 1 512 (str_strip raw)"

definition in_cluster ::
  "bool \<Rightarrow> MachinePrincipal \<Rightarrow> string \<Rightarrow> (world \<Rightarrow> 'a result \<times> world) \<Rightarrow> world \<Rightarrow> 'a result \<times> world" where
  "in_cluster valid p cluster_id body w =
     (case scoped valid p cluster_id (Inr ()) of Inl e \<Rightarrow> (Inl e, w) | Inr _ \<Rightarrow> body w)"

definition on_catalog :: "(catalog \<Rightarrow> 'a result \<times> catalog) \<Rightarrow> world \<Rightarrow> 'a result \<times> world" where
  "on_catalog f w = (case f (cat w) of (r, c') \<Rightarrow> (r, w\<lparr>cat := c'\<rparr>))"

text \<open>The \<open>try\<close> block around a service call: \<open>handle\<close> is what the \<open>except\<close> clauses raise instead.\<close>

definition answer :: "(py_error \<Rightarrow> py_error) \<Rightarrow> ('a \<Rightarrow> 'b) \<Rightarrow> 'a result \<times> world \<Rightarrow> 'b result \<times> world" where
  "answer handle view out = (case out of (Inl e, w) \<Rightarrow> (Inl (handle e), w) | (Inr a, w) \<Rightarrow> (Inr (view a), w))"

definition then_read ::
  "(py_error \<Rightarrow> py_error) \<Rightarrow> (world \<Rightarrow> world) \<Rightarrow> (catalog \<Rightarrow> 'b result) \<Rightarrow> 'a result \<times> world \<Rightarrow> 'b result \<times> world" where
  "then_read handle meanwhile view out =
     (case out of (Inl e, w) \<Rightarrow> (Inl (handle e), w) | (Inr _, w) \<Rightarrow> (view (cat (meanwhile w)), meanwhile w))"

definition not_found_or_conflict :: "string \<Rightarrow> string \<Rightarrow> py_error \<Rightarrow> py_error" where
  "not_found_or_conflict missing conflict e =
     (case e of LookupError _ \<Rightarrow> HTTPException 404 missing | ValueError _ \<Rightarrow> HTTPException 409 conflict | _ \<Rightarrow> e)"

section \<open>Integrity administration\<close>

definition resolve_integrity_incident ::
  "runtime \<Rightarrow> (instant \<Rightarrow> string) \<Rightarrow> string \<Rightarrow> string \<Rightarrow> string \<Rightarrow> string \<Rightarrow> string \<Rightarrow> instant \<Rightarrow> MachinePrincipal
   \<Rightarrow> world \<Rightarrow> IntegrityIncidentView result \<times> world" where
  "resolve_integrity_incident R isoformat incident_id cluster_id reason rid nid now p =
     in_cluster (reason_ok reason) p cluster_id (\<lambda>w.
       answer (not_found_or_conflict ''integrity_incident_not_found'' ''integrity_incident_resolution_conflict'')
         integrity_incident_view
         (resolve R isoformat (mp_tenant_id p) cluster_id incident_id (mp_credential_id p) (str_strip reason) rid nid now w))"

definition redrive_integrity_notification ::
  "string \<Rightarrow> string \<Rightarrow> string \<Rightarrow> string \<Rightarrow> instant \<Rightarrow> MachinePrincipal \<Rightarrow> world \<Rightarrow> IntegrityNotificationView result \<times> world" where
  "redrive_integrity_notification notification_id cluster_id reason rid now p =
     in_cluster (reason_ok reason) p cluster_id (\<lambda>w.
       answer (not_found_or_conflict ''integrity_notification_not_found'' ''integrity_notification_redrive_conflict'')
         integrity_notification_view
         (on_catalog (redrive (mp_tenant_id p) cluster_id notification_id (mp_credential_id p) (str_strip reason) rid now) w))"

definition revoke_machine_credential ::
  "MachineAuthenticator \<Rightarrow> string \<Rightarrow> string \<Rightarrow> datetime \<Rightarrow> MachinePrincipal \<Rightarrow> world
   \<Rightarrow> MachineCredentialRevocationView result \<times> world" where
  "revoke_machine_credential ma credential_id reason now p w =
     (case require (safe_identifier credential_id \<and> reason_ok reason) of
        Inl e \<Rightarrow> (Inl e, w)
      | Inr _ \<Rightarrow>
          answer (not_found_or_conflict ''machine_credential_not_found'' ''machine_credential_revocation_conflict'')
            machine_credential_revocation_view
            (on_catalog (revoke_credential ma p credential_id (str_strip reason) now) w))"

section \<open>Segment admission\<close>

text \<open>The middleware in front of \<open>POST /v1/segments\<close>; header values are texts or absent.\<close>

definition media_type_of :: "string option \<Rightarrow> string" where
  "media_type_of content_type =
     map lower_char (str_strip (takeWhile (\<lambda>c. c \<noteq> CHR '';'') (case content_type of None \<Rightarrow> [] | Some t \<Rightarrow> t)))"

definition declared_length :: "string option \<Rightarrow> int" where
  "declared_length raw_length =
     (case raw_length of None \<Rightarrow> -1 | Some raw \<Rightarrow> (case py_int raw of None \<Rightarrow> -1 | Some n \<Rightarrow> n))"

definition request_context :: "string option \<Rightarrow> string option \<Rightarrow> unit result" where
  "request_context content_type raw_length =
     (if media_type_of content_type \<noteq> ''application/json'' then Inl (HTTPException 415 ''unsupported_content_type'')
      else if declared_length raw_length < 0 \<or> declared_length raw_length > 13 * 1024 * 1024
      then Inl (HTTPException 413 ''request_size_rejected'')
      else Inr ())"

definition admit_segment ::
  "runtime \<Rightarrow> IngestionService \<Rightarrow> SegmentUpload \<Rightarrow> admission_inputs \<Rightarrow> MachinePrincipal \<Rightarrow> world
   \<Rightarrow> DurableReceipt result \<times> world" where
  "admit_segment R sv raw inp p w =
     (case validate_segment raw of
        Inl _ \<Rightarrow> (Inl (HTTPException 422 ''validation_error''), w)
      | Inr s \<Rightarrow> admit R sv p s inp w)"

text \<open>The status, code and retry hint of an error answer; what no handler catches is an internal error.\<close>

definition error_response :: "py_error \<Rightarrow> int \<times> string \<times> bool" where
  "error_response e =
     (case e of AdmissionError code message st retriable \<Rightarrow> (st, code, retriable)
      | HTTPException st code \<Rightarrow> (st, code, False)
      | _ \<Rightarrow> (500, ''internal_error'', False))"

section \<open>Retention policies\<close>

record RetentionPolicyUpdate =
  rpu_retention_seconds :: int
  rpu_effective_at :: "datetime option"
  rpu_logical_case_id :: "string option"

definition policy_update_ok :: "RetentionPolicyUpdate \<Rightarrow> bool" where
  "policy_update_ok u = (0 \<le> rpu_retention_seconds u \<and> rpu_retention_seconds u \<le> 315360000
     \<and> opt_ok safe_identifier (rpu_logical_case_id u)
     \<and> (rpu_retention_seconds u = 0 \<or> 3600 \<le> rpu_retention_seconds u))"

definition policy_rejected :: "py_error \<Rightarrow> py_error" where
  "policy_rejected e = (case e of ValueError _ \<Rightarrow> HTTPException 422 ''retention_policy_rejected'' | _ \<Rightarrow> e)"

definition latest_policy_view :: "string \<Rightarrow> string \<Rightarrow> instant \<Rightarrow> catalog \<Rightarrow> RetentionPolicyView result" where
  "latest_policy_view tenant_id cluster_id now c =
     (case first_by (\<lambda>pol. - rpr_version pol) (filter (in_scope tenant_id cluster_id) (policies c)) of
        None \<Rightarrow> Inl (HTTPException 503 ''retention_policy_unavailable'')
      | Some pol \<Rightarrow> Inr (retention_policy_view pol
          (active_retention_policy_version c tenant_id cluster_id now (rpr_logical_case_id pol)) now None))"

definition create_retention_policy ::
  "string \<Rightarrow> RetentionPolicyUpdate \<Rightarrow> instant \<Rightarrow> (world \<Rightarrow> world) \<Rightarrow> instant \<Rightarrow> MachinePrincipal \<Rightarrow> world
   \<Rightarrow> RetentionPolicyView result \<times> world" where
  "create_retention_policy cluster_id u now meanwhile read_at p =
     in_cluster (policy_update_ok u \<and> safe_identifier cluster_id) p cluster_id (\<lambda>w.
       then_read policy_rejected meanwhile (latest_policy_view (mp_tenant_id p) cluster_id read_at)
         (on_catalog (create_retention_policy_revision (mp_tenant_id p) cluster_id (rpu_retention_seconds u)
            (mp_credential_id p) (rpu_effective_at u) (rpu_logical_case_id u) now) w))"

definition cancellation_error :: "py_error \<Rightarrow> py_error" where
  "cancellation_error e = (case e of
     ValueError message \<Rightarrow>
       if message = ''retention policy revision does not exist'' then HTTPException 404 ''retention_policy_revision_not_found''
       else HTTPException 409 ''retention_policy_cancellation_conflict''
   | _ \<Rightarrow> e)"

definition cancelled_policy_view :: "string \<Rightarrow> string \<Rightarrow> int \<Rightarrow> instant \<Rightarrow> catalog \<Rightarrow> RetentionPolicyView result" where
  "cancelled_policy_view tenant_id cluster_id policy_version now c =
     (case (get_policy c tenant_id cluster_id policy_version, get_cancellation c tenant_id cluster_id policy_version) of
        (Some pol, Some x) \<Rightarrow> Inr (retention_policy_view pol
          (active_retention_policy_version c tenant_id cluster_id now (rpr_logical_case_id pol)) now (Some x))
      | _ \<Rightarrow> Inl (HTTPException 503 ''retention_policy_cancellation_unavailable''))"

definition cancel_retention_policy ::
  "string \<Rightarrow> int \<Rightarrow> string \<Rightarrow> instant \<Rightarrow> (world \<Rightarrow> world) \<Rightarrow> instant \<Rightarrow> MachinePrincipal \<Rightarrow> world
   \<Rightarrow> RetentionPolicyView result \<times> world" where
  "cancel_retention_policy cluster_id policy_version reason now meanwhile read_at p =
     in_cluster (reason_ok reason \<and> safe_identifier cluster_id \<and> 1 \<le> policy_version \<and> policy_version \<le> max_bigint) p cluster_id
       (\<lambda>w. then_read cancellation_error meanwhile (cancelled_policy_view (mp_tenant_id p) cluster_id policy_version read_at)
          (on_catalog (cancel_retention_policy_revision (mp_tenant_id p) cluster_id policy_version (str_strip reason)
             (mp_credential_id p) now) w))"

record RetentionPolicyBackfillRequest =
  bq_policy_version :: int
  bq_source_policy_version :: "int option"
  bq_reason :: "string option"
  bq_max_attempts :: int
  bq_apply :: bool
  bq_expected_eligible_attempts :: "int option"
  bq_expected_due_attempts :: "int option"
  bq_expected_candidate_digest :: "string option"

definition strip_backfill :: "RetentionPolicyBackfillRequest \<Rightarrow> RetentionPolicyBackfillRequest" where
  "strip_backfill q = q\<lparr>bq_reason := map_option str_strip (bq_reason q),
     bq_expected_candidate_digest := map_option str_strip (bq_expected_candidate_digest q)\<rparr>"

definition backfill_fields_ok :: "RetentionPolicyBackfillRequest \<Rightarrow> bool" where
  "backfill_fields_ok q = (1 \<le> bq_policy_version q \<and> bq_policy_version q \<le> max_bigint
     \<and> revision_ok (bq_source_policy_version q) \<and> opt_ok (text_within 1 512) (bq_reason q)
     \<and> 1 \<le> bq_max_attempts q \<and> bq_max_attempts q \<le> 1000
     \<and> opt_ok (\<lambda>n. 0 \<le> n \<and> n \<le> 1000) (bq_expected_eligible_attempts q)
     \<and> opt_ok (\<lambda>n. 0 \<le> n \<and> n \<le> 1000) (bq_expected_due_attempts q)
     \<and> opt_ok sha256_hex (bq_expected_candidate_digest q))"

definition validate_apply_confirmation :: "RetentionPolicyBackfillRequest \<Rightarrow> bool" where
  "validate_apply_confirmation q = (bq_source_policy_version q \<noteq> Some (bq_policy_version q)
     \<and> (bq_source_policy_version q = None) = (bq_reason q = None)
     \<and> (if bq_apply q
        then bq_expected_eligible_attempts q \<noteq> None \<and> bq_expected_due_attempts q \<noteq> None \<and> bq_expected_candidate_digest q \<noteq> None
        else bq_expected_eligible_attempts q = None \<and> bq_expected_due_attempts q = None \<and> bq_expected_candidate_digest q = None))"

record RetentionPolicyBackfillView =
  bv_mode :: string
  bv_decision :: RetentionPolicyBackfillDecision

definition backfill_error :: "py_error \<Rightarrow> py_error" where
  "backfill_error e = (case e of
     ValueError message \<Rightarrow>
       if message = ''retention policy revision does not exist'' then HTTPException 404 ''retention_policy_revision_not_found''
       else if message = ''source retention policy revision does not exist''
       then HTTPException 404 ''source_retention_policy_revision_not_found''
       else if message \<in> {''retention policy backfill preview is stale; preview again'',
         ''eligible attempts exceed max_attempts; increase the explicit bound'',
         ''retention policy revision is not yet effective'', ''retention policy revision is cancelled''}
       then HTTPException 409 ''retention_policy_backfill_conflict''
       else HTTPException 422 ''retention_policy_backfill_rejected''
   | _ \<Rightarrow> e)"

text \<open>The \<open>assert\<close>s of the handler restate what the validator established: the values are present.\<close>

definition run_backfill ::
  "runtime \<Rightarrow> (instant \<Rightarrow> string) \<Rightarrow> string \<Rightarrow> RetentionPolicyBackfillRequest \<Rightarrow> string \<Rightarrow> instant \<Rightarrow> MachinePrincipal
   \<Rightarrow> world \<Rightarrow> RetentionPolicyBackfillDecision result \<times> world" where
  "run_backfill R isoformat cluster_id q bid now p w =
     (if bq_apply q
      then on_catalog (apply_retention_policy_backfill R isoformat (mp_tenant_id p) cluster_id (bq_policy_version q)
             (bq_max_attempts q) (the (bq_expected_eligible_attempts q)) (the (bq_expected_due_attempts q))
             (the (bq_expected_candidate_digest q)) (mp_credential_id p) (bq_source_policy_version q) (bq_reason q) bid now) w
      else (preview_retention_policy_backfill R isoformat (cat w) (mp_tenant_id p) cluster_id (bq_policy_version q)
             (bq_max_attempts q) (bq_source_policy_version q) (bq_reason q) now, w))"

definition backfill_retention_policy ::
  "runtime \<Rightarrow> (instant \<Rightarrow> string) \<Rightarrow> string \<Rightarrow> RetentionPolicyBackfillRequest \<Rightarrow> string \<Rightarrow> instant \<Rightarrow> MachinePrincipal
   \<Rightarrow> world \<Rightarrow> RetentionPolicyBackfillView result \<times> world" where
  "backfill_retention_policy R isoformat cluster_id raw bid now p =
     (let q = strip_backfill raw in
      in_cluster (backfill_fields_ok q \<and> validate_apply_confirmation q \<and> safe_identifier cluster_id) p cluster_id (\<lambda>w.
        answer backfill_error (\<lambda>d. \<lparr>bv_mode = (if bq_apply q then ''applied'' else ''preview''), bv_decision = d\<rparr>)
          (run_backfill R isoformat cluster_id q bid now p w)))"

section \<open>Holds\<close>

definition retention_hold_error :: "py_error \<Rightarrow> py_error" where
  "retention_hold_error e = (case e of
     ValueError message \<Rightarrow>
       if message \<in> {''cannot hold an unknown attempt'', ''retention hold does not exist''}
       then HTTPException 404 ''retention_hold_target_not_found'' else HTTPException 409 ''retention_hold_conflict''
   | _ \<Rightarrow> e)"

definition stored_hold_view :: "string \<Rightarrow> catalog \<Rightarrow> RetentionHoldView result" where
  "stored_hold_view hold_id c =
     (case get_hold c hold_id of None \<Rightarrow> Inl (HTTPException 503 ''retention_hold_unavailable'')
      | Some h \<Rightarrow> Inr (retention_hold_view h))"

definition place_retention_hold ::
  "string \<Rightarrow> string \<Rightarrow> string \<Rightarrow> string \<Rightarrow> instant \<Rightarrow> (world \<Rightarrow> world) \<Rightarrow> MachinePrincipal \<Rightarrow> world
   \<Rightarrow> RetentionHoldView result \<times> world" where
  "place_retention_hold attempt_id cluster_id hold_id reason now meanwhile p =
     in_cluster (reason_ok reason \<and> safe_identifier attempt_id) p cluster_id (\<lambda>w.
       then_read retention_hold_error meanwhile (stored_hold_view hold_id)
         (on_catalog (place_attempt_hold (mp_tenant_id p, cluster_id, attempt_id) hold_id (str_strip reason)
            (mp_credential_id p) now) w))"

definition release_retention_hold ::
  "string \<Rightarrow> string \<Rightarrow> string \<Rightarrow> instant \<Rightarrow> instant \<Rightarrow> (world \<Rightarrow> world) \<Rightarrow> MachinePrincipal \<Rightarrow> world
   \<Rightarrow> RetentionHoldView result \<times> world" where
  "release_retention_hold attempt_id cluster_id hold_id released_at now meanwhile p =
     in_cluster (safe_identifier attempt_id \<and> canonical_uuid hold_id) p cluster_id (\<lambda>w.
       then_read retention_hold_error meanwhile (stored_hold_view hold_id)
         (on_catalog (release_attempt_hold hold_id (mp_credential_id p) (Some (mp_tenant_id p, cluster_id, attempt_id))
            released_at now) w))"

section \<open>Report artifacts\<close>

record artifact_download =
  dl_content :: bytes
  dl_media_type :: string
  dl_headers :: "(string \<times> string) list"

text \<open>Object key, digest, media type and file extension of an artifact.\<close>

definition select_artifact :: "string \<Rightarrow> ReportRevision \<Rightarrow> string option \<times> string option \<times> string \<times> string" where
  "select_artifact artifact_kind r =
     (if artifact_kind = ''parquet''
      then (rr_parquet_object_key r, rr_parquet_sha256 r, ''application/vnd.apache.parquet'', ''parquet'')
      else (Some (rr_report_object_key r), Some (rr_report_sha256 r), ''application/json'', ''json''))"

definition artifact_error :: "py_error \<Rightarrow> py_error" where
  "artifact_error e = (case e of ObjectSizeLimitError _ \<Rightarrow> HTTPException 413 ''report_artifact_too_large''
     | ObjectIntegrityError _ \<Rightarrow> HTTPException 503 ''report_artifact_unavailable'' | _ \<Rightarrow> e)"

definition add_download_audit ::
  "EvidenceDownloadAudit \<Rightarrow> EvidenceDownloadAudit list \<Rightarrow> EvidenceDownloadAudit list result" where
  "add_download_audit = add_row (\<lambda>a b. eda_download_id a = eda_download_id b) ''evidence_download_audits''"

definition download_headers :: "string \<Rightarrow> int \<Rightarrow> string \<Rightarrow> string \<Rightarrow> string \<Rightarrow> (string \<times> string) list" where
  "download_headers attempt_id revision_number extension digest download_id =
     [(''Cache-Control'', ''no-store''),
      (''Content-Disposition'', ''attachment; filename=\"ranklens-'' @ map (\<lambda>c. if c = CHR '':'' then CHR ''-'' else c) attempt_id
         @ ''-r'' @ show_int revision_number @ ''.'' @ extension @ ''\"''),
      (''ETag'', ''\"'' @ digest @ ''\"''), (''X-Content-SHA256'', digest), (''X-Content-Type-Options'', ''nosniff''),
      (''X-RankLens-Download-ID'', download_id)]"

text \<open>The transaction: authorise against the current generation, read the object, append the audit row.\<close>

definition download_txn ::
  "runtime \<Rightarrow> int \<Rightarrow> local_store \<Rightarrow> string \<Rightarrow> string \<Rightarrow> string \<Rightarrow> int option \<Rightarrow> string \<Rightarrow> instant \<Rightarrow> MachinePrincipal
   \<Rightarrow> catalog \<Rightarrow> artifact_download result \<times> catalog" where
  "download_txn R max_bytes st attempt_id cluster_id artifact_kind revision_number download_id now p c =
     (case resolve_report_revision (mp_tenant_id p, cluster_id, attempt_id) revision_number c of
        Inl e \<Rightarrow> (Inl e, c)
      | Inr (r, h) \<Rightarrow>
          (case select_artifact artifact_kind r of
             (object_key, digest, media_type, extension) \<Rightarrow>
               if \<not> truthy object_key \<or> \<not> truthy digest
               then (Inl (HTTPException 409 ''report_artifact_not_available''), c)
               else (case read_verified_bounded (rt_sha256 R) st (the object_key) (the digest) max_bytes of
                   Inl e \<Rightarrow> (Inl (artifact_error e), c)
                 | Inr payload \<Rightarrow>
                     (case add_download_audit
                             \<lparr>eda_download_id = download_id, eda_tenant_id = mp_tenant_id p, eda_cluster_id = cluster_id,
                              eda_attempt_id = attempt_id, eda_revision_id = rr_revision_id r,
                              eda_revision_number = rr_revision_number r, eda_artifact_kind = artifact_kind,
                              eda_payload_sha256 = the digest, eda_payload_bytes = int (length payload),
                              eda_downloaded_by_credential_id = mp_credential_id p, eda_downloaded_at = now\<rparr>
                             (download_audits c) of
                        Inl e \<Rightarrow> (Inl e, c)
                      | Inr audits \<Rightarrow>
                          (Inr \<lparr>dl_content = payload, dl_media_type = media_type,
                                dl_headers = download_headers attempt_id (rr_revision_number r) extension (the digest) download_id\<rparr>,
                           c\<lparr>download_audits := audits\<rparr>)))))"

definition report_artifact ::
  "runtime \<Rightarrow> int \<Rightarrow> string \<Rightarrow> string \<Rightarrow> string \<Rightarrow> int option \<Rightarrow> string \<Rightarrow> instant \<Rightarrow> MachinePrincipal \<Rightarrow> world
   \<Rightarrow> artifact_download result \<times> world" where
  "report_artifact R max_bytes attempt_id cluster_id artifact_kind revision_number download_id now p =
     in_cluster (safe_identifier attempt_id \<and> artifact_kind \<in> {''report'', ''parquet''} \<and> revision_ok revision_number) p cluster_id
       (\<lambda>w. on_catalog (begin_txn (download_txn R max_bytes (objs w) attempt_id cluster_id artifact_kind revision_number
              download_id now p)) w)"

section \<open>Rank aggregates\<close>

record RankAggregateView =
  gv_revision_id :: string
  gv_revision_number :: int
  gv_attempt_id :: string
  gv_parquet_schema_version :: string
  gv_aggregate :: RankAggregate

definition rank_query_error :: "py_error \<Rightarrow> py_error" where
  "rank_query_error e = (case e of ObjectIntegrityError _ \<Rightarrow> HTTPException 503 ''report_artifact_unavailable''
     | ObjectSizeLimitError _ \<Rightarrow> HTTPException 503 ''report_artifact_unavailable''
     | RankAggregateError _ \<Rightarrow> HTTPException 422 ''rank_query_rejected'' | _ \<Rightarrow> e)"

definition report_rank_aggregates ::
  "runtime \<Rightarrow> (bytes \<Rightarrow> parquet_file option) \<Rightarrow> string \<Rightarrow> string \<Rightarrow> int option \<Rightarrow> MachinePrincipal \<Rightarrow> world
   \<Rightarrow> RankAggregateView result" where
  "report_rank_aggregates R open_file attempt_id cluster_id revision_number p w =
     scoped (safe_identifier attempt_id \<and> revision_ok revision_number) p cluster_id
       (bindE (resolve_report_revision (mp_tenant_id p, cluster_id, attempt_id) revision_number (cat w)) (\<lambda>(r, h).
          if rr_parquet_schema_version r \<noteq> Some ''normalized-record-v2'' \<or> \<not> truthy (rr_parquet_object_key r)
             \<or> \<not> truthy (rr_parquet_sha256 r)
          then Inl (HTTPException 409 ''rank_projection_unavailable'')
          else (case bindE (read_verified (rt_sha256 R) (objs w) (the (rr_parquet_object_key r)) (the (rr_parquet_sha256 r)))
                      (aggregate_rank_summaries open_file 100000) of
              Inl e \<Rightarrow> Inl (rank_query_error e)
            | Inr a \<Rightarrow> Inr \<lparr>gv_revision_id = rr_revision_id r, gv_revision_number = rr_revision_number r,
                gv_attempt_id = rr_attempt_id r, gv_parquet_schema_version = ''normalized-record-v2'', gv_aggregate = a\<rparr>)))"

section \<open>The application\<close>

record api_app =
  app_service :: IngestionService
  app_authenticator :: MachineAuthenticator
  app_max_download :: int

definition create_app :: "Settings \<Rightarrow> api_app result" where
  "create_app s =
     bindE (make_ingestion_service (st_max_expanded_segment_bytes s) (st_default_retention_seconds s)) (\<lambda>sv.
       bindE (make_authenticator s) (\<lambda>ma.
         Inr \<lparr>app_service = sv, app_authenticator = ma, app_max_download = st_max_evidence_download_bytes s\<rparr>))"

datatype command =
    AdmitSegment "string option" "string option" SegmentUpload
  | ResolveIncident string string string
  | RedriveNotification string string string
  | RevokeCredential string string
  | CreatePolicy string RetentionPolicyUpdate
  | CancelPolicy string int string
  | BackfillPolicy string RetentionPolicyBackfillRequest
  | PlaceHold string string string string
  | ReleaseHold string string string
  | DownloadArtifact string string string "int option"

datatype command_response =
    Admitted DurableReceipt
  | Incident IntegrityIncidentView
  | NotificationRow IntegrityNotificationView
  | Revocation MachineCredentialRevocationView
  | Policy RetentionPolicyView
  | Backfilled RetentionPolicyBackfillView
  | Hold RetentionHoldView
  | Artifact artifact_download

text \<open>The clocks and identifiers a request draws.\<close>

record command_inputs =
  cin_now :: datetime
  cin_released_at :: instant
  cin_read_at :: instant
  cin_id :: string
  cin_notification_id :: string
  cin_admission :: admission_inputs

fun command_permission :: "command \<Rightarrow> string" where
  "command_permission (AdmitSegment _ _ _) = ''segments:write''"
| "command_permission (ResolveIncident _ _ _) = ''integrity:admin''"
| "command_permission (RedriveNotification _ _ _) = ''integrity:admin''"
| "command_permission (RevokeCredential _ _) = ''credentials:revoke''"
| "command_permission (CreatePolicy _ _) = ''retention:admin''"
| "command_permission (CancelPolicy _ _ _) = ''retention:admin''"
| "command_permission (BackfillPolicy _ _) = ''retention:admin''"
| "command_permission (PlaceHold _ _ _ _) = ''retention:admin''"
| "command_permission (ReleaseHold _ _ _) = ''retention:admin''"
| "command_permission (DownloadArtifact _ _ _ _) = ''evidence:download''"

fun command_context :: "command \<Rightarrow> unit result" where
  "command_context (AdmitSegment content_type raw_length _) = request_context content_type raw_length"
| "command_context _ = Inr ()"

definition replied :: "('a \<Rightarrow> command_response) \<Rightarrow> 'a result \<times> world \<Rightarrow> command_response result \<times> world" where
  "replied f out = (case out of (r, w) \<Rightarrow> (bindE r (\<lambda>a. Inr (f a)), w))"

fun serve_command ::
  "runtime \<Rightarrow> (instant \<Rightarrow> string) \<Rightarrow> api_app \<Rightarrow> command_inputs \<Rightarrow> (world \<Rightarrow> world) \<Rightarrow> command \<Rightarrow> MachinePrincipal
   \<Rightarrow> world \<Rightarrow> command_response result \<times> world" where
  "serve_command R isof app inp mw (AdmitSegment _ _ s) p w =
     replied Admitted (admit_segment R (app_service app) s (cin_admission inp) p w)"
| "serve_command R isof app inp mw (ResolveIncident i cl reason) p w = replied Incident
     (resolve_integrity_incident R isof i cl reason (cin_id inp) (cin_notification_id inp) (dt_instant (cin_now inp)) p w)"
| "serve_command R isof app inp mw (RedriveNotification i cl reason) p w = replied NotificationRow
     (redrive_integrity_notification i cl reason (cin_id inp) (dt_instant (cin_now inp)) p w)"
| "serve_command R isof app inp mw (RevokeCredential cid reason) p w = replied Revocation
     (revoke_machine_credential (app_authenticator app) cid reason (cin_now inp) p w)"
| "serve_command R isof app inp mw (CreatePolicy cl u) p w = replied Policy
     (create_retention_policy cl u (dt_instant (cin_now inp)) mw (cin_read_at inp) p w)"
| "serve_command R isof app inp mw (CancelPolicy cl v reason) p w = replied Policy
     (cancel_retention_policy cl v reason (dt_instant (cin_now inp)) mw (cin_read_at inp) p w)"
| "serve_command R isof app inp mw (BackfillPolicy cl q) p w = replied Backfilled
     (backfill_retention_policy R isof cl q (cin_id inp) (dt_instant (cin_now inp)) p w)"
| "serve_command R isof app inp mw (PlaceHold a cl hid reason) p w = replied Hold
     (place_retention_hold a cl hid reason (dt_instant (cin_now inp)) mw p w)"
| "serve_command R isof app inp mw (ReleaseHold a cl hid) p w = replied Hold
     (release_retention_hold a cl hid (cin_released_at inp) (dt_instant (cin_now inp)) mw p w)"
| "serve_command R isof app inp mw (DownloadArtifact a cl kind n) p w = replied Artifact
     (report_artifact R (app_max_download app) a cl kind n (cin_id inp) (dt_instant (cin_now inp)) p w)"

text \<open>One request: the middleware, the credential, then the handler.\<close>

definition command_endpoint ::
  "runtime \<Rightarrow> (instant \<Rightarrow> string) \<Rightarrow> api_app \<Rightarrow> command_inputs \<Rightarrow> (world \<Rightarrow> world) \<Rightarrow> string \<Rightarrow> command
   \<Rightarrow> world \<Rightarrow> command_response result \<times> world" where
  "command_endpoint R isof app inp meanwhile authorization cmd w =
     (case command_context cmd of
        Inl e \<Rightarrow> (Inl e, w)
      | Inr _ \<Rightarrow>
          (case authenticate R (app_authenticator app) authorization (command_permission cmd) (cin_now inp) (cat w) of
             Inl e \<Rightarrow> (Inl e, w)
           | Inr p \<Rightarrow> serve_command R isof app inp meanwhile cmd p w))"

section \<open>Requests are runs of the site\<close>

lemma in_cluster_run:
  assumes "in_cluster valid p cl body w = (r, w')" "\<And>r w'. body w = (r, w') \<Longrightarrow> (site_step R)\<^sup>*\<^sup>* w w'"
  shows "(site_step R)\<^sup>*\<^sup>* w w'"
  using assms by (auto simp: in_cluster_def split: sum.splits)

lemma on_catalog_step:
  assumes "on_catalog f w = (r, w')" "\<And>x c'. f (cat w) = (x, c') \<Longrightarrow> site_step R w (w\<lparr>cat := c'\<rparr>)"
  shows "(site_step R)\<^sup>*\<^sup>* w w'"
  using assms by (auto simp: on_catalog_def split: prod.splits)

lemma answer_snd [simp]: "snd (answer h v out) = snd out"
  by (simp add: answer_def split: prod.splits sum.splits)

lemma replied_snd [simp]: "snd (replied f out) = snd out"
  by (simp add: replied_def split: prod.splits)

lemma then_read_run:
  assumes "(site_step R)\<^sup>*\<^sup>* w (snd out)" "\<And>x. (site_step R)\<^sup>*\<^sup>* x (mw x)"
  shows "(site_step R)\<^sup>*\<^sup>* w (snd (then_read h mw v out))"
  using assms(1) rtranclp_trans [OF assms(1) assms(2)]
  by (auto simp: then_read_def split: prod.splits sum.splits)

lemma download_txn_Inr:
  assumes "download_txn R mx st a cl kind n did now p c = (Inr d, c')"
  obtains r h key digest mt ext audit payload where
    "resolve_report_revision (mp_tenant_id p, cl, a) n c = Inr (r, h)"
    "select_artifact kind r = (Some key, Some digest, mt, ext)" "key \<noteq> []" "digest \<noteq> []"
    "read_verified_bounded (rt_sha256 R) st key digest mx = Inr payload"
    "audit = \<lparr>eda_download_id = did, eda_tenant_id = mp_tenant_id p, eda_cluster_id = cl, eda_attempt_id = a,
       eda_revision_id = rr_revision_id r, eda_revision_number = rr_revision_number r, eda_artifact_kind = kind,
       eda_payload_sha256 = digest, eda_payload_bytes = int (length payload),
       eda_downloaded_by_credential_id = mp_credential_id p, eda_downloaded_at = now\<rparr>"
    "did \<notin> eda_download_id ` set (download_audits c)"
    "d = \<lparr>dl_content = payload, dl_media_type = mt, dl_headers = download_headers a (rr_revision_number r) ext digest did\<rparr>"
    "c' = c\<lparr>download_audits := download_audits c @ [audit]\<rparr>"
proof -
  obtain r h where res: "resolve_report_revision (mp_tenant_id p, cl, a) n c = Inr (r, h)"
    using assms by (auto simp: download_txn_def split: sum.splits)
  obtain key digest mt ext where sel: "select_artifact kind r = (key, digest, mt, ext)" by (cases "select_artifact kind r")
  from assms res sel have t: "truthy key" "truthy digest" by (auto simp: download_txn_def split: if_splits)
  then obtain k dg where kd: "key = Some k" "digest = Some dg" "k \<noteq> []" "dg \<noteq> []" by (auto simp: truthy_def split: option.splits)
  from assms res sel t kd obtain payload where rd: "read_verified_bounded (rt_sha256 R) st k dg mx = Inr payload"
    by (auto simp: download_txn_def split: sum.splits)
  from assms res sel t kd rd have out: "did \<notin> eda_download_id ` set (download_audits c)
      \<and> d = \<lparr>dl_content = payload, dl_media_type = mt, dl_headers = download_headers a (rr_revision_number r) ext dg did\<rparr>
      \<and> c' = c\<lparr>download_audits := download_audits c @ [\<lparr>eda_download_id = did, eda_tenant_id = mp_tenant_id p, eda_cluster_id = cl,
         eda_attempt_id = a, eda_revision_id = rr_revision_id r, eda_revision_number = rr_revision_number r, eda_artifact_kind = kind,
         eda_payload_sha256 = dg, eda_payload_bytes = int (length payload),
         eda_downloaded_by_credential_id = mp_credential_id p, eda_downloaded_at = now\<rparr>]\<rparr>"
    by (auto simp: download_txn_def add_download_audit_def add_row_def list_ex_iff split: sum.splits if_splits)
  show thesis by (rule that [OF res sel [unfolded kd] kd(3,4) rd refl]) (use out in simp_all)
qed

lemma download_run:
  assumes "begin_txn (download_txn R mx st a cl kind n did now p) (cat w) = (x, c')"
  shows "(site_step R)\<^sup>*\<^sup>* w (w\<lparr>cat := c'\<rparr>)"
proof (cases x)
  case (Inl e)
  with assms begin_txn_rollback have "c' = cat w" by metis
  then show ?thesis by simp
next
  case (Inr d)
  with assms have "download_txn R mx st a cl kind n did now p (cat w) = (Inr d, c')" by (simp add: begin_txn_commit)
  then obtain audit where "c' = (cat w)\<lparr>download_audits := download_audits (cat w) @ [audit]\<rparr>"
    by (rule download_txn_Inr) blast
  with site_step.download [of R w audit] show ?thesis by auto
qed

text \<open>Every handler is a run of the atomic steps; \<open>meanwhile\<close> stands for a run of the other services.\<close>

lemma handler_runs:
  "(site_step R)\<^sup>*\<^sup>* w (snd (resolve_integrity_incident R isof i cl reason rid nid now p w))"
  "(site_step R)\<^sup>*\<^sup>* w (snd (redrive_integrity_notification i cl reason rid now p w))"
  "(site_step R)\<^sup>*\<^sup>* w (snd (revoke_machine_credential ma cid reason tm p w))"
  "(site_step R)\<^sup>*\<^sup>* w (snd (backfill_retention_policy R isof cl q bid now p w))"
  "(site_step R)\<^sup>*\<^sup>* w (snd (report_artifact R mx a cl kind n did now p w))"
proof -
  show "(site_step R)\<^sup>*\<^sup>* w (snd (resolve_integrity_incident R isof i cl reason rid nid now p w))"
    unfolding resolve_integrity_incident_def
    by (rule in_cluster_run [OF surjective_pairing]) (drule arg_cong [of _ _ snd], auto intro: site_step.resolve [OF surjective_pairing])
  show "(site_step R)\<^sup>*\<^sup>* w (snd (redrive_integrity_notification i cl reason rid now p w))"
    unfolding redrive_integrity_notification_def
    by (rule in_cluster_run [OF surjective_pairing])
       (drule arg_cong [of _ _ snd], auto intro: on_catalog_step [OF surjective_pairing] site_step.redrive)
  show "(site_step R)\<^sup>*\<^sup>* w (snd (revoke_machine_credential ma cid reason tm p w))"
    unfolding revoke_machine_credential_def
    by (auto split: sum.splits intro: on_catalog_step [OF surjective_pairing] site_step.revoke)
  show "(site_step R)\<^sup>*\<^sup>* w (snd (backfill_retention_policy R isof cl q bid now p w))"
    unfolding backfill_retention_policy_def Let_def
    by (rule in_cluster_run [OF surjective_pairing])
       (drule arg_cong [of _ _ snd], auto simp: run_backfill_def intro: on_catalog_step [OF surjective_pairing] site_step.backfill)
  show "(site_step R)\<^sup>*\<^sup>* w (snd (report_artifact R mx a cl kind n did now p w))"
    unfolding report_artifact_def
    by (rule in_cluster_run [OF surjective_pairing]) (auto simp: on_catalog_def intro: download_run split: prod.splits)
qed

lemma two_session_runs:
  assumes "\<And>x. (site_step R)\<^sup>*\<^sup>* x (mw x)"
  shows "(site_step R)\<^sup>*\<^sup>* w (snd (create_retention_policy cl u now mw ra p w))"
    "(site_step R)\<^sup>*\<^sup>* w (snd (cancel_retention_policy cl v reason now mw ra p w))"
    "(site_step R)\<^sup>*\<^sup>* w (snd (place_retention_hold a cl hid reason now mw p w))"
    "(site_step R)\<^sup>*\<^sup>* w (snd (release_retention_hold a cl hid rel now mw p w))"
proof -
  note go = in_cluster_run [OF surjective_pairing]
  note two = then_read_run [OF _ assms]
  note one = on_catalog_step [OF surjective_pairing]
  show "(site_step R)\<^sup>*\<^sup>* w (snd (create_retention_policy cl u now mw ra p w))" unfolding create_retention_policy_def
    by (rule go) (drule arg_cong [of _ _ snd], auto intro!: two one intro: site_step.policy)
  show "(site_step R)\<^sup>*\<^sup>* w (snd (cancel_retention_policy cl v reason now mw ra p w))" unfolding cancel_retention_policy_def
    by (rule go) (drule arg_cong [of _ _ snd], auto intro!: two one intro: site_step.cancel)
  show "(site_step R)\<^sup>*\<^sup>* w (snd (place_retention_hold a cl hid reason now mw p w))" unfolding place_retention_hold_def
    by (rule go) (drule arg_cong [of _ _ snd], auto intro!: two one intro: site_step.hold)
  show "(site_step R)\<^sup>*\<^sup>* w (snd (release_retention_hold a cl hid rel now mw p w))" unfolding release_retention_hold_def
    by (rule go) (drule arg_cong [of _ _ snd], auto intro!: two one intro: site_step.release)
qed

lemma admit_segment_run:
  assumes "\<And>s p'. validate_segment raw = Inr s \<Longrightarrow> prepare_payload R sv (mp_tenant_id p) s = Inr p' \<Longrightarrow>
    tmp_fresh (ai_tmp inp) (objs w) (pp_object_key p')"
  shows "(site_step R)\<^sup>*\<^sup>* w (snd (admit_segment R sv raw inp p w))"
proof (cases "validate_segment raw")
  case (Inr s)
  have "(site_step R)\<^sup>*\<^sup>* w (snd (admit R sv p s inp w))"
    by (rule admit_run [OF surjective_pairing validate_segment_ok [OF Inr]]) (rule assms [OF Inr])
  with Inr show ?thesis by (simp add: admit_segment_def)
qed (simp add: admit_segment_def)

text \<open>The temporary name an admission draws is unused where the payload goes.\<close>

definition command_tmp_fresh :: "runtime \<Rightarrow> api_app \<Rightarrow> command_inputs \<Rightarrow> command \<Rightarrow> world \<Rightarrow> bool" where
  "command_tmp_fresh R app inp cmd w = (\<forall>ct ln raw s t p'. cmd = AdmitSegment ct ln raw \<longrightarrow> validate_segment raw = Inr s \<longrightarrow>
     prepare_payload R (app_service app) t s = Inr p' \<longrightarrow>
     tmp_fresh (ai_tmp (cin_admission inp)) (objs w) (pp_object_key p'))"

lemma serve_command_run:
  assumes "command_tmp_fresh R app inp cmd w" "\<And>x. (site_step R)\<^sup>*\<^sup>* x (mw x)"
  shows "(site_step R)\<^sup>*\<^sup>* w (snd (serve_command R isof app inp mw cmd p w))"
proof (cases cmd)
  case (AdmitSegment ct ln raw)
  have "(site_step R)\<^sup>*\<^sup>* w (snd (admit_segment R (app_service app) raw (cin_admission inp) p w))"
    by (rule admit_segment_run) (use assms(1) AdmitSegment in \<open>auto simp: command_tmp_fresh_def\<close>)
  with AdmitSegment show ?thesis by simp
qed (simp_all add: handler_runs two_session_runs [OF assms(2)])

lemma command_endpoint_run:
  assumes "command_tmp_fresh R app inp cmd w" "\<And>x. (site_step R)\<^sup>*\<^sup>* x (mw x)"
  shows "(site_step R)\<^sup>*\<^sup>* w (snd (command_endpoint R isof app inp mw auth cmd w))"
  using serve_command_run [OF assms, of isof] by (auto simp: command_endpoint_def split: sum.splits)

section \<open>Downloads\<close>

lemma read_verified_bounded_Inr:
  "read_verified_bounded H st key d mx = Inr x \<longleftrightarrow> 1 \<le> mx \<and> stored st key = Some x \<and> H x = d \<and> int (length x) \<le> mx"
proof -
  have take: "concat (read_chunks (nat (mx + 1)) c) = c" if "int (length c) \<le> mx" for c :: bytes
    using that by (simp add: read_chunks_concat)
  show ?thesis
    by (auto simp: read_verified_bounded_def stored_def read_bytes_def bindE_def Let_def take
        split: sum.splits option.splits fs_entry.splits if_splits)
qed

lemma resolve_report_Inr:
  assumes "resolve_report_revision i n c = Inr (r, h)"
  obtains g where "get_generation c i = Some g" "ag_deleted_at g = None" "get_head c i = Some h"
    "rh_deletion_generation h = ag_generation g" "r \<in> set (report_revisions c)" "rr_identity r = i"
    "rr_deletion_generation r = ag_generation g"
  using assms by (auto simp: resolve_report_revision_def split: option.splits if_splits dest!: find_Some_iff)

lemma report_artifact_cases:
  assumes "report_artifact R mx a cl kind n did now p w = (out, w')"
  obtains (refused) e where "out = Inl e" "w' = w"
  | (served) d c' where "out = Inr d" "w' = w\<lparr>cat := c'\<rparr>" "cl \<in> set (mp_clusters p)"
      "download_txn R mx (objs w) a cl kind n did now p (cat w) = (Inr d, c')"
proof (cases "scoped (safe_identifier a \<and> kind \<in> {''report'', ''parquet''} \<and> revision_ok n) p cl (Inr ())")
  case (Inl e)
  then show ?thesis using assms by (intro refused [of e]) (simp_all add: report_artifact_def in_cluster_def)
next
  case (Inr u)
  then have cl: "cl \<in> set (mp_clusters p)" by (auto simp: scoped_def cluster_scope_def bindE_Inr_iff split: if_splits)
  let ?body = "download_txn R mx (objs w) a cl kind n did now p"
  obtain q c' where t: "begin_txn ?body (cat w) = (q, c')" by (cases "begin_txn ?body (cat w)")
  with assms Inr have o: "out = q" "w' = w\<lparr>cat := c'\<rparr>"
    by (simp_all add: report_artifact_def in_cluster_def on_catalog_def)
  show ?thesis
  proof (cases q)
    case (Inl e)
    with t begin_txn_rollback have "c' = cat w" by metis
    with o Inl refused show ?thesis by simp
  next
    case (Inr d)
    with t o cl served show ?thesis by (simp add: begin_txn_commit)
  qed
qed

text \<open>C9. A download is verified, bounded and accounted for: what is sent is the stored artifact of a report revision of the
  current, undeleted generation, its digest is the recorded one and is announced in the headers, it is within the configured
  size, and exactly one audit row with the principal, the revision, the digest and the size is added.  A request that is
  refused changes nothing.\<close>

theorem download_audited:
  assumes "report_artifact R mx a cl kind n did now p w = (out, w')"
  shows "case out of Inl e \<Rightarrow> w' = w
    | Inr d \<Rightarrow> cl \<in> set (mp_clusters p) \<and> (\<exists>g r key audit.
        get_generation (cat w) (mp_tenant_id p, cl, a) = Some g \<and> ag_deleted_at g = None
      \<and> r \<in> set (report_revisions (cat w)) \<and> rr_identity r = (mp_tenant_id p, cl, a) \<and> rr_deletion_generation r = ag_generation g
      \<and> (if kind = ''parquet'' then rr_parquet_object_key r = Some key \<and> rr_parquet_sha256 r = Some (eda_payload_sha256 audit)
         else rr_report_object_key r = key \<and> rr_report_sha256 r = eda_payload_sha256 audit)
      \<and> stored (objs w) key = Some (dl_content d) \<and> rt_sha256 R (dl_content d) = eda_payload_sha256 audit
      \<and> int (length (dl_content d)) \<le> mx \<and> map_of (dl_headers d) ''X-Content-SHA256'' = Some (eda_payload_sha256 audit)
      \<and> map_of (dl_headers d) ''X-RankLens-Download-ID'' = Some (eda_download_id audit)
      \<and> eda_download_id audit \<notin> eda_download_id ` set (download_audits (cat w))
      \<and> eda_revision_id audit = rr_revision_id r \<and> eda_payload_bytes audit = int (length (dl_content d))
      \<and> eda_downloaded_by_credential_id audit = mp_credential_id p
      \<and> w' = w\<lparr>cat := (cat w)\<lparr>download_audits := download_audits (cat w) @ [audit]\<rparr>\<rparr>)"
  using assms
proof (cases rule: report_artifact_cases)
  case (served d c')
  from served(4) obtain r h key digest mt ext audit payload where t:
    "resolve_report_revision (mp_tenant_id p, cl, a) n (cat w) = Inr (r, h)"
    "select_artifact kind r = (Some key, Some digest, mt, ext)"
    "read_verified_bounded (rt_sha256 R) (objs w) key digest mx = Inr payload"
    "audit = \<lparr>eda_download_id = did, eda_tenant_id = mp_tenant_id p, eda_cluster_id = cl, eda_attempt_id = a,
       eda_revision_id = rr_revision_id r, eda_revision_number = rr_revision_number r, eda_artifact_kind = kind,
       eda_payload_sha256 = digest, eda_payload_bytes = int (length payload),
       eda_downloaded_by_credential_id = mp_credential_id p, eda_downloaded_at = now\<rparr>"
    "did \<notin> eda_download_id ` set (download_audits (cat w))"
    "d = \<lparr>dl_content = payload, dl_media_type = mt, dl_headers = download_headers a (rr_revision_number r) ext digest did\<rparr>"
    "c' = (cat w)\<lparr>download_audits := download_audits (cat w) @ [audit]\<rparr>"
    by (rule download_txn_Inr) blast
  from resolve_report_Inr [OF t(1)] obtain g where g: "get_generation (cat w) (mp_tenant_id p, cl, a) = Some g" "ag_deleted_at g = None"
    "r \<in> set (report_revisions (cat w))" "rr_identity r = (mp_tenant_id p, cl, a)" "rr_deletion_generation r = ag_generation g" by metis
  have sel: "if kind = ''parquet'' then rr_parquet_object_key r = Some key \<and> rr_parquet_sha256 r = Some digest
      else rr_report_object_key r = key \<and> rr_report_sha256 r = digest"
    using t(2) by (auto simp: select_artifact_def split: if_splits)
  have head: "map_of (download_headers a (rr_revision_number r) ext digest did) ''X-Content-SHA256'' = Some digest"
    "map_of (download_headers a (rr_revision_number r) ext digest did) ''X-RankLens-Download-ID'' = Some did"
    by (simp_all add: download_headers_def)
  have rd: "stored (objs w) key = Some payload" "rt_sha256 R payload = digest" "int (length payload) \<le> mx"
    using t(3) by (simp_all add: read_verified_bounded_Inr)
  show ?thesis unfolding served(1) sum.case
    by (intro conjI served(3) exI [of _ g] exI [of _ r] exI [of _ key] exI [of _ audit])
       (use g sel head rd t(5) served(2) in \<open>simp_all add: t(4,6,7)\<close>)
qed simp

text \<open>C32. What the report worker publishes can be downloaded: after the first report of an attempt is published, a principal of its
  cluster gets exactly the bytes of the report, as far as the digest has no collision on them.\<close>

theorem published_report_downloads:
  assumes pub: "publish_report R rw l b inp w = (Inr True, w')" "report_tmp_fresh R inp b (objs w)" "rb_key b \<noteq> []" "rb_sha256 b \<noteq> []"
    and first: "get_head (cat w) (mp_tenant_id p, cl, a) = None"
      "(mp_tenant_id p, cl, a) \<notin> rr_identity ` set (report_revisions (cat w))"
    and scope: "rb_identity b = (mp_tenant_id p, cl, a)" "cl \<in> set (mp_clusters p)" "text_within 1 128 cl" "safe_identifier a"
    and coll: "\<And>x. rt_sha256 R x = rb_sha256 b \<Longrightarrow> x = rb_payload b"
    and size: "int (length (rb_payload b)) \<le> mx" "1 \<le> mx" and did: "did \<notin> eda_download_id ` set (download_audits (cat w))"
  shows "\<exists>d w''. report_artifact R mx a cl ''report'' None did now p w' = (Inr d, w'') \<and> dl_content d = rb_payload b"
  using pub(1)
proof (cases rule: publish_report_cases)
  case (stored x c1)
  let ?i = "(mp_tenant_id p, cl, a)"
  from ensure_artifacts_frame [OF stored(5)] obtain ks where c1: "c1 = (cat w)\<lparr>gc_candidates := ks\<rparr>" by blast
  have none: "get_head c1 ?i = None" using first(1) by (simp add: c1 get_head_def)
  from stored(7) obtain r c2 where r: "obtain_revision b (rpi_revision_id inp) (rpi_now inp) c1 = (Inr r, c2)"
    "finish_report l b (rpi_now inp) (set_head r b (rpi_now inp) c2) = (Inr True, cat w')"
    by (cases rule: advance_head_Inr) (use none scope(1) in auto)
  have "c2 = c1\<lparr>report_revisions := report_revisions c1 @ [r]\<rparr> \<and> rr_identity r = ?i
      \<and> rr_deletion_generation r = rb_generation b \<and> rr_report_object_key r = rb_key b \<and> rr_report_sha256 r = rb_sha256 b"
    using r(1)
  proof (cases rule: obtain_revision_Inr)
    case old
    then have "rr_identity r = ?i" by (simp add: same_input_revision_def scope(1))
    moreover have "r \<in> set (report_revisions (cat w))" using old(1) by (simp add: c1)
    ultimately show ?thesis using first(2) by (metis image_eqI)
  qed (simp add: new_revision_def rr_identity_def scope(1))
  then have new: "c2 = c1\<lparr>report_revisions := report_revisions c1 @ [r]\<rparr>" "rr_identity r = ?i"
    "rr_deletion_generation r = rb_generation b" "rr_report_object_key r = rb_key b" "rr_report_sha256 r = rb_sha256 b" by simp_all
  from finish_report_Inr(3) [OF r(2)] obtain ks' where w': "cat w' = (upd_outbox (wl_outbox_id l) (release_outbox_row OCompleted None)
      (set_head r b (rpi_now inp) c2))\<lparr>gc_candidates := ks'\<rparr>" by blast
  have audits: "download_audits (cat w') = download_audits (cat w)"
    by (simp add: w' new(1) c1 set_head_def upd_outbox_def Let_def)
  obtain h where h: "get_head (cat w') ?i = Some h" "rh_deletion_generation h = rb_generation b" "rh_revision_id h = rr_revision_id r"
    using get_head_set_head [of r b "rpi_now inp" c2] scope(1) by (auto simp: w' get_head_def upd_outbox_def)
  have gen: "get_generation (cat w') ?i = get_generation (cat w) ?i" by (rule get_generation_cong) (simp add: w' new(1) c1)
  with stored(3) scope(1) obtain g where g: "get_generation (cat w') ?i = Some g" "ag_deleted_at g = None" "ag_generation g = rb_generation b"
    by (auto simp: generation_current_def split: option.splits)
  let ?P = "\<lambda>x. rr_identity x = ?i \<and> rr_deletion_generation x = ag_generation g \<and> rr_revision_id x = rh_revision_id h"
  have revs: "report_revisions (cat w') = report_revisions (cat w) @ [r]" by (simp add: w' new(1) c1)
  have "List.find ?P (report_revisions (cat w)) = None" using first(2) by (auto simp: find_None_iff image_iff)
  then have "List.find ?P (report_revisions (cat w')) = Some r" using new h g by (simp add: revs find_append_None)
  then have res: "resolve_report_revision ?i None (cat w') = Inr (r, h)" using g h by (simp add: resolve_report_revision_def)
  from store_artifacts_intact [OF stored(6) pub(2)] obtain y where y: "stored (objs w') (rb_key b) = Some y" "rt_sha256 R y = rb_sha256 b"
    by (auto simp: intact_def split: option.splits)
  then have "read_verified_bounded (rt_sha256 R) (objs w') (rb_key b) (rb_sha256 b) mx = Inr (rb_payload b)"
    using coll size by (simp add: read_verified_bounded_Inr)
  moreover have "safe_identifier a \<and> ''report'' \<in> {''report'', ''parquet''} \<and> revision_ok None" using scope(4) by (simp add: revision_ok_def)
  ultimately show ?thesis
    using scope(2,3) res pub(3,4) did [folded audits] new(4,5)
    by (simp add: report_artifact_def in_cluster_def scoped_def require_def cluster_scope_def on_catalog_def begin_txn_def
        download_txn_def select_artifact_def truthy_def add_download_audit_def add_row_def list_ex_iff image_iff split: if_splits)
qed simp_all

text \<open>C5. Requests are runs of the site: whatever a client sends and however it is answered, its effect is a sequence of the atomic
  steps, interleaved at will with the other services, so every invariant of the site holds after it; a credential that is not
  accepted leaves everything as it was.\<close>

theorem requests_are_runs:
  assumes "command_tmp_fresh R app inp cmd w" "\<And>x. (site_step R)\<^sup>*\<^sup>* x (mw x)" "hex_digests R" "site_ok R w"
  shows "(site_step R)\<^sup>*\<^sup>* w (snd (command_endpoint R isof app inp mw auth cmd w))
    \<and> site_ok R (snd (command_endpoint R isof app inp mw auth cmd w))
    \<and> (case authenticate R (app_authenticator app) auth (command_permission cmd) (cin_now inp) (cat w) of
         Inl e \<Rightarrow> snd (command_endpoint R isof app inp mw auth cmd w) = w | Inr p \<Rightarrow> True)"
proof (intro conjI)
  show run: "(site_step R)\<^sup>*\<^sup>* w (snd (command_endpoint R isof app inp mw auth cmd w))" by (rule command_endpoint_run [OF assms(1,2)])
  from run_site_ok [OF this assms(3,4)] show "site_ok R (snd (command_endpoint R isof app inp mw auth cmd w))" by simp
qed (simp add: command_endpoint_def split: sum.splits)

section \<open>What the answers mean\<close>

lemma in_cluster_valid:
  "valid \<Longrightarrow> text_within 1 128 cl \<Longrightarrow> cl \<in> set (mp_clusters p) \<Longrightarrow> in_cluster valid p cl body w = body w"
  by (simp add: in_cluster_def scoped_def require_def cluster_scope_def)

lemma safe_identifier_within: "safe_identifier s \<Longrightarrow> text_within 1 128 s"
  by (simp add: safe_identifier_def text_within_def)

lemma str_strip_idem [simp]: "str_strip (str_strip s) = str_strip s"
proof -
  have "dropWhile str_space (rev (dropWhile str_space (rev x))) = rev (dropWhile str_space (rev x))"
    if "x = dropWhile str_space s" for x
  proof (cases x)
    case (Cons a xs)
    with that have "\<not> str_space a" by (metis hd_dropWhile list.sel(1) list.distinct(1))
    with Cons show ?thesis by (cases "\<forall>y \<in> set (rev xs). str_space y") (auto simp: dropWhile_append)
  qed simp
  then show ?thesis by (simp add: str_strip_def strip_with_def)
qed

lemma reason_ok_text: "reason_ok reason \<longleftrightarrow> str_strip reason \<noteq> [] \<and> length (str_strip reason) \<le> 512"
  by (cases "str_strip reason") (simp_all add: reason_ok_def text_within_def)

lemma release_hold_rows:
  assumes "get_hold c hid = Some h" "ah_identity h = i"
  shows "\<exists>b c1. release_hold_txn hid actor (Some i) ra now c = (Inr b, c1) \<and> holds c1 =
    (if ah_state h = HReleased then holds c
     else upd_where (\<lambda>h. ah_hold_id h = hid) (\<lambda>h. h\<lparr>ah_state := HReleased, ah_released_at := Some ra,
            ah_released_by_credential_id := Some actor\<rparr>) (holds c))"
proof -
  define c1 where "c1 = c\<lparr>holds := upd_where (\<lambda>h. ah_hold_id h = hid) (\<lambda>h. h\<lparr>ah_state := HReleased, ah_released_at := Some ra,
     ah_released_by_credential_id := Some actor\<rparr>) (holds c)\<rparr>"
  obtain g c2 where f: "fence_generation i now c1 = (g, c2)" by (cases "fence_generation i now c1")
  have c2: "holds c2 = holds c1"
    using f by (auto simp: fence_generation_def upd_generation_def Let_def split: option.splits if_splits)
  have c1: "holds c1 = upd_where (\<lambda>h. ah_hold_id h = hid) (\<lambda>h. h\<lparr>ah_state := HReleased, ah_released_at := Some ra,
     ah_released_by_credential_id := Some actor\<rparr>) (holds c)" by (simp add: c1_def)
  have e: "release_hold_txn hid actor (Some i) ra now c =
      (if ah_state h = HReleased then (Inr False, c)
       else if active_hold_ids c1 i \<noteq> [] then (Inr True, c1)
       else (case get_deletion c1 i of None \<Rightarrow> (Inr True, c1)
         | Some d \<Rightarrow> if ad_state d \<noteq> DHeld then (Inr True, c1) else (Inr True, upd_deletion i (requeue_deletion (ag_generation g)) c2)))"
    using assms f by (simp add: release_hold_txn_def Let_def c1_def [symmetric] split: option.splits)
  show ?thesis unfolding e by (auto simp: c1 [symmetric] c2 upd_deletion_def split: option.splits)
qed

text \<open>C33. The answers about holds are exact.  Releasing says 404 precisely when the attempt has no hold of that identifier, and
  otherwise answers with the hold, released.  Placing says 404 precisely when the attempt is unknown, 409 precisely when its
  erasure is complete or the identifier is taken by other data or a released hold, and otherwise answers with the active hold.\<close>

theorem hold_answers_exact:
  assumes valid: "safe_identifier a" "canonical_uuid hid" "reason_ok reason" "text_within 1 128 cl" "cl \<in> set (mp_clusters p)"
      "safe_identifier (mp_credential_id p)"
    and rel: "release_retention_hold a cl hid ra now (\<lambda>x. x) p w = (r, w1)"
    and plc: "place_retention_hold a cl hid reason now (\<lambda>x. x) p w = (q, w2)"
  shows "(case get_hold (cat w) hid of
      None \<Rightarrow> r = Inl (HTTPException 404 ''retention_hold_target_not_found'')
    | Some h \<Rightarrow> if ah_identity h \<noteq> (mp_tenant_id p, cl, a) then r = Inl (HTTPException 404 ''retention_hold_target_not_found'')
        else (case r of Inl e \<Rightarrow> False | Inr v \<Rightarrow> hv_hold_id v = hid \<and> hv_state v = HReleased))
    \<and> (if get_attempt_record (cat w) (mp_tenant_id p, cl, a) = None \<and> get_generation (cat w) (mp_tenant_id p, cl, a) = None
       then q = Inl (HTTPException 404 ''retention_hold_target_not_found'')
       else if (case get_deletion (cat w) (mp_tenant_id p, cl, a) of None \<Rightarrow> False | Some d \<Rightarrow> ad_state d = DCompleted)
         \<or> (case get_hold (cat w) hid of None \<Rightarrow> False
            | Some h \<Rightarrow> ah_identity h \<noteq> (mp_tenant_id p, cl, a) \<or> ah_reason h \<noteq> str_strip reason \<or> ah_state h \<noteq> HActive)
       then q = Inl (HTTPException 409 ''retention_hold_conflict'')
       else (case q of Inl e \<Rightarrow> False | Inr v \<Rightarrow> hv_hold_id v = hid \<and> hv_state v = HActive \<and> hv_reason v = str_strip reason))"
proof (rule conjI)
  let ?i = "(mp_tenant_id p, cl, a)" and ?c = "cat w"
  have rel': "(r, w1) = then_read retention_hold_error (\<lambda>x. x) (stored_hold_view hid)
      (on_catalog (begin_txn (release_hold_txn hid (mp_credential_id p) (Some ?i) ra now)) w)"
    using rel valid by (simp add: release_retention_hold_def in_cluster_valid release_attempt_hold_def on_catalog_def)
  show "case get_hold ?c hid of None \<Rightarrow> r = Inl (HTTPException 404 ''retention_hold_target_not_found'')
    | Some h \<Rightarrow> if ah_identity h \<noteq> ?i then r = Inl (HTTPException 404 ''retention_hold_target_not_found'')
        else (case r of Inl e \<Rightarrow> False | Inr v \<Rightarrow> hv_hold_id v = hid \<and> hv_state v = HReleased)"
  proof (cases "get_hold ?c hid")
    case None
    with rel' show ?thesis
      by (simp add: on_catalog_def begin_txn_def release_hold_txn_def then_read_def retention_hold_error_def)
  next
    case (Some h)
    show ?thesis
    proof (cases "ah_identity h = ?i")
      case False
      with rel' Some show ?thesis
        by (simp add: on_catalog_def begin_txn_def release_hold_txn_def then_read_def retention_hold_error_def)
    next
      case True
      from find_Some_iff [OF Some [unfolded get_hold_def]] have hid: "ah_hold_id h = hid" by simp
      define f where "f = (\<lambda>h :: AttemptHold. h\<lparr>ah_state := HReleased, ah_released_at := Some ra,
        ah_released_by_credential_id := Some (mp_credential_id p)\<rparr>)"
      have f: "ah_hold_id (f x) = ah_hold_id x" "ah_state (f x) = HReleased" for x by (simp_all add: f_def)
      from release_hold_rows [OF Some True] obtain b c1 where t: "release_hold_txn hid (mp_credential_id p) (Some ?i) ra now ?c = (Inr b, c1)"
        "holds c1 = (if ah_state h = HReleased then holds ?c else upd_where (\<lambda>h. ah_hold_id h = hid) f (holds ?c))"
        unfolding f_def by blast
      from t(2) have "\<exists>h'. get_hold c1 hid = Some h' \<and> ah_hold_id h' = hid \<and> ah_state h' = HReleased"
        using Some hid f by (auto simp: get_hold_def find_upd_where)
      with rel' t(1) show ?thesis using Some True
        by (auto simp: on_catalog_def begin_txn_def then_read_def stored_hold_view_def retention_hold_view_def)
    qed
  qed
next
  let ?i = "(mp_tenant_id p, cl, a)" and ?c = "cat w"
  have plc': "(q, w2) = then_read retention_hold_error (\<lambda>x. x) (stored_hold_view hid)
      (on_catalog (begin_txn (place_hold_txn ?i hid (str_strip reason) (mp_credential_id p) now)) w)"
    using plc valid
    by (simp add: place_retention_hold_def in_cluster_valid place_attempt_hold_def on_catalog_def reason_ok_text not_less [symmetric])
  show "if get_attempt_record ?c ?i = None \<and> get_generation ?c ?i = None
       then q = Inl (HTTPException 404 ''retention_hold_target_not_found'')
       else if (case get_deletion ?c ?i of None \<Rightarrow> False | Some d \<Rightarrow> ad_state d = DCompleted)
         \<or> (case get_hold ?c hid of None \<Rightarrow> False
            | Some h \<Rightarrow> ah_identity h \<noteq> ?i \<or> ah_reason h \<noteq> str_strip reason \<or> ah_state h \<noteq> HActive)
       then q = Inl (HTTPException 409 ''retention_hold_conflict'')
       else (case q of Inl e \<Rightarrow> False | Inr v \<Rightarrow> hv_hold_id v = hid \<and> hv_state v = HActive \<and> hv_reason v = str_strip reason)"
  proof (cases "get_hold ?c hid")
    case None
    have new: "get_hold (upd_deletion i g (?c\<lparr>holds := holds ?c @ [h]\<rparr>)) hid = Some h"
      "get_hold (?c\<lparr>holds := holds ?c @ [h]\<rparr>) hid = Some h" if "ah_hold_id h = hid" for i g h
      using None that by (simp_all add: get_hold_def upd_deletion_def find_append_None)
    with plc' None show ?thesis
      by (auto simp: on_catalog_def begin_txn_def place_hold_txn_def then_read_def retention_hold_error_def Let_def
          stored_hold_view_def retention_hold_view_def split: if_splits)
  next
    case (Some h)
    from find_Some_iff [OF Some [unfolded get_hold_def]] have hid: "ah_hold_id h = hid" by simp
    with plc' Some show ?thesis
      by (auto simp: on_catalog_def begin_txn_def place_hold_txn_def then_read_def retention_hold_error_def
          stored_hold_view_def retention_hold_view_def split: if_splits)
  qed
qed

text \<open>Creating a policy answers with the revision it created when nobody else acts in between: the next version of the
  cluster, with the requested retention and the caller as author, scheduled when it takes effect later and active otherwise.\<close>

theorem created_policy_answer:
  assumes "create_retention_policy cl u now (\<lambda>x. x) ra p w = (Inr v, w')"
    "\<And>x. x \<in> set (policy_cancellations (cat w)) \<Longrightarrow> rpc_tenant_id x = mp_tenant_id p \<Longrightarrow> rpc_cluster_id x = cl \<Longrightarrow>
       (\<exists>n. latest_version (cat w) (mp_tenant_id p) cl = Some n \<and> rpc_policy_version x \<le> n)"
  shows "pv_version v = (case latest_version (cat w) (mp_tenant_id p) cl of None \<Rightarrow> 1 | Some n \<Rightarrow> n + 1)
    \<and> pv_retention_seconds v = rpu_retention_seconds u \<and> pv_logical_case_id v = rpu_logical_case_id u
    \<and> pv_created_by_credential_id v = mp_credential_id p
    \<and> pv_effective_at v = (case rpu_effective_at u of None \<Rightarrow> now | Some d \<Rightarrow> dt_instant d)
    \<and> pv_activation_status v = (if pv_effective_at v > ra then ''scheduled'' else ''active'')"
proof -
  let ?t = "mp_tenant_id p" and ?c = "cat w"
  let ?n = "case latest_version ?c ?t cl of None \<Rightarrow> 1 | Some n \<Rightarrow> n + 1"
  from assms(1) obtain d c' where cr: "create_retention_policy_revision ?t cl (rpu_retention_seconds u) (mp_credential_id p)
      (rpu_effective_at u) (rpu_logical_case_id u) now ?c = (Inr d, c')"
    and v: "latest_policy_view ?t cl ra c' = Inr v"
    by (auto simp: create_retention_policy_def in_cluster_def then_read_def on_catalog_def split: sum.splits prod.splits)
  obtain eff where eff: "resolve_effective_at now (rpu_effective_at u) = Inr eff"
    and txn: "insert_policy_revision ?t cl (rpu_retention_seconds u) (mp_credential_id p) now eff (rpu_logical_case_id u) ?c = (Inr d, c')"
    using cr by (auto simp: create_retention_policy_revision_def begin_txn_commit split: if_splits sum.splits)
  have eff': "eff = (case rpu_effective_at u of None \<Rightarrow> now | Some d \<Rightarrow> dt_instant d)"
    using eff by (auto simp: resolve_effective_at_def split: option.splits if_splits)
  define pol where "pol = \<lparr>rpr_tenant_id = ?t, rpr_cluster_id = cl, rpr_version = ?n, rpr_logical_case_id = rpu_logical_case_id u,
    rpr_retention_seconds = rpu_retention_seconds u, rpr_created_by_credential_id = mp_credential_id p, rpr_created_at = now, rpr_effective_at = eff\<rparr>"
  have c': "c' = ?c\<lparr>policies := policies ?c @ [pol]\<rparr>"
    using txn by (auto simp: insert_policy_revision_def Let_def pol_def add_policy_def add_row_Inr_iff split: sum.splits)
  have top: "rpr_version x < ?n" if "x \<in> set (policies ?c)" "in_scope ?t cl x" for x
  proof -
    have ne: "filter (in_scope ?t cl) (policies ?c) \<noteq> []" using that by (auto simp: filter_empty_conv)
    then obtain m where m: "first_by (\<lambda>p. - rpr_version p) (filter (in_scope ?t cl) (policies ?c)) = Some m"
      using first_by_None by (metis not_None_eq)
    from first_by_Some_least [OF m, of x] that have "rpr_version x \<le> rpr_version m" by simp
    with m show ?thesis by (simp add: latest_version_def)
  qed
  have scope: "in_scope ?t cl pol" by (simp add: in_scope_def pol_def)
  obtain m where m: "first_by (\<lambda>p. - rpr_version p) (filter (in_scope ?t cl) (policies c')) = Some m"
    using v by (auto simp: latest_policy_view_def split: option.splits)
  have "m = pol"
  proof -
    from first_by_Some_set [OF m] first_by_Some_least [OF m, of pol] scope
    have "m \<in> set (policies c')" "in_scope ?t cl m" "rpr_version pol \<le> rpr_version m" by (auto simp: c')
    then show ?thesis using top [of m] by (auto simp: c' pol_def)
  qed
  with v m have v': "v = retention_policy_view pol (active_retention_policy_version c' ?t cl ra (rpu_logical_case_id u)) ra None"
    by (simp add: latest_policy_view_def pol_def)
  have none: "get_cancellation c' ?t cl ?n = None"
    using assms(2) by (fastforce simp: get_cancellation_def c' find_None_iff)
  have "active_retention_policy_version c' ?t cl ra (rpu_logical_case_id u) = Some ?n" if "eff \<le> ra"
    unfolding active_retention_policy_version_def
  proof (subst sql_max_Some, intro conjI ballI)
    show "?n \<in> set (map rpr_version (filter (\<lambda>q. active_policy c' ?t cl ra q \<and> rpr_logical_case_id q = rpu_logical_case_id u) (policies c')))"
      using that none by (auto simp: c' active_policy_def pol_def image_iff)
    fix x assume "x \<in> set (map rpr_version (filter (\<lambda>q. active_policy c' ?t cl ra q \<and> rpr_logical_case_id q = rpu_logical_case_id u) (policies c')))"
    then obtain y where y: "x = rpr_version y" "y \<in> set (policies c')" "in_scope ?t cl y" by (auto simp: active_policy_def in_scope_def)
    then consider "y = pol" | "y \<in> set (policies ?c)" by (auto simp: c')
    then show "x \<le> ?n"
    proof cases
      case 2
      from top [OF 2 y(3)] y(1) show ?thesis by simp
    qed (simp add: y(1) pol_def)
  qed
  then show ?thesis by (auto simp: v' retention_policy_view_def activation_status_def pol_def eff' not_less)
qed

section \<open>Witnesses\<close>

definition demo_admin :: "string \<Rightarrow> MachinePrincipal" where
  "demo_admin cid = \<lparr>mp_tenant_id = ''site'', mp_clusters = [''alpha''], mp_credential_id = cid,
     mp_permissions = [''retention:admin'', ''evidence:download'']\<rparr>"

definition demo_update :: "int \<Rightarrow> RetentionPolicyUpdate" where
  "demo_update n = \<lparr>rpu_retention_seconds = n, rpu_effective_at = None, rpu_logical_case_id = None\<rparr>"

theorem created_policy_answer_witness:
  "\<exists>v w'. create_retention_policy ''alpha'' (demo_update 3600) 10 (\<lambda>x. x) 20 (demo_admin ''a'') demo_world = (Inr v, w')
     \<and> pv_version v = 1 \<and> pv_activation_status v = ''active''"
proof -
  have "\<not> isl (fst (create_retention_policy ''alpha'' (demo_update 3600) 10 (\<lambda>x. x) 20 (demo_admin ''a'') demo_world))" by code_simp
  then obtain v w' where v: "create_retention_policy ''alpha'' (demo_update 3600) 10 (\<lambda>x. x) 20 (demo_admin ''a'') demo_world = (Inr v, w')"
    by (metis isl_def prod.collapse sum.exhaust_sel)
  have none: "policy_cancellations (cat demo_world) = []" "latest_version (cat demo_world) (mp_tenant_id (demo_admin ''a'')) ''alpha'' = None"
    by code_simp+
  from created_policy_answer [OF v] none v show ?thesis by (simp add: demo_update_def)
qed

text \<open>With another administrator in between, the answer describes the other one's revision.\<close>

lemma created_policy_answer_race:
  "\<exists>mw v w'. create_retention_policy ''alpha'' (demo_update 3600) 10 mw 20 (demo_admin ''a'') demo_world = (Inr v, w')
     \<and> pv_created_by_credential_id v = ''b'' \<and> pv_retention_seconds v = 7200"
proof -
  let ?mw = "\<lambda>w. snd (create_retention_policy ''alpha'' (demo_update 7200) 11 (\<lambda>x. x) 20 (demo_admin ''b'') w)"
  let ?out = "create_retention_policy ''alpha'' (demo_update 3600) 10 ?mw 20 (demo_admin ''a'') demo_world"
  have "case fst ?out of Inl e \<Rightarrow> False | Inr v \<Rightarrow> pv_created_by_credential_id v = ''b'' \<and> pv_retention_seconds v = 7200" by code_simp
  then obtain v where "fst ?out = Inr v" "pv_created_by_credential_id v = ''b''" "pv_retention_seconds v = 7200"
    by (auto split: sum.splits)
  then show ?thesis by (metis prod.collapse)
qed

definition demo_hold_id :: string where
  "demo_hold_id = ''00000000-0000-0000-0000-000000000001''"

definition demo_holding :: world where
  "demo_holding = demo_world\<lparr>cat := empty_catalog\<lparr>holds := [demo_hold\<lparr>ah_hold_id := demo_hold_id\<rparr>],
     generations := [make_generation demo_identity 0 None]\<rparr>\<rparr>"

theorem hold_answers_exact_witness:
  "\<exists>v w1 x w2. release_retention_hold ''run-7'' ''alpha'' demo_hold_id 5 6 (\<lambda>x. x) (demo_admin ''a'') demo_holding = (Inr v, w1)
     \<and> hv_state v = HReleased
     \<and> place_retention_hold ''run-7'' ''alpha'' demo_hold_id ''legal'' 6 (\<lambda>x. x) (demo_admin ''a'') demo_holding = (Inr x, w2)
     \<and> hv_state x = HActive"
proof -
  obtain r w1 where r: "release_retention_hold ''run-7'' ''alpha'' demo_hold_id 5 6 (\<lambda>x. x) (demo_admin ''a'') demo_holding = (r, w1)"
    by fastforce
  obtain q w2 where q: "place_retention_hold ''run-7'' ''alpha'' demo_hold_id ''legal'' 6 (\<lambda>x. x) (demo_admin ''a'') demo_holding = (q, w2)"
    by fastforce
  have v: "safe_identifier ''run-7''" "canonical_uuid demo_hold_id" "reason_ok ''legal''" "text_within 1 128 ''alpha''"
    "''alpha'' \<in> set (mp_clusters (demo_admin ''a''))" "safe_identifier (mp_credential_id (demo_admin ''a''))" by code_simp+
  have f: "get_hold (cat demo_holding) demo_hold_id = Some (demo_hold\<lparr>ah_hold_id := demo_hold_id\<rparr>)"
    "ah_identity (demo_hold\<lparr>ah_hold_id := demo_hold_id\<rparr>) = (mp_tenant_id (demo_admin ''a''), ''alpha'', ''run-7'')"
    "get_deletion (cat demo_holding) (mp_tenant_id (demo_admin ''a''), ''alpha'', ''run-7'') = None"
    "\<not> (get_attempt_record (cat demo_holding) (mp_tenant_id (demo_admin ''a''), ''alpha'', ''run-7'') = None
       \<and> get_generation (cat demo_holding) (mp_tenant_id (demo_admin ''a''), ''alpha'', ''run-7'') = None)"
    "ah_state (demo_hold\<lparr>ah_hold_id := demo_hold_id\<rparr>) = HActive" "ah_reason (demo_hold\<lparr>ah_hold_id := demo_hold_id\<rparr>) = str_strip ''legal''"
    by code_simp+
  from hold_answers_exact [OF v r q] have
    "case r of Inl e \<Rightarrow> False | Inr v \<Rightarrow> hv_hold_id v = demo_hold_id \<and> hv_state v = HReleased"
    "case q of Inl e \<Rightarrow> False | Inr v \<Rightarrow> hv_hold_id v = demo_hold_id \<and> hv_state v = HActive \<and> hv_reason v = str_strip ''legal''"
    by (simp_all only: f option.case if_False if_True simp_thms)
  with r q show ?thesis by (auto split: sum.splits)
qed

definition demo_app :: api_app where
  "demo_app = \<lparr>app_service = demo_service, app_authenticator = demo_authenticator, app_max_download = 1000\<rparr>"

definition demo_command_inputs :: command_inputs where
  "demo_command_inputs = \<lparr>cin_now = utc 5, cin_released_at = 5, cin_read_at = 6, cin_id = ''x1'',
     cin_notification_id = ''x2'', cin_admission = demo_inputs\<rparr>"

theorem requests_are_runs_witness:
  "site_ok demo_runtime (snd (command_endpoint demo_runtime (\<lambda>_. []) demo_app demo_command_inputs (\<lambda>x. x) ''Bearer a''
     (CreatePolicy ''alpha'' (demo_update 3600)) demo_world))"
proof -
  have "command_tmp_fresh demo_runtime demo_app demo_command_inputs (CreatePolicy ''alpha'' (demo_update 3600)) demo_world"
    by (simp add: command_tmp_fresh_def)
  moreover have "\<And>x. (site_step demo_runtime)\<^sup>*\<^sup>* x x" by simp
  ultimately show ?thesis by (rule requests_are_runs [OF _ _ demo_hex empty_site_ok [OF demo_empty], THEN conjunct2, THEN conjunct1])
qed

text \<open>A stored report of two bytes, its digest being the report itself.\<close>

definition demo_stored_revision :: ReportRevision where
  "demo_stored_revision = \<lparr>rr_revision_id = ''v1'', rr_tenant_id = ''site'', rr_cluster_id = ''alpha'', rr_attempt_id = ''run-7'',
     rr_deletion_generation = 0, rr_revision_number = 1, rr_input_fingerprint = ''f'', rr_segment_count = 1, rr_record_count = 1,
     rr_report_object_key = ''k'', rr_report_sha256 = ''{}'', rr_parquet_object_key = None, rr_parquet_sha256 = None,
     rr_parquet_schema_version = None, rr_parquet_row_count = None, rr_builder_version = ''b'', rr_created_at = 1\<rparr>"

definition demo_serving :: world where
  "demo_serving = \<lparr>cat = empty_catalog\<lparr>generations := [make_generation demo_identity 0 None],
       report_heads := [\<lparr>rh_tenant_id = ''site'', rh_cluster_id = ''alpha'', rh_attempt_id = ''run-7'', rh_deletion_generation = 0,
         rh_revision_number = 1, rh_revision_id = ''v1'', rh_input_fingerprint = ''f'', rh_updated_at = 1\<rparr>],
       report_revisions := [demo_stored_revision]\<rparr>,
     objs = \<lparr>ls_root = [''objects''], ls_files = (\<lambda>q. if q = [''objects'', ''k''] then Some (Content ''{}'') else None)\<rparr>\<rparr>"

theorem download_audited_witness:
  "\<exists>d w'. report_artifact demo_hash 1000 ''run-7'' ''alpha'' ''report'' None ''d1'' 90 (demo_admin ''a'') demo_serving = (Inr d, w')
     \<and> length (download_audits (cat w')) = length (download_audits (cat demo_serving)) + 1"
proof -
  have ok: "safe_identifier ''run-7''" "revision_ok None" "text_within 1 128 ''alpha''" "''alpha'' \<in> set (mp_clusters (demo_admin ''a''))" by code_simp+
  have res: "\<exists>h. resolve_report_revision (mp_tenant_id (demo_admin ''a''), ''alpha'', ''run-7'') None (cat demo_serving) = Inr (demo_stored_revision, h)"
    by (simp add: resolve_report_revision_def demo_serving_def demo_admin_def get_generation_def get_head_def make_generation_def
        ag_identity_def rh_identity_def rr_identity_def demo_identity_def demo_stored_revision_def)
  have "stored (objs demo_serving) ''k'' = Some ''{}''" by code_simp
  then have rd: "read_verified_bounded (rt_sha256 demo_hash) (objs demo_serving) ''k'' ''{}'' 1000 = Inr ''{}''"
    by (simp add: read_verified_bounded_Inr demo_hash_def)
  have none: "download_audits (cat demo_serving) = []" by (simp add: demo_serving_def empty_catalog_def)
  have art: "select_artifact ''report'' demo_stored_revision = (Some ''k'', Some ''{}'', ''application/json'', ''json'')"
    by (simp add: select_artifact_def demo_stored_revision_def)
  have "\<not> isl (fst (report_artifact demo_hash 1000 ''run-7'' ''alpha'' ''report'' None ''d1'' 90 (demo_admin ''a'') demo_serving))"
    using ok res by (auto simp: report_artifact_def in_cluster_valid on_catalog_def begin_txn_def download_txn_def art rd truthy_def none
        add_download_audit_def add_row_def)
  then obtain d w' where d: "report_artifact demo_hash 1000 ''run-7'' ''alpha'' ''report'' None ''d1'' 90 (demo_admin ''a'') demo_serving = (Inr d, w')"
    by (metis isl_def prod.collapse sum.exhaust_sel)
  from download_audited [OF d] obtain audit where "w' = demo_serving\<lparr>cat := (cat demo_serving)
      \<lparr>download_audits := download_audits (cat demo_serving) @ [audit]\<rparr>\<rparr>" by (simp only: sum.case) blast
  with d show ?thesis by simp
qed

text \<open>A runtime whose digest has no collision on the example report.\<close>

definition demo_distinct_runtime :: runtime where
  "demo_distinct_runtime = demo_runtime\<lparr>rt_sha256 := \<lambda>x. if x = ''{}'' then replicate 64 (CHR ''a'') else rt_sha256 demo_runtime x\<rparr>"

definition demo_distinct_build :: report_build where
  "demo_distinct_build = (let inputs = report_inputs (cat demo_report_world) demo_identity 0 in
     \<lparr>rb_identity = demo_identity, rb_generation = 0, rb_inputs = inputs,
      rb_fingerprint = input_fingerprint demo_distinct_runtime inputs,
      rb_parquet = \<lparr>pa_payload = ''PAR1'', pa_row_count = 1, pa_schema_version = ''v1''\<rparr>,
      rb_parquet_sha256 = rt_sha256 demo_distinct_runtime ''PAR1'', rb_parquet_key = ''reports/p.parquet'',
      rb_payload = ''{}'', rb_sha256 = rt_sha256 demo_distinct_runtime ''{}'', rb_key = ''reports/r.json''\<rparr>)"

lemma demo_distinct_publishes:
  "fst (publish_report demo_distinct_runtime demo_report_worker demo_report_lease demo_distinct_build demo_publish_inputs demo_report_world)
     = Inr True"
  by code_simp

lemma demo_distinct_fresh: "report_tmp_fresh demo_distinct_runtime demo_publish_inputs demo_distinct_build (objs demo_report_world)"
  by code_simp

theorem published_report_downloads_witness:
  "\<exists>w' d w''. publish_report demo_distinct_runtime demo_report_worker demo_report_lease demo_distinct_build demo_publish_inputs demo_report_world
       = (Inr True, w')
     \<and> report_artifact demo_distinct_runtime 1000 ''run-7'' ''alpha'' ''report'' None ''d1'' 90 (demo_admin ''a'') w' = (Inr d, w'')
     \<and> dl_content d = ''{}''"
proof -
  let ?pub = "publish_report demo_distinct_runtime demo_report_worker demo_report_lease demo_distinct_build demo_publish_inputs demo_report_world"
  obtain w' where w': "?pub = (Inr True, w')" using demo_distinct_publishes by (metis prod.collapse)
  have f: "rb_key demo_distinct_build \<noteq> []" "rb_payload demo_distinct_build = ''{}''" "rb_identity demo_distinct_build = demo_identity"
    "rb_sha256 demo_distinct_build = replicate 64 (CHR ''a'')"
    by (simp_all add: demo_distinct_build_def demo_distinct_runtime_def Let_def)
  have g: "report_heads (cat demo_report_world) = []" "report_revisions (cat demo_report_world) = []"
    "download_audits (cat demo_report_world) = []" by code_simp+
  have p: "mp_tenant_id (demo_admin ''a'') = ''site''" "''alpha'' \<in> set (mp_clusters (demo_admin ''a''))" "text_within 1 128 ''alpha''"
    "safe_identifier ''run-7''" by code_simp+
  have coll: "x = rb_payload demo_distinct_build" if "rt_sha256 demo_distinct_runtime x = rb_sha256 demo_distinct_build" for x
  proof (rule ccontr)
    assume "x \<noteq> rb_payload demo_distinct_build"
    then have "rt_sha256 demo_distinct_runtime x = rt_sha256 demo_runtime x" by (simp add: f(2) demo_distinct_runtime_def)
    moreover have "CHR ''0'' \<in> set (rt_sha256 demo_runtime x)" by (simp add: demo_runtime_def)
    moreover have "CHR ''0'' \<notin> set (rb_sha256 demo_distinct_build)" by (simp add: f(4))
    ultimately show False using that by simp
  qed
  have "\<exists>d w''. report_artifact demo_distinct_runtime 1000 ''run-7'' ''alpha'' ''report'' None ''d1'' 90 (demo_admin ''a'') w' = (Inr d, w'')
      \<and> dl_content d = rb_payload demo_distinct_build"
    by (rule published_report_downloads [OF w' demo_distinct_fresh f(1) _ _ _ _ p(2,3,4) coll])
       (simp_all add: f g p get_head_def demo_identity_def numeral_eq_Suc)
  with w' f(2) show ?thesis by auto
qed

end
