(* ===== verification/Api_Isolation.thy ===== *)
theory Api_Isolation
  imports Api_Commands
begin

text \<open>
  What a command can change: rows of the tenant and the clusters of the principal that issued it, and nothing else.
  \<open>foreign p c\<close> is the catalogue without those rows.
\<close>

section \<open>The rows outside a scope\<close>

definition foreign :: "MachinePrincipal \<Rightarrow> catalog \<Rightarrow> catalog" where
  "foreign p c = c\<lparr>
     revocations := filter (\<lambda>r. mcr_tenant_id r \<noteq> mp_tenant_id p) (revocations c),
     generations := filter (\<lambda>g. \<not> in_view p (ag_tenant_id g) (ag_cluster_id g)) (generations c),
     holds := filter (\<lambda>h. \<not> in_view p (ah_tenant_id h) (ah_cluster_id h)) (holds c),
     deletions := filter (\<lambda>d. \<not> in_view p (ad_tenant_id d) (ad_cluster_id d)) (deletions c),
     attempt_records := filter (\<lambda>r. \<not> in_view p (ar_tenant_id r) (ar_cluster_id r)) (attempt_records c),
     policies := filter (\<lambda>r. \<not> in_view p (rpr_tenant_id r) (rpr_cluster_id r)) (policies c),
     policy_cancellations := filter (\<lambda>r. \<not> in_view p (rpc_tenant_id r) (rpc_cluster_id r)) (policy_cancellations c),
     policy_backfills := filter (\<lambda>b. \<not> in_view p (rpb_tenant_id b) (rpb_cluster_id b)) (policy_backfills c),
     policy_backfill_items := filter (\<lambda>b. \<not> in_view p (rpbi_tenant_id b) (rpbi_cluster_id b)) (policy_backfill_items c),
     reservations := filter (\<lambda>r. \<not> in_view p (res_tenant_id r) (res_cluster_id r)) (reservations c),
     incidents := filter (\<lambda>x. \<not> in_view p (inc_tenant_id x) (inc_cluster_id x)) (incidents c),
     incident_resolutions := filter (\<lambda>x. \<not> in_view p (iir_tenant_id x) (iir_cluster_id x)) (incident_resolutions c),
     notifications := filter (\<lambda>n. \<not> in_view p (ntf_tenant_id n) (ntf_cluster_id n)) (notifications c),
     notification_redrives := filter (\<lambda>x. \<not> in_view p (inr_tenant_id x) (inr_cluster_id x)) (notification_redrives c),
     manifests := filter (\<lambda>m. \<not> in_view p (mf_tenant_id m) (mf_cluster_id m)) (manifests c),
     outbox := filter (\<lambda>x. ob_tenant_id x \<noteq> mp_tenant_id p) (outbox c),
     download_audits := filter (\<lambda>a. \<not> in_view p (eda_tenant_id a) (eda_cluster_id a)) (download_audits c)\<rparr>"

text \<open>The primary keys the updates by identifier rely on.\<close>

definition primary_keys :: "catalog \<Rightarrow> bool" where
  "primary_keys c = (distinct (map ah_hold_id (holds c)) \<and> distinct (map res_reservation_id (reservations c))
     \<and> distinct (map inc_incident_id (incidents c)) \<and> distinct (map ntf_notification_id (notifications c)))"

lemma filter_upd_where:
  assumes "\<And>x. x \<in> set xs \<Longrightarrow> P x \<Longrightarrow> \<not> Q x \<and> \<not> Q (f x)"
  shows "filter Q (upd_where P f xs) = filter Q xs"
  using assms
proof (induction xs)
  case (Cons x xs)
  from Cons.prems have "filter Q (upd_where P f xs) = filter Q xs" by (intro Cons.IH) simp
  with Cons.prems [of x] show ?case by (simp add: upd_where_def)
qed (simp add: upd_where_def)

lemma filter_delete_where:
  assumes "\<And>x. x \<in> set xs \<Longrightarrow> P x \<Longrightarrow> \<not> Q x"
  shows "filter Q (delete_where P xs) = filter Q xs"
  unfolding delete_where_def filter_filter by (rule filter_cong) (use assms in auto)

text \<open>A table may change as long as its foreign rows stay.\<close>

lemma foreign_update [simp]:
  "filter (\<lambda>r. mcr_tenant_id r \<noteq> mp_tenant_id p) (f1 (revocations c)) = filter (\<lambda>r. mcr_tenant_id r \<noteq> mp_tenant_id p) (revocations c) \<Longrightarrow> foreign p (revocations_update f1 c) = foreign p c"
  "filter (\<lambda>g. \<not> in_view p (ag_tenant_id g) (ag_cluster_id g)) (f2 (generations c)) = filter (\<lambda>g. \<not> in_view p (ag_tenant_id g) (ag_cluster_id g)) (generations c) \<Longrightarrow> foreign p (generations_update f2 c) = foreign p c"
  "filter (\<lambda>h. \<not> in_view p (ah_tenant_id h) (ah_cluster_id h)) (f3 (holds c)) = filter (\<lambda>h. \<not> in_view p (ah_tenant_id h) (ah_cluster_id h)) (holds c) \<Longrightarrow> foreign p (holds_update f3 c) = foreign p c"
  "filter (\<lambda>d. \<not> in_view p (ad_tenant_id d) (ad_cluster_id d)) (f4 (deletions c)) = filter (\<lambda>d. \<not> in_view p (ad_tenant_id d) (ad_cluster_id d)) (deletions c) \<Longrightarrow> foreign p (deletions_update f4 c) = foreign p c"
  "filter (\<lambda>r. \<not> in_view p (ar_tenant_id r) (ar_cluster_id r)) (f5 (attempt_records c)) = filter (\<lambda>r. \<not> in_view p (ar_tenant_id r) (ar_cluster_id r)) (attempt_records c) \<Longrightarrow> foreign p (attempt_records_update f5 c) = foreign p c"
  "filter (\<lambda>r. \<not> in_view p (rpr_tenant_id r) (rpr_cluster_id r)) (f6 (policies c)) = filter (\<lambda>r. \<not> in_view p (rpr_tenant_id r) (rpr_cluster_id r)) (policies c) \<Longrightarrow> foreign p (policies_update f6 c) = foreign p c"
  "filter (\<lambda>r. \<not> in_view p (rpc_tenant_id r) (rpc_cluster_id r)) (f7 (policy_cancellations c)) = filter (\<lambda>r. \<not> in_view p (rpc_tenant_id r) (rpc_cluster_id r)) (policy_cancellations c) \<Longrightarrow> foreign p (policy_cancellations_update f7 c) = foreign p c"
  "filter (\<lambda>b. \<not> in_view p (rpb_tenant_id b) (rpb_cluster_id b)) (f8 (policy_backfills c)) = filter (\<lambda>b. \<not> in_view p (rpb_tenant_id b) (rpb_cluster_id b)) (policy_backfills c) \<Longrightarrow> foreign p (policy_backfills_update f8 c) = foreign p c"
  "filter (\<lambda>b. \<not> in_view p (rpbi_tenant_id b) (rpbi_cluster_id b)) (f9 (policy_backfill_items c)) = filter (\<lambda>b. \<not> in_view p (rpbi_tenant_id b) (rpbi_cluster_id b)) (policy_backfill_items c) \<Longrightarrow> foreign p (policy_backfill_items_update f9 c) = foreign p c"
  "filter (\<lambda>r. \<not> in_view p (res_tenant_id r) (res_cluster_id r)) (f10 (reservations c)) = filter (\<lambda>r. \<not> in_view p (res_tenant_id r) (res_cluster_id r)) (reservations c) \<Longrightarrow> foreign p (reservations_update f10 c) = foreign p c"
  "filter (\<lambda>x. \<not> in_view p (inc_tenant_id x) (inc_cluster_id x)) (f11 (incidents c)) = filter (\<lambda>x. \<not> in_view p (inc_tenant_id x) (inc_cluster_id x)) (incidents c) \<Longrightarrow> foreign p (incidents_update f11 c) = foreign p c"
  "filter (\<lambda>x. \<not> in_view p (iir_tenant_id x) (iir_cluster_id x)) (f12 (incident_resolutions c)) = filter (\<lambda>x. \<not> in_view p (iir_tenant_id x) (iir_cluster_id x)) (incident_resolutions c) \<Longrightarrow> foreign p (incident_resolutions_update f12 c) = foreign p c"
  "filter (\<lambda>n. \<not> in_view p (ntf_tenant_id n) (ntf_cluster_id n)) (f13 (notifications c)) = filter (\<lambda>n. \<not> in_view p (ntf_tenant_id n) (ntf_cluster_id n)) (notifications c) \<Longrightarrow> foreign p (notifications_update f13 c) = foreign p c"
  "filter (\<lambda>x. \<not> in_view p (inr_tenant_id x) (inr_cluster_id x)) (f14 (notification_redrives c)) = filter (\<lambda>x. \<not> in_view p (inr_tenant_id x) (inr_cluster_id x)) (notification_redrives c) \<Longrightarrow> foreign p (notification_redrives_update f14 c) = foreign p c"
  "filter (\<lambda>m. \<not> in_view p (mf_tenant_id m) (mf_cluster_id m)) (f15 (manifests c)) = filter (\<lambda>m. \<not> in_view p (mf_tenant_id m) (mf_cluster_id m)) (manifests c) \<Longrightarrow> foreign p (manifests_update f15 c) = foreign p c"
  "filter (\<lambda>x. ob_tenant_id x \<noteq> mp_tenant_id p) (f16 (outbox c)) = filter (\<lambda>x. ob_tenant_id x \<noteq> mp_tenant_id p) (outbox c) \<Longrightarrow> foreign p (outbox_update f16 c) = foreign p c"
  "filter (\<lambda>a. \<not> in_view p (eda_tenant_id a) (eda_cluster_id a)) (f17 (download_audits c)) = filter (\<lambda>a. \<not> in_view p (eda_tenant_id a) (eda_cluster_id a)) (download_audits c) \<Longrightarrow> foreign p (download_audits_update f17 c) = foreign p c"
  by (simp_all add: foreign_def)

lemma distinct_key_row:
  assumes "distinct (map k xs)" "x \<in> set xs" "y \<in> set xs" "k x = k y"
  shows "x = y"
  using assms by (induction xs) (auto simp: image_iff)

lemma begin_txn_foreign:
  assumes "begin_txn body c = (r, c')" "\<And>a c1. body c = (Inr a, c1) \<Longrightarrow> foreign p c1 = foreign p c"
  shows "foreign p c' = foreign p c"
  using assms begin_txn_rollback [of body c] by (cases r) (auto simp: begin_txn_commit)

lemma in_cluster_foreign:
  assumes "\<And>r w'. valid \<Longrightarrow> cl \<in> set (mp_clusters p) \<Longrightarrow> body w = (r, w') \<Longrightarrow> foreign p (cat w') = foreign p (cat w)"
  shows "foreign p (cat (snd (in_cluster valid p cl body w))) = foreign p (cat w)"
  using assms [OF _ _ surjective_pairing]
  by (auto simp: in_cluster_def scoped_def require_def cluster_scope_def)

lemma on_catalog_foreign:
  assumes "\<And>r c'. f (cat w) = (r, c') \<Longrightarrow> foreign p c' = foreign p (cat w)"
  shows "foreign p (cat (snd (on_catalog f w))) = foreign p (cat w)"
  using assms by (auto simp: on_catalog_def split: prod.splits)

lemma then_read_foreign [simp]: "snd (then_read h (\<lambda>x. x) v out) = snd out"
  by (simp add: then_read_def split: prod.splits sum.splits)

section \<open>One operation at a time\<close>

lemma create_policy_foreign:
  assumes "create_retention_policy_revision (mp_tenant_id p) cl secs actor eff lc now c = (r, c')" "cl \<in> set (mp_clusters p)"
  shows "foreign p c' = foreign p c"
proof -
  from assms(1) consider "c' = c" | e where "begin_txn (insert_policy_revision (mp_tenant_id p) cl secs actor now e lc) c = (r, c')"
    by (auto simp: create_retention_policy_revision_def split: if_splits sum.splits)
  then show ?thesis
  proof cases
    case 2
    then show ?thesis
      by (rule begin_txn_foreign)
         (use assms(2) in \<open>auto simp: insert_policy_revision_def Let_def foreign_update in_view_def add_policy_def add_row_Inr_iff split: sum.splits\<close>)
  qed simp
qed

lemma cancel_policy_foreign:
  assumes "cancel_retention_policy_revision (mp_tenant_id p) cl v reason actor now c = (r, c')" "cl \<in> set (mp_clusters p)"
  shows "foreign p c' = foreign p c"
proof -
  from assms(1) consider "c' = c" | rs where "begin_txn (cancel_policy_txn (mp_tenant_id p) cl v rs actor now) c = (r, c')"
    by (auto simp: cancel_retention_policy_revision_def Let_def split: if_splits)
  then show ?thesis
  proof cases
    case 2
    then show ?thesis
      by (rule begin_txn_foreign)
         (use assms(2) in \<open>auto simp: cancel_policy_txn_def Let_def foreign_update in_view_def split: option.splits if_splits\<close>)
  qed simp
qed

lemma revoke_foreign:
  assumes "revoke_credential ma p cid reason now c = (r, c')"
  shows "foreign p c' = foreign p c"
proof -
  from assms consider "c' = c" | rs t where "begin_txn (revoke_txn p cid rs t) c = (r, c')"
    by (auto simp: revoke_credential_def Let_def split: if_splits option.splits)
  then show ?thesis
  proof cases
    case 2
    then show ?thesis
      by (rule begin_txn_foreign) (auto simp: revoke_txn_def Let_def foreign_update split: option.splits if_splits)
  qed simp
qed

lemma download_foreign:
  assumes "begin_txn (download_txn R mx st a cl kind n did now p) c = (r, c')" "cl \<in> set (mp_clusters p)"
  shows "foreign p c' = foreign p c"
  using assms(1)
proof (rule begin_txn_foreign)
  fix d c1 assume "download_txn R mx st a cl kind n did now p c = (Inr d, c1)"
  then show "foreign p c1 = foreign p c"
    by (rule download_txn_Inr) (use assms(2) in \<open>simp add: foreign_update in_view_def\<close>)
qed

lemma redrive_foreign:
  assumes "redrive (mp_tenant_id p) cl nid actor reason rid now c = (r, c')" "cl \<in> set (mp_clusters p)" "primary_keys c"
  shows "foreign p c' = foreign p c"
proof -
  from assms(1) consider "c' = c" | rs where "begin_txn (redrive_txn (mp_tenant_id p) cl nid actor rs rid now) c = (r, c')"
    by (auto simp: redrive_def Let_def split: if_splits)
  then show ?thesis
  proof cases
    case 2
    then show ?thesis
    proof (rule begin_txn_foreign)
      fix a c1 assume t: "redrive_txn (mp_tenant_id p) cl nid actor rs rid now c = (Inr a, c1)"
      then obtain n where n: "get_notification c nid = Some n" "ntf_tenant_id n = mp_tenant_id p" "ntf_cluster_id n = cl"
        by (auto simp: redrive_txn_def split: option.splits if_splits)
      from find_Some_iff [OF n(1) [unfolded get_notification_def]] have mem: "n \<in> set (notifications c)" "ntf_notification_id n = nid" by auto
      have only: "x = n" if "x \<in> set (notifications c)" "ntf_notification_id x = nid" for x
        using distinct_key_row [of ntf_notification_id, OF _ that(1) mem(1)] that(2) mem(2) assms(3) by (simp add: primary_keys_def)
      have "filter (\<lambda>n. \<not> in_view p (ntf_tenant_id n) (ntf_cluster_id n)) (upd_where (\<lambda>x. ntf_notification_id x = nid) (redriven_row now) (notifications c))
          = filter (\<lambda>n. \<not> in_view p (ntf_tenant_id n) (ntf_cluster_id n)) (notifications c)"
        by (rule filter_upd_where) (use only n assms(2) in \<open>auto simp: in_view_def redriven_row_def\<close>)
      with t n assms(2) show "foreign p c1 = foreign p c"
        by (auto simp: redrive_txn_def upd_notification_def foreign_update in_view_def split: if_splits)
    qed
  qed simp
qed

lemma resolve_incident_scope [simp]:
  "inc_tenant_id (resolve_incident now actor reason x) = inc_tenant_id x"
  "inc_cluster_id (resolve_incident now actor reason x) = inc_cluster_id x"
  by (simp_all add: resolve_incident_def)

lemma close_incident_foreign:
  assumes "close_incident isof rid nid now actor reason x c = (r, c')" "x \<in> set (incidents c)" "primary_keys c"
    "in_view p (inc_tenant_id x) (inc_cluster_id x)"
  shows "foreign p c' = foreign p c"
proof -
  have only: "y = x" if "y \<in> set (incidents c)" "inc_incident_id y = inc_incident_id x" for y
    using distinct_key_row [of inc_incident_id "incidents c" y x] that assms(2,3) by (simp add: primary_keys_def)
  have "filter (\<lambda>x. \<not> in_view p (inc_tenant_id x) (inc_cluster_id x))
        (upd_where (\<lambda>y. inc_incident_id y = inc_incident_id x) (resolve_incident now actor reason) (incidents c))
      = filter (\<lambda>x. \<not> in_view p (inc_tenant_id x) (inc_cluster_id x)) (incidents c)"
    by (rule filter_upd_where) (use only assms(4) in auto)
  note keep = this
  from assms(1) have c': "c' = snd (close_incident isof rid nid now actor reason x c)" by simp
  show ?thesis unfolding c' by (simp add: close_incident_def Let_def enqueue_notification_def keep assms(4))
qed

lemma resolve_foreign:
  assumes "resolve R isof (mp_tenant_id p) cl iid actor reason rid nid now w = (r, w')" "cl \<in> set (mp_clusters p)" "primary_keys (cat w)"
  shows "foreign p (cat w') = foreign p (cat w)"
proof -
  from assms(1) consider "w' = w" | rs c' where "w' = w\<lparr>cat := c'\<rparr>"
      "begin_txn (resolve_txn R isof (objs w) (mp_tenant_id p) cl iid actor rs rid nid now) (cat w) = (r, c')"
    by (auto simp: resolve_def Let_def split: if_splits prod.splits)
  then show ?thesis
  proof cases
    case (2 rs c')
    from 2(2) have "foreign p c' = foreign p (cat w)"
    proof (rule begin_txn_foreign)
      fix a c1 assume t: "resolve_txn R isof (objs w) (mp_tenant_id p) cl iid actor rs rid nid now (cat w) = (Inr a, c1)"
      then obtain x where x: "get_incident (cat w) iid = Some x" "inc_tenant_id x = mp_tenant_id p" "inc_cluster_id x = cl"
        by (auto simp: resolve_txn_def split: option.splits if_splits)
      then have mem: "x \<in> set (incidents (cat w))" by (auto simp: get_incident_def dest: find_Some_iff)
      from t x consider "c1 = cat w" | "close_incident isof rid nid now actor rs x (cat w) = (Inr a, c1)"
        by (auto simp: resolve_txn_def split: if_splits sum.splits bool.splits)
      then show "foreign p c1 = foreign p (cat w)"
        using close_incident_foreign [OF _ mem assms(3)] x assms(2) by cases (auto simp: in_view_def)
    qed
    with 2(1) show ?thesis by simp
  qed simp
qed

lemma upd_deletion_foreign [simp]:
  assumes "cl \<in> set (mp_clusters p)" "\<And>d. ad_tenant_id (f d) = ad_tenant_id d \<and> ad_cluster_id (f d) = ad_cluster_id d"
  shows "foreign p (upd_deletion (mp_tenant_id p, cl, a) f c) = foreign p c"
proof -
  have "filter (\<lambda>d. \<not> in_view p (ad_tenant_id d) (ad_cluster_id d)) (upd_where (\<lambda>d. ad_identity d = (mp_tenant_id p, cl, a)) f (deletions c))
      = filter (\<lambda>d. \<not> in_view p (ad_tenant_id d) (ad_cluster_id d)) (deletions c)"
    by (rule filter_upd_where) (use assms in \<open>auto simp: in_view_def ad_identity_def\<close>)
  then show ?thesis by (simp add: upd_deletion_def)
qed

lemma upd_generation_foreign [simp]:
  assumes "cl \<in> set (mp_clusters p)" "ag_identity g = (mp_tenant_id p, cl, a)"
  shows "foreign p (upd_generation (mp_tenant_id p, cl, a) (\<lambda>_. g) c) = foreign p c"
proof -
  have "filter (\<lambda>g. \<not> in_view p (ag_tenant_id g) (ag_cluster_id g)) (upd_where (\<lambda>x. ag_identity x = (mp_tenant_id p, cl, a)) (\<lambda>_. g) (generations c))
      = filter (\<lambda>g. \<not> in_view p (ag_tenant_id g) (ag_cluster_id g)) (generations c)"
    by (rule filter_upd_where) (use assms in \<open>auto simp: in_view_def ag_identity_def\<close>)
  then show ?thesis by (simp add: upd_generation_def)
qed

lemma place_hold_foreign:
  assumes "place_attempt_hold (mp_tenant_id p, cl, a) hid reason actor now c = (r, c')" "cl \<in> set (mp_clusters p)"
  shows "foreign p c' = foreign p c"
proof -
  from assms(1) consider "c' = c" | rs where "begin_txn (place_hold_txn (mp_tenant_id p, cl, a) hid rs actor now) c = (r, c')"
    by (auto simp: place_attempt_hold_def Let_def split: if_splits)
  then show ?thesis
  proof cases
    case (2 rs)
    have new: "foreign p (c\<lparr>holds := holds c @ [h]\<rparr>) = foreign p c" if "ah_tenant_id h = mp_tenant_id p" "ah_cluster_id h = cl" for h
      using that assms(2) by (simp add: in_view_def)
    have mark: "ad_tenant_id (mark_held d) = ad_tenant_id d \<and> ad_cluster_id (mark_held d) = ad_cluster_id d" for d
      by (simp add: mark_held_def)
    from 2 show ?thesis
      by (rule begin_txn_foreign)
         (auto simp: place_hold_txn_def Let_def new mark assms(2) simp del: foreign_update split: if_splits option.splits)
  qed simp
qed

lemma fence_generation_foreign:
  assumes "fence_generation (mp_tenant_id p, cl, a) now c = (g, c')" "cl \<in> set (mp_clusters p)"
  shows "foreign p c' = foreign p c"
proof (cases "get_generation c (mp_tenant_id p, cl, a)")
  case None
  with assms show ?thesis by (auto simp: fence_generation_def Let_def make_generation_def in_view_def)
next
  case (Some g0)
  then have "ag_identity g0 = (mp_tenant_id p, cl, a)" using find_Some_iff [of _ "generations c" g0] by (auto simp: get_generation_def)
  with Some assms show ?thesis by (auto simp: fence_generation_def Let_def ag_identity_def split: if_splits)
qed

lemma release_hold_foreign:
  assumes "release_attempt_hold hid actor (Some (mp_tenant_id p, cl, a)) rel now c = (r, c')" "cl \<in> set (mp_clusters p)" "primary_keys c"
  shows "foreign p c' = foreign p c"
proof -
  let ?i = "(mp_tenant_id p, cl, a)"
  from assms(1) consider "c' = c" | "begin_txn (release_hold_txn hid actor (Some ?i) rel now) c = (r, c')"
    by (auto simp: release_attempt_hold_def split: if_splits)
  then show ?thesis
  proof cases
    case 2
    then show ?thesis
    proof (rule begin_txn_foreign)
      fix b c1 assume t: "release_hold_txn hid actor (Some ?i) rel now c = (Inr b, c1)"
      then obtain h where h: "get_hold c hid = Some h" "ah_identity h = ?i"
        by (auto simp: release_hold_txn_def split: option.splits if_splits)
      from find_Some_iff [OF h(1) [unfolded get_hold_def]] have mem: "h \<in> set (holds c)" "ah_hold_id h = hid" by auto
      have only: "x = h" if "x \<in> set (holds c)" "ah_hold_id x = hid" for x
        using distinct_key_row [of ah_hold_id, OF _ that(1) mem(1)] that(2) mem(2) assms(3) by (simp add: primary_keys_def)
      define f where "f = (\<lambda>h :: AttemptHold. h\<lparr>ah_state := HReleased, ah_released_at := Some rel, ah_released_by_credential_id := Some actor\<rparr>)"
      define c2 where "c2 = c\<lparr>holds := upd_where (\<lambda>h. ah_hold_id h = hid) f (holds c)\<rparr>"
      have keep: "filter (\<lambda>h. \<not> in_view p (ah_tenant_id h) (ah_cluster_id h)) (upd_where (\<lambda>h. ah_hold_id h = hid) f (holds c))
          = filter (\<lambda>h. \<not> in_view p (ah_tenant_id h) (ah_cluster_id h)) (holds c)"
        by (rule filter_upd_where) (use only h(2) assms(2) in \<open>auto simp: in_view_def f_def ah_identity_def\<close>)
      then have c2: "foreign p c2 = foreign p c" by (simp add: c2_def)
      have requeue: "ad_tenant_id (requeue_deletion n d) = ad_tenant_id d \<and> ad_cluster_id (requeue_deletion n d) = ad_cluster_id d" for n d
        by (simp add: requeue_deletion_def)
      from t h consider "c1 = c" | "c1 = c2" | g c3 where "fence_generation ?i now c2 = (g, c3)"
          "c1 = upd_deletion ?i (requeue_deletion (ag_generation g)) c3"
        by (auto simp: release_hold_txn_def Let_def f_def [symmetric] c2_def [symmetric] split: if_splits option.splits prod.splits)
      then show "foreign p c1 = foreign p c"
      proof cases
        case (3 g c3)
        from fence_generation_foreign [OF 3(1) assms(2)] c2 upd_deletion_foreign [OF assms(2) requeue] 3(2) show ?thesis by simp
      qed (simp_all add: c2)
    qed
  qed simp
qed

lemma apply_backfill_foreign:
  assumes "apply_retention_policy_backfill R isof (mp_tenant_id p) cl v mx ee ed eg actor src rsn bid now c = (r, c')" "cl \<in> set (mp_clusters p)"
  shows "foreign p c' = foreign p c"
proof -
  from assms(1) consider "c' = c"
    | "begin_txn (apply_backfill_txn R isof (mp_tenant_id p) cl v mx ee ed eg actor src rsn bid now) c = (r, c')"
    by (auto simp: apply_retention_policy_backfill_def split: if_splits)
  then show ?thesis
  proof cases
    case 2
    then show ?thesis
    proof (rule begin_txn_foreign)
      fix a c1 assume t: "apply_backfill_txn R isof (mp_tenant_id p) cl v mx ee ed eg actor src rsn bid now c = (Inr a, c1)"
      then obtain pol as due dg where d: "retention_backfill_decision R isof c (mp_tenant_id p) cl v mx now src rsn = Inr (pol, as, due, dg)"
        by (auto simp: apply_backfill_txn_def split: sum.splits)
      then have scope: "ar_tenant_id x = mp_tenant_id p \<and> ar_cluster_id x = cl" if "x \<in> set as" for x
        using that by (auto simp: retention_backfill_decision_def retention_backfill_candidates_def backfill_eligible_def bindE_Inr_iff Let_def
            split: if_splits dest!: in_set_takeD)
      have keep: "filter (\<lambda>r. \<not> in_view p (ar_tenant_id r) (ar_cluster_id r))
          (upd_where (\<lambda>r. ar_identity r \<in> set (map ar_identity as)) (rebase_attempt pol) (attempt_records c))
          = filter (\<lambda>r. \<not> in_view p (ar_tenant_id r) (ar_cluster_id r)) (attempt_records c)"
        by (rule filter_upd_where) (use scope assms(2) in \<open>auto simp: in_view_def ar_identity_def rebase_attempt_def\<close>)
      have view: "in_view p (mp_tenant_id p) cl" by (simp add: in_view_def assms(2))
      from t have c1: "c1 = snd (apply_backfill_txn R isof (mp_tenant_id p) cl v mx ee ed eg actor src rsn bid now c)" by simp
      show "foreign p c1 = foreign p c"
        unfolding c1 apply_backfill_txn_def d by (simp add: keep filter_map o_def backfill_item_def view del: set_map)
    qed
  qed simp
qed

text \<open>Admission: the reservation it draws belongs to the cluster of the segment.\<close>

definition owned_reservation :: "MachinePrincipal \<Rightarrow> string \<Rightarrow> catalog \<Rightarrow> bool" where
  "owned_reservation p rid c = (\<exists>r \<in> set (reservations c). res_reservation_id r = rid \<and> in_view p (res_tenant_id r) (res_cluster_id r))"

lemma touched_foreign:
  assumes "touched_generations c (seg_identity (mp_tenant_id p) s) gs" "su_cluster_id s \<in> set (mp_clusters p)"
  shows "foreign p (c\<lparr>generations := gs\<rparr>) = foreign p c"
  using assms by (auto simp: touched_generations_def make_generation_def seg_identity_def in_view_def)

lemma res_exact_view: "res_exact (mp_tenant_id p) s r \<Longrightarrow> su_cluster_id s \<in> set (mp_clusters p)
    \<Longrightarrow> in_view p (res_tenant_id r) (res_cluster_id r)"
  by (simp add: res_exact_def res_stream_def seg_stream_def in_view_def)

lemma primary_keys_generations [simp]: "primary_keys (c\<lparr>generations := gs\<rparr>) = primary_keys c"
  by (simp add: primary_keys_def)

lemma reserve_range_foreign:
  assumes "reserve_range p s key g inp c = (Inr out, c')" "su_cluster_id s \<in> set (mp_clusters p)" "primary_keys c"
  shows "foreign p c' = foreign p c \<and> primary_keys c' \<and> (\<forall>rid. out = Reservation rid \<longrightarrow> owned_reservation p rid c')"
proof -
  let ?new = "new_reservation p s key g inp"
  have new: "in_view p (res_tenant_id ?new) (res_cluster_id ?new)" "res_reservation_id ?new = ai_reservation_id inp"
    using assms(2) by (simp_all add: new_reservation_def in_view_def)
  have insert: "foreign p c1 = foreign p c0 \<and> primary_keys c1 \<and> owned_reservation p (ai_reservation_id inp) c1 \<and> o1 = Reservation (ai_reservation_id inp)"
    if "insert_reservation p s key g inp c0 = (Inr o1, c1)" "primary_keys c0" for c0 c1 o1
  proof -
    note i = insert_reservation_Inr [OF that(1)]
    have "res_reservation_id ?new \<notin> res_reservation_id ` set (reservations c0)" using i(3) by (auto simp: res_clash_def)
    with that(2) i(2) new show ?thesis by (auto simp: i(1) primary_keys_def owned_reservation_def)
  qed
  show ?thesis
  proof (cases "List.find (res_exact (mp_tenant_id p) s) (reservations c)")
    case None
    with assms(1) have "insert_reservation p s key g inp c = (Inr out, c')" by (simp add: reserve_range_def)
    from insert [OF this assms(3)] show ?thesis by simp
  next
    case (Some r)
    from find_Some_iff [OF this] have r: "r \<in> set (reservations c)" "in_view p (res_tenant_id r) (res_cluster_id r)"
      using res_exact_view [OF _ assms(2)] by auto
    show ?thesis
    proof (cases "res_state r = Reserved")
      case True
      with assms(1) Some have "c' = c" "out = Reservation (res_reservation_id r)" by (auto simp: reserve_range_def split: if_splits)
      with r assms(3) show ?thesis by (auto simp: owned_reservation_def)
    next
      case False
      let ?P = "\<lambda>x. res_reservation_id x = res_reservation_id r"
      let ?c = "c\<lparr>reservations := delete_where ?P (reservations c)\<rparr>"
      from False assms(1) Some have ins: "insert_reservation p s key g inp ?c = (Inr out, c')" by (auto simp: reserve_range_def split: if_splits)
      have only: "x = r" if "x \<in> set (reservations c)" "?P x" for x
        using distinct_key_row [of res_reservation_id, OF _ that(1) r(1)] that(2) assms(3) by (simp add: primary_keys_def)
      have "filter (\<lambda>r. \<not> in_view p (res_tenant_id r) (res_cluster_id r)) (delete_where ?P (reservations c))
          = filter (\<lambda>r. \<not> in_view p (res_tenant_id r) (res_cluster_id r)) (reservations c)"
        by (rule filter_delete_where) (use only r(2) in auto)
      then have keep: "foreign p ?c = foreign p c" by simp
      have "primary_keys ?c" using assms(3) by (simp add: primary_keys_def delete_where_def distinct_map_filter)
      from insert [OF ins this] keep show ?thesis by simp
    qed
  qed
qed

lemma reserve_foreign:
  assumes "admit_reserve p s key inp c = (Inr out, c')" "su_cluster_id s \<in> set (mp_clusters p)" "primary_keys c"
  shows "foreign p c' = foreign p c \<and> primary_keys c' \<and> (\<forall>rid. out = Reservation rid \<longrightarrow> owned_reservation p rid c')"
proof -
  obtain n c1 where cg: "current_generation c (mp_tenant_id p) s = (Inr n, c1)"
    using assms(1) by (auto simp: admit_reserve_def split: prod.splits sum.splits)
  then obtain gs where gs: "c1 = c\<lparr>generations := gs\<rparr>" "touched_generations c (seg_identity (mp_tenant_id p) s) gs"
    by (rule current_generation_Inr)
  have same: "foreign p c1 = foreign p c" "primary_keys c1" using touched_foreign [OF gs(2) assms(2)] gs(1) assms(3) by simp_all
  from assms(1) cg consider r where "out = Replay r" "c' = c1" | "reserve_range p s key n inp c1 = (Inr out, c')"
    by (auto simp: admit_reserve_def split: if_splits option.splits)
  then show ?thesis
  proof cases
    case 1
    with same show ?thesis by simp
  next
    case 2
    from reserve_range_foreign [OF 2 assms(2) same(2)] same(1) show ?thesis by simp
  qed
qed

lemma set_reservation_foreign:
  assumes "owned_reservation p rid c" "primary_keys c"
  shows "foreign p (set_reservation_state rid st c) = foreign p c"
proof -
  from assms(1) obtain r where r: "r \<in> set (reservations c)" "res_reservation_id r = rid" "in_view p (res_tenant_id r) (res_cluster_id r)"
    by (auto simp: owned_reservation_def)
  have only: "x = r" if "x \<in> set (reservations c)" "res_reservation_id x = rid" for x
    using distinct_key_row [of res_reservation_id, OF _ that(1) r(1)] that(2) r(2) assms(2) by (simp add: primary_keys_def)
  have "filter (\<lambda>r. \<not> in_view p (res_tenant_id r) (res_cluster_id r))
      (upd_where (\<lambda>r. res_reservation_id r = rid) (\<lambda>r. r\<lparr>res_state := st\<rparr>) (reservations c))
      = filter (\<lambda>r. \<not> in_view p (res_tenant_id r) (res_cluster_id r)) (reservations c)"
    by (rule filter_upd_where) (use only r(3) in auto)
  then show ?thesis by (simp add: set_reservation_state_def)
qed

lemma record_admission_foreign:
  assumes "record_admission sv c (mp_tenant_id p) s t = Inr rs" "su_cluster_id s \<in> set (mp_clusters p)"
  shows "filter (\<lambda>r. \<not> in_view p (ar_tenant_id r) (ar_cluster_id r)) rs
       = filter (\<lambda>r. \<not> in_view p (ar_tenant_id r) (ar_cluster_id r)) (attempt_records c)"
  using assms(1)
proof (cases rule: record_admission_Inr)
  case first
  with assms(2) show ?thesis by (simp add: new_attempt_record_def in_view_def Let_def)
next
  case (later r r')
  from later(1) have r: "ar_identity r = seg_identity (mp_tenant_id p) s" by (auto simp: get_attempt_record_def dest: find_Some_iff)
  with update_attempt_record_Inr [OF later(2)] have "ar_identity r' = seg_identity (mp_tenant_id p) s" by simp
  then show ?thesis unfolding later(3)
    by (intro filter_upd_where) (use assms(2) in \<open>auto simp: in_view_def ar_identity_def seg_identity_def\<close>)
qed

lemma commit_foreign:
  assumes "admit_commit R sv p s key rid inp st c = (Inr out, c')" "su_cluster_id s \<in> set (mp_clusters p)" "primary_keys c"
    "owned_reservation p rid c"
  shows "foreign p c' = foreign p c"
  using assms(1)
proof (cases rule: admit_commit_Inr)
  case (again gs m)
  have "owned_reservation p rid (c\<lparr>generations := gs\<rparr>)" using assms(4) by (simp add: owned_reservation_def)
  from set_reservation_foreign [OF this] touched_foreign [OF again(1) assms(2)] again(2) assms(3) show ?thesis by simp
next
  case (commit gs r g)
  let ?c = "c\<lparr>generations := gs\<rparr>"
  let ?m = "new_manifest p s key (su_deletion_generation s) r inp"
  from commit_manifest_Inr [OF commit(11)] obtain rs where
    cm: "record_admission sv ?c (mp_tenant_id p) s (ai_committed_at inp) = Inr rs"
    "c' = set_reservation_state (res_reservation_id r) Committed
       (?c\<lparr>manifests := manifests ?c @ [?m], attempt_records := rs, outbox := outbox ?c @ [admitted_event p s inp]\<rparr>)" by metis
  let ?d = "?c\<lparr>manifests := manifests ?c @ [?m], attempt_records := rs, outbox := outbox ?c @ [admitted_event p s inp]\<rparr>"
  have m: "in_view p (mf_tenant_id ?m) (mf_cluster_id ?m)" "ob_tenant_id (admitted_event p s inp) = mp_tenant_id p"
    using assms(2) by (simp_all add: new_manifest_def in_view_def admitted_event_def)
  have "foreign p ?d = foreign p c"
    using record_admission_foreign [OF cm(1) assms(2)] touched_foreign [OF commit(1) assms(2)] m by simp
  moreover have "owned_reservation p (res_reservation_id r) ?d" "primary_keys ?d"
    using assms(3,4) commit(3) by (simp_all add: owned_reservation_def primary_keys_def)
  ultimately show ?thesis using set_reservation_foreign [of p "res_reservation_id r" ?d] by (simp add: cm(2))
qed

lemma admit_foreign:
  assumes "primary_keys (cat w)"
  shows "foreign p (cat (snd (admit R sv p s inp w))) = foreign p (cat w)"
proof (cases "su_cluster_id s \<in> set (mp_clusters p)")
  case False
  then show ?thesis by (simp add: admit_def assert_scope_def)
next
  case scope: True
  then have sc: "assert_scope p s = Inr ()" by (simp add: assert_scope_def)
  show ?thesis
  proof (cases "prepare_payload R sv (mp_tenant_id p) s")
    case (Inl e)
    with sc show ?thesis by (simp add: admit_def)
  next
    case (Inr pp)
    obtain out c1 where res: "begin_txn (admit_reserve p s (pp_object_key pp) inp) (cat w) = (out, c1)"
      by (cases "begin_txn (admit_reserve p s (pp_object_key pp) inp) (cat w)")
    show ?thesis
    proof (cases out)
      case (Inl e)
      with res begin_txn_rollback have "c1 = cat w" by metis
      with sc Inr res Inl show ?thesis by (simp add: admit_def)
    next
      case out: (Inr ro)
      with res have "admit_reserve p s (pp_object_key pp) inp (cat w) = (Inr ro, c1)" by (simp add: begin_txn_commit)
      from reserve_foreign [OF this scope assms] have
        f: "foreign p c1 = foreign p (cat w)" "primary_keys c1" "\<And>rid. ro = Reservation rid \<Longrightarrow> owned_reservation p rid c1" by auto
      show ?thesis
      proof (cases ro)
        case (Replay r)
        with sc Inr res out f(1) show ?thesis by (simp add: admit_def)
      next
        case (Reservation rid)
        obtain q st where put: "put_object R (ai_tmp inp) pp s (objs w) = (q, st)" by (cases "put_object R (ai_tmp inp) pp s (objs w)")
        obtain x c2 where com: "begin_txn (admit_commit R sv p s (pp_object_key pp) rid inp st) c1 = (x, c2)"
          by (cases "begin_txn (admit_commit R sv p s (pp_object_key pp) rid inp st) c1")
        have "foreign p c2 = foreign p c1"
          using com by (rule begin_txn_foreign) (rule commit_foreign [OF _ scope f(2) f(3) [OF Reservation]])
        with sc Inr res out f(1) Reservation put com show ?thesis by (simp add: admit_def split: sum.splits)
      qed
    qed
  qed
qed

section \<open>Commands\<close>

lemma command_foreign:
  assumes "primary_keys (cat w)"
  shows "foreign p (cat (snd (serve_command R isof app inp (\<lambda>x. x) cmd p w))) = foreign p (cat w)"
proof (cases cmd)
  case (AdmitSegment ct ln raw)
  then show ?thesis using admit_foreign [OF assms] by (simp add: admit_segment_def split: sum.splits)
next
  case (ResolveIncident i cl reason)
  show ?thesis unfolding ResolveIncident serve_command.simps replied_snd resolve_integrity_incident_def
    by (rule in_cluster_foreign, drule arg_cong [of _ _ snd]) (use resolve_foreign [OF surjective_pairing _ assms] in auto)
next
  case (RedriveNotification i cl reason)
  show ?thesis unfolding RedriveNotification serve_command.simps replied_snd redrive_integrity_notification_def
    by (rule in_cluster_foreign, drule arg_cong [of _ _ snd]) (use redrive_foreign [OF _ _ assms] in \<open>auto intro!: on_catalog_foreign\<close>)
next
  case (RevokeCredential cid reason)
  show ?thesis unfolding RevokeCredential serve_command.simps replied_snd revoke_machine_credential_def
    by (auto split: sum.splits intro!: on_catalog_foreign intro: revoke_foreign)
next
  case (CreatePolicy cl u)
  show ?thesis unfolding CreatePolicy serve_command.simps replied_snd create_retention_policy_def
    by (rule in_cluster_foreign, drule arg_cong [of _ _ snd]) (use create_policy_foreign in \<open>auto intro!: on_catalog_foreign\<close>)
next
  case (CancelPolicy cl v reason)
  show ?thesis unfolding CancelPolicy serve_command.simps replied_snd cancel_retention_policy_def
    by (rule in_cluster_foreign, drule arg_cong [of _ _ snd]) (use cancel_policy_foreign in \<open>auto intro!: on_catalog_foreign\<close>)
next
  case (BackfillPolicy cl q)
  show ?thesis unfolding BackfillPolicy serve_command.simps replied_snd backfill_retention_policy_def Let_def
    by (rule in_cluster_foreign, drule arg_cong [of _ _ snd])
       (use apply_backfill_foreign in \<open>auto simp: run_backfill_def intro!: on_catalog_foreign\<close>)
next
  case (PlaceHold a cl hid reason)
  show ?thesis unfolding PlaceHold serve_command.simps replied_snd place_retention_hold_def
    by (rule in_cluster_foreign, drule arg_cong [of _ _ snd]) (use place_hold_foreign in \<open>auto intro!: on_catalog_foreign\<close>)
next
  case (ReleaseHold a cl hid)
  show ?thesis unfolding ReleaseHold serve_command.simps replied_snd release_retention_hold_def
    by (rule in_cluster_foreign, drule arg_cong [of _ _ snd]) (use release_hold_foreign [OF _ _ assms] in \<open>auto intro!: on_catalog_foreign\<close>)
next
  case (DownloadArtifact a cl kind n)
  show ?thesis unfolding DownloadArtifact serve_command.simps replied_snd report_artifact_def
    by (rule in_cluster_foreign, drule arg_cong [of _ _ snd]) (use download_foreign in \<open>auto intro!: on_catalog_foreign\<close>)
qed

lemma visible_foreign:
  assumes "mp_tenant_id q \<noteq> mp_tenant_id p"
  shows "visible q (foreign p c) = visible q c"
proof -
  have rows: "filter (\<lambda>x. in_view q (t x) (k x)) (filter (\<lambda>x. \<not> in_view p (t x) (k x)) xs) = filter (\<lambda>x. in_view q (t x) (k x)) xs"
    for t k and xs :: "'r list"
    by (rule filter_reduce) (use assms in \<open>auto simp: in_view_def\<close>)
  have tenant: "filter (\<lambda>x. t x = mp_tenant_id q) (filter (\<lambda>x. t x \<noteq> mp_tenant_id p) xs) = filter (\<lambda>x. t x = mp_tenant_id q) xs"
    for t and xs :: "'r list"
    by (rule filter_reduce) (use assms in auto)
  show ?thesis unfolding visible_def foreign_def by (simp add: rows tenant del: filter_filter)
qed

lemma serve_read_foreign:
  assumes "mp_tenant_id q \<noteq> mp_tenant_id p"
  shows "serve_read now req q (foreign p c) = serve_read now req q c"
proof (cases "\<exists>rid. req = GetReceipt rid")
  case True
  then obtain rid where r: "req = GetReceipt rid" ..
  have "List.find (\<lambda>m. mf_receipt_id m = rid \<and> mf_tenant_id m = mp_tenant_id q)
        (filter (\<lambda>m. \<not> in_view p (mf_tenant_id m) (mf_cluster_id m)) (manifests c))
      = List.find (\<lambda>m. mf_receipt_id m = rid \<and> mf_tenant_id m = mp_tenant_id q) (manifests c)"
    by (rule find_reduce) (use assms in \<open>auto simp: in_view_def\<close>)
  then have "get_receipt (foreign p c) (mp_tenant_id q) rid = get_receipt c (mp_tenant_id q) rid"
    by (simp add: get_receipt_def foreign_def)
  then show ?thesis by (simp add: r receipt_handler_def)
next
  case False
  then have "serve_read now req q (visible q x) = serve_read now req q x" for x by (intro serve_read_visible) auto
  then show ?thesis using visible_foreign [OF assms, of c] by metis
qed

text \<open>C7. A command stays inside the scope of the principal that issued it: whatever it is and however it ends, every row of
  another tenant, and every row of a cluster the principal does not hold, is the same as before.\<close>

theorem commands_confined:
  assumes "primary_keys (cat w)"
  shows "foreign p (cat (snd (serve_command R isof app inp (\<lambda>x. x) cmd p w))) = foreign p (cat w)"
  by (rule command_foreign [OF assms])


theorem commands_confined_witness:
  "foreign (demo_admin ''a'') (cat (snd (serve_command demo_runtime (\<lambda>_. []) demo_app demo_command_inputs (\<lambda>x. x)
     (ReleaseHold ''run-7'' ''alpha'' demo_hold_id) (demo_admin ''a'') demo_holding))) = foreign (demo_admin ''a'') (cat demo_holding)"
proof -
  have "primary_keys (cat demo_holding)" by (simp add: primary_keys_def demo_holding_def empty_catalog_def)
  then show ?thesis by (rule commands_confined)
qed


end
