(* ===== verification/Worker_Process.thy ===== *)
theory Worker_Process
  imports Api_Commands Py_Float
begin

text \<open>
  The process of \<^verbatim>\<open>worker.py\<close>: \<open>main\<close> builds the workers from the settings and then repeats one turn of its loop until a
  signal stops it.  \<open>worker_tick\<close> is one turn, with the clocks and identifiers it draws; between two turns other processes
  act.  An exception no worker catches ends the process.
\<close>

section \<open>Construction\<close>

definition make_retention_sweeper :: "int \<Rightarrow> int result" where
  "make_retention_sweeper batch =
     (if \<not> (1 \<le> batch \<and> batch \<le> 10000) then Inl (ValueError ''batch_size must be within [1, 10000]'') else Inr batch)"

text \<open>The names the workers draw for themselves, and the workers.\<close>

record worker_names =
  wn_deletion :: string
  wn_outbox :: string
  wn_report :: string
  wn_notification :: string

record worker_process =
  wp_names :: worker_names
  wp_lifecycle :: IngestionService
  wp_report :: ReportRevisionWorker
  wp_reservations :: ReservationSweeper
  wp_retention_batch :: int
  wp_audit :: ObjectGcAuditWorker
  wp_notifications :: "IntegrityNotificationWorker option"
  wp_reservation_every :: int
  wp_retention_every :: int
  wp_gc_every :: int
  wp_audit_every :: int

definition make_notifications :: "Settings \<Rightarrow> string \<Rightarrow> IntegrityNotificationWorker option result" where
  "make_notifications s own =
     (case st_integrity_webhook_url s of
        None \<Rightarrow> Inr None
      | Some url \<Rightarrow>
          if st_integrity_webhook_secret s = None \<or> st_integrity_webhook_key_id s = None then Inl AssertionErr
          else bindE (make_notification_worker own 60 8 30) (\<lambda>nw. Inr (Some nw)))"

definition make_process :: "Settings \<Rightarrow> worker_names \<Rightarrow> worker_process result" where
  "make_process s ns =
     bindE (make_ingestion_service (8 * 1024 * 1024) (st_default_retention_seconds s)) (\<lambda>sv.
     bindE (make_report_worker 10000 10000000 (64 * 1024 * 1024) (st_object_gc_grace_seconds s)) (\<lambda>rw.
     bindE (make_reservation_sweeper (st_reservation_ttl_seconds s) 100 (st_object_gc_grace_seconds s)) (\<lambda>sw.
     bindE (make_retention_sweeper (st_retention_sweep_batch_size s)) (\<lambda>batch.
     bindE (make_audit_worker (st_object_gc_grace_seconds s) (st_object_gc_audit_interval_seconds s)
              (st_object_gc_audit_batch_size s)) (\<lambda>aw.
     bindE (make_notifications s (wn_notification ns)) (\<lambda>nw.
       Inr \<lparr>wp_names = ns, wp_lifecycle = sv, wp_report = rw, wp_reservations = sw, wp_retention_batch = batch, wp_audit = aw,
            wp_notifications = nw, wp_reservation_every = st_reservation_sweep_seconds s,
            wp_retention_every = st_retention_sweep_seconds s, wp_gc_every = st_object_gc_sweep_seconds s,
            wp_audit_every = st_object_gc_audit_sweep_seconds s\<rparr>))))))"

section \<open>One turn of the loop\<close>

text \<open>What the process calls outside itself.\<close>

record worker_environment =
  we_runtime :: runtime
  we_isoformat :: "instant \<Rightarrow> string"
  we_write_table :: table_writer
  we_send :: "string \<Rightarrow> string \<Rightarrow> string \<Rightarrow> unit result"

record tick_inputs =
  ti_deletion_claimed_at :: instant
  ti_deleted_at :: instant
  ti_outbox_claimed_at :: instant
  ti_outbox_id :: string
  ti_normalized_at :: instant
  ti_requested_at :: instant
  ti_report_claimed_at :: instant
  ti_report_ids :: id_source
  ti_reserved_at :: instant
  ti_publish :: report_publish_inputs
  ti_notification_claimed_at :: instant
  ti_delivered_at :: instant
  ti_during_delivery :: "catalog \<Rightarrow> catalog"
  ti_monotonic :: rat
  ti_sweep_ids :: id_source
  ti_sweep_clock :: "nat \<Rightarrow> instant"
  ti_retention_clock :: "nat \<Rightarrow> instant"
  ti_collected_at :: instant
  ti_audit_ids :: "nat \<Rightarrow> id_source"
  ti_audited_at :: instant

record sweep_timers =
  next_reservation_sweep :: rat
  next_retention_sweep :: rat
  next_object_gc_sweep :: rat
  next_object_gc_audit_sweep :: rat

definition initial_timers :: sweep_timers where
  "initial_timers = \<lparr>next_reservation_sweep = 0, next_retention_sweep = 0, next_object_gc_sweep = 0, next_object_gc_audit_sweep = 0\<rparr>"

text \<open>A sweep runs when the monotonic clock has reached its time, and is due again a fixed interval later.\<close>

definition run_due :: "rat \<Rightarrow> int \<Rightarrow> rat \<Rightarrow> (world \<Rightarrow> bool \<times> world) \<Rightarrow> world \<Rightarrow> bool \<times> rat \<times> world" where
  "run_due monotonic_now every due sweep w =
     (if due \<le> monotonic_now then (case sweep w of (b, w') \<Rightarrow> (b, round_double (monotonic_now + of_int every), w'))
      else (False, due, w))"

definition sweep_reservations :: "worker_process \<Rightarrow> tick_inputs \<Rightarrow> world \<Rightarrow> bool \<times> world" where
  "sweep_reservations p inp w =
     (case reservation_sweep (wp_reservations p) (ti_sweep_ids inp) (ti_sweep_clock inp) (cat w) of
        (n, c) \<Rightarrow> (n > 0, w\<lparr>cat := c\<rparr>))"

definition sweep_retention :: "worker_process \<Rightarrow> tick_inputs \<Rightarrow> world \<Rightarrow> bool \<times> world" where
  "sweep_retention p inp w =
     (case retention_sweep (wp_retention_batch p) (ti_retention_clock inp) (cat w) of
        (outcomes, c) \<Rightarrow> (outcomes \<noteq> (0, 0), w\<lparr>cat := c\<rparr>))"

definition collect_object :: "worker_environment \<Rightarrow> tick_inputs \<Rightarrow> world \<Rightarrow> bool \<times> world" where
  "collect_object e inp w =
     (case object_gc_run_once (we_runtime e) (ti_collected_at inp) w of (outcome, w') \<Rightarrow> (outcome \<noteq> None, w'))"

definition audit_objects :: "worker_environment \<Rightarrow> worker_process \<Rightarrow> tick_inputs \<Rightarrow> world \<Rightarrow> bool \<times> world" where
  "audit_objects e p inp w =
     (case gc_audit_run_once (we_runtime e) (we_isoformat e) (wp_audit p) (ti_audit_ids inp) (ti_audited_at inp) w of
        (outcomes, w') \<Rightarrow> (list_ex (\<lambda>st. outcomes st \<noteq> 0) [GPending, GProtected, GDeleted, GMissing, GFailed], w'))"

definition run_sweeps ::
  "worker_environment \<Rightarrow> worker_process \<Rightarrow> tick_inputs \<Rightarrow> sweep_timers \<Rightarrow> world \<Rightarrow> bool \<times> sweep_timers \<times> world" where
  "run_sweeps e p inp tm w =
     (case run_due (ti_monotonic inp) (wp_reservation_every p) (next_reservation_sweep tm) (sweep_reservations p inp) w of
        (b1, t1, w1) \<Rightarrow>
      case run_due (ti_monotonic inp) (wp_retention_every p) (next_retention_sweep tm) (sweep_retention p inp) w1 of
        (b2, t2, w2) \<Rightarrow>
      case run_due (ti_monotonic inp) (wp_gc_every p) (next_object_gc_sweep tm) (collect_object e inp) w2 of
        (b3, t3, w3) \<Rightarrow>
      case run_due (ti_monotonic inp) (wp_audit_every p) (next_object_gc_audit_sweep tm) (audit_objects e p inp) w3 of
        (b4, t4, w4) \<Rightarrow>
        (b1 \<or> b2 \<or> b3 \<or> b4, \<lparr>next_reservation_sweep = t1, next_retention_sweep = t2, next_object_gc_sweep = t3,
           next_object_gc_audit_sweep = t4\<rparr>, w4))"

definition deliver_notification :: "worker_environment \<Rightarrow> worker_process \<Rightarrow> tick_inputs \<Rightarrow> world \<Rightarrow> bool \<times> world" where
  "deliver_notification e p inp w =
     (case wp_notifications p of
        None \<Rightarrow> (False, w)
      | Some nw \<Rightarrow>
          (case notification_run_once nw (we_send e) (ti_during_delivery inp) (ti_notification_claimed_at inp)
                  (ti_delivered_at inp) (cat w) of (b, c) \<Rightarrow> (b, w\<lparr>cat := c\<rparr>)))"

definition run_deletion :: "worker_environment \<Rightarrow> worker_process \<Rightarrow> tick_inputs \<Rightarrow> world \<Rightarrow> bool \<times> world" where
  "run_deletion e p inp w =
     deletion_run_once (we_runtime e) (wn_deletion (wp_names p)) 60 (ti_deletion_claimed_at inp) (ti_deleted_at inp) w"

definition run_outbox :: "worker_environment \<Rightarrow> worker_process \<Rightarrow> tick_inputs \<Rightarrow> world \<Rightarrow> bool result \<times> world" where
  "run_outbox e p inp w =
     outbox_run_once (we_runtime e) (wn_outbox (wp_names p)) 60 (ti_outbox_claimed_at inp) (ti_outbox_id inp)
       (ti_normalized_at inp) (ti_requested_at inp) w"

definition run_report :: "worker_environment \<Rightarrow> worker_process \<Rightarrow> tick_inputs \<Rightarrow> world \<Rightarrow> bool result \<times> world" where
  "run_report e p inp w =
     report_run_once (we_runtime e) (we_write_table e) (wp_report p) (wn_report (wp_names p)) 60 (ti_report_claimed_at inp)
       (ti_report_ids inp) (ti_reserved_at inp) (ti_publish inp) w"

text \<open>The turn returns whether anything was done; when nothing was, the process sleeps for half a second.\<close>

definition worker_tick ::
  "worker_environment \<Rightarrow> worker_process \<Rightarrow> tick_inputs \<Rightarrow> sweep_timers \<Rightarrow> world \<Rightarrow> (bool \<times> sweep_timers) result \<times> world" where
  "worker_tick e p inp tm w =
     (case run_deletion e p inp w of (b1, w1) \<Rightarrow>
      case run_outbox e p inp w1 of
        (Inl x, w2) \<Rightarrow> (Inl x, w2)
      | (Inr b2, w2) \<Rightarrow>
          (case run_report e p inp w2 of
             (Inl x, w3) \<Rightarrow> (Inl x, w3)
           | (Inr b3, w3) \<Rightarrow>
               (case deliver_notification e p inp w3 of (b4, w4) \<Rightarrow>
                case run_sweeps e p inp tm w4 of (b5, tm', w5) \<Rightarrow> (Inr (b1 \<or> b2 \<or> b3 \<or> b4 \<or> b5, tm'), w5))))"

text \<open>The loop until the stop signal, after as many turns as there are inputs; each comes with what the other processes do
  before the next turn.\<close>

fun worker_loop ::
  "worker_environment \<Rightarrow> worker_process \<Rightarrow> (tick_inputs \<times> (world \<Rightarrow> world)) list \<Rightarrow> sweep_timers \<Rightarrow> world
   \<Rightarrow> sweep_timers result \<times> world" where
  "worker_loop e p [] tm w = (Inr tm, w)"
| "worker_loop e p ((inp, others) # rest) tm w =
     (case worker_tick e p inp tm w of
        (Inl x, w') \<Rightarrow> (Inl x, w')
      | (Inr (worked, tm'), w') \<Rightarrow> worker_loop e p rest tm' (others w'))"

definition worker_main ::
  "worker_environment \<Rightarrow> Settings \<Rightarrow> worker_names \<Rightarrow> (tick_inputs \<times> (world \<Rightarrow> world)) list \<Rightarrow> world
   \<Rightarrow> int result \<times> world" where
  "worker_main e s ns ticks w =
     (case make_process s ns of
        Inl x \<Rightarrow> (Inl x, w)
      | Inr p \<Rightarrow>
          (case worker_loop e p ticks initial_timers w of
             (Inl x, w') \<Rightarrow> (Inl x, w')
           | (Inr tm, w') \<Rightarrow> (Inr 0, w')))"


section \<open>Every turn is a run of the site\<close>

lemma outbox_run:
  "(site_step R)\<^sup>*\<^sup>* w (snd (outbox_run_once R own secs t oid t1 t2 w))"
proof -
  obtain r c1 where cl: "outbox_claim own secs t (cat w) = (r, c1)" by fastforce
  let ?w1 = "w\<lparr>cat := c1\<rparr>"
  have s1: "site_step R w ?w1" using cl by (simp add: outbox_claim_def site_step.claim_event)
  show ?thesis
  proof (cases r)
    case None
    with cl s1 show ?thesis by (auto simp: outbox_run_once_def)
  next
    case (Some l)
    have fail: "(site_step R)\<^sup>*\<^sup>* ?w1 (snd (if caught x then (Inr False, ?w1\<lparr>cat := fail_event l (err_text x) (cat ?w1)\<rparr>) else (Inl x, ?w1)))" for x
      using site_step.event_failed [of R ?w1 l "err_text x"] by auto
    have "(site_step R)\<^sup>*\<^sup>* ?w1 (snd (outbox_execute R l oid t1 t2 ?w1))"
    proof (cases "read_publication R l ?w1")
      case (Inl x)
      with fail [of x] show ?thesis by (simp add: outbox_execute_def Let_def)
    next
      case (Inr ob)
      show ?thesis
      proof (cases ob)
        case None
        with Inr show ?thesis by (simp add: outbox_execute_def)
      next
        case (Some pb)
        obtain fin c2 where pub: "begin_txn (publish l pb oid t1 t2) c1 = (fin, c2)" by fastforce
        have "site_step R ?w1 (w\<lparr>cat := c2\<rparr>)" using site_step.publish [of l pb oid t1 t2 ?w1 fin c2 R] pub by simp
        with fail Inr Some pub show ?thesis by (cases fin) (auto simp: outbox_execute_def Let_def)
      qed
    qed
    with s1 Some cl show ?thesis
      by (auto simp: outbox_run_once_def split: prod.splits sum.splits intro: converse_rtranclp_into_rtranclp)
  qed
qed

lemma request_deletions_run:
  "(site_step R)\<^sup>*\<^sup>* (w\<lparr>cat := c\<rparr>) (w\<lparr>cat := snd (request_deletions clock n is outcomes c)\<rparr>)"
proof (induction clock n "is" outcomes c rule: request_deletions.induct)
  case (1 clock n outcomes c)
  then show ?case by simp
next
  case (2 clock n i "is" held queued c)
  obtain r c1 where d: "delete_attempt i (clock n) c = (r, c1)" by fastforce
  have "site_step R (w\<lparr>cat := c\<rparr>) (w\<lparr>cat := c1\<rparr>)"
    using site_step.delete [of i "clock n" "w\<lparr>cat := c\<rparr>" r c1 R] d by simp
  moreover have "(site_step R)\<^sup>*\<^sup>* (w\<lparr>cat := c1\<rparr>) (w\<lparr>cat := snd (request_deletions clock n (i # is) (held, queued) c)\<rparr>)"
    using 2(1) [OF d [symmetric]] 2(2) [OF d [symmetric]] d by (cases r) simp_all
  ultimately show ?case by (rule converse_rtranclp_into_rtranclp)
qed

lemma notification_run:
  assumes "\<And>c. (site_step R)\<^sup>*\<^sup>* (w\<lparr>cat := c\<rparr>) (w\<lparr>cat := mw c\<rparr>)"
  shows "(site_step R)\<^sup>*\<^sup>* w (w\<lparr>cat := snd (notification_run_once nw send mw t now (cat w))\<rparr>)"
proof -
  obtain r c1 where cl: "claim_notification nw t (cat w) = (r, c1)" by fastforce
  have s1: "site_step R w (w\<lparr>cat := c1\<rparr>)" by (rule site_step.claim_notification [OF cl])
  show ?thesis
  proof (cases r)
    case None
    with cl s1 show ?thesis by (auto simp: notification_run_once_def)
  next
    case (Some l)
    have fin: "(site_step R)\<^sup>*\<^sup>* (w\<lparr>cat := c1\<rparr>) (w\<lparr>cat := c2\<rparr>)" if "site_step R (w\<lparr>cat := mw c1\<rparr>) (w\<lparr>cat := c2\<rparr>)" for c2
      using assms [of c1] that by (rule rtranclp.rtrancl_into_rtrancl)
    have "(site_step R)\<^sup>*\<^sup>* (w\<lparr>cat := c1\<rparr>) (w\<lparr>cat := snd (notification_execute nw send l mw now c1)\<rparr>)"
    proof (cases "read_notification l c1")
      case None
      then show ?thesis by (simp add: notification_execute_def)
    next
      case (Some et)
      have "site_step R (w\<lparr>cat := mw c1\<rparr>) (w\<lparr>cat := notification_fail nw l m now (mw c1)\<rparr>)" for m
        using site_step.delivery_failed [of R "w\<lparr>cat := mw c1\<rparr>" nw l m now] by simp
      moreover have "site_step R (w\<lparr>cat := mw c1\<rparr>) (w\<lparr>cat := snd (notification_settle l now (mw c1))\<rparr>)"
        using site_step.delivered [of l now "w\<lparr>cat := mw c1\<rparr>" _ _ R, OF surjective_pairing] by simp
      ultimately show ?thesis using Some fin
        by (auto simp: notification_execute_def split: prod.splits sum.splits)
    qed
    with s1 cl Some show ?thesis
      by (auto simp: notification_run_once_def intro: converse_rtranclp_into_rtranclp)
  qed
qed

lemma sweep_runs:
  "(site_step (we_runtime e))\<^sup>*\<^sup>* w (snd (sweep_reservations p inp w))"
  "(site_step (we_runtime e))\<^sup>*\<^sup>* w (snd (sweep_retention p inp w))"
  "(site_step (we_runtime e))\<^sup>*\<^sup>* w (snd (collect_object e inp w))"
  "(site_step (we_runtime e))\<^sup>*\<^sup>* w (snd (audit_objects e p inp w))"
proof -
  show "(site_step (we_runtime e))\<^sup>*\<^sup>* w (snd (sweep_reservations p inp w))"
    by (auto simp: sweep_reservations_def intro: site_step.sweep split: prod.splits)
  show "(site_step (we_runtime e))\<^sup>*\<^sup>* w (snd (sweep_retention p inp w))"
    using request_deletions_run [where R = "we_runtime e" and w = w and c = "cat w"]
    by (simp add: sweep_retention_def retention_sweep_def split_beta)
  show "(site_step (we_runtime e))\<^sup>*\<^sup>* w (snd (collect_object e inp w))"
    by (auto simp: collect_object_def intro: site_step.collect split: prod.splits)
  show "(site_step (we_runtime e))\<^sup>*\<^sup>* w (snd (audit_objects e p inp w))"
    by (auto simp: audit_objects_def intro: site_step.audit split: prod.splits)
qed

lemma run_due_run:
  assumes "run_due now every due sweep w = (b, t, w')" "(site_step R)\<^sup>*\<^sup>* w (snd (sweep w))"
  shows "(site_step R)\<^sup>*\<^sup>* w w'"
  using assms by (auto simp: run_due_def split: if_splits prod.splits)

lemma run_sweeps_run:
  "(site_step (we_runtime e))\<^sup>*\<^sup>* w (snd (snd (run_sweeps e p inp tm w)))"
proof -
  obtain b1 t1 w1 where 1: "run_due (ti_monotonic inp) (wp_reservation_every p) (next_reservation_sweep tm) (sweep_reservations p inp) w = (b1, t1, w1)"
    by (metis prod_cases3)
  obtain b2 t2 w2 where 2: "run_due (ti_monotonic inp) (wp_retention_every p) (next_retention_sweep tm) (sweep_retention p inp) w1 = (b2, t2, w2)"
    by (metis prod_cases3)
  obtain b3 t3 w3 where 3: "run_due (ti_monotonic inp) (wp_gc_every p) (next_object_gc_sweep tm) (collect_object e inp) w2 = (b3, t3, w3)"
    by (metis prod_cases3)
  obtain b4 t4 w4 where 4: "run_due (ti_monotonic inp) (wp_audit_every p) (next_object_gc_audit_sweep tm) (audit_objects e p inp) w3 = (b4, t4, w4)"
    by (metis prod_cases3)
  note run_due_run [OF 1 sweep_runs(1) [of e]]
  also note run_due_run [OF 2 sweep_runs(2)]
  also note run_due_run [OF 3 sweep_runs(3)]
  also note run_due_run [OF 4 sweep_runs(4)]
  finally show ?thesis by (simp add: run_sweeps_def 1 2 3 4)
qed

text \<open>The temporary names of a turn are unused when the report worker writes its artifacts, and what happens during a delivery
  is a run of the other services.\<close>

definition before_report :: "worker_environment \<Rightarrow> worker_process \<Rightarrow> tick_inputs \<Rightarrow> world \<Rightarrow> world" where
  "before_report e p inp w = snd (run_outbox e p inp (snd (run_deletion e p inp w)))"

definition tick_ok :: "worker_environment \<Rightarrow> worker_process \<Rightarrow> tick_inputs \<Rightarrow> world \<Rightarrow> bool" where
  "tick_ok e p inp w =
     ((\<forall>x. (site_step (we_runtime e))\<^sup>*\<^sup>* x (x\<lparr>cat := ti_during_delivery inp (cat x)\<rparr>)) \<and>
      (\<forall>l b. read_report (we_runtime e) (we_write_table e) (wp_report p) l
           ((before_report e p inp w)\<lparr>cat := snd (report_claim (wn_report (wp_names p)) 60 (ti_report_claimed_at inp)
              (cat (before_report e p inp w)))\<rparr>) = Inr (Some b) \<longrightarrow>
         report_tmp_fresh (we_runtime e) (ti_publish inp) b (objs (before_report e p inp w))))"

lemma deliver_run:
  assumes "\<And>x. (site_step (we_runtime e))\<^sup>*\<^sup>* x (x\<lparr>cat := ti_during_delivery inp (cat x)\<rparr>)"
  shows "(site_step (we_runtime e))\<^sup>*\<^sup>* w (snd (deliver_notification e p inp w))"
proof (cases "wp_notifications p")
  case (Some nw)
  have "(site_step (we_runtime e))\<^sup>*\<^sup>* (w\<lparr>cat := c\<rparr>) (w\<lparr>cat := ti_during_delivery inp c\<rparr>)" for c
    using assms [of "w\<lparr>cat := c\<rparr>"] by simp
  then have "(site_step (we_runtime e))\<^sup>*\<^sup>* w (w\<lparr>cat := snd (notification_run_once nw (we_send e) (ti_during_delivery inp)
      (ti_notification_claimed_at inp) (ti_delivered_at inp) (cat w))\<rparr>)" by (rule notification_run)
  with Some show ?thesis by (simp add: deliver_notification_def split_beta)
qed (simp add: deliver_notification_def)

lemma worker_tick_run:
  assumes "tick_ok e p inp w"
  shows "(site_step (we_runtime e))\<^sup>*\<^sup>* w (snd (worker_tick e p inp tm w))"
proof -
  let ?R = "site_step (we_runtime e)"
  obtain b1 w1 where 1: "run_deletion e p inp w = (b1, w1)" by fastforce
  obtain r2 w2 where 2: "run_outbox e p inp w1 = (r2, w2)" by fastforce
  obtain r3 w3 where 3: "run_report e p inp w2 = (r3, w3)" by fastforce
  obtain b4 w4 where 4: "deliver_notification e p inp w3 = (b4, w4)" by fastforce
  obtain b5 t5 w5 where 5: "run_sweeps e p inp tm w4 = (b5, t5, w5)" by (metis prod_cases3)
  have s1: "?R\<^sup>*\<^sup>* w w1" using deletion_run [OF 1 [unfolded run_deletion_def]] .
  have "w2 = snd (run_outbox e p inp w1)" by (simp add: 2)
  then have s2: "?R\<^sup>*\<^sup>* w1 w2" by (simp add: run_outbox_def outbox_run)
  have b: "before_report e p inp w = w2" by (simp add: before_report_def 1 2)
  have s3: "?R\<^sup>*\<^sup>* w2 w3"
    by (rule report_run [OF 3 [unfolded run_report_def]]) (use assms b in \<open>auto simp: tick_ok_def\<close>)
  have s4: "?R\<^sup>*\<^sup>* w3 w4" using deliver_run [of e inp w3 p] assms 4 by (simp add: tick_ok_def)
  have s5: "?R\<^sup>*\<^sup>* w4 w5" using run_sweeps_run [of e w4 p inp tm] 5 by simp
  note a2 = rtranclp_trans [OF s1 s2]
  note a3 = rtranclp_trans [OF a2 s3]
  note a5 = rtranclp_trans [OF rtranclp_trans [OF a3 s4] s5]
  show ?thesis using a2 a3 a5 by (cases r2; cases r3) (simp_all add: worker_tick_def 1 2 3 4 5)
qed

section \<open>The whole process\<close>

fun loop_ok ::
  "worker_environment \<Rightarrow> worker_process \<Rightarrow> (tick_inputs \<times> (world \<Rightarrow> world)) list \<Rightarrow> sweep_timers \<Rightarrow> world \<Rightarrow> bool" where
  "loop_ok e p [] tm w = True"
| "loop_ok e p ((inp, others) # rest) tm w = (tick_ok e p inp w \<and> (\<forall>x. (site_step (we_runtime e))\<^sup>*\<^sup>* x (others x)) \<and>
     (case worker_tick e p inp tm w of
        (Inl x, w') \<Rightarrow> True
      | (Inr (worked, tm'), w') \<Rightarrow> loop_ok e p rest tm' (others w')))"

lemma worker_loop_run:
  "loop_ok e p ticks tm w \<Longrightarrow> (site_step (we_runtime e))\<^sup>*\<^sup>* w (snd (worker_loop e p ticks tm w))"
proof (induction e p ticks tm w rule: worker_loop.induct)
  case (1 e p tm w)
  then show ?case by simp
next
  case (2 e p inp others rest tm w)
  obtain r w' where t: "worker_tick e p inp tm w = (r, w')" by fastforce
  have s: "(site_step (we_runtime e))\<^sup>*\<^sup>* w w'" using worker_tick_run [of e p inp w tm] 2(2) t by simp
  show ?case
  proof (cases r)
    case (Inl x)
    with t s show ?thesis by simp
  next
    case (Inr q)
    obtain worked tm' where q: "q = (worked, tm')" by fastforce
    have "(site_step (we_runtime e))\<^sup>*\<^sup>* (others w') (snd (worker_loop e p rest tm' (others w')))"
      using 2(1) [OF t [symmetric] Inr q [symmetric]] 2(2) t Inr q by simp
    moreover have "(site_step (we_runtime e))\<^sup>*\<^sup>* w' (others w')" using 2(2) by simp
    ultimately show ?thesis using s t Inr q by (simp add: rtranclp_trans [OF rtranclp_trans])
  qed
qed


section \<open>Starting the services\<close>

text \<open>What the settings guarantee is what the constructors ask for.\<close>

lemma settings_build_process:
  assumes "settings_ok urlparse s"
  shows "\<exists>nw. make_process s ns = Inr \<lparr>wp_names = ns,
      wp_lifecycle = \<lparr>ig_max_expanded = 8 * 1024 * 1024, ig_default_retention_seconds = st_default_retention_seconds s\<rparr>,
      wp_report = \<lparr>rw_max_segments = 10000, rw_max_records = 10000000, rw_max_input_bytes = 64 * 1024 * 1024,
        rw_orphan_gc_grace_seconds = st_object_gc_grace_seconds s\<rparr>,
      wp_reservations = \<lparr>rs_ttl_seconds = st_reservation_ttl_seconds s, rs_batch_size = 100,
        rs_gc_grace_seconds = st_object_gc_grace_seconds s\<rparr>,
      wp_retention_batch = st_retention_sweep_batch_size s,
      wp_audit = \<lparr>aw_gc_grace_seconds = st_object_gc_grace_seconds s,
        aw_audit_interval_seconds = st_object_gc_audit_interval_seconds s, aw_batch_size = st_object_gc_audit_batch_size s\<rparr>,
      wp_notifications = nw, wp_reservation_every = st_reservation_sweep_seconds s,
      wp_retention_every = st_retention_sweep_seconds s, wp_gc_every = st_object_gc_sweep_seconds s,
      wp_audit_every = st_object_gc_audit_sweep_seconds s\<rparr> \<and> (nw = None \<longleftrightarrow> st_integrity_webhook_url s = None)"
proof -
  have t: "timings_ok (timings_of s)" and h: "webhook_ok urlparse s" using assms by (simp_all add: settings_ok_def)
  have nw: "\<exists>nw. make_notifications s (wn_notification ns) = Inr nw \<and> (nw = None \<longleftrightarrow> st_integrity_webhook_url s = None)"
    using h by (auto simp: make_notifications_def webhook_ok_def make_notification_worker_def bindE_def split: option.splits)
  show ?thesis using t nw
    by (auto simp: make_process_def make_ingestion_service_def retention_seconds_ok_def make_report_worker_def
        make_reservation_sweeper_def make_retention_sweeper_def make_audit_worker_def timings_ok_def timings_of_def bindE_def)
qed

lemma settings_build_app:
  assumes "settings_ok urlparse s"
  shows "create_app s = Inr \<lparr>app_service = \<lparr>ig_max_expanded = 8388608, ig_default_retention_seconds = st_default_retention_seconds s\<rparr>,
    app_authenticator = \<lparr>ma_credentials = st_machine_credentials s\<rparr>, app_max_download = st_max_evidence_download_bytes s\<rparr>"
proof -
  have "make_authenticator s = Inr \<lparr>ma_credentials = st_machine_credentials s\<rparr>"
    using assms by (simp add: make_authenticator_iff settings_ok_def credentials_ok_def o_def cred_id_def [abs_def])
  with assms show ?thesis
    by (auto simp: create_app_def make_ingestion_service_def retention_seconds_ok_def settings_ok_def timings_ok_def timings_of_def bindE_def)
qed


section \<open>When nothing was done\<close>

lemma first_by_Nil [simp]: "first_by key [] = None"
  by simp

lemma sort_key_Nil_iff [simp]: "sort_key k xs = [] \<longleftrightarrow> xs = []"
  by (metis length_0_conv length_sort)

lemma claim_event_None:
  "claim_event ev own secs t c = (None, c') \<longleftrightarrow> c' = c \<and> filter (outbox_claimable ev t) (outbox c) = []"
  by (auto simp: claim_event_def split: option.splits)

lemma claim_notification_None:
  "claim_notification nw t c = (None, c') \<longleftrightarrow> c' = c \<and> filter (notification_claimable t) (notifications c) = []"
  by (auto simp: claim_notification_def split: option.splits)

lemma outbox_idle:
  assumes "outbox_run_once R own secs t oid t1 t2 w = (Inr False, w')"
  shows "w' = w \<and> filter (outbox_claimable SegmentAdmitted t) (outbox (cat w)) = []"
proof -
  obtain r c1 where cl: "claim_event SegmentAdmitted own secs t (cat w) = (r, c1)" by fastforce
  with assms have "r = None" "w' = w\<lparr>cat := c1\<rparr>"
    by (auto simp: outbox_run_once_def outbox_claim_def split: option.splits prod.splits sum.splits)
  with cl show ?thesis by (simp add: claim_event_None)
qed

lemma report_idle:
  assumes "report_run_once R wt rw own secs t ids t1 pin w = (Inr False, w')"
  shows "w' = w \<and> filter (outbox_claimable AttemptReportRequested t) (outbox (cat w)) = []"
proof -
  obtain r c1 where cl: "claim_event AttemptReportRequested own secs t (cat w) = (r, c1)" by fastforce
  with assms have "r = None" "w' = w\<lparr>cat := c1\<rparr>"
    by (auto simp: report_run_once_def report_claim_def split: option.splits prod.splits sum.splits)
  with cl show ?thesis by (simp add: claim_event_None)
qed

lemma delivery_idle:
  assumes "deliver_notification e p inp w = (False, w')"
  shows "w' = w \<and> (wp_notifications p = None \<or>
    filter (notification_claimable (ti_notification_claimed_at inp)) (notifications (cat w)) = [])"
proof (cases "wp_notifications p")
  case (Some nw)
  obtain r c1 where cl: "claim_notification nw (ti_notification_claimed_at inp) (cat w) = (r, c1)" by fastforce
  with assms Some have "r = None" "w' = w\<lparr>cat := c1\<rparr>"
    by (auto simp: deliver_notification_def notification_run_once_def split: option.splits prod.splits)
  with cl show ?thesis by (simp add: claim_notification_None)
qed (use assms in \<open>simp add: deliver_notification_def\<close>)

lemma request_deletions_idle:
  "0 \<le> held \<Longrightarrow> 0 \<le> queued \<Longrightarrow> request_deletions clock n is (held, queued) c = ((held', queued'), c') \<Longrightarrow>
    held' + queued' = held + queued + int (length is)"
  by (induction clock n "is" "(held, queued)" c arbitrary: held queued rule: request_deletions.induct)
    (auto split: prod.splits sum.splits)

lemma reservations_idle:
  assumes "sweep_reservations p inp w = (False, w')" "0 < rs_batch_size (wp_reservations p)"
  shows "w' = w \<and> filter (abandoned (ti_sweep_clock inp 0 - seconds (rs_ttl_seconds (wp_reservations p)))) (reservations (cat w)) = []"
  using assms by (auto simp: sweep_reservations_def reservation_sweep_def sweep_batch_def Let_def)

lemma retention_idle:
  assumes "sweep_retention p inp w = (False, w')" "0 < wp_retention_batch p"
  shows "w' = w \<and> filter (retention_due (ti_retention_clock inp 0) (cat w)) (attempt_records (cat w)) = []"
proof -
  obtain h q c where r: "request_deletions (ti_retention_clock inp) 1
      (due_attempts (wp_retention_batch p) (ti_retention_clock inp 0) (cat w)) (0, 0) (cat w) = ((h, q), c)"
    by (metis prod.collapse)
  with assms(1) have "h = 0" "q = 0" and w': "w' = w\<lparr>cat := c\<rparr>" by (auto simp: sweep_retention_def retention_sweep_def)
  with request_deletions_idle [OF _ _ r] have none: "due_attempts (wp_retention_batch p) (ti_retention_clock inp 0) (cat w) = []" by simp
  with r w' assms(2) show ?thesis by (auto simp: due_attempts_def)
qed

lemma collection_idle:
  "collect_object e inp w = (False, w') \<longleftrightarrow> w' = w \<and> filter (gc_due (ti_collected_at inp)) (gc_candidates (cat w)) = []"
  by (auto simp: collect_object_def object_gc_run_once_def split: option.splits prod.splits sum.splits)

lemma audit_outcomes:
  "audit_candidates R isof aw ids n now st ks c = (outs, c') \<Longrightarrow> length outs = length ks"
  by (induction R isof aw ids n now st ks c arbitrary: outs c' rule: audit_candidates.induct)
    (auto split: prod.splits)

lemma audit_idle:
  assumes "audit_objects e p inp w = (False, w')" "0 < aw_batch_size (wp_audit p)"
  shows "w' = w \<and> filter (audit_due (wp_audit p) (ti_audited_at inp)) (gc_candidates (cat w)) = []"
proof -
  let ?ks = "audit_batch (wp_audit p) (ti_audited_at inp) (cat w)"
  obtain outs c where a: "audit_candidates (we_runtime e) (we_isoformat e) (wp_audit p) (ti_audit_ids inp) 0 (ti_audited_at inp)
      (objs w) ?ks (cat w) = (outs, c)" by fastforce
  have "outs = []"
  proof (rule ccontr)
    assume "outs \<noteq> []"
    then obtain st where "st \<in> set outs" by (meson last_in_set)
    then have "count_where (\<lambda>o1. o1 = st) outs \<noteq> 0" by (auto simp: count_where_def filter_empty_conv)
    moreover have "st \<in> set [GPending, GProtected, GDeleted, GMissing, GFailed]" by (cases st) auto
    ultimately show False using assms(1) a
      by (auto simp: audit_objects_def gc_audit_run_once_def list_ex_iff)
  qed
  with audit_outcomes [OF a] have "?ks = []" by simp
  with a assms show ?thesis by (auto simp: audit_objects_def gc_audit_run_once_def audit_batch_def)
qed


lemma deletion_claim_None: "fst (claim_deletion own secs t c) = None \<Longrightarrow> claim_deletion own secs t c = (None, c)"
  by (auto simp: claim_deletion_def Let_def split: option.splits)

lemma run_due_idle: "run_due now every due sweep w = (False, t, w') \<Longrightarrow> now < due \<and> w' = w \<or> sweep w = (False, w')"
  by (auto simp: run_due_def split: if_splits prod.splits)

lemma sweeps_idle:
  assumes "run_sweeps e p inp tm w = (b, tm', w')" "\<not> b"
    and "0 < wp_retention_batch p" "0 < aw_batch_size (wp_audit p)" "0 < rs_batch_size (wp_reservations p)"
  shows "w' = w
    \<and> (ti_monotonic inp < next_reservation_sweep tm
       \<or> filter (abandoned (ti_sweep_clock inp 0 - seconds (rs_ttl_seconds (wp_reservations p)))) (reservations (cat w)) = [])
    \<and> (ti_monotonic inp < next_retention_sweep tm
       \<or> filter (retention_due (ti_retention_clock inp 0) (cat w)) (attempt_records (cat w)) = [])
    \<and> (ti_monotonic inp < next_object_gc_sweep tm \<or> filter (gc_due (ti_collected_at inp)) (gc_candidates (cat w)) = [])
    \<and> (ti_monotonic inp < next_object_gc_audit_sweep tm
       \<or> filter (audit_due (wp_audit p) (ti_audited_at inp)) (gc_candidates (cat w)) = [])"
proof -
  obtain b1 t1 w1 where 1: "run_due (ti_monotonic inp) (wp_reservation_every p) (next_reservation_sweep tm) (sweep_reservations p inp) w = (b1, t1, w1)"
    by (metis prod_cases3)
  obtain b2 t2 w2 where 2: "run_due (ti_monotonic inp) (wp_retention_every p) (next_retention_sweep tm) (sweep_retention p inp) w1 = (b2, t2, w2)"
    by (metis prod_cases3)
  obtain b3 t3 w3 where 3: "run_due (ti_monotonic inp) (wp_gc_every p) (next_object_gc_sweep tm) (collect_object e inp) w2 = (b3, t3, w3)"
    by (metis prod_cases3)
  obtain b4 t4 w4 where 4: "run_due (ti_monotonic inp) (wp_audit_every p) (next_object_gc_audit_sweep tm) (audit_objects e p inp) w3 = (b4, t4, w4)"
    by (metis prod_cases3)
  from assms(1,2) have f: "b1 = False" "b2 = False" "b3 = False" "b4 = False" "w' = w4"
    by (auto simp: run_sweeps_def 1 2 3 4)
  note d1 = run_due_idle [OF 1 [unfolded f]] and d2 = run_due_idle [OF 2 [unfolded f]]
    and d3 = run_due_idle [OF 3 [unfolded f]] and d4 = run_due_idle [OF 4 [unfolded f]]
  have s1: "w1 = w" "ti_monotonic inp < next_reservation_sweep tm
       \<or> filter (abandoned (ti_sweep_clock inp 0 - seconds (rs_ttl_seconds (wp_reservations p)))) (reservations (cat w)) = []"
    using d1 reservations_idle [OF _ assms(5), of inp w w1] by auto
  have s2: "w2 = w1" "ti_monotonic inp < next_retention_sweep tm
       \<or> filter (retention_due (ti_retention_clock inp 0) (cat w1)) (attempt_records (cat w1)) = []"
    using d2 retention_idle [OF _ assms(3), of inp w1 w2] by auto
  have s3: "w3 = w2" "ti_monotonic inp < next_object_gc_sweep tm \<or> filter (gc_due (ti_collected_at inp)) (gc_candidates (cat w2)) = []"
    using d3 collection_idle [of e inp w2 w3] by auto
  have s4: "w4 = w3" "ti_monotonic inp < next_object_gc_audit_sweep tm
       \<or> filter (audit_due (wp_audit p) (ti_audited_at inp)) (gc_candidates (cat w3)) = []"
    using d4 audit_idle [OF _ assms(4), of e inp w3 w4] by auto
  from s1 s2 s3 s4 f(5) show ?thesis by simp
qed

section \<open>Properties of the process\<close>

text \<open>C6. The process never leaves the verified site: from whatever settings it starts, however long it runs, with the other
  services acting between its turns, and also when it dies of an exception, its effect is a run of the atomic steps, so every
  invariant of the site holds at every moment.\<close>

theorem worker_process_is_run:
  assumes "make_process s ns = Inr p" "loop_ok e p ticks initial_timers w" "hex_digests (we_runtime e)" "site_ok (we_runtime e) w"
  shows "(site_step (we_runtime e))\<^sup>*\<^sup>* w (snd (worker_main e s ns ticks w))
    \<and> site_ok (we_runtime e) (snd (worker_main e s ns ticks w))"
proof -
  have "snd (worker_main e s ns ticks w) = snd (worker_loop e p ticks initial_timers w)"
    by (simp add: worker_main_def assms(1) split: prod.splits sum.splits)
  with worker_loop_run [OF assms(2)] have "(site_step (we_runtime e))\<^sup>*\<^sup>* w (snd (worker_main e s ns ticks w))" by simp
  with run_site_ok [OF _ assms(3,4)] show ?thesis by blast
qed



text \<open>A configuration that is accepted starts: from settings that load, the worker process and the HTTP application are
  built, with the worker and the application using the same default retention, a notification worker exactly when a webhook
  is configured, and every sweep interval at least a second.\<close>

theorem accepted_settings_start:
  assumes "from_environment R fromiso urlparse env = Inr s" "decodes_to_dict R env ''RANKLENS_MACHINE_CREDENTIALS_JSON''"
  shows "\<exists>p app. make_process s ns = Inr p \<and> create_app s = Inr app
    \<and> ig_default_retention_seconds (wp_lifecycle p) = ig_default_retention_seconds (app_service app)
    \<and> (wp_notifications p = None) = (st_integrity_webhook_url s = None)
    \<and> 1 \<le> wp_reservation_every p \<and> 1 \<le> wp_retention_every p \<and> 1 \<le> wp_gc_every p \<and> 1 \<le> wp_audit_every p"
proof -
  have ok: "settings_ok urlparse s" using assms by (rule loaded_settings_ok)
  then have t: "timings_ok (timings_of s)" by (simp add: settings_ok_def)
  obtain nw where "make_process s ns = Inr \<lparr>wp_names = ns,
      wp_lifecycle = \<lparr>ig_max_expanded = 8 * 1024 * 1024, ig_default_retention_seconds = st_default_retention_seconds s\<rparr>,
      wp_report = \<lparr>rw_max_segments = 10000, rw_max_records = 10000000, rw_max_input_bytes = 64 * 1024 * 1024,
        rw_orphan_gc_grace_seconds = st_object_gc_grace_seconds s\<rparr>,
      wp_reservations = \<lparr>rs_ttl_seconds = st_reservation_ttl_seconds s, rs_batch_size = 100,
        rs_gc_grace_seconds = st_object_gc_grace_seconds s\<rparr>,
      wp_retention_batch = st_retention_sweep_batch_size s,
      wp_audit = \<lparr>aw_gc_grace_seconds = st_object_gc_grace_seconds s,
        aw_audit_interval_seconds = st_object_gc_audit_interval_seconds s, aw_batch_size = st_object_gc_audit_batch_size s\<rparr>,
      wp_notifications = nw, wp_reservation_every = st_reservation_sweep_seconds s,
      wp_retention_every = st_retention_sweep_seconds s, wp_gc_every = st_object_gc_sweep_seconds s,
      wp_audit_every = st_object_gc_audit_sweep_seconds s\<rparr>" "(nw = None) = (st_integrity_webhook_url s = None)"
    using settings_build_process [OF ok] by blast
  with settings_build_app [OF ok] t show ?thesis by (auto simp: timings_ok_def timings_of_def)
qed

text \<open>An idle site and the process that watches it.\<close>

definition demo_names :: worker_names where
  "demo_names = \<lparr>wn_deletion = ''d'', wn_outbox = ''o'', wn_report = ''r'', wn_notification = ''n''\<rparr>"

definition demo_environment :: worker_environment where
  "demo_environment = \<lparr>we_runtime = demo_runtime, we_isoformat = (\<lambda>_. []), we_write_table = (\<lambda>_ _. ''PAR1''),
     we_send = (\<lambda>_ _ _. Inr ())\<rparr>"

definition demo_tick :: tick_inputs where
  "demo_tick = \<lparr>ti_deletion_claimed_at = 1, ti_deleted_at = 1, ti_outbox_claimed_at = 1, ti_outbox_id = ''x'', ti_normalized_at = 1,
     ti_requested_at = 1, ti_report_claimed_at = 1, ti_report_ids = (\<lambda>_. ''y''), ti_reserved_at = 1, ti_publish = demo_publish_inputs,
     ti_notification_claimed_at = 1, ti_delivered_at = 1, ti_during_delivery = (\<lambda>c. c), ti_monotonic = 1, ti_sweep_ids = (\<lambda>_. ''z''),
     ti_sweep_clock = (\<lambda>_. 1), ti_retention_clock = (\<lambda>_. 1), ti_collected_at = 1, ti_audit_ids = (\<lambda>_ _. ''v''), ti_audited_at = 1\<rparr>"

lemma demo_idle:
  "run_deletion demo_environment p demo_tick demo_world = (False, demo_world)"
  "run_outbox demo_environment p demo_tick demo_world = (Inr False, demo_world)"
  "run_report demo_environment p demo_tick demo_world = (Inr False, demo_world)"
  "deliver_notification demo_environment p demo_tick demo_world = (False, demo_world)"
  "sweep_reservations p demo_tick demo_world = (False, demo_world)"
  "sweep_retention p demo_tick demo_world = (False, demo_world)"
  "collect_object demo_environment demo_tick demo_world = (False, demo_world)"
  "audit_objects demo_environment p demo_tick demo_world = (False, demo_world)"
proof -
  have t [simp]: "deletions (cat demo_world) = []" "outbox (cat demo_world) = []" "notifications (cat demo_world) = []"
      "reservations (cat demo_world) = []" "attempt_records (cat demo_world) = []" "gc_candidates (cat demo_world) = []"
    by (simp_all add: demo_empty empty_catalog_def)
  have w [simp]: "demo_world\<lparr>cat := cat demo_world\<rparr> = demo_world" by (cases demo_world) simp
  show "run_deletion demo_environment p demo_tick demo_world = (False, demo_world)"
    by (simp add: run_deletion_def deletion_run_once_def claim_deletion_def)
  show "run_outbox demo_environment p demo_tick demo_world = (Inr False, demo_world)"
    by (simp add: run_outbox_def outbox_run_once_def outbox_claim_def claim_event_def)
  show "run_report demo_environment p demo_tick demo_world = (Inr False, demo_world)"
    by (simp add: run_report_def report_run_once_def report_claim_def claim_event_def)
  show "deliver_notification demo_environment p demo_tick demo_world = (False, demo_world)"
    by (simp add: deliver_notification_def notification_run_once_def claim_notification_def split: option.splits)
  show "sweep_reservations p demo_tick demo_world = (False, demo_world)"
    by (simp add: sweep_reservations_def reservation_sweep_def sweep_batch_def)
  show "sweep_retention p demo_tick demo_world = (False, demo_world)"
    by (simp add: sweep_retention_def retention_sweep_def due_attempts_def)
  show "collect_object demo_environment demo_tick demo_world = (False, demo_world)"
    by (simp add: collect_object_def object_gc_run_once_def)
  show "audit_objects demo_environment p demo_tick demo_world = (False, demo_world)"
    by (simp add: audit_objects_def gc_audit_run_once_def audit_batch_def count_where_def)
qed

theorem worker_process_is_run_witness:
  "site_ok demo_runtime (snd (worker_main demo_environment demo_settings demo_names [(demo_tick, \<lambda>x. x)] demo_world))"
proof -
  obtain p where p: "make_process demo_settings demo_names = Inr p" using settings_build_process [OF demo_settings_ok] by blast
  have b: "before_report demo_environment p demo_tick demo_world = demo_world" by (simp add: before_report_def demo_idle)
  have q: "ti_during_delivery demo_tick = (\<lambda>c. c)" by (simp add: demo_tick_def)
  have "outbox (cat demo_world) = []" by (simp add: demo_empty empty_catalog_def)
  then have "read_report R wt rw l (demo_world\<lparr>cat := snd (report_claim own n t (cat demo_world))\<rparr>) = Inr None" for R wt rw l own n t
    by (simp add: report_claim_def claim_event_def read_report_def get_outbox_def)
  then have "tick_ok demo_environment p demo_tick demo_world" by (simp add: tick_ok_def b q)
  then have l: "loop_ok demo_environment p [(demo_tick, \<lambda>x. x)] initial_timers demo_world"
    by (simp split: prod.splits sum.splits)
  have "site_ok demo_runtime demo_world" using demo_empty by (rule empty_site_ok)
  with worker_process_is_run [OF p l] demo_hex show ?thesis by (simp add: demo_environment_def)
qed


theorem accepted_settings_start_witness:
  "\<exists>s p app. from_environment demo_loads demo_fromiso demo_urlparse
     [''RANKLENS_MACHINE_CREDENTIALS_JSON'' \<mapsto> ''C'', ''RANKLENS_DATABASE_URL'' \<mapsto> ''d'', ''RANKLENS_OBJECT_ROOT'' \<mapsto> ''o''] = Inr s
     \<and> make_process s demo_names = Inr p \<and> create_app s = Inr app \<and> 1 \<le> wp_gc_every p"
proof -
  have "decodes_to_dict demo_loads [''RANKLENS_MACHINE_CREDENTIALS_JSON'' \<mapsto> ''C'', ''RANKLENS_DATABASE_URL'' \<mapsto> ''d'',
      ''RANKLENS_OBJECT_ROOT'' \<mapsto> ''o''] ''RANKLENS_MACHINE_CREDENTIALS_JSON''"
    by (simp add: decodes_to_dict_def demo_decoded(1) demo_settings_def)
  from accepted_settings_start [OF demo_loaded this] demo_loaded show ?thesis by blast
qed

end
