(* ===== verification/Scheduler_Service.thy ===== *)
theory Scheduler_Service
  imports Worker_Process Slurm
begin

text \<open>
  \<^verbatim>\<open>scheduler_service.py\<close>: the configuration of the polling service, the registration of a cursor for every configured
  cluster, the choice of the adapter for a claimed cursor, and the loop around the poller of \<open>Scheduler\<close>.  A float of the
  configuration is read by the parameter \<open>parse_float\<close> (\<open>json.loads\<close> accepts \<open>NaN\<close> and \<open>Infinity\<close> beside numbers).
\<close>

section \<open>Configuration\<close>

record SchedulerClusterConfig =
  sc_tenant_id :: string
  sc_cluster_id :: string
  sc_sacct :: string
  sc_timeout_seconds :: py_float

record SchedulerServiceSettings =
  ss_database_url :: string
  ss_clusters :: "SchedulerClusterConfig list"
  ss_poll_interval_seconds :: int
  ss_lease_seconds :: int
  ss_accounting_lookback_seconds :: int
  ss_max_backoff_seconds :: int
  ss_bootstrap_schema :: bool

definition bounded_int :: "environment \<Rightarrow> string \<Rightarrow> int \<Rightarrow> int \<Rightarrow> int \<Rightarrow> int result" where
  "bounded_int env name d minimum maximum =
     (case py_int (case env name of None \<Rightarrow> show_int d | Some raw \<Rightarrow> raw) of
        None \<Rightarrow> Inl (RuntimeError (name @ '' must be an integer''))
      | Some i \<Rightarrow>
          if i < minimum \<or> i > maximum
          then Inl (RuntimeError (name @ '' must be within ['' @ show_int minimum @ '', '' @ show_int maximum @ '']''))
          else Inr i)"

text \<open>A number of JSON as a float; \<open>bool\<close> is excluded.\<close>

definition json_number :: "(string \<Rightarrow> py_float) \<Rightarrow> json \<Rightarrow> py_float option" where
  "json_number parse_float v = (case v of JInt i \<Rightarrow> Some (Finite (of_int i)) | JFloat r \<Rightarrow> Some (parse_float r) | _ \<Rightarrow> None)"

definition timeout_rejected :: "py_float \<Rightarrow> bool" where
  "timeout_rejected t = (float_le t (Finite 0) \<or> float_lt (Finite 60) t)"

definition with_default :: "(string \<times> json) list \<Rightarrow> string \<Rightarrow> json \<Rightarrow> json" where
  "with_default items k d = (case map_of items k of None \<Rightarrow> d | Some v \<Rightarrow> v)"

definition parse_cluster :: "(string \<Rightarrow> py_float) \<Rightarrow> string list \<Rightarrow> json \<Rightarrow> SchedulerClusterConfig result" where
  "parse_cluster parse_float seen item =
     (case item of
        JObj items \<Rightarrow>
          if \<not> list_all (\<lambda>kv. fst kv \<in> {''tenant_id'', ''cluster_id'', ''sacct'', ''timeout_seconds''}) items
          then Inl (RuntimeError ''scheduler clusters contain invalid fields'')
          else (case jget items ''tenant_id'' of
            JStr tenant_id \<Rightarrow>
              if tenant_id = [] then Inl (RuntimeError ''scheduler cluster tenant_id is required'')
              else (case jget items ''cluster_id'' of
                JStr cluster_id \<Rightarrow>
                  if cluster_id = [] then Inl (RuntimeError ''scheduler cluster cluster_id is required'')
                  else if cluster_id \<in> set seen then Inl (RuntimeError ''scheduler cluster_id values must be unique'')
                  else (case with_default items ''sacct'' (JStr ''sacct'') of
                    JStr sacct \<Rightarrow>
                      if sacct = [] then Inl (RuntimeError ''scheduler cluster sacct must be a command path'')
                      else (case json_number parse_float (with_default items ''timeout_seconds'' (JInt 10)) of
                        Some t \<Rightarrow>
                          if timeout_rejected t
                          then Inl (RuntimeError ''scheduler cluster timeout_seconds must be within (0, 60]'')
                          else Inr \<lparr>sc_tenant_id = tenant_id, sc_cluster_id = cluster_id, sc_sacct = sacct, sc_timeout_seconds = t\<rparr>
                      | None \<Rightarrow> Inl (RuntimeError ''scheduler cluster timeout_seconds must be within (0, 60]''))
                  | _ \<Rightarrow> Inl (RuntimeError ''scheduler cluster sacct must be a command path''))
              | _ \<Rightarrow> Inl (RuntimeError ''scheduler cluster cluster_id is required''))
          | _ \<Rightarrow> Inl (RuntimeError ''scheduler cluster tenant_id is required''))
      | _ \<Rightarrow> Inl (RuntimeError ''scheduler clusters contain invalid fields''))"

fun parse_clusters ::
  "(string \<Rightarrow> py_float) \<Rightarrow> string list \<Rightarrow> json list \<Rightarrow> SchedulerClusterConfig list result" where
  "parse_clusters parse_float seen [] = Inr []"
| "parse_clusters parse_float seen (item # items) =
     bindE (parse_cluster parse_float seen item) (\<lambda>x.
     bindE (parse_clusters parse_float (sc_cluster_id x # seen) items) (\<lambda>xs. Inr (x # xs)))"

definition read_clusters :: "runtime \<Rightarrow> (string \<Rightarrow> py_float) \<Rightarrow> environment \<Rightarrow> SchedulerClusterConfig list result" where
  "read_clusters R parse_float env =
     (case env_opt env ''RANKLENS_SCHEDULER_CLUSTERS_JSON'' of
        None \<Rightarrow> Inl (RuntimeError ''RANKLENS_SCHEDULER_CLUSTERS_JSON is required'')
      | Some raw \<Rightarrow>
          (case rt_json_loads R (utf8 raw) of
             None \<Rightarrow> Inl (RuntimeError ''RANKLENS_SCHEDULER_CLUSTERS_JSON must be valid JSON'')
           | Some (JArr items) \<Rightarrow>
               if items = [] then Inl (RuntimeError ''at least one scheduler cluster is required'')
               else parse_clusters parse_float [] items
           | Some _ \<Rightarrow> Inl (RuntimeError ''at least one scheduler cluster is required'')))"

definition scheduler_from_environment ::
  "runtime \<Rightarrow> (string \<Rightarrow> py_float) \<Rightarrow> environment \<Rightarrow> SchedulerServiceSettings result" where
  "scheduler_from_environment R parse_float env =
     (case env_opt env ''RANKLENS_DATABASE_URL'' of
        None \<Rightarrow> Inl (RuntimeError ''RANKLENS_DATABASE_URL is required'')
      | Some database_url \<Rightarrow>
          bindE (read_clusters R parse_float env) (\<lambda>clusters.
          bindE (bounded_int env ''RANKLENS_SCHEDULER_POLL_SECONDS'' 30 1 3600) (\<lambda>poll_interval.
          bindE (bounded_int env ''RANKLENS_SCHEDULER_LEASE_SECONDS'' 60 1 3600) (\<lambda>lease_seconds.
          bindE (bounded_int env ''RANKLENS_SCHEDULER_LOOKBACK_SECONDS'' 300 0 86400) (\<lambda>lookback.
          bindE (bounded_int env ''RANKLENS_SCHEDULER_MAX_BACKOFF_SECONDS'' 900 1 86400) (\<lambda>max_backoff.
            if max_backoff < poll_interval
            then Inl (RuntimeError ''RANKLENS_SCHEDULER_MAX_BACKOFF_SECONDS must cover the poll interval'')
            else Inr \<lparr>ss_database_url = database_url, ss_clusters = clusters, ss_poll_interval_seconds = poll_interval,
              ss_lease_seconds = lease_seconds, ss_accounting_lookback_seconds = lookback,
              ss_max_backoff_seconds = max_backoff,
              ss_bootstrap_schema = map lower_char (case env ''RANKLENS_BOOTSTRAP_SCHEMA'' of None \<Rightarrow> ''0'' | Some v \<Rightarrow> v)
                \<in> {''1'', ''true'', ''yes''}\<rparr>))))))"

section \<open>The service\<close>

text \<open>\<open>configs[cluster_id]\<close> raises \<open>KeyError\<close>; it is called inside the \<open>try\<close> block of a poll.\<close>

definition adapter_for :: "SchedulerServiceSettings \<Rightarrow> string \<Rightarrow> SchedulerClusterConfig result" where
  "adapter_for ss cluster_id =
     (case List.find (\<lambda>x. sc_cluster_id x = cluster_id) (ss_clusters ss) of
        None \<Rightarrow> Inl (LookupError cluster_id)
      | Some x \<Rightarrow>
          if timeout_rejected (sc_timeout_seconds x) then Inl (ValueError ''timeout_seconds must be within (0, 60]'') else Inr x)"

text \<open>What the poller gets from the adapter: the attempts \<open>sacct\<close> reports for the cluster.\<close>

definition fetch_for ::
  "SchedulerServiceSettings \<Rightarrow> (SchedulerClusterConfig \<Rightarrow> instant option \<Rightarrow> SchedulerAttempt list result)
   \<Rightarrow> string \<Rightarrow> instant option \<Rightarrow> SchedulerAttempt list result" where
  "fetch_for ss query cluster_id since = bindE (adapter_for ss cluster_id) (\<lambda>x. query x since)"

definition sacct_query ::
  "runtime \<Rightarrow> python_floats \<Rightarrow> iso_reader \<Rightarrow> (instant \<Rightarrow> string) \<Rightarrow> (py_float \<Rightarrow> string list \<Rightarrow> process_outcome) \<Rightarrow> instant
   \<Rightarrow> SchedulerClusterConfig \<Rightarrow> instant option \<Rightarrow> SchedulerAttempt list result" where
  "sacct_query R F fromiso strftime run observed x since =
     fetch_attempts R F fromiso strftime (\<lambda>_. run (sc_timeout_seconds x))
       \<lparr>sl_cluster_id = sc_cluster_id x, sl_sacct = sc_sacct x,
        sl_timeout_seconds = (case sc_timeout_seconds x of Finite t \<Rightarrow> t | _ \<Rightarrow> 0)\<rparr> observed [] since"

definition service_poller :: "SchedulerServiceSettings \<Rightarrow> string \<Rightarrow> SchedulerPoller result" where
  "service_poller ss own = make_poller own (ss_poll_interval_seconds ss) (ss_lease_seconds ss)
     (ss_accounting_lookback_seconds ss) (ss_max_backoff_seconds ss) (round_double (1 / 5))"

fun register_all :: "(nat \<Rightarrow> instant) \<Rightarrow> nat \<Rightarrow> SchedulerClusterConfig list \<Rightarrow> catalog \<Rightarrow> unit result \<times> catalog" where
  "register_all clock n [] c = (Inr (), c)"
| "register_all clock n (x # xs) c =
     (case register (sc_tenant_id x) (sc_cluster_id x) ''slurm'' (clock n) c of
        (Inl e, c') \<Rightarrow> (Inl e, c')
      | (Inr _, c') \<Rightarrow> register_all clock (n + 1) xs c')"

definition build_service ::
  "SchedulerServiceSettings \<Rightarrow> string \<Rightarrow> (nat \<Rightarrow> instant) \<Rightarrow> catalog \<Rightarrow> SchedulerPoller result \<times> catalog" where
  "build_service ss own clock c =
     (case service_poller ss own of
        Inl e \<Rightarrow> (Inl e, c)
      | Inr sp \<Rightarrow>
          (case register_all clock 0 (ss_clusters ss) c of (Inl e, c') \<Rightarrow> (Inl e, c') | (Inr _, c') \<Rightarrow> (Inr sp, c')))"

record poll_turn =
  pt_claimed_at :: instant
  pt_inputs :: poll_inputs
  pt_query :: "SchedulerClusterConfig \<Rightarrow> instant option \<Rightarrow> SchedulerAttempt list result"
  pt_during :: "catalog \<Rightarrow> catalog"
  pt_others :: "world \<Rightarrow> world"

fun service_loop :: "SchedulerServiceSettings \<Rightarrow> SchedulerPoller \<Rightarrow> poll_turn list \<Rightarrow> world \<Rightarrow> world" where
  "service_loop ss sp [] w = w"
| "service_loop ss sp (t # ts) w =
     service_loop ss sp ts (pt_others t (w\<lparr>cat := snd (poll_run_once sp (fetch_for ss (pt_query t)) (pt_during t) (pt_inputs t)
        (pt_claimed_at t) (cat w))\<rparr>))"

definition scheduler_main ::
  "SchedulerServiceSettings \<Rightarrow> string \<Rightarrow> (nat \<Rightarrow> instant) \<Rightarrow> poll_turn list \<Rightarrow> world \<Rightarrow> int result \<times> world" where
  "scheduler_main ss own clock turns w =
     (case build_service ss own clock (cat w) of
        (Inl e, c) \<Rightarrow> (Inl e, w\<lparr>cat := c\<rparr>)
      | (Inr sp, c) \<Rightarrow> (Inr 0, service_loop ss sp turns (w\<lparr>cat := c\<rparr>)))"


section \<open>The loop is a run of the site\<close>

lemma poll_run:
  assumes "\<And>c. (site_step R)\<^sup>*\<^sup>* (w\<lparr>cat := c\<rparr>) (w\<lparr>cat := mw c\<rparr>)"
  shows "(site_step R)\<^sup>*\<^sup>* w (w\<lparr>cat := snd (poll_run_once sp fetch mw inp t (cat w))\<rparr>)"
proof -
  obtain r c1 where cl: "claim_cursor sp t (cat w) = (r, c1)" by fastforce
  have s1: "site_step R w (w\<lparr>cat := c1\<rparr>)" by (rule site_step.claim_poll [OF cl])
  show ?thesis
  proof (cases r)
    case None
    with cl s1 show ?thesis by (auto simp: poll_run_once_def)
  next
    case (Some l)
    have "(site_step R)\<^sup>*\<^sup>* (w\<lparr>cat := c1\<rparr>) (w\<lparr>cat := snd (poll_execute sp fetch mw inp l c1)\<rparr>)"
    proof (cases "get_cursor c1 (pl_key l)")
      case None
      then show ?thesis by (simp add: poll_execute_def)
    next
      case (Some x)
      obtain q c2 where po: "poll_once (pl_tenant_id l) (fetch (pl_cluster_id l) (poll_since sp x)) (pi_now inp) (pi_ids inp) c1 = (q, c2)"
        by fastforce
      have s2: "site_step R (w\<lparr>cat := c1\<rparr>) (w\<lparr>cat := c2\<rparr>)"
        using site_step.poll [of _ _ _ _ "w\<lparr>cat := c1\<rparr>" q c2 R] po by simp
      have fin: "(site_step R)\<^sup>*\<^sup>* (w\<lparr>cat := c1\<rparr>) (w\<lparr>cat := c3\<rparr>)" if "site_step R (w\<lparr>cat := mw c2\<rparr>) (w\<lparr>cat := c3\<rparr>)" for c3
        using s2 assms [of c2] that by (meson converse_rtranclp_into_rtranclp rtranclp.rtrancl_into_rtrancl)
      have failed: "(site_step R)\<^sup>*\<^sup>* (w\<lparr>cat := c1\<rparr>) (w\<lparr>cat := c3\<rparr>)"
        if "poll_fail sp rnd l m u (mw c2) = (b, c3)" for rnd m u b c3
        using fin [of c3] site_step.poll_failed [of sp rnd l m u "w\<lparr>cat := mw c2\<rparr>" b c3 R] that by simp
      have settled: "(site_step R)\<^sup>*\<^sup>* (w\<lparr>cat := c1\<rparr>) (w\<lparr>cat := c3\<rparr>)"
        if "poll_settle sp rnd l a b (mw c2) = (pub, c3)" for rnd a b pub c3
        using fin [of c3] site_step.poll_settled [of sp rnd l a b "w\<lparr>cat := mw c2\<rparr>" pub c3 R] that by simp
      have "(site_step R)\<^sup>*\<^sup>* (w\<lparr>cat := c1\<rparr>) (w\<lparr>cat := snd (poll_fail sp rnd l m u (mw c2))\<rparr>)" for rnd m u
        by (rule failed [OF surjective_pairing])
      then show ?thesis using Some po settled
        by (cases q) (auto simp: poll_execute_def Let_def split: prod.splits)
    qed
    with s1 cl Some show ?thesis
      by (auto simp: poll_run_once_def intro: converse_rtranclp_into_rtranclp)
  qed
qed

definition turn_ok :: "runtime \<Rightarrow> poll_turn \<Rightarrow> bool" where
  "turn_ok R t = ((\<forall>x. (site_step R)\<^sup>*\<^sup>* x (x\<lparr>cat := pt_during t (cat x)\<rparr>)) \<and> (\<forall>x. (site_step R)\<^sup>*\<^sup>* x (pt_others t x)))"

lemma service_loop_run:
  "list_all (turn_ok R) ts \<Longrightarrow> (site_step R)\<^sup>*\<^sup>* w (service_loop ss sp ts w)"
proof (induction ts arbitrary: w)
  case Nil
  then show ?case by simp
next
  case (Cons t ts)
  let ?w1 = "w\<lparr>cat := snd (poll_run_once sp (fetch_for ss (pt_query t)) (pt_during t) (pt_inputs t) (pt_claimed_at t) (cat w))\<rparr>"
  have "(site_step R)\<^sup>*\<^sup>* (w\<lparr>cat := c\<rparr>) (w\<lparr>cat := pt_during t c\<rparr>)" for c
  proof -
    from Cons.prems have "\<forall>x. (site_step R)\<^sup>*\<^sup>* x (x\<lparr>cat := pt_during t (cat x)\<rparr>)" by (simp add: turn_ok_def)
    from spec [OF this, of "w\<lparr>cat := c\<rparr>"]
    show ?thesis by simp
  qed
  then have "(site_step R)\<^sup>*\<^sup>* w ?w1" by (rule poll_run)
  also have "(site_step R)\<^sup>*\<^sup>* ?w1 (pt_others t ?w1)" using Cons.prems by (simp add: turn_ok_def)
  also have "(site_step R)\<^sup>*\<^sup>* (pt_others t ?w1) (service_loop ss sp ts (pt_others t ?w1))" using Cons by simp
  finally show ?case by simp
qed

lemma register_all_run:
  "(site_step R)\<^sup>*\<^sup>* (w\<lparr>cat := c\<rparr>) (w\<lparr>cat := snd (register_all clock n xs c)\<rparr>)"
proof (induction clock n xs c rule: register_all.induct)
  case (1 clock n c)
  then show ?case by simp
next
  case (2 clock n x xs c)
  obtain r c1 where g: "register (sc_tenant_id x) (sc_cluster_id x) ''slurm'' (clock n) c = (r, c1)" by fastforce
  have s: "site_step R (w\<lparr>cat := c\<rparr>) (w\<lparr>cat := c1\<rparr>)"
    using site_step.register_poll [of _ _ _ _ "w\<lparr>cat := c\<rparr>" r c1 R] g by simp
  show ?case
  proof (cases r)
    case (Inl e)
    with g s show ?thesis by auto
  next
    case (Inr u)
    with 2 [OF g [symmetric]] g s show ?thesis by (simp add: converse_rtranclp_into_rtranclp)
  qed
qed

section \<open>Accepted configurations\<close>

definition cluster_ok :: "SchedulerClusterConfig \<Rightarrow> bool" where
  "cluster_ok x = (sc_tenant_id x \<noteq> [] \<and> sc_cluster_id x \<noteq> [] \<and> sc_sacct x \<noteq> [] \<and> \<not> timeout_rejected (sc_timeout_seconds x))"

lemma parse_cluster_ok:
  "parse_cluster f seen item = Inr x \<Longrightarrow> cluster_ok x \<and> sc_cluster_id x \<notin> set seen"
  by (auto simp: parse_cluster_def cluster_ok_def split: json.splits if_splits option.splits)

lemma parse_clusters_ok:
  "parse_clusters f seen items = Inr xs \<Longrightarrow>
    list_all cluster_ok xs \<and> distinct (map sc_cluster_id xs) \<and> set (map sc_cluster_id xs) \<inter> set seen = {} \<and> length xs = length items"
proof (induction f seen items arbitrary: xs rule: parse_clusters.induct)
  case (1 f seen)
  then show ?case by simp
next
  case (2 f seen item items)
  then obtain y ys where y: "parse_cluster f seen item = Inr y" "parse_clusters f (sc_cluster_id y # seen) items = Inr ys" "xs = y # ys"
    by (auto simp: bindE_Inr_iff)
  from 2(1) [OF this(2)] parse_cluster_ok [OF y(1)] y(3) show ?case by auto
qed

lemma bounded_int_range: "bounded_int env name d lo hi = Inr i \<Longrightarrow> lo \<le> i \<and> i \<le> hi"
  by (auto simp: bounded_int_def split: option.splits if_splits)

definition scheduler_settings_ok :: "SchedulerServiceSettings \<Rightarrow> bool" where
  "scheduler_settings_ok ss = (ss_database_url ss \<noteq> [] \<and> ss_clusters ss \<noteq> [] \<and> list_all cluster_ok (ss_clusters ss)
     \<and> distinct (map sc_cluster_id (ss_clusters ss))
     \<and> 1 \<le> ss_poll_interval_seconds ss \<and> ss_poll_interval_seconds ss \<le> 3600
     \<and> 1 \<le> ss_lease_seconds ss \<and> ss_lease_seconds ss \<le> 3600
     \<and> 0 \<le> ss_accounting_lookback_seconds ss \<and> ss_accounting_lookback_seconds ss \<le> 86400
     \<and> ss_poll_interval_seconds ss \<le> ss_max_backoff_seconds ss \<and> ss_max_backoff_seconds ss \<le> 86400)"

lemma scheduler_settings_loaded:
  assumes "scheduler_from_environment R f env = Inr ss"
  shows "scheduler_settings_ok ss"
proof -
  from assms obtain url xs a b c d where e: "env_opt env ''RANKLENS_DATABASE_URL'' = Some url" "read_clusters R f env = Inr xs"
      "bounded_int env ''RANKLENS_SCHEDULER_POLL_SECONDS'' 30 1 3600 = Inr a"
      "bounded_int env ''RANKLENS_SCHEDULER_LEASE_SECONDS'' 60 1 3600 = Inr b"
      "bounded_int env ''RANKLENS_SCHEDULER_LOOKBACK_SECONDS'' 300 0 86400 = Inr c"
      "bounded_int env ''RANKLENS_SCHEDULER_MAX_BACKOFF_SECONDS'' 900 1 86400 = Inr d" "a \<le> d"
    and ss: "ss_database_url ss = url" "ss_clusters ss = xs" "ss_poll_interval_seconds ss = a" "ss_lease_seconds ss = b"
      "ss_accounting_lookback_seconds ss = c" "ss_max_backoff_seconds ss = d"
    by (auto simp: scheduler_from_environment_def bindE_Inr_iff split: option.splits if_splits)
  have "url \<noteq> []" using e(1) by (auto simp: env_opt_def split: option.splits if_splits)
  moreover from e(2) obtain items where "items \<noteq> []" "parse_clusters f [] items = Inr xs"
    by (auto simp: read_clusters_def split: option.splits json.splits if_splits)
  note this(1) parse_clusters_ok [OF this(2)]
  ultimately show ?thesis using e(3-6) [THEN bounded_int_range] e(7) by (auto simp: scheduler_settings_ok_def ss)
qed

lemma round_fifth: "round_double (1 / 5) \<le> 1" "0 \<le> round_double (1 / 5)"
proof -
  have "round_double (1 / 5) \<le> round_double (of_int 1)" by (rule round_double_mono) simp
  also have "\<dots> = of_int 1" by (rule round_double_exact) simp
  finally show "round_double (1 / 5) \<le> 1" by simp
  show "0 \<le> round_double (1 / 5)" by (rule round_double_nonneg) simp
qed

lemma service_poller_built:
  "scheduler_settings_ok ss \<Longrightarrow> service_poller ss own = Inr \<lparr>sp_owner = own, sp_poll_interval = ss_poll_interval_seconds ss,
     sp_lease_seconds = ss_lease_seconds ss, sp_lookback = ss_accounting_lookback_seconds ss,
     sp_max_backoff = ss_max_backoff_seconds ss, sp_jitter_ratio = round_double (1 / 5)\<rparr>"
  using round_fifth by (auto simp: scheduler_settings_ok_def service_poller_def make_poller_def)

lemma adapter_for_configured:
  assumes "scheduler_settings_ok ss" "x \<in> set (ss_clusters ss)"
  shows "adapter_for ss (sc_cluster_id x) = Inr x"
proof -
  have d: "distinct (map sc_cluster_id (ss_clusters ss))" "cluster_ok x"
    using assms by (auto simp: scheduler_settings_ok_def list_all_iff)
  from find_unique_key [OF d(1) assms(2)]
  d(2) show ?thesis by (simp add: adapter_for_def cluster_ok_def)
qed


section \<open>Registration\<close>

definition config_key :: "SchedulerClusterConfig \<Rightarrow> string \<times> string" where
  "config_key x = (sc_tenant_id x, sc_cluster_id x)"

definition foreign_adapter :: "catalog \<Rightarrow> SchedulerClusterConfig \<Rightarrow> bool" where
  "foreign_adapter c x = (case get_cursor c (config_key x) of None \<Rightarrow> False | Some y \<Rightarrow> spc_adapter y \<noteq> ''slurm'')"

lemma register_cases:
  assumes "register t cl ''slurm'' now c = (r, c')" "t \<noteq> []" "cl \<noteq> []"
  obtains (new) y where "get_cursor c (t, cl) = None" "r = Inr ()" "spc_key y = (t, cl)" "spc_adapter y = ''slurm''"
      "c' = c\<lparr>poll_cursors := poll_cursors c @ [y]\<rparr>"
    | (known) y where "get_cursor c (t, cl) = Some y" "spc_adapter y = ''slurm''" "r = Inr ()" "c' = c"
    | (clash) y where "get_cursor c (t, cl) = Some y" "spc_adapter y \<noteq> ''slurm''" "isl r" "c' = c"
proof (cases "get_cursor c (t, cl)")
  case None
  let ?y = "\<lparr>spc_tenant_id = t, spc_cluster_id = cl, spc_adapter = ''slurm'', spc_cursor_at = None, spc_next_poll_at = now,
    spc_lease_owner = None, spc_lease_generation = 0, spc_lease_expires_at = None, spc_consecutive_failures = 0,
    spc_last_success_at = None, spc_last_error = None, spc_created_at = now, spc_updated_at = now\<rparr>"
  show ?thesis
    by (rule new [of ?y]) (use assms None in \<open>auto simp: register_def register_txn_def begin_txn_def spc_key_def\<close>)
next
  case (Some y)
  with assms known [of y] clash [of y] show ?thesis
    by (auto simp: register_def register_txn_def begin_txn_def split: if_splits)
qed

lemma get_cursor_append:
  "get_cursor (c\<lparr>poll_cursors := poll_cursors c @ [y]\<rparr>) k =
    (case get_cursor c k of Some x \<Rightarrow> Some x | None \<Rightarrow> if spc_key y = k then Some y else None)"
  by (cases "get_cursor c k") (simp_all add: get_cursor_def find_append_None find_append_Some)

lemma register_all_effect:
  assumes "list_all cluster_ok xs" "register_all clock n xs c = (r, c')"
  shows "(isl r \<longleftrightarrow> list_ex (foreign_adapter c) xs)
    \<and> (\<forall>k y. get_cursor c k = Some y \<longrightarrow> get_cursor c' k = Some y)
    \<and> c' = c\<lparr>poll_cursors := poll_cursors c'\<rparr>
    \<and> (\<not> isl r \<longrightarrow> list_all (\<lambda>x. \<exists>y. get_cursor c' (config_key x) = Some y \<and> spc_adapter y = ''slurm'') xs)"
  using assms
proof (induction clock n xs c arbitrary: r c' rule: register_all.induct)
  case (1 clock n c)
  then show ?case by auto
next
  case (2 clock n x xs c)
  obtain q c1 where g: "register (sc_tenant_id x) (sc_cluster_id x) ''slurm'' (clock n) c = (q, c1)" by fastforce
  have ne: "sc_tenant_id x \<noteq> []" "sc_cluster_id x \<noteq> []" using 2(2) by (auto simp: cluster_ok_def)
  have rest: "list_all cluster_ok xs" using 2(2) by simp
  from g ne show ?case
  proof (cases rule: register_cases)
    case clash
    then show ?thesis using 2(3) g by (cases q) (auto simp: foreign_adapter_def config_key_def)
  next
    case (known y)
    have "register_all clock (n + 1) xs c = (r, c')" using 2(3) g known by simp
    with 2(1) [OF g [symmetric] known(3) rest] known show ?thesis
      by (auto simp: foreign_adapter_def config_key_def)
  next
    case (new y)
    have run: "register_all clock (n + 1) xs c1 = (r, c')" using 2(3) g new by simp
    have k: "get_cursor c1 k = (case get_cursor c k of Some x \<Rightarrow> Some x | None \<Rightarrow> if spc_key y = k then Some y else None)" for k
      by (simp add: new(5) get_cursor_append)
    have fa: "foreign_adapter c1 = foreign_adapter c"
      using new(3,4) by (auto simp: fun_eq_iff foreign_adapter_def k split: option.splits)
    have old: "get_cursor c1 i = Some z" if "get_cursor c i = Some z" for i z using that by (simp add: k)
    have here: "get_cursor c1 (config_key x) = Some y" using new(1,3) by (simp add: k config_key_def)
    have mine: "\<not> foreign_adapter c x" using new(1) by (simp add: foreign_adapter_def config_key_def)
    note ih = 2(1) [OF g [symmetric] new(2) rest run]
    have "c1\<lparr>poll_cursors := ps\<rparr> = c\<lparr>poll_cursors := ps\<rparr>" for ps by (simp add: new(5))
    with ih have "c' = c\<lparr>poll_cursors := poll_cursors c'\<rparr>" by metis
    moreover have "get_cursor c' (config_key x) = Some y" using ih here by blast
    ultimately show ?thesis using ih mine old new(4) unfolding fa by auto
  qed
qed

lemma register_all_again:
  assumes "list_all (\<lambda>x. \<exists>y. get_cursor c (config_key x) = Some y \<and> spc_adapter y = ''slurm'') xs" "list_all cluster_ok xs"
  shows "register_all clock n xs c = (Inr (), c)"
  using assms
  by (induction xs arbitrary: n)
    (auto simp: register_def register_txn_def begin_txn_def config_key_def cluster_ok_def)

lemma timeout_accepted:
  "\<not> timeout_rejected t \<longleftrightarrow> t = NotANumber \<or> (\<exists>q. t = Finite q \<and> 0 < q \<and> q \<le> 60)"
proof (cases t)
  case (Infinite b)
  then show ?thesis by (cases b) (auto simp: timeout_rejected_def float_lt_def)
qed (auto simp: timeout_rejected_def float_lt_def)

section \<open>Properties of the service\<close>


text \<open>The polling service is a run of the site: whatever \<open>sacct\<close> answers, and with the other services acting during and
  between its polls, every invariant of the site holds afterwards.\<close>

theorem polling_service_is_run:
  assumes "list_all (turn_ok R) turns" "hex_digests R" "site_ok R w"
  shows "(site_step R)\<^sup>*\<^sup>* w (snd (scheduler_main ss own clock turns w))
    \<and> site_ok R (snd (scheduler_main ss own clock turns w))"
proof -
  obtain r c where reg: "register_all clock 0 (ss_clusters ss) (cat w) = (r, c)" by fastforce
  have one: "(site_step R)\<^sup>*\<^sup>* w (w\<lparr>cat := c\<rparr>)"
    using register_all_run [where R = R and w = w and c = "cat w" and clock = clock and n = 0 and xs = "ss_clusters ss"] reg by simp
  have two: "(site_step R)\<^sup>*\<^sup>* (w\<lparr>cat := c\<rparr>) (service_loop ss sp turns (w\<lparr>cat := c\<rparr>))" for sp
    by (rule service_loop_run [OF assms(1)])
  have w: "w\<lparr>cat := cat w\<rparr> = w" by (cases w) simp
  have "(site_step R)\<^sup>*\<^sup>* w (snd (scheduler_main ss own clock turns w))"
    using one rtranclp_trans [OF one two] w
    by (auto simp: scheduler_main_def build_service_def reg split: sum.splits)
  with run_site_ok [OF _ assms(2,3)] show ?thesis by blast
qed

text \<open>A cursor of a cluster that is no longer configured fails every poll and stores nothing.\<close>

lemma unconfigured_cluster_fails:
  assumes "\<not> list_ex (\<lambda>x. sc_cluster_id x = pl_cluster_id l) (ss_clusters ss)" "poll_execute sp (fetch_for ss q) mw inp l c = (res, c')"
  shows "\<not> pr_published res \<and> pr_reconciled res = None"
proof -
  have "List.find (\<lambda>x. sc_cluster_id x = pl_cluster_id l) (ss_clusters ss) = None"
    using assms(1) by (auto simp: find_None_all list_ex_iff)
  then have "fetch_for ss q (pl_cluster_id l) since = Inl (LookupError (pl_cluster_id l))" for since
    by (simp add: fetch_for_def adapter_for_def bindE_def)
  then show ?thesis using assms(2)
    by (auto simp: poll_execute_def poll_once_def bindE_def Let_def split: option.splits if_splits prod.splits)
qed

text \<open>The adapter is chosen by the cluster identifier alone: a cursor of one tenant is polled with the configuration of another
  tenant that uses the same identifier, and what it reports is stored for the tenant of the cursor.\<close>

lemma adapter_ignores_tenant:
  assumes "scheduler_settings_ok ss" "x \<in> set (ss_clusters ss)" "pl_cluster_id l = sc_cluster_id x"
  shows "poll_execute sp (fetch_for ss q) mw inp l c = poll_execute sp (\<lambda>_. q x) mw inp l c"
proof -
  have eq: "fetch_for ss q (pl_cluster_id l) = q x"
    using adapter_for_configured [OF assms(1,2)] by (simp add: fun_eq_iff fetch_for_def assms(3) bindE_def)
  show ?thesis unfolding poll_execute_def eq by (rule refl)
qed

text \<open>\<open>NaN\<close> passes the check of the timeout.\<close>

lemma nan_timeout_accepted:
  assumes "f ''NaN'' = NotANumber"
  shows "parse_cluster f [] (JObj [(''tenant_id'', JStr ''t''), (''cluster_id'', JStr ''c''), (''timeout_seconds'', JFloat ''NaN'')])
    = Inr \<lparr>sc_tenant_id = ''t'', sc_cluster_id = ''c'', sc_sacct = ''sacct'', sc_timeout_seconds = NotANumber\<rparr>"
  using assms by (simp add: parse_cluster_def jget_def with_default_def json_number_def timeout_rejected_def float_lt_def)


text \<open>A configuration of one cluster.\<close>

definition demo_scheduler_loads :: runtime where
  "demo_scheduler_loads = demo_runtime\<lparr>rt_json_loads := (\<lambda>b. Some (JArr [JObj [(''tenant_id'', JStr ''site''),
     (''cluster_id'', JStr ''alpha'')]]))\<rparr>"

definition demo_scheduler_settings :: SchedulerServiceSettings where
  "demo_scheduler_settings = \<lparr>ss_database_url = ''d'', ss_clusters = [\<lparr>sc_tenant_id = ''site'', sc_cluster_id = ''alpha'',
     sc_sacct = ''sacct'', sc_timeout_seconds = Finite 10\<rparr>], ss_poll_interval_seconds = 30, ss_lease_seconds = 60,
     ss_accounting_lookback_seconds = 300, ss_max_backoff_seconds = 900, ss_bootstrap_schema = False\<rparr>"

lemma demo_scheduler_loaded:
  "scheduler_from_environment demo_scheduler_loads (\<lambda>_. NotANumber)
     [''RANKLENS_DATABASE_URL'' \<mapsto> ''d'', ''RANKLENS_SCHEDULER_CLUSTERS_JSON'' \<mapsto> ''C''] = Inr demo_scheduler_settings"
proof -
  have f: "float_lt (Finite 60) (Finite 10) = False" "float_le (Finite 10) (Finite 0) = False" by simp_all
  have i: "py_int (show_int 30) = Some 30" "py_int (show_int 60) = Some 60" "py_int (show_int 300) = Some 300"
    "py_int (show_int 900) = Some 900" by code_simp+
  show ?thesis
    by (simp add: scheduler_from_environment_def env_opt_def read_clusters_def demo_scheduler_loads_def parse_cluster_def jget_def
        with_default_def json_number_def timeout_rejected_def f bounded_int_def i demo_scheduler_settings_def lower_char_def in_range_def)
qed


theorem polling_service_is_run_witness:
  "site_ok demo_runtime (snd (scheduler_main demo_scheduler_settings ''s'' (\<lambda>_. 1)
     [\<lparr>pt_claimed_at = 5, pt_inputs = \<lparr>pi_ids = (\<lambda>_. ''o''), pi_started_at = 5, pi_now = 5, pi_completed_at = 5, pi_random = 0\<rparr>,
       pt_query = (\<lambda>_ _. Inr []), pt_during = (\<lambda>c. c), pt_others = (\<lambda>w. w)\<rparr>] demo_world))"
proof -
  have "site_ok demo_runtime demo_world" using demo_empty by (rule empty_site_ok)
  from polling_service_is_run [OF _ demo_hex this] show ?thesis by (simp add: turn_ok_def)
qed

end
