(* ===== verification/Analyzer.thy ===== *)
theory Analyzer
  imports Slurm Py_Float
begin

text \<open>
  \<^verbatim>\<open>ranklens/models.py\<close> and \<^verbatim>\<open>ranklens/analyzer.py\<close>: the offline diagnosis of a directory of rank summaries and event
  streams.  A directory is its path and the list of its entries with what reading each one gives; \<open>json.loads\<close>, the message
  of its errors and the value of a float literal are parameters.
\<close>

section \<open>Inputs\<close>

datatype file_text = Text string | Unreadable string | Undecodable string

record capture_directory =
  cd_path :: string
  cd_entries :: "(string \<times> file_text) list"

record analysis_environment =
  ae_runtime :: runtime
  ae_float :: "string \<Rightarrow> py_float"
  ae_json_error :: "string \<Rightarrow> string"

definition loads :: "analysis_environment \<Rightarrow> string \<Rightarrow> json option" where
  "loads e t = rt_json_loads (ae_runtime e) (utf8 t)"

definition starts_with :: "string \<Rightarrow> string \<Rightarrow> bool" where
  "starts_with p s = (take (length p) s = p)"

definition ends_with :: "string \<Rightarrow> string \<Rightarrow> bool" where
  "ends_with p s = (length p \<le> length s \<and> drop (length s - length p) s = p)"

text \<open>The names that match the pattern \<open>rank-*suffix\<close>, sorted.\<close>

definition glob_rank :: "string \<Rightarrow> capture_directory \<Rightarrow> (string \<times> file_text) list" where
  "glob_rank suffix d = sort_key fst (filter (\<lambda>(name, t). length name \<ge> 5 + length suffix \<and> starts_with ''rank-'' name
     \<and> ends_with suffix name) (cd_entries d))"

definition path_of :: "capture_directory \<Rightarrow> string \<Rightarrow> string" where
  "path_of d name = cd_path d @ ''/'' @ name"

section \<open>Summaries\<close>

record OperationStats =
  os_calls :: int
  os_duration_ns :: int
  os_payload_bytes :: int

record RankSummary =
  rk_rank :: int
  rk_world_size :: int
  rk_hostname :: string
  rk_pid :: int
  rk_runtime_ns :: int
  rk_mpi_time_ns :: int
  rk_mpi_calls :: int
  rk_bytes_sent :: int
  rk_bytes_received :: int
  rk_operations :: "(string \<times> OperationStats) list"
  rk_synthetic :: bool
  rk_complete :: bool
  rk_context :: "(string \<times> string) list"

definition telemetry_error :: "string \<Rightarrow> string \<Rightarrow> 'a result" where
  "telemetry_error path message = Inl (TelemetryError (path @ '': '' @ message))"

definition required_int :: "(string \<times> json) list \<Rightarrow> string \<Rightarrow> string \<Rightarrow> int result" where
  "required_int data k path =
     (case jget data k of
        JInt i \<Rightarrow> if i < 0 then telemetry_error path (repr_str k @ '' must be a non-negative integer'') else Inr i
      | _ \<Rightarrow> telemetry_error path (repr_str k @ '' must be a non-negative integer''))"

text \<open>Membership of a value in a set of strings: a list or an object cannot be hashed.\<close>

definition in_set :: "json \<Rightarrow> string list \<Rightarrow> bool result" where
  "in_set v names =
     (case v of JStr s \<Rightarrow> Inr (s \<in> set names) | JArr _ \<Rightarrow> Inl (TypeErr ''unhashable type'') | JObj _ \<Rightarrow> Inl (TypeErr ''unhashable type'')
      | _ \<Rightarrow> Inr False)"

definition check_schema :: "(string \<times> json) list \<Rightarrow> string \<Rightarrow> int result" where
  "check_schema data path =
     (case jget data ''schema_version'' of
        JInt n \<Rightarrow> if n \<in> {1, 2} then Inr n else telemetry_error path (''unsupported schema_version '' @ show_int n)
      | v \<Rightarrow> telemetry_error path (''unsupported schema_version '' @ py_repr v))"

definition check_version_two :: "(string \<times> json) list \<Rightarrow> string \<Rightarrow> unit result" where
  "check_version_two data path =
     (case jget data ''complete'' of
        JBool b \<Rightarrow>
          bindE (in_set (jget data ''capture_state'') [''collecting'', ''pre_finalize'', ''finalized'', ''finalize_failed'']) (\<lambda>known.
            if \<not> known
            then telemetry_error path (''invalid version 2 capture_state '' @ py_repr (jget data ''capture_state''))
            else bindE (required_int data ''finalize_return_code'' path) (\<lambda>_.
                 bindE (required_int data ''request_completions'' path) (\<lambda>_.
                 bindE (required_int data ''failed_calls'' path) (\<lambda>_. Inr ()))))
      | _ \<Rightarrow> telemetry_error path ''version 2 complete must be boolean'')"

definition parse_stats :: "(string \<times> json) list \<Rightarrow> string \<Rightarrow> OperationStats result" where
  "parse_stats raw path =
     bindE (required_int raw ''calls'' path) (\<lambda>calls.
     bindE (required_int raw ''duration_ns'' path) (\<lambda>duration.
     bindE (required_int raw ''payload_bytes'' path) (\<lambda>payload.
       Inr \<lparr>os_calls = calls, os_duration_ns = duration, os_payload_bytes = payload\<rparr>)))"

text \<open>What an operation record adds to the calls of the API and to the completions of requests.\<close>

definition kind_calls :: "int \<Rightarrow> (string \<times> json) list \<Rightarrow> string \<Rightarrow> string \<Rightarrow> (int \<times> int) result" where
  "kind_calls schema raw name path =
     (if schema \<noteq> 2 then Inr (0, 0)
      else bindE (in_set (jget raw ''record_kind'') [''api_call'', ''request_completion'']) (\<lambda>known.
        if \<not> known then telemetry_error path (''operation '' @ repr_str name @ '' has invalid record_kind'')
        else bindE (required_int raw ''calls'' path) (\<lambda>calls.
          Inr (if jget raw ''record_kind'' = JStr ''request_completion'' then (0, calls) else (calls, 0)))))"

fun parse_operations ::
  "int \<Rightarrow> string \<Rightarrow> (string \<times> json) list \<Rightarrow> int \<Rightarrow> int \<Rightarrow> ((string \<times> OperationStats) list \<times> int \<times> int) result" where
  "parse_operations schema path [] api completions = Inr ([], api, completions)"
| "parse_operations schema path ((name, v) # items) api completions =
     (case v of
        JObj raw \<Rightarrow>
          bindE (kind_calls schema raw name path) (\<lambda>(a, c).
          bindE (parse_stats raw path) (\<lambda>st.
          bindE (parse_operations schema path items (api + a) (completions + c)) (\<lambda>(ops, a', c').
            Inr ((name, st) # ops, a', c'))))
      | _ \<Rightarrow> telemetry_error path ''invalid operation entry'')"

definition check_accounting :: "int \<Rightarrow> (string \<times> json) list \<Rightarrow> string \<Rightarrow> int \<Rightarrow> int \<Rightarrow> unit result" where
  "check_accounting schema data path api completions =
     (if schema \<noteq> 2 then Inr ()
      else bindE (required_int data ''mpi_calls'' path) (\<lambda>calls.
        if calls \<noteq> api then telemetry_error path ''mpi_calls does not match api_call operation records''
        else bindE (required_int data ''request_completions'' path) (\<lambda>n.
          if n \<noteq> completions
          then telemetry_error path ''request_completions does not match request_completion records''
          else Inr ())))"

definition optional_bool :: "(string \<times> json) list \<Rightarrow> string \<Rightarrow> bool \<Rightarrow> string \<Rightarrow> bool result" where
  "optional_bool data k d path =
     (case map_of data k of None \<Rightarrow> Inr d | Some (JBool b) \<Rightarrow> Inr b | Some _ \<Rightarrow> telemetry_error path (k @ '' must be boolean''))"

fun string_items :: "(string \<times> json) list \<Rightarrow> (string \<times> string) list option" where
  "string_items [] = Some []"
| "string_items ((k, v) # items) =
     (case v of JStr s \<Rightarrow> map_option (\<lambda>rest. (k, s) # rest) (string_items items) | _ \<Rightarrow> None)"

definition read_context :: "(string \<times> json) list \<Rightarrow> string \<Rightarrow> (string \<times> string) list result" where
  "read_context data path =
     (case map_of data ''context'' of
        None \<Rightarrow> Inr []
      | Some (JObj items) \<Rightarrow>
          (case string_items items of None \<Rightarrow> telemetry_error path ''context must contain string values'' | Some c \<Rightarrow> Inr c)
      | Some _ \<Rightarrow> telemetry_error path ''context must contain string values'')"

definition parse_summary :: "(string \<times> json) list \<Rightarrow> string \<Rightarrow> RankSummary result" where
  "parse_summary data path =
     bindE (check_schema data path) (\<lambda>schema.
     bindE (if schema = 2 then check_version_two data path else Inr ()) (\<lambda>_.
       case jget data ''operations'' of
         JObj raw \<Rightarrow>
           bindE (parse_operations schema path raw 0 0) (\<lambda>(operations, api, completions).
           bindE (check_accounting schema data path api completions) (\<lambda>_.
             case jget data ''hostname'' of
               JStr hostname \<Rightarrow>
                 bindE (required_int data ''rank'' path) (\<lambda>rank.
                 bindE (required_int data ''world_size'' path) (\<lambda>world_size.
                   if world_size = 0 \<or> rank \<ge> world_size
                   then telemetry_error path ''rank must be within a positive world_size''
                   else
                     bindE (optional_bool data ''synthetic'' False path) (\<lambda>synthetic.
                     bindE (optional_bool data ''complete'' True path) (\<lambda>complete.
                     bindE (read_context data path) (\<lambda>ctx.
                     bindE (required_int data ''pid'' path) (\<lambda>pid.
                     bindE (required_int data ''runtime_ns'' path) (\<lambda>runtime_ns.
                     bindE (required_int data ''mpi_time_ns'' path) (\<lambda>mpi_time.
                     bindE (required_int data ''mpi_calls'' path) (\<lambda>mpi_calls.
                     bindE (required_int data ''bytes_sent'' path) (\<lambda>sent.
                     bindE (required_int data ''bytes_received'' path) (\<lambda>received.
                       Inr \<lparr>rk_rank = rank, rk_world_size = world_size, rk_hostname = hostname, rk_pid = pid,
                         rk_runtime_ns = runtime_ns, rk_mpi_time_ns = mpi_time, rk_mpi_calls = mpi_calls, rk_bytes_sent = sent,
                         rk_bytes_received = received, rk_operations = operations, rk_synthetic = synthetic,
                         rk_complete = complete, rk_context = ctx\<rparr>)))))))))))
             | _ \<Rightarrow> telemetry_error path ''hostname must be a string''))
       | _ \<Rightarrow> telemetry_error path ''operations must be an object''))"

definition load_summary :: "analysis_environment \<Rightarrow> string \<Rightarrow> file_text \<Rightarrow> RankSummary result" where
  "load_summary e path t =
     (case t of
        Unreadable m \<Rightarrow> Inl (TelemetryError (''cannot read '' @ path @ '': '' @ m))
      | Undecodable m \<Rightarrow> Inl (TelemetryError (''cannot read '' @ path @ '': '' @ m))
      | Text s \<Rightarrow>
          (case loads e s of
             None \<Rightarrow> Inl (TelemetryError (''cannot read '' @ path @ '': '' @ ae_json_error e s))
           | Some (JObj data) \<Rightarrow> parse_summary data path
           | Some _ \<Rightarrow> telemetry_error path ''summary root must be an object''))"

definition load_summaries :: "analysis_environment \<Rightarrow> capture_directory \<Rightarrow> RankSummary list result" where
  "load_summaries e d =
     (let paths = glob_rank ''-summary.json'' d in
      if paths = [] then Inl (TelemetryError (''no rank-*-summary.json files found in '' @ cd_path d))
      else bindE (mapE (\<lambda>(name, t). load_summary e (path_of d name) t) paths) (\<lambda>summaries.
        if \<not> distinct (map rk_rank summaries)
        then Inl (TelemetryError (''duplicate rank summaries found in '' @ cd_path d))
        else if \<not> list_all (\<lambda>s. rk_world_size s = rk_world_size (hd summaries)) summaries
        then Inl (TelemetryError (''inconsistent world_size values in '' @ cd_path d))
        else Inr summaries))"


section \<open>Event streams\<close>

record CommunicationEdge =
  ce_source :: int
  ce_destination :: int
  ce_bytes :: int
  ce_messages :: int
  ce_traffic_share :: rat

record timeline_bucket =
  tb_timestamp_ns :: int
  tb_calls :: int
  tb_duration_ns :: int

text \<open>The edges are a \<open>dict\<close> from a pair of ranks to the bytes and messages sent.\<close>

record event_scan =
  es_edges :: "((int \<times> int) \<times> int \<times> int) list"
  es_timeline :: "timeline_bucket list"
  es_warnings :: "string list"

definition warn :: "string \<Rightarrow> event_scan \<Rightarrow> event_scan" where
  "warn message st = (if length (es_warnings st) < 100 then st\<lparr>es_warnings := es_warnings st @ [message]\<rparr> else st)"

text \<open>\<open>v == n\<close> for a decoded value and an integer: booleans and floats compare by value.\<close>

definition equals_int :: "analysis_environment \<Rightarrow> json \<Rightarrow> int \<Rightarrow> bool" where
  "equals_int e v n =
     (case v of JInt i \<Rightarrow> i = n | JBool b \<Rightarrow> n = (if b then 1 else 0) | JFloat r \<Rightarrow> ae_float e r = Finite (of_int n) | _ \<Rightarrow> False)"

definition get_default :: "(string \<times> json) list \<Rightarrow> string \<Rightarrow> json \<Rightarrow> json" where
  "get_default items k d = (case map_of items k of None \<Rightarrow> d | Some v \<Rightarrow> v)"

text \<open>The outcome of the checks of one line: rejected with a warning, or accepted.  The last sequence number seen is updated as
  soon as a version 2 event has a valid one, even when its kind is then found inconsistent.\<close>

datatype event_check = Rejected string | Accepted "(string \<times> json) list"

definition expected_kind :: "(string \<times> json) list \<Rightarrow> string" where
  "expected_kind event =
     (if ends_with ''_complete'' (py_str (get_default event ''operation'' (JStr ''''))) then ''request_completion'' else ''api_call'')"

definition check_event :: "analysis_environment \<Rightarrow> int \<Rightarrow> int \<Rightarrow> string \<Rightarrow> event_check \<times> int" where
  "check_event e expected_rank last_sequence line =
     (case loads e line of
        None \<Rightarrow> (Rejected ''malformed'', last_sequence)
      | Some (JObj event) \<Rightarrow>
          (case jget event ''schema_version'' of
             JInt schema \<Rightarrow>
               if schema \<notin> {1, 2} then (Rejected ''unsupported event schema'', last_sequence)
               else if \<not> equals_int e (jget event ''rank'') expected_rank then (Rejected ''rank-mismatched event'', last_sequence)
               else if schema = 2
               then (case jget event ''sequence'' of
                   JInt sequence \<Rightarrow>
                     if sequence < 0 \<or> sequence \<le> last_sequence then (Rejected ''invalid event sequence'', last_sequence)
                     else if jget event ''record_kind'' \<noteq> JStr (expected_kind event)
                     then (Rejected ''event with inconsistent record_kind'', sequence)
                     else (Accepted event, sequence)
                 | _ \<Rightarrow> (Rejected ''invalid event sequence'', last_sequence))
               else (Accepted event, last_sequence)
           | _ \<Rightarrow> (Rejected ''unsupported event schema'', last_sequence))
      | Some _ \<Rightarrow> (Rejected ''non-object event'', last_sequence))"

definition rejection :: "analysis_environment \<Rightarrow> string \<Rightarrow> int \<Rightarrow> string \<Rightarrow> string \<Rightarrow> string" where
  "rejection e name line_number line reason =
     (let at_line = name @ '':'' @ show_int line_number in
      if reason = ''malformed'' then ''ignored malformed '' @ at_line @ '': '' @ ae_json_error e line
      else ''ignored '' @ reason @ '' in '' @ at_line)"

definition add_timing :: "int \<Rightarrow> (string \<times> json) list \<Rightarrow> timeline_bucket list \<Rightarrow> timeline_bucket list" where
  "add_timing runtime_max event buckets =
     (case (jget event ''timestamp_ns'', jget event ''duration_ns'') of
        (JInt timestamp, JInt duration) \<Rightarrow>
          if 0 \<le> timestamp \<and> 0 \<le> duration
          then (let n = nat (min 49 (timestamp * 50 div max runtime_max 1)); b = buckets ! n
                in buckets[n := b\<lparr>tb_calls := tb_calls b + 1, tb_duration_ns := tb_duration_ns b + duration\<rparr>])
          else buckets
      | _ \<Rightarrow> buckets)"

definition add_message :: "int \<times> int \<Rightarrow> int \<Rightarrow> ((int \<times> int) \<times> int \<times> int) list \<Rightarrow> ((int \<times> int) \<times> int \<times> int) list" where
  "add_message k payload edges =
     (case map_of edges k of
        None \<Rightarrow> AList.update k (payload, 1) edges
      | Some (bytes, messages) \<Rightarrow> AList.update k (bytes + payload, messages + 1) edges)"

text \<open>The endpoints and the size of a send, when they are valid.\<close>

definition send_of :: "int \<Rightarrow> (string \<times> json) list \<Rightarrow> ((int \<times> int) \<times> int) option" where
  "send_of world_size event =
     (case (jget event ''rank'', jget event ''peer'', jget event ''payload_bytes'') of
        (JInt source, JInt destination, JInt payload) \<Rightarrow>
          if 0 \<le> source \<and> source < world_size \<and> 0 \<le> destination \<and> destination < world_size \<and> 0 \<le> payload
          then Some ((source, destination), payload) else None
      | _ \<Rightarrow> None)"

definition record_event ::
  "analysis_environment \<Rightarrow> int \<Rightarrow> int \<Rightarrow> string \<Rightarrow> (string \<times> json) list \<Rightarrow> event_scan \<Rightarrow> event_scan result" where
  "record_event e world_size runtime_max at_line event st =
     (if \<not> equals_int e (get_default event ''error_code'' (JInt 0)) 0 then Inr st
      else (let st1 = st\<lparr>es_timeline := add_timing runtime_max event (es_timeline st)\<rparr> in
        bindE (in_set (jget event ''operation'') [''MPI_Send'', ''MPI_Isend'']) (\<lambda>send.
          if \<not> send then Inr st1
          else (case send_of world_size event of
              None \<Rightarrow> Inr (warn (''ignored invalid send event in '' @ at_line) st1)
            | Some (k, payload) \<Rightarrow> Inr (st1\<lparr>es_edges := add_message k payload (es_edges st1)\<rparr>)))))"

fun scan_lines ::
  "analysis_environment \<Rightarrow> int \<Rightarrow> int \<Rightarrow> string \<Rightarrow> int \<Rightarrow> int \<Rightarrow> int \<Rightarrow> string list \<Rightarrow> event_scan \<Rightarrow> event_scan result" where
  "scan_lines e world_size runtime_max name rank line_number last_sequence [] st = Inr st"
| "scan_lines e world_size runtime_max name rank line_number last_sequence (line # lines) st =
     (case check_event e rank last_sequence line of
        (Rejected reason, sequence) \<Rightarrow>
          scan_lines e world_size runtime_max name rank (line_number + 1) sequence lines
            (warn (rejection e name line_number line reason) st)
      | (Accepted event, sequence) \<Rightarrow>
          bindE (record_event e world_size runtime_max (name @ '':'' @ show_int line_number) event st)
            (scan_lines e world_size runtime_max name rank (line_number + 1) sequence lines))"

text \<open>Iterating a text file: newlines are translated, and each line keeps its terminator.\<close>

fun universal_newlines :: "string \<Rightarrow> string" where
  "universal_newlines [] = []"
| "universal_newlines (c # cs) =
     (if c = CR then LF # (case cs of [] \<Rightarrow> []
        | d # ds \<Rightarrow> if d = LF then universal_newlines ds else universal_newlines cs)
      else c # universal_newlines cs)"

fun keep_lines :: "string \<Rightarrow> string \<Rightarrow> string list" where
  "keep_lines acc [] = (if acc = [] then [] else [rev acc])"
| "keep_lines acc (c # cs) = (if c = LF then rev (c # acc) # keep_lines [] cs else keep_lines (c # acc) cs)"

definition text_lines :: "string \<Rightarrow> string list" where
  "text_lines s = keep_lines [] (universal_newlines s)"

text \<open>\<open>int(name.split("-", 2)[1])\<close> of a name that starts with \<open>rank-\<close>.\<close>

definition rank_of_name :: "string \<Rightarrow> int option" where
  "rank_of_name name = py_int (takeWhile (\<lambda>c. c \<noteq> CHR ''-'') (drop 5 name))"

definition scan_file :: "analysis_environment \<Rightarrow> int \<Rightarrow> int \<Rightarrow> string \<times> file_text \<Rightarrow> event_scan \<Rightarrow> event_scan result" where
  "scan_file e world_size runtime_max entry st =
     (case entry of (name, t) \<Rightarrow>
       (case rank_of_name name of
          None \<Rightarrow> Inr (st\<lparr>es_warnings := es_warnings st @ [''ignored event file with invalid rank name: '' @ name]\<rparr>)
        | Some rank \<Rightarrow>
            (case t of
               Unreadable m \<Rightarrow> Inr (st\<lparr>es_warnings := es_warnings st @ [''could not read '' @ name @ '': '' @ m]\<rparr>)
             | Undecodable m \<Rightarrow> Inl (UnicodeErr m)
             | Text s \<Rightarrow> scan_lines e world_size runtime_max name rank 1 (- 1) (text_lines s) st)))"

fun scan_files :: "analysis_environment \<Rightarrow> int \<Rightarrow> int \<Rightarrow> (string \<times> file_text) list \<Rightarrow> event_scan \<Rightarrow> event_scan result" where
  "scan_files e world_size runtime_max [] st = Inr st"
| "scan_files e world_size runtime_max (entry # entries) st =
     bindE (scan_file e world_size runtime_max entry st) (scan_files e world_size runtime_max entries)"

definition edge_of :: "int \<Rightarrow> (int \<times> int) \<times> int \<times> int \<Rightarrow> CommunicationEdge result" where
  "edge_of denominator item =
     (case item of ((source, destination), bytes, messages) \<Rightarrow>
        bindE (true_div bytes denominator) (\<lambda>share.
          Inr \<lparr>ce_source = source, ce_destination = destination, ce_bytes = bytes, ce_messages = messages, ce_traffic_share = share\<rparr>))"

definition load_communication_edges ::
  "analysis_environment \<Rightarrow> capture_directory \<Rightarrow> int \<Rightarrow> string list \<Rightarrow> int \<Rightarrow> timeline_bucket list \<Rightarrow> int
   \<Rightarrow> (CommunicationEdge list \<times> string list \<times> timeline_bucket list) result" where
  "load_communication_edges e d total_bytes_sent warnings world_size buckets runtime_max =
     bindE (scan_files e world_size runtime_max (glob_rank ''-events.jsonl'' d)
              \<lparr>es_edges = [], es_timeline = buckets, es_warnings = warnings\<rparr>) (\<lambda>st.
     bindE (mapE (edge_of (if total_bytes_sent = 0 then 1 else total_bytes_sent)) (es_edges st)) (\<lambda>edges.
       Inr (sort_key (\<lambda>x. - ce_bytes x) edges, es_warnings st, es_timeline st)))"

section \<open>Aggregation and findings\<close>

definition add_stats :: "OperationStats \<Rightarrow> OperationStats \<Rightarrow> OperationStats" where
  "add_stats a b = \<lparr>os_calls = os_calls a + os_calls b, os_duration_ns = os_duration_ns a + os_duration_ns b,
     os_payload_bytes = os_payload_bytes a + os_payload_bytes b\<rparr>"

definition add_operation ::
  "string \<times> OperationStats \<Rightarrow> (string \<times> OperationStats) list \<Rightarrow> (string \<times> OperationStats) list" where
  "add_operation item totals = (case item of (name, st) \<Rightarrow>
     AList.update name (case map_of totals name of None \<Rightarrow> st | Some old \<Rightarrow> add_stats old st) totals)"

definition aggregate_operations :: "RankSummary list \<Rightarrow> (string \<times> OperationStats) list" where
  "aggregate_operations summaries = sort_key fst (fold (\<lambda>s. fold add_operation (rk_operations s)) summaries [])"

record Finding =
  fi_severity :: string
  fi_category :: string
  fi_title :: string
  fi_evidence :: string
  fi_recommendation :: string

record coverage_view =
  cv_summary :: string
  cv_event_detail :: string
  cv_request_lifecycle :: string
  cv_partitioned_requests :: string
  cv_reasons :: "string list"

record rank_view =
  rv_rank :: int
  rv_hostname :: string
  rv_runtime_ns :: int
  rv_mpi_time_ns :: int
  rv_context :: "(string \<times> string) list"
  rv_complete :: bool

record AnalysisResult =
  an_source :: string
  an_world_size :: int
  an_ranks_observed :: int
  an_runtime_median_ns :: int
  an_runtime_max_ns :: int
  an_mpi_time_ns :: int
  an_aggregate_runtime_ns :: int
  an_mpi_fraction :: rat
  an_imbalance_ratio :: rat
  an_straggler_threshold :: rat
  an_straggler_ranks :: "int list"
  an_operations :: "(string \<times> OperationStats) list"
  an_communication_edges :: "CommunicationEdge list"
  an_rank_runtimes :: "(int \<times> int) list"
  an_findings :: "Finding list"
  an_warnings :: "string list"
  an_coverage :: coverage_view
  an_schema_version :: int
  an_synthetic :: bool
  an_complete :: bool
  an_metadata :: "(string \<times> json) list"
  an_ranks :: "rank_view list"
  an_timeline :: "timeline_bucket list"


text \<open>A float literal is the nearest double.\<close>

definition literal :: "rat \<Rightarrow> rat" where
  "literal q = round_double q"

definition straggler_findings :: "AnalysisResult \<Rightarrow> Finding list" where
  "straggler_findings r =
     (if an_straggler_ranks r = [] then []
      else [\<lparr>fi_severity = ''warning'', fi_category = ''imbalance'', fi_title = ''Runtime stragglers detected'',
        fi_evidence = ''Ranks '' @ join '', '' (map show_int (an_straggler_ranks r)) @ '' ran at least ''
          @ fixed 2 (an_straggler_threshold r) @ ''x the median; maximum/median is '' @ fixed 2 (an_imbalance_ratio r) @ ''x.'',
        fi_recommendation = ''Correlate these ranks with CPU affinity, NUMA locality, per-rank work, and node placement before changing resources.''\<rparr>])"

definition share_findings ::
  "AnalysisResult \<Rightarrow> string \<Rightarrow> rat \<Rightarrow> string \<Rightarrow> string \<Rightarrow> string \<Rightarrow> Finding list result" where
  "share_findings r operation threshold category title recommendation =
     (case map_of (an_operations r) operation of
        None \<Rightarrow> Inr []
      | Some st \<Rightarrow>
          bindE (true_div (os_duration_ns st) (if an_aggregate_runtime_ns r = 0 then 1 else an_aggregate_runtime_ns r)) (\<lambda>share.
            Inr (if share < literal threshold then []
              else [\<lparr>fi_severity = ''warning'', fi_category = category, fi_title = title,
                fi_evidence = operation @ '' accounts for '' @ percent 1 share @ '' of aggregate rank runtime.'',
                fi_recommendation = recommendation\<rparr>])))"

definition scaling_findings :: "AnalysisResult \<Rightarrow> Finding list" where
  "scaling_findings r =
     (if an_mpi_fraction r < literal (1 / 2) then []
      else [\<lparr>fi_severity = ''info'', fi_category = ''scaling'', fi_title = ''Communication dominates aggregate runtime'',
        fi_evidence = ''Instrumented MPI calls account for '' @ percent 1 (an_mpi_fraction r) @ '' of rank time.'',
        fi_recommendation = ''Run a controlled rank-count sweep. Fewer ranks or larger work units may improve efficiency if this workload has crossed its strong-scaling limit.''\<rparr>])"

definition hotspot_findings :: "AnalysisResult \<Rightarrow> Finding list" where
  "hotspot_findings r =
     (case an_communication_edges r of
        [] \<Rightarrow> []
      | edge # _ \<Rightarrow>
          if ce_traffic_share edge < literal (35 / 100) then []
          else [\<lparr>fi_severity = ''warning'', fi_category = ''communication'', fi_title = ''Point-to-point traffic hotspot detected'',
            fi_evidence = ''Rank '' @ show_int (ce_source edge) @ '' to rank '' @ show_int (ce_destination edge) @ '' carries ''
              @ percent 1 (ce_traffic_share edge) @ '' of observed MPI_Send payload bytes.'',
            fi_recommendation = ''Review decomposition and neighbor mapping, then compare placement-aware and baseline runs using identical workload metadata.''\<rparr>])"

definition no_finding :: Finding where
  "no_finding = \<lparr>fi_severity = ''ok'', fi_category = ''summary'', fi_title = ''No configured rule crossed its threshold'',
     fi_evidence = ''The captured operations do not show a dominant bottleneck under the current rules.'',
     fi_recommendation = ''Treat this as an absence of detected evidence, not proof of optimal performance; compare against a controlled scaling baseline.''\<rparr>"

definition make_findings :: "AnalysisResult \<Rightarrow> Finding list result" where
  "make_findings r =
     bindE (share_findings r ''MPI_Allreduce'' (15 / 100) ''collectives'' ''Allreduce is a major runtime component''
       ''Measure whether reductions can be fused or called less often, then benchmark topology-aware collective tuning with scientific output held constant.'') (\<lambda>allreduce.
     bindE (share_findings r ''MPI_Barrier'' (10 / 100) ''synchronization'' ''Barrier wait is substantial''
       ''Inspect work completed immediately before each barrier; optimize the slowest path or remove redundant synchronization only after validating correctness.'') (\<lambda>barrier.
       let findings = straggler_findings r @ allreduce @ barrier @ scaling_findings r @ hotspot_findings r
       in Inr (if findings = [] then [no_finding] else findings)))"

section \<open>The analysis\<close>

text \<open>\<open>int(statistics.median(xs))\<close> of non-negative integers: the mean of the two middle values is a float.\<close>

definition int_median :: "int list \<Rightarrow> int result" where
  "int_median xs =
     (let s = sort xs; n = length s in
      if odd n then Inr (s ! (n div 2))
      else bindE (true_div (s ! (n div 2 - 1) + s ! (n div 2)) 2) (\<lambda>m. Inr \<lfloor>m\<rfloor>))"

fun stragglers_of :: "int \<Rightarrow> rat \<Rightarrow> RankSummary list \<Rightarrow> int list result" where
  "stragglers_of median_runtime threshold [] = Inr []"
| "stragglers_of median_runtime threshold (s # ss) =
     (if median_runtime \<le> 0 then stragglers_of median_runtime threshold ss
      else bindE (true_div (rk_runtime_ns s) median_runtime) (\<lambda>ratio.
           bindE (stragglers_of median_runtime threshold ss) (\<lambda>ranks.
             Inr (if threshold \<le> ratio then rk_rank s # ranks else ranks))))"

definition context_value :: "string \<Rightarrow> string \<Rightarrow> RankSummary \<Rightarrow> string" where
  "context_value k d s = (case map_of (rk_context s) k of None \<Rightarrow> d | Some v \<Rightarrow> v)"

definition run_ids :: "RankSummary list \<Rightarrow> string list" where
  "run_ids summaries = remdups (filter (\<lambda>i. i \<noteq> []) (map (context_value ''run_id'' []) summaries))"

text \<open>\<open>bool(v)\<close>.\<close>

definition truth :: "analysis_environment \<Rightarrow> json \<Rightarrow> bool" where
  "truth e v = (case v of JNull \<Rightarrow> False | JBool b \<Rightarrow> b | JInt i \<Rightarrow> i \<noteq> 0 | JFloat r \<Rightarrow> ae_float e r \<noteq> Finite 0 | JStr s \<Rightarrow> s \<noteq> []
     | JArr xs \<Rightarrow> xs \<noteq> [] | JObj kvs \<Rightarrow> kvs \<noteq> [])"

definition check_identities :: "analysis_environment \<Rightarrow> RankSummary list \<Rightarrow> (string \<times> json) list \<Rightarrow> unit result" where
  "check_identities e summaries metadata =
     (let ids = run_ids summaries; v = jget metadata ''run_id'' in
      if length ids > 1 then Inl (TelemetryError ''mixed run identities in capture'')
      else if ids \<noteq> [] \<and> truth e v
      then bindE (in_set v ids) (\<lambda>known.
        if known then Inr () else Inl (TelemetryError ''mixed run identities in capture''))
      else Inr ())"

definition read_metadata :: "analysis_environment \<Rightarrow> capture_directory \<Rightarrow> (string \<times> json) list result" where
  "read_metadata e d =
     (case map_of (cd_entries d) ''run.json'' of
        None \<Rightarrow> Inr []
      | Some (Text s) \<Rightarrow>
          (case loads e s of
             None \<Rightarrow> Inl (TelemetryError (''cannot read run metadata: '' @ ae_json_error e s))
           | Some (JObj items) \<Rightarrow> Inr items
           | Some _ \<Rightarrow> Inl (TelemetryError ''cannot read run metadata: root must be an object''))
      | Some (Unreadable m) \<Rightarrow> Inl (TelemetryError (''cannot read run metadata: '' @ m))
      | Some (Undecodable m) \<Rightarrow> Inl (TelemetryError (''cannot read run metadata: '' @ m)))"

text \<open>What the summaries and the metadata say of the capture, before the events are read.\<close>

record capture_flags =
  cf_complete :: bool
  cf_launcher_failed :: bool
  cf_has_events :: bool
  cf_events_dropped :: bool
  cf_overflow_known :: bool
  cf_overflow :: bool
  cf_writer_failed :: bool

definition flags_of ::
  "analysis_environment \<Rightarrow> capture_directory \<Rightarrow> RankSummary list \<Rightarrow> (string \<times> json) list \<Rightarrow> capture_flags" where
  "flags_of e d summaries metadata =
     \<lparr>cf_complete = (int (length summaries) = rk_world_size (hd summaries) \<and> list_all rk_complete summaries),
      cf_launcher_failed = (\<not> equals_int e (get_default metadata ''return_code'' (JInt 0)) 0),
      cf_has_events = (glob_rank ''-events.jsonl'' d \<noteq> []),
      cf_events_dropped = list_ex (\<lambda>s. context_value ''events_dropped'' ''0'' s \<noteq> ''0'') summaries,
      cf_overflow_known = list_all (\<lambda>s. map_of (rk_context s) ''request_tracking_overflows'' \<noteq> None) summaries,
      cf_overflow = list_ex (\<lambda>s. context_value ''request_tracking_overflows'' ''0'' s \<noteq> ''0'') summaries,
      cf_writer_failed = list_ex (\<lambda>s. map_of (rk_context s) ''writer_failed'' = Some ''true'') summaries\<rparr>"

definition capture_complete :: "capture_flags \<Rightarrow> bool" where
  "capture_complete f = (cf_complete f \<and> \<not> cf_launcher_failed f)"

definition capture_warnings :: "RankSummary list \<Rightarrow> capture_flags \<Rightarrow> string list" where
  "capture_warnings summaries f =
     (if int (length summaries) \<noteq> rk_world_size (hd summaries)
      then [''expected '' @ show_int (rk_world_size (hd summaries)) @ '' rank summaries but found '' @ show_int (int (length summaries))] else [])
     @ (if cf_complete f then [] else [''capture is incomplete; runtimes and findings describe partial evidence''])
     @ (if cf_events_dropped f then [''event limit reached; communication edges and timeline are partial, operation totals remain complete''] else [])
     @ (if cf_overflow f then [''request tracking limit reached; request lifecycle completion evidence is partial, API operation totals remain complete''] else [])
     @ (if cf_writer_failed f then [''background event writer failed; event detail may be incomplete''] else [])
     @ (if cf_has_events f then [] else [''no event streams; communication and timeline coverage unavailable''])
     @ (if cf_launcher_failed f then [''launcher did not complete successfully; review run metadata''] else [])"

definition overlap_warnings :: "RankSummary list \<Rightarrow> string list" where
  "overlap_warnings summaries =
     (if sum_list (map rk_mpi_time_ns summaries) > sum_list (map rk_runtime_ns summaries)
      then [''summed MPI call time exceeds wall time; concurrent threads may overlap''] else [])"

definition coverage_of :: "RankSummary list \<Rightarrow> capture_flags \<Rightarrow> bool \<Rightarrow> coverage_view" where
  "coverage_of summaries f rejected =
     (let capabilities = remdups (map (context_value ''partitioned_requests'' ''unknown'') summaries) in
      \<lparr>cv_summary = (if capture_complete f then ''complete'' else ''partial''),
       cv_event_detail = (if \<not> cf_has_events f then ''unavailable''
         else if cf_events_dropped f \<or> cf_writer_failed f \<or> rejected then ''partial'' else ''observed''),
       cv_request_lifecycle = (if cf_overflow f then ''partial'' else if cf_overflow_known f then ''observed'' else ''unknown''),
       cv_partitioned_requests = (case capabilities of [c] \<Rightarrow> c | _ \<Rightarrow> ''unknown''),
       cv_reasons = (if capture_complete f then [] else [''capture_incomplete''])
         @ (if cf_has_events f then [] else [''event_stream_unavailable''])
         @ (if cf_events_dropped f then [''event_limit_reached''] else [])
         @ (if cf_writer_failed f then [''event_writer_failed''] else [])
         @ (if rejected then [''event_records_rejected''] else [])
         @ (if cf_overflow f then [''request_tracking_limit_reached''] else [])\<rparr>)"

definition ratio_or_zero :: "int \<Rightarrow> int \<Rightarrow> rat result" where
  "ratio_or_zero a b = (if b = 0 then Inr 0 else true_div a b)"

definition rank_view_of :: "RankSummary \<Rightarrow> rank_view" where
  "rank_view_of s = \<lparr>rv_rank = rk_rank s, rv_hostname = rk_hostname s, rv_runtime_ns = rk_runtime_ns s,
     rv_mpi_time_ns = rk_mpi_time_ns s, rv_context = rk_context s, rv_complete = rk_complete s\<rparr>"

definition empty_timeline :: "int \<Rightarrow> timeline_bucket list" where
  "empty_timeline maximum = map (\<lambda>i. \<lparr>tb_timestamp_ns = maximum * int i div 50, tb_calls = 0, tb_duration_ns = 0\<rparr>) [0..<50]"

definition analyze_summaries ::
  "analysis_environment \<Rightarrow> capture_directory \<Rightarrow> rat \<Rightarrow> RankSummary list \<Rightarrow> AnalysisResult result" where
  "analyze_summaries e d threshold summaries =
     (let runtimes = map rk_runtime_ns summaries; maximum = Max (set runtimes); aggregate = sum_list runtimes;
          mpi_time = sum_list (map rk_mpi_time_ns summaries) in
      bindE (int_median runtimes) (\<lambda>median_runtime.
      bindE (stragglers_of median_runtime threshold summaries) (\<lambda>stragglers.
      bindE (read_metadata e d) (\<lambda>metadata.
      bindE (check_identities e summaries metadata) (\<lambda>_.
        let f = flags_of e d summaries metadata; warnings = capture_warnings summaries f @ overlap_warnings summaries in
      bindE (load_communication_edges e d (sum_list (map rk_bytes_sent summaries)) warnings (rk_world_size (hd summaries))
               (empty_timeline maximum) maximum) (\<lambda>(edges, warnings', buckets).
      bindE (ratio_or_zero mpi_time aggregate) (\<lambda>fraction.
      bindE (ratio_or_zero maximum median_runtime) (\<lambda>imbalance.
        let result = \<lparr>an_source = cd_path d, an_world_size = rk_world_size (hd summaries), an_ranks_observed = int (length summaries),
          an_runtime_median_ns = median_runtime, an_runtime_max_ns = maximum, an_mpi_time_ns = mpi_time,
          an_aggregate_runtime_ns = aggregate, an_mpi_fraction = fraction, an_imbalance_ratio = imbalance,
          an_straggler_threshold = threshold, an_straggler_ranks = sort stragglers,
          an_operations = aggregate_operations summaries, an_communication_edges = edges,
          an_rank_runtimes = sort (map (\<lambda>s. (rk_rank s, rk_runtime_ns s)) summaries), an_findings = [],
          an_warnings = warnings', an_coverage = coverage_of summaries f (length warnings' > length warnings),
          an_schema_version = 1, an_synthetic = list_ex rk_synthetic summaries, an_complete = capture_complete f,
          an_metadata = metadata, an_ranks = map rank_view_of (sort_key rk_rank summaries), an_timeline = buckets\<rparr>
        in bindE (make_findings result) (\<lambda>findings. Inr (result\<lparr>an_findings := findings\<rparr>))))))))))"

definition analyze :: "analysis_environment \<Rightarrow> capture_directory \<Rightarrow> py_float \<Rightarrow> AnalysisResult result" where
  "analyze e d straggler_threshold =
     (case straggler_threshold of
        Finite t \<Rightarrow>
          if t \<le> 1 then Inl (ValueError ''straggler_threshold must be greater than 1.0'')
          else bindE (load_summaries e d) (analyze_summaries e d t)
      | _ \<Rightarrow> Inl (ValueError ''straggler_threshold must be greater than 1.0''))"


section \<open>Well-formed summaries\<close>

definition stats_valid :: "OperationStats \<Rightarrow> bool" where
  "stats_valid st = (0 \<le> os_calls st \<and> 0 \<le> os_duration_ns st \<and> 0 \<le> os_payload_bytes st)"

definition summary_valid :: "RankSummary \<Rightarrow> bool" where
  "summary_valid s = (0 \<le> rk_rank s \<and> rk_rank s < rk_world_size s \<and> 0 \<le> rk_pid s \<and> 0 \<le> rk_runtime_ns s
     \<and> 0 \<le> rk_mpi_time_ns s \<and> 0 \<le> rk_mpi_calls s \<and> 0 \<le> rk_bytes_sent s \<and> 0 \<le> rk_bytes_received s
     \<and> list_all (\<lambda>(name, st). stats_valid st) (rk_operations s))"

text \<open>The calls that the operations of one kind record.\<close>

definition calls_of_kind :: "string \<Rightarrow> (string \<times> json) list \<Rightarrow> (string \<times> OperationStats) list \<Rightarrow> int" where
  "calls_of_kind kind raw ops = sum_list (map (\<lambda>((name, v), (n, st)).
     case v of JObj r \<Rightarrow> if jget r ''record_kind'' = JStr kind then os_calls st else 0 | _ \<Rightarrow> 0) (zip raw ops))"

lemma required_int_Inr: "required_int data k path = Inr n \<longleftrightarrow> jget data k = JInt n \<and> 0 \<le> n"
  by (auto simp: required_int_def telemetry_error_def split: json.splits)

lemma parse_stats_valid: "parse_stats raw path = Inr st \<Longrightarrow> stats_valid st"
  by (auto simp: parse_stats_def bindE_Inr_iff required_int_Inr stats_valid_def)

lemma if_error_Inr: "((if P then telemetry_error path m else X) = Inr s) = (\<not> P \<and> X = Inr s)"
  by (simp add: telemetry_error_def)

lemma case_JObj_Inr:
  "((case v of JObj r \<Rightarrow> f r | _ \<Rightarrow> telemetry_error path m) = Inr s) = (\<exists>r. v = JObj r \<and> f r = Inr s)"
  by (cases v) (auto simp: telemetry_error_def)

lemma case_JStr_Inr:
  "((case v of JStr r \<Rightarrow> f r | _ \<Rightarrow> telemetry_error path m) = Inr s) = (\<exists>r. v = JStr r \<and> f r = Inr s)"
  by (cases v) (auto simp: telemetry_error_def)

lemmas parse_simps = bindE_Inr_iff case_JObj_Inr case_JStr_Inr if_error_Inr

lemma parse_operations_Cons:
  "parse_operations schema path ((name, v) # items) api c = Inr x \<longleftrightarrow>
     (\<exists>raw a b st ops api' c'. v = JObj raw \<and> kind_calls schema raw name path = Inr (a, b) \<and> parse_stats raw path = Inr st
       \<and> parse_operations schema path items (api + a) (c + b) = Inr (ops, api', c') \<and> x = ((name, st) # ops, api', c'))"
  by (auto simp: bindE_Inr_iff case_JObj_Inr)

declare parse_operations.simps(2) [simp del]

lemma parse_operations_valid:
  "parse_operations schema path raw api c = Inr (ops, api', c') \<Longrightarrow>
     map fst ops = map fst raw \<and> list_all (\<lambda>(name, st). stats_valid st) ops"
proof (induction raw arbitrary: api c ops)
  case (Cons item raw)
  then show ?case
    by (cases item) (fastforce simp: parse_operations_Cons dest: parse_stats_valid)
qed simp

lemma in_set_Inr_True: "in_set v names = Inr True \<longleftrightarrow> (\<exists>s. v = JStr s \<and> s \<in> set names)"
  by (auto simp: in_set_def split: json.splits)

lemma kind_calls_two:
  "kind_calls 2 raw name path = Inr (a, c) \<Longrightarrow> parse_stats raw path = Inr st \<Longrightarrow>
     a = (if jget raw ''record_kind'' = JStr ''api_call'' then os_calls st else 0)
     \<and> c = (if jget raw ''record_kind'' = JStr ''request_completion'' then os_calls st else 0)"
  by (auto simp: kind_calls_def parse_stats_def bindE_Inr_iff required_int_Inr telemetry_error_def split: if_splits
      dest!: in_set_Inr_True [THEN iffD1])

lemma parse_operations_counts:
  "parse_operations 2 path raw api c = Inr (ops, api', c') \<Longrightarrow>
     api' = api + calls_of_kind ''api_call'' raw ops \<and> c' = c + calls_of_kind ''request_completion'' raw ops"
proof (induction raw arbitrary: api c ops api' c')
  case Nil
  then show ?case by (simp add: calls_of_kind_def)
next
  case (Cons item raw)
  obtain name v where item: "item = (name, v)" by (cases item)
  from Cons.prems obtain r a b st ops' where v: "v = JObj r" and k: "kind_calls 2 r name path = Inr (a, b)"
    and st: "parse_stats r path = Inr st" and rest: "parse_operations 2 path raw (api + a) (c + b) = Inr (ops', api', c')"
    and ops: "ops = (name, st) # ops'"
    by (auto simp: item parse_operations_Cons)
  show ?case using Cons.IH [OF rest] kind_calls_two [OF k st] by (simp add: item v ops calls_of_kind_def)
qed

lemma check_accounting_two:
  "check_accounting 2 data path api c = Inr u \<longleftrightarrow> jget data ''mpi_calls'' = JInt api \<and> 0 \<le> api
     \<and> jget data ''request_completions'' = JInt c \<and> 0 \<le> c"
  by (auto simp: check_accounting_def bindE_Inr_iff required_int_Inr telemetry_error_def)

lemma check_schema_Inr: "check_schema data path = Inr n \<longleftrightarrow> jget data ''schema_version'' = JInt n \<and> n \<in> {1, 2}"
  by (auto simp: check_schema_def telemetry_error_def split: json.splits)

lemma parse_summary_Inr:
  assumes "parse_summary data path = Inr s"
  obtains schema raw api c where "check_schema data path = Inr schema" "jget data ''operations'' = JObj raw"
    "parse_operations schema path raw 0 0 = Inr (rk_operations s, api, c)" "check_accounting schema data path api c = Inr ()"
    "rk_rank s < rk_world_size s" "required_int data ''rank'' path = Inr (rk_rank s)"
    "required_int data ''world_size'' path = Inr (rk_world_size s)" "required_int data ''pid'' path = Inr (rk_pid s)"
    "required_int data ''runtime_ns'' path = Inr (rk_runtime_ns s)" "required_int data ''mpi_time_ns'' path = Inr (rk_mpi_time_ns s)"
    "required_int data ''mpi_calls'' path = Inr (rk_mpi_calls s)" "required_int data ''bytes_sent'' path = Inr (rk_bytes_sent s)"
    "required_int data ''bytes_received'' path = Inr (rk_bytes_received s)"
  using assms unfolding parse_summary_def by (clarsimp simp: parse_simps)

lemma parse_summary_valid:
  assumes "parse_summary data path = Inr s"
  shows "summary_valid s"
  using assms by (rule parse_summary_Inr) (auto simp: summary_valid_def required_int_Inr dest: parse_operations_valid)

lemma parse_summary_accounting:
  assumes "parse_summary data path = Inr s" "jget data ''schema_version'' = JInt 2"
  shows "\<exists>raw. jget data ''operations'' = JObj raw \<and> map fst (rk_operations s) = map fst raw
    \<and> rk_mpi_calls s = calls_of_kind ''api_call'' raw (rk_operations s)
    \<and> jget data ''request_completions'' = JInt (calls_of_kind ''request_completion'' raw (rk_operations s))"
  using assms(1)
proof (rule parse_summary_Inr)
  fix schema raw api c
  assume *: "check_schema data path = Inr schema" "jget data ''operations'' = JObj raw"
    "parse_operations schema path raw 0 0 = Inr (rk_operations s, api, c)" "check_accounting schema data path api c = Inr ()"
    "required_int data ''mpi_calls'' path = Inr (rk_mpi_calls s)"
  then have "schema = 2" using assms(2) by (simp add: check_schema_Inr)
  with * parse_operations_valid parse_operations_counts [of path raw 0 0] show ?thesis
    by (auto simp: check_accounting_two required_int_Inr)
qed

lemma load_summary_Inr:
  "load_summary e path t = Inr s \<longleftrightarrow> (\<exists>x data. t = Text x \<and> loads e x = Some (JObj data) \<and> parse_summary data path = Inr s)"
  by (auto simp: load_summary_def telemetry_error_def split: file_text.splits option.splits json.splits)

lemma load_summaries_Inr:
  assumes "load_summaries e d = Inr ss"
  shows "ss \<noteq> []" "distinct (map rk_rank ss)" "\<And>s. s \<in> set ss \<Longrightarrow> rk_world_size s = rk_world_size (hd ss)"
    "\<And>s. s \<in> set ss \<Longrightarrow> summary_valid s"
proof -
  from assms have m: "mapE (\<lambda>(name, t). load_summary e (path_of d name) t) (glob_rank ''-summary.json'' d) = Inr ss"
    and ne: "glob_rank ''-summary.json'' d \<noteq> []" and rest: "distinct (map rk_rank ss)"
    "list_all (\<lambda>s. rk_world_size s = rk_world_size (hd ss)) ss"
    by (auto simp: load_summaries_def bindE_Inr_iff Let_def split: if_splits)
  show "ss \<noteq> []" using mapE_Inr_length [OF m] ne by auto
  show "distinct (map rk_rank ss)" by (rule rest)
  show "rk_world_size s = rk_world_size (hd ss)" if "s \<in> set ss" for s using rest(2) that by (simp add: list_all_iff)
  show "summary_valid s" if "s \<in> set ss" for s
  proof -
    from that obtain i where i: "i < length ss" "ss ! i = s" by (auto simp: in_set_conv_nth)
    from mapE_Inr_nth [OF m, of i] i mapE_Inr_length [OF m] show ?thesis
      by (auto simp: load_summary_Inr split: prod.splits intro: parse_summary_valid)
  qed
qed


section \<open>The lines of an event file\<close>

text \<open>What each line of a file is found to be; the sequence check carries the last number from line to line.\<close>

fun judged :: "analysis_environment \<Rightarrow> int \<Rightarrow> int \<Rightarrow> string list \<Rightarrow> event_check list" where
  "judged e rank last_sequence [] = []"
| "judged e rank last_sequence (line # lines) =
     (case check_event e rank last_sequence line of (c, sequence) \<Rightarrow> c # judged e rank sequence lines)"

definition succeeded :: "analysis_environment \<Rightarrow> (string \<times> json) list \<Rightarrow> bool" where
  "succeeded e event = equals_int e (get_default event ''error_code'' (JInt 0)) 0"

definition is_send :: "(string \<times> json) list \<Rightarrow> bool" where
  "is_send event = (jget event ''operation'' \<in> {JStr ''MPI_Send'', JStr ''MPI_Isend''})"

fun sent :: "analysis_environment \<Rightarrow> int \<Rightarrow> event_check \<Rightarrow> ((int \<times> int) \<times> int) list" where
  "sent e world_size (Rejected reason) = []"
| "sent e world_size (Accepted event) =
     (if succeeded e event \<and> is_send event then (case send_of world_size event of None \<Rightarrow> [] | Some x \<Rightarrow> [x]) else [])"

fun refused :: "analysis_environment \<Rightarrow> int \<Rightarrow> event_check \<Rightarrow> bool" where
  "refused e world_size (Rejected reason) = True"
| "refused e world_size (Accepted event) = (succeeded e event \<and> is_send event \<and> send_of world_size event = None)"

fun timed :: "analysis_environment \<Rightarrow> event_check \<Rightarrow> (int \<times> int) list" where
  "timed e (Rejected reason) = []"
| "timed e (Accepted event) =
     (case (succeeded e event, jget event ''timestamp_ns'', jget event ''duration_ns'') of
        (True, JInt t, JInt d) \<Rightarrow> if 0 \<le> t \<and> 0 \<le> d then [(t, d)] else []
      | _ \<Rightarrow> [])"

text \<open>What the files of a directory hold.\<close>

definition file_judgements :: "analysis_environment \<Rightarrow> string \<times> file_text \<Rightarrow> event_check list" where
  "file_judgements e entry =
     (case entry of (name, Text s) \<Rightarrow>
        (case rank_of_name name of None \<Rightarrow> [] | Some rank \<Rightarrow> judged e rank (- 1) (text_lines s))
      | _ \<Rightarrow> [])"

definition file_ignored :: "string \<times> file_text \<Rightarrow> bool" where
  "file_ignored entry = (rank_of_name (fst entry) = None \<or> (\<exists>m. snd entry = Unreadable m))"

definition directory_judgements :: "analysis_environment \<Rightarrow> capture_directory \<Rightarrow> event_check list" where
  "directory_judgements e d = concat (map (file_judgements e) (glob_rank ''-events.jsonl'' d))"

subsection \<open>Edges\<close>

definition add_all :: "((int \<times> int) \<times> int) list \<Rightarrow> ((int \<times> int) \<times> int \<times> int) list \<Rightarrow> ((int \<times> int) \<times> int \<times> int) list" where
  "add_all = fold (\<lambda>(k, p). add_message k p)"

definition bytes_between :: "int \<times> int \<Rightarrow> ((int \<times> int) \<times> int) list \<Rightarrow> int" where
  "bytes_between k sends = sum_list (map snd (filter (\<lambda>x. fst x = k) sends))"

definition messages_between :: "int \<times> int \<Rightarrow> ((int \<times> int) \<times> int) list \<Rightarrow> int" where
  "messages_between k sends = int (length (filter (\<lambda>x. fst x = k) sends))"

lemma add_message_map: "map_of (add_message k p edges) = (map_of edges)(k \<mapsto>
    (case map_of edges k of None \<Rightarrow> (p, 1) | Some (b, m) \<Rightarrow> (b + p, m + 1)))"
  by (auto simp: add_message_def update_conv' split: option.splits)

lemma add_message_distinct: "distinct (map fst edges) \<Longrightarrow> distinct (map fst (add_message k p edges))"
  by (auto simp: add_message_def distinct_update split: option.splits)

lemma add_all_append: "add_all (xs @ ys) edges = add_all ys (add_all xs edges)"
  by (simp add: add_all_def)

lemma add_all_one: "add_all [(k, p)] edges = add_message k p edges"
  by (simp add: add_all_def)

lemma add_all_distinct: "distinct (map fst edges) \<Longrightarrow> distinct (map fst (add_all sends edges))"
  by (induction sends arbitrary: edges) (auto simp: add_all_def add_message_distinct)

lemma no_key_filter: "k \<notin> fst ` set sends \<Longrightarrow> filter (\<lambda>x. fst x = k) sends = []"
  by (induction sends) auto

lemma add_all_snoc: "map_of (add_all sends []) k =
    (if k \<in> fst ` set sends then Some (bytes_between k sends, messages_between k sends) else None)"
proof (induction sends rule: rev_induct)
  case (snoc x sends)
  obtain a p where x: "x = (a, p)" by (cases x)
  show ?case
    using snoc.IH no_key_filter [of k sends]
    by (cases "k \<in> fst ` set sends"; cases "k = a")
      (auto simp: x add_all_append add_all_one add_message_map bytes_between_def messages_between_def simp del: filter_empty_conv)
qed (simp add: add_all_def)

lemma in_add_all: "(k, b, m) \<in> set (add_all sends []) \<longleftrightarrow>
    k \<in> fst ` set sends \<and> b = bytes_between k sends \<and> m = messages_between k sends"
  using map_of_eq_Some_iff [OF add_all_distinct [of "[]" sends], of k "(b, m)"] by (auto simp: add_all_snoc split: if_splits)

subsection \<open>Scanning\<close>

definition timeline_calls :: "timeline_bucket list \<Rightarrow> int" where
  "timeline_calls buckets = sum_list (map tb_calls buckets)"

definition timeline_duration :: "timeline_bucket list \<Rightarrow> int" where
  "timeline_duration buckets = sum_list (map tb_duration_ns buckets)"

text \<open>What scanning lines that were judged \<open>js\<close> makes of a scan; \<open>ignored\<close> says that a whole file was left out.\<close>

definition scanned :: "analysis_environment \<Rightarrow> int \<Rightarrow> bool \<Rightarrow> event_check list \<Rightarrow> event_scan \<Rightarrow> event_scan \<Rightarrow> bool" where
  "scanned e world_size ignored js st st' \<longleftrightarrow>
     es_edges st' = add_all (concat (map (sent e world_size) js)) (es_edges st)
     \<and> (length (es_timeline st) = 50 \<longrightarrow> length (es_timeline st') = 50
          \<and> map tb_timestamp_ns (es_timeline st') = map tb_timestamp_ns (es_timeline st)
          \<and> timeline_calls (es_timeline st') = timeline_calls (es_timeline st) + int (length (concat (map (timed e) js)))
          \<and> timeline_duration (es_timeline st') = timeline_duration (es_timeline st) + sum_list (map snd (concat (map (timed e) js))))
     \<and> length (es_warnings st) \<le> length (es_warnings st')
     \<and> (length (es_warnings st) < 100 \<longrightarrow>
          (length (es_warnings st) < length (es_warnings st')) = (ignored \<or> list_ex (refused e world_size) js))"

lemma scanned_refl: "scanned e world_size False [] st st"
  by (simp add: scanned_def add_all_def)

lemma scanned_trans:
  assumes "scanned e world_size i js st st'" "scanned e world_size i' js' st' st''"
  shows "scanned e world_size (i \<or> i') (js @ js') st st''"
proof (cases "i \<or> list_ex (refused e world_size) js")
  case True
  with assms show ?thesis by (auto simp: scanned_def add_all_append)
next
  case False
  with assms(1) have "length (es_warnings st) < 100 \<Longrightarrow> length (es_warnings st') = length (es_warnings st)"
    by (auto simp: scanned_def)
  with False assms show ?thesis by (auto simp: scanned_def add_all_append)
qed

lemma sum_list_update_int:
  fixes f :: "'a \<Rightarrow> int"
  shows "n < length xs \<Longrightarrow> sum_list (map f (xs[n := y])) = sum_list (map f xs) - f (xs ! n) + f y"
  by (induction xs arbitrary: n) (auto split: nat.splits)

lemma add_timing_timed:
  assumes "length buckets = 50" "succeeded e event"
  shows "length (add_timing m event buckets) = 50"
    "map tb_timestamp_ns (add_timing m event buckets) = map tb_timestamp_ns buckets"
    "timeline_calls (add_timing m event buckets) = timeline_calls buckets + int (length (timed e (Accepted event)))"
    "timeline_duration (add_timing m event buckets)
       = timeline_duration buckets + sum_list (map snd (timed e (Accepted event)))"
proof -
  have n: "nat (min 49 (t * 50 div max m 1)) < 50" for t :: int by linarith
  show "length (add_timing m event buckets) = 50"
    using assms by (auto simp: add_timing_def Let_def split: json.splits)
  show "map tb_timestamp_ns (add_timing m event buckets) = map tb_timestamp_ns buckets"
    using assms n by (auto simp: add_timing_def Let_def map_update list_update_same_conv split: json.splits)
  show "timeline_calls (add_timing m event buckets) = timeline_calls buckets + int (length (timed e (Accepted event)))"
    using assms n by (auto simp: add_timing_def Let_def timeline_calls_def sum_list_update_int split: json.splits)
  show "timeline_duration (add_timing m event buckets)
      = timeline_duration buckets + sum_list (map snd (timed e (Accepted event)))"
    using assms n by (auto simp: add_timing_def Let_def timeline_duration_def sum_list_update_int split: json.splits)
qed

lemma scanned_warn: "refused e world_size c \<Longrightarrow> sent e world_size c = [] \<Longrightarrow> timed e c = [] \<Longrightarrow>
    scanned e world_size False [c] st (warn message st)"
  by (simp add: scanned_def warn_def add_all_def)

lemma scanned_record_event:
  assumes "record_event e world_size m at_line event st = Inr st'"
  shows "scanned e world_size False [Accepted event] st st'"
proof (cases "succeeded e event")
  case False
  with assms show ?thesis
    by (auto simp: record_event_def succeeded_def scanned_def add_all_def split: json.splits)
next
  case True
  note timing = add_timing_timed [OF _ True, of "es_timeline st" m]
  from assms True obtain send where s: "in_set (jget event ''operation'') [''MPI_Send'', ''MPI_Isend''] = Inr send"
    by (auto simp: record_event_def succeeded_def bindE_Inr_iff Let_def)
  then have i: "is_send event = send"
    by (auto simp: in_set_def is_send_def split: json.splits)
  have [simp]: "es_edges (warn x t) = es_edges t" "es_timeline (warn x t) = es_timeline t"
    "length (es_warnings (warn x t)) = (if length (es_warnings t) < 100 then Suc (length (es_warnings t)) else length (es_warnings t))"
    for x t
    by (simp_all add: warn_def)
  from assms True s show ?thesis
    by (cases "send_of world_size event"; cases send)
      (auto simp: record_event_def succeeded_def [symmetric] Let_def i timing scanned_def add_all_def split_beta
        simp del: timed.simps)
qed

lemma scanned_lines:
  "scan_lines e world_size m name rank n previous lines st = Inr st' \<Longrightarrow>
     scanned e world_size False (judged e rank previous lines) st st'"
proof (induction lines arbitrary: n previous st)
  case Nil
  then show ?case by (simp add: scanned_refl)
next
  case (Cons line lines)
  obtain c sequence where c: "check_event e rank previous line = (c, sequence)" by (cases "check_event e rank previous line")
  obtain st1 where one: "scanned e world_size False [c] st st1"
    and rest: "scan_lines e world_size m name rank (n + 1) sequence lines st1 = Inr st'"
  proof (cases c)
    case (Rejected reason)
    with Cons.prems c that [OF scanned_warn] show thesis by simp
  next
    case (Accepted event)
    with Cons.prems c that show thesis by (auto simp: bindE_Inr_iff intro: scanned_record_event)
  qed
  from scanned_trans [OF one Cons.IH [OF rest]] show ?case by (simp add: c)
qed

lemma scanned_file:
  "scan_file e world_size m entry st = Inr st' \<Longrightarrow>
     scanned e world_size (file_ignored entry) (file_judgements e entry) st st'"
  by (cases entry) (auto simp: scan_file_def file_ignored_def file_judgements_def scanned_def add_all_def
      split: option.splits file_text.splits dest!: scanned_lines)

lemma scanned_files:
  "scan_files e world_size m entries st = Inr st' \<Longrightarrow>
     scanned e world_size (list_ex file_ignored entries) (concat (map (file_judgements e) entries)) st st'"
proof (induction entries arbitrary: st)
  case (Cons entry entries)
  then obtain st1 where 1: "scan_file e world_size m entry st = Inr st1" and 2: "scan_files e world_size m entries st1 = Inr st'"
    by (auto simp: bindE_Inr_iff)
  from scanned_trans [OF scanned_file [OF 1] Cons.IH [OF 2]] show ?case by simp
qed (simp add: scanned_refl)

definition directory_sends :: "analysis_environment \<Rightarrow> int \<Rightarrow> capture_directory \<Rightarrow> ((int \<times> int) \<times> int) list" where
  "directory_sends e world_size d = concat (map (sent e world_size) (directory_judgements e d))"

definition events_rejected :: "analysis_environment \<Rightarrow> int \<Rightarrow> capture_directory \<Rightarrow> bool" where
  "events_rejected e world_size d =
     (list_ex file_ignored (glob_rank ''-events.jsonl'' d) \<or> list_ex (refused e world_size) (directory_judgements e d))"

definition edge_pair :: "CommunicationEdge \<Rightarrow> int \<times> int" where
  "edge_pair edge = (ce_source edge, ce_destination edge)"

lemma edge_of_Inr: "edge_of n ((s, t), b, m) = Inr edge \<longleftrightarrow>
    (\<exists>share. true_div b n = Inr share \<and> edge = \<lparr>ce_source = s, ce_destination = t, ce_bytes = b, ce_messages = m, ce_traffic_share = share\<rparr>)"
  by (auto simp: edge_of_def bindE_Inr_iff)

lemma mapE_elem: "mapE f xs = Inr ys \<Longrightarrow> y \<in> set ys \<Longrightarrow> \<exists>x\<in>set xs. f x = Inr y"
  by (induction xs arbitrary: ys) (auto simp: bindE_Inr_iff)

lemma mapE_map: "mapE f xs = Inr ys \<Longrightarrow> (\<And>x y. f x = Inr y \<Longrightarrow> g y = h x) \<Longrightarrow> map g ys = map h xs"
  by (induction xs arbitrary: ys) (auto simp: bindE_Inr_iff)

lemma load_communication_edges_Inr:
  assumes "load_communication_edges e d bytes_sent warnings world_size buckets m = Inr (edges, warnings', buckets')"
    "length buckets = 50" "length warnings < 100"
  shows "sorted (map (\<lambda>x. - ce_bytes x) edges)"
    "distinct (map edge_pair edges)"
    "edge_pair ` set edges = fst ` set (directory_sends e world_size d)"
    "edge \<in> set edges \<Longrightarrow> ce_bytes edge = bytes_between (edge_pair edge) (directory_sends e world_size d)
       \<and> ce_messages edge = messages_between (edge_pair edge) (directory_sends e world_size d)
       \<and> true_div (ce_bytes edge) (if bytes_sent = 0 then 1 else bytes_sent) = Inr (ce_traffic_share edge)"
    "(length warnings < length warnings') = events_rejected e world_size d"
    "length buckets' = 50"
    "map tb_timestamp_ns buckets' = map tb_timestamp_ns buckets"
    "timeline_calls buckets' = timeline_calls buckets + int (length (concat (map (timed e) (directory_judgements e d))))"
    "timeline_duration buckets' = timeline_duration buckets
       + sum_list (map snd (concat (map (timed e) (directory_judgements e d))))"
proof -
  let ?n = "if bytes_sent = 0 then 1 else bytes_sent"
  from assms(1) obtain st es where scan: "scan_files e world_size m (glob_rank ''-events.jsonl'' d)
      \<lparr>es_edges = [], es_timeline = buckets, es_warnings = warnings\<rparr> = Inr st"
    and es: "mapE (edge_of ?n) (es_edges st) = Inr es" and edges: "edges = sort_key (\<lambda>x. - ce_bytes x) es"
    and w: "warnings' = es_warnings st" and b: "buckets' = es_timeline st"
    by (auto simp: load_communication_edges_def bindE_Inr_iff)
  note s = scanned_files [OF scan, unfolded scanned_def directory_judgements_def [symmetric]
      directory_sends_def [symmetric] events_rejected_def [symmetric], simplified]
  let ?sends = "directory_sends e world_size d"
  have st: "es_edges st = add_all ?sends []" using s by simp
  have keys: "map edge_pair es = map fst (es_edges st)"
    by (rule mapE_map [OF es]) (auto simp: edge_of_Inr edge_pair_def)
  have "map (\<lambda>x. (edge_pair x, ce_bytes x, ce_messages x)) es = map id (es_edges st)"
    by (rule mapE_map [OF es]) (auto simp: edge_of_Inr edge_pair_def)
  then have val: "map (\<lambda>x. (edge_pair x, ce_bytes x, ce_messages x)) es = es_edges st" by simp
  have share: "map (\<lambda>x. true_div (ce_bytes x) ?n) es = map (\<lambda>x. Inr (ce_traffic_share x)) es"
  proof -
    have "true_div (ce_bytes y) ?n = Inr (ce_traffic_share y)" if "y \<in> set es" for y
    proof -
      from mapE_elem [OF es that] obtain x where "edge_of ?n x = Inr y" by blast
      then show ?thesis by (cases x) (auto simp: edge_of_def bindE_Inr_iff split: prod.splits)
    qed
    then show ?thesis by simp
  qed
  show "sorted (map (\<lambda>x. - ce_bytes x) edges)" by (simp add: edges)
  have "distinct (map edge_pair es)" by (simp add: keys st add_all_distinct)
  then show "distinct (map edge_pair edges)"
    unfolding edges by (simp add: distinct_map)
  show "edge_pair ` set edges = fst ` set ?sends"
  proof -
    have "edge_pair ` set es = fst ` set (add_all ?sends [])" using arg_cong [OF keys, of set] by (simp add: st)
    also have "\<dots> = dom (map_of (add_all ?sends []))" by (simp add: dom_map_of_conv_image_fst)
    also have "\<dots> = fst ` set ?sends" unfolding dom_def add_all_snoc by auto
    finally show ?thesis by (simp add: edges)
  qed
  show "ce_bytes edge = bytes_between (edge_pair edge) ?sends \<and> ce_messages edge = messages_between (edge_pair edge) ?sends
       \<and> true_div (ce_bytes edge) ?n = Inr (ce_traffic_share edge)" if "edge \<in> set edges"
  proof -
    have "edge \<in> set es" using that by (simp add: edges)
    then have "(edge_pair edge, ce_bytes edge, ce_messages edge) \<in> set (add_all ?sends [])"
      unfolding st [symmetric] val [symmetric] by auto
    moreover have "true_div (ce_bytes edge) ?n = Inr (ce_traffic_share edge)" using share \<open>edge \<in> set es\<close> by simp
    ultimately show ?thesis by (simp only: in_add_all simp_thms)
  qed
  show "(length warnings < length warnings') = events_rejected e world_size d" using s assms(3) by (simp add: w)
  show "length buckets' = 50" "map tb_timestamp_ns buckets' = map tb_timestamp_ns buckets"
    "timeline_calls buckets' = timeline_calls buckets + int (length (concat (map (timed e) (directory_judgements e d))))"
    "timeline_duration buckets' = timeline_duration buckets
       + sum_list (map snd (concat (map (timed e) (directory_judgements e d))))"
    using s assms(2) by (simp_all add: b)
qed

section \<open>What an analysis reports\<close>

lemma stragglers_of_Inr:
  "stragglers_of m t ss = Inr ranks \<Longrightarrow> 0 < m \<Longrightarrow>
     ranks = map rk_rank (filter (\<lambda>s. \<exists>q. true_div (rk_runtime_ns s) m = Inr q \<and> t \<le> q) ss)
     \<and> (\<forall>s\<in>set ss. \<exists>q. true_div (rk_runtime_ns s) m = Inr q)"
proof (induction ss arbitrary: ranks)
  case (Cons s ss)
  then obtain q ranks' where q: "true_div (rk_runtime_ns s) m = Inr q" and rest: "stragglers_of m t ss = Inr ranks'"
    and r: "ranks = (if t \<le> q then rk_rank s # ranks' else ranks')"
    by (auto simp: bindE_Inr_iff)
  from Cons.IH [OF rest Cons.prems(2)] q r show ?case by auto
qed simp

lemma stragglers_of_zero: "m \<le> 0 \<Longrightarrow> stragglers_of m t ss = Inr []"
  by (induction ss) auto

lemma make_findings_ignores: "make_findings (r\<lparr>an_findings := fs\<rparr>) = make_findings r"
  by (simp add: make_findings_def straggler_findings_def share_findings_def scaling_findings_def hotspot_findings_def
      cong: if_cong list.case_cong option.case_cong)

lemma make_findings_update:
  "make_findings r0 = Inr fs \<Longrightarrow> r0\<lparr>an_findings := fs\<rparr> = r \<Longrightarrow> make_findings r = Inr (an_findings r)"
  using make_findings_ignores [where r = r0 and fs = fs] by auto

lemma analyze_Inr:
  assumes "analyze e d x = Inr r"
  obtains t ss stragglers where "x = Finite t" "1 < t" "load_summaries e d = Inr ss"
    "int_median (map rk_runtime_ns ss) = Inr (an_runtime_median_ns r)"
    "stragglers_of (an_runtime_median_ns r) t ss = Inr stragglers" "an_straggler_ranks r = sort stragglers"
    "an_straggler_threshold r = t" "read_metadata e d = Inr (an_metadata r)" "check_identities e ss (an_metadata r) = Inr ()"
    "load_communication_edges e d (sum_list (map rk_bytes_sent ss))
       (capture_warnings ss (flags_of e d ss (an_metadata r)) @ overlap_warnings ss) (an_world_size r)
       (empty_timeline (an_runtime_max_ns r)) (an_runtime_max_ns r) = Inr (an_communication_edges r, an_warnings r, an_timeline r)"
    "an_world_size r = rk_world_size (hd ss)" "an_ranks_observed r = int (length ss)"
    "an_runtime_max_ns r = Max (set (map rk_runtime_ns ss))" "an_aggregate_runtime_ns r = sum_list (map rk_runtime_ns ss)"
    "an_mpi_time_ns r = sum_list (map rk_mpi_time_ns ss)"
    "ratio_or_zero (an_mpi_time_ns r) (an_aggregate_runtime_ns r) = Inr (an_mpi_fraction r)"
    "ratio_or_zero (an_runtime_max_ns r) (an_runtime_median_ns r) = Inr (an_imbalance_ratio r)"
    "an_operations r = aggregate_operations ss"
    "an_coverage r = coverage_of ss (flags_of e d ss (an_metadata r))
       (length (capture_warnings ss (flags_of e d ss (an_metadata r)) @ overlap_warnings ss) < length (an_warnings r))"
    "an_complete r = capture_complete (flags_of e d ss (an_metadata r))"
    "an_ranks r = map rank_view_of (sort_key rk_rank ss)" "make_findings r = Inr (an_findings r)"
proof -
  from assms obtain t ss where t: "x = Finite t" "1 < t" and ss: "load_summaries e d = Inr ss"
    and a: "analyze_summaries e d t ss = Inr r"
    by (auto simp: analyze_def bindE_Inr_iff split: py_float.splits if_splits)
  from a show thesis
    unfolding analyze_summaries_def Let_def bindE_Inr_iff split_beta sum.inject
    by (elim exE conjE) (rule that [OF t ss]; (rule make_findings_update, assumption, assumption)?; auto)
qed

end
