(* ===== verification/Diagnosis.thy ===== *)
theory Diagnosis
  imports Analyzer
begin

text \<open>
  What the offline analysis of \<^verbatim>\<open>ranklens/analyzer.py\<close> guarantees to the reader of a report: summaries that pass the loader
  are well formed and account for their calls, the communication edges are the sends of the event files, rejected evidence
  lowers the coverage, a complete report covers every rank, and the findings are the rules that crossed their thresholds.
\<close>

section \<open>Auxiliary facts\<close>

lemma capture_warnings_few: "length (capture_warnings ss f @ overlap_warnings ss) < 100"
  by (auto simp: capture_warnings_def overlap_warnings_def)

lemma empty_timeline_totals [simp]:
  "length (empty_timeline m) = 50" "timeline_calls (empty_timeline m) = 0" "timeline_duration (empty_timeline m) = 0"
  "map tb_timestamp_ns (empty_timeline m) = map (\<lambda>i. m * int i div 50) [0..<50]"
  by (simp_all add: empty_timeline_def timeline_calls_def timeline_duration_def comp_def del: upt_rec_numeral)

lemma true_div_upper: "true_div a b = Inr q \<Longrightarrow> q < double_limit"
  by (auto simp: true_div_Inr)

lemma true_div_below:
  assumes "true_div c b = Inr q" "0 \<le> a" "a \<le> c" "0 < b"
  shows "\<exists>p. true_div a b = Inr p \<and> p \<le> q"
proof -
  have "round_double (of_int a / of_int b) \<le> q"
    using assms by (auto simp: true_div_Inr intro!: round_double_mono divide_right_mono)
  moreover have "0 \<le> round_double (of_int a / of_int b)" using assms by (intro round_double_nonneg) simp
  ultimately show ?thesis using assms by (auto simp: true_div_Inr)
qed

text \<open>Ranks that are distinct, in range and as many as the world has are all of them.\<close>

lemma all_ranks:
  assumes "distinct xs" "set xs \<subseteq> {0..<n}" "int (length xs) = n"
  shows "sort xs = map int [0..<nat n]"
proof (rule sorted_distinct_set_unique)
  have "card (set xs) = card {0..<n}" using assms by (simp add: distinct_card)
  then have "set xs = {0..<n}" using assms(2) by (intro card_subset_eq) auto
  then show "set (sort xs) = set (map int [0..<nat n])" using assms(3) by (simp add: image_int_atLeastLessThan)
  show "sorted (map int [0..<nat n])" by (simp add: sorted_iff_nth_mono)
  show "distinct (map int [0..<nat n])" by (simp add: distinct_map)
qed (use assms in auto)

lemma sort_key_map: "map f (sort_key f xs) = sort (map f xs)"
  by (rule properties_for_sort [symmetric]) simp_all

section \<open>Summaries\<close>

text \<open>C36. A rank summary the loader accepts is well formed: its rank lies in its world, its counters and the counters of its
  operations are not negative, and a version 2 summary counts as MPI calls exactly the calls of its \<open>api_call\<close> records.\<close>

theorem loaded_summary_valid:
  assumes "load_summary e path (Text x) = Inr s" "loads e x = Some (JObj data)"
  shows "summary_valid s \<and> (jget data ''schema_version'' = JInt 2 \<longrightarrow>
    (\<exists>raw. jget data ''operations'' = JObj raw \<and> map fst (rk_operations s) = map fst raw
      \<and> rk_mpi_calls s = calls_of_kind ''api_call'' raw (rk_operations s)
      \<and> jget data ''request_completions'' = JInt (calls_of_kind ''request_completion'' raw (rk_operations s))))"
  using assms parse_summary_valid [of data path s] parse_summary_accounting [of data path s] by (auto simp: load_summary_Inr)

section \<open>Evidence\<close>

text \<open>C37. The communication edges of a report are the sends of the event files: the pairs of ranks are those that some accepted
  send names, each once, with the bytes and the messages of exactly its sends, ordered by decreasing bytes.\<close>

theorem edges_are_the_sends:
  assumes "analyze e d x = Inr r"
  shows "sorted (map (\<lambda>k. - ce_bytes k) (an_communication_edges r))
    \<and> distinct (map edge_pair (an_communication_edges r))
    \<and> edge_pair ` set (an_communication_edges r) = fst ` set (directory_sends e (an_world_size r) d)
    \<and> (\<forall>k\<in>set (an_communication_edges r).
         ce_bytes k = bytes_between (edge_pair k) (directory_sends e (an_world_size r) d)
         \<and> ce_messages k = messages_between (edge_pair k) (directory_sends e (an_world_size r) d))"
  using assms
proof (rule analyze_Inr)
  fix t ss stragglers
  assume "load_communication_edges e d (sum_list (map rk_bytes_sent ss))
       (capture_warnings ss (flags_of e d ss (an_metadata r)) @ overlap_warnings ss) (an_world_size r)
       (empty_timeline (an_runtime_max_ns r)) (an_runtime_max_ns r) = Inr (an_communication_edges r, an_warnings r, an_timeline r)"
  note load_communication_edges_Inr(1-4) [OF this empty_timeline_totals(1) capture_warnings_few]
  then show ?thesis by blast
qed

text \<open>The timeline of a report keeps its fifty buckets, at the fiftieths of the longest runtime, and loses no event: their
  calls are as many as the successful events with a valid time, and their durations sum to the durations of those events.\<close>

theorem timeline_counts_every_event:
  assumes "analyze e d x = Inr r"
  shows "map tb_timestamp_ns (an_timeline r) = map (\<lambda>i. an_runtime_max_ns r * int i div 50) [0..<50]
    \<and> timeline_calls (an_timeline r) = int (length (concat (map (timed e) (directory_judgements e d))))
    \<and> timeline_duration (an_timeline r) = sum_list (map snd (concat (map (timed e) (directory_judgements e d))))"
  using assms
proof (rule analyze_Inr)
  fix t ss stragglers
  assume "load_communication_edges e d (sum_list (map rk_bytes_sent ss))
       (capture_warnings ss (flags_of e d ss (an_metadata r)) @ overlap_warnings ss) (an_world_size r)
       (empty_timeline (an_runtime_max_ns r)) (an_runtime_max_ns r) = Inr (an_communication_edges r, an_warnings r, an_timeline r)"
  note load_communication_edges_Inr(7-9) [OF this empty_timeline_totals(1) capture_warnings_few]
  then show ?thesis by (simp del: upt_rec_numeral)
qed


text \<open>C39. A report that is complete covers its whole world: it has one summary for each rank from zero to the size of the world,
  each of which says it is complete, and the launcher did not fail.\<close>

theorem complete_report_covers_ranks:
  assumes "analyze e d x = Inr r" "an_complete r"
  shows "map rv_rank (an_ranks r) = map int [0..<nat (an_world_size r)] \<and> list_all rv_complete (an_ranks r)
    \<and> an_ranks_observed r = an_world_size r \<and> equals_int e (get_default (an_metadata r) ''return_code'' (JInt 0)) 0"
  using assms(1)
proof (rule analyze_Inr)
  fix t ss stragglers
  assume *: "load_summaries e d = Inr ss" "an_world_size r = rk_world_size (hd ss)" "an_ranks_observed r = int (length ss)"
    "an_complete r = capture_complete (flags_of e d ss (an_metadata r))" "an_ranks r = map rank_view_of (sort_key rk_rank ss)"
  note l = load_summaries_Inr [OF *(1)]
  have f: "int (length ss) = an_world_size r" "list_all rk_complete ss"
    "equals_int e (get_default (an_metadata r) ''return_code'' (JInt 0)) 0"
    using * assms(2) by (auto simp: capture_complete_def flags_of_def)
  have "set (map rk_rank ss) \<subseteq> {0..<an_world_size r}" using l(3, 4) *(2) by (fastforce simp: summary_valid_def)
  with all_ranks [OF l(2)] f(1) have "map rk_rank (sort_key rk_rank ss) = map int [0..<nat (an_world_size r)]"
    by (simp add: sort_key_map)
  with f *(3, 5) show ?thesis by (simp add: rank_view_of_def comp_def list_all_iff)
qed

section \<open>Diagnosis\<close>

text \<open>C40. The stragglers and the imbalance of a report agree: with a positive median, the report names a straggler exactly when
  its ratio of the longest runtime to the median reaches the threshold, and a rank of the longest runtime is then among them.\<close>

theorem stragglers_match_imbalance:
  assumes "analyze e d x = Inr r" "0 < an_runtime_median_ns r"
  shows "(an_straggler_ranks r \<noteq> []) = (an_straggler_threshold r \<le> an_imbalance_ratio r)
    \<and> sorted (an_straggler_ranks r) \<and> distinct (an_straggler_ranks r)
    \<and> set (an_straggler_ranks r) \<subseteq> rv_rank ` set (an_ranks r)"
  using assms(1)
proof (rule analyze_Inr)
  fix t ss stragglers
  let ?m = "an_runtime_median_ns r"
  assume *: "load_summaries e d = Inr ss" "stragglers_of ?m t ss = Inr stragglers" "an_straggler_ranks r = sort stragglers"
    "an_straggler_threshold r = t" "an_runtime_max_ns r = Max (set (map rk_runtime_ns ss))"
    "ratio_or_zero (an_runtime_max_ns r) ?m = Inr (an_imbalance_ratio r)" "an_ranks r = map rank_view_of (sort_key rk_rank ss)"
  note l = load_summaries_Inr [OF *(1)]
  have st: "stragglers = map rk_rank (filter (\<lambda>s. \<exists>q. true_div (rk_runtime_ns s) ?m = Inr q \<and> t \<le> q) ss)"
    using stragglers_of_Inr [OF *(2) assms(2)] by blast
  have imb: "true_div (an_runtime_max_ns r) ?m = Inr (an_imbalance_ratio r)"
    using *(6) assms(2) by (simp add: ratio_or_zero_def)
  have "an_runtime_max_ns r \<in> rk_runtime_ns ` set ss" unfolding *(5) set_map using l(1) by (intro Max_in) auto
  then obtain top where top: "top \<in> set ss" "rk_runtime_ns top = an_runtime_max_ns r" by force
  have "(stragglers \<noteq> []) = (t \<le> an_imbalance_ratio r)"
  proof
    assume "stragglers \<noteq> []"
    then obtain s q where s: "s \<in> set ss" "true_div (rk_runtime_ns s) ?m = Inr q" "t \<le> q"
      by (auto simp: st filter_empty_conv)
    have "rk_runtime_ns s \<le> an_runtime_max_ns r" unfolding *(5) using s(1) by (intro Max_ge) auto
    with quotient_mono [OF s(2) imb _ assms(2)] s(3) show "t \<le> an_imbalance_ratio r" by linarith
  next
    assume "t \<le> an_imbalance_ratio r"
    with top imb show "stragglers \<noteq> []" by (auto simp: st filter_empty_conv intro!: bexI [of _ top])
  qed
  moreover have "distinct stragglers" unfolding st using l(2) by (rule distinct_map_filter)
  moreover have "set stragglers \<subseteq> rv_rank ` set (an_ranks r)" by (auto simp: st *(7) rank_view_of_def image_image)
  moreover have "(sort stragglers \<noteq> []) = (stragglers \<noteq> [])" using set_sort [of "\<lambda>i. i" stragglers] by fastforce
  ultimately show ?thesis by (simp add: *(3, 4))
qed

text \<open>A rule on the share of one operation: the total time of the operation over the total runtime of the ranks.\<close>

definition share_reaches :: "AnalysisResult \<Rightarrow> string \<Rightarrow> rat \<Rightarrow> bool" where
  "share_reaches r operation threshold =
     (case map_of (an_operations r) operation of
        None \<Rightarrow> False
      | Some st \<Rightarrow> (case true_div (os_duration_ns st) (if an_aggregate_runtime_ns r = 0 then 1 else an_aggregate_runtime_ns r) of
          Inl err \<Rightarrow> False | Inr share \<Rightarrow> literal threshold \<le> share))"

definition hotspot :: "AnalysisResult \<Rightarrow> bool" where
  "hotspot r = (case an_communication_edges r of [] \<Rightarrow> False | edge # _ \<Rightarrow> literal (35 / 100) \<le> ce_traffic_share edge)"

definition crossed_rules :: "AnalysisResult \<Rightarrow> string list" where
  "crossed_rules r =
     (if an_straggler_ranks r \<noteq> [] then [''imbalance''] else [])
     @ (if share_reaches r ''MPI_Allreduce'' (15 / 100) then [''collectives''] else [])
     @ (if share_reaches r ''MPI_Barrier'' (10 / 100) then [''synchronization''] else [])
     @ (if literal (1 / 2) \<le> an_mpi_fraction r then [''scaling''] else [])
     @ (if hotspot r then [''communication''] else [])"

lemma share_findings_categories:
  "share_findings r operation threshold category title recommendation = Inr fs \<Longrightarrow>
     map fi_category fs = (if share_reaches r operation threshold then [category] else [])
     \<and> (\<forall>f\<in>set fs. fi_severity f \<noteq> ''ok'')"
  by (auto simp: share_findings_def share_reaches_def bindE_Inr_iff split: option.splits if_splits)

lemma make_findings_categories:
  assumes "make_findings r = Inr fs"
  shows "map fi_category fs = (if crossed_rules r = [] then [''summary''] else crossed_rules r)
    \<and> (\<forall>f\<in>set fs. (fi_severity f = ''ok'') = (crossed_rules r = []))"
proof -
  from assms obtain a b where a: "share_findings r ''MPI_Allreduce'' (15 / 100) ''collectives'' ''Allreduce is a major runtime component''
       ''Measure whether reductions can be fused or called less often, then benchmark topology-aware collective tuning with scientific output held constant.'' = Inr a"
    and b: "share_findings r ''MPI_Barrier'' (10 / 100) ''synchronization'' ''Barrier wait is substantial''
       ''Inspect work completed immediately before each barrier; optimize the slowest path or remove redundant synchronization only after validating correctness.'' = Inr b"
    and fs: "fs = (let findings = straggler_findings r @ a @ b @ scaling_findings r @ hotspot_findings r
      in if findings = [] then [no_finding] else findings)"
    unfolding make_findings_def bindE_Inr_iff Let_def sum.inject by blast
  have h: "map fi_category (hotspot_findings r) = (if hotspot r then [''communication''] else [])"
    "\<forall>f\<in>set (hotspot_findings r). fi_severity f \<noteq> ''ok''"
    by (auto simp: hotspot_findings_def hotspot_def split: list.splits)
  let ?all = "straggler_findings r @ a @ b @ scaling_findings r @ hotspot_findings r"
  have c: "map fi_category ?all = crossed_rules r"
    using share_findings_categories [OF a] share_findings_categories [OF b] h
    by (simp add: straggler_findings_def scaling_findings_def crossed_rules_def)
  have o: "\<forall>f\<in>set ?all. fi_severity f \<noteq> ''ok''"
    using share_findings_categories [OF a] share_findings_categories [OF b] h
    by (auto simp: straggler_findings_def scaling_findings_def)
  show ?thesis
  proof (cases "?all = []")
    case True
    with c have "crossed_rules r = []" by (metis list.map_disc_iff)
    with True show ?thesis by (simp add: fs no_finding_def)
  next
    case False
    with c have "crossed_rules r \<noteq> []" by (metis list.map_disc_iff)
    with False c o show ?thesis unfolding fs Let_def by (simp only: if_False simp_thms)
  qed
qed

text \<open>The findings of a report are the rules it crosses, in their order, and only a report that crosses none says \<open>ok\<close>.\<close>

theorem findings_are_crossed_rules:
  assumes "analyze e d x = Inr r"
  shows "map fi_category (an_findings r) = (if crossed_rules r = [] then [''summary''] else crossed_rules r)
    \<and> (\<forall>f\<in>set (an_findings r). (fi_severity f = ''ok'') = (crossed_rules r = []))"
  using assms by (rule analyze_Inr) (rule make_findings_categories)

section \<open>Totals\<close>

definition stats_named :: "string \<Rightarrow> (string \<times> OperationStats) list \<Rightarrow> OperationStats list" where
  "stats_named name items = map snd (filter (\<lambda>x. fst x = name) items)"

definition total_stats :: "OperationStats list \<Rightarrow> OperationStats" where
  "total_stats sts = \<lparr>os_calls = sum_list (map os_calls sts), os_duration_ns = sum_list (map os_duration_ns sts),
     os_payload_bytes = sum_list (map os_payload_bytes sts)\<rparr>"

definition all_operations :: "RankSummary list \<Rightarrow> (string \<times> OperationStats) list" where
  "all_operations ss = concat (map rk_operations ss)"

lemma add_operation_map: "map_of (add_operation (n, st) totals) = (map_of totals)(n \<mapsto>
    (case map_of totals n of None \<Rightarrow> st | Some old \<Rightarrow> add_stats old st))"
  by (simp add: add_operation_def update_conv')

lemma add_operation_distinct: "distinct (map fst totals) \<Longrightarrow> distinct (map fst (add_operation item totals))"
  by (cases item) (simp add: add_operation_def distinct_update)

lemma fold_operations_distinct: "distinct (map fst totals) \<Longrightarrow> distinct (map fst (fold add_operation items totals))"
  by (induction items arbitrary: totals) (auto simp: add_operation_distinct)

lemma fold_operations_map: "map_of (fold add_operation items []) name =
    (if stats_named name items = [] then None else Some (total_stats (stats_named name items)))"
proof (induction items rule: rev_induct)
  case (snoc x items)
  obtain n st where x: "x = (n, st)" by (cases x)
  show ?case
  proof (cases "n = name")
    case True
    then have named: "stats_named name (items @ [x]) = stats_named name items @ [st]" by (simp add: x stats_named_def)
    show ?thesis
      using snoc.IH unfolding named
      by (cases "stats_named name items = []") (simp_all add: x True add_operation_map total_stats_def add_stats_def)
  next
    case False
    then have named: "stats_named name (items @ [x]) = stats_named name items" by (simp add: x stats_named_def)
    show ?thesis using snoc.IH False unfolding named by (simp add: x add_operation_map)
  qed
qed (simp add: stats_named_def)

lemma aggregate_all: "aggregate_operations ss = sort_key fst (fold add_operation (all_operations ss) [])"
proof -
  have "fold (\<lambda>s. fold add_operation (rk_operations s)) ss totals = fold add_operation (all_operations ss) totals" for totals
    by (induction ss arbitrary: totals) (simp_all add: all_operations_def)
  then show ?thesis by (simp add: aggregate_operations_def)
qed

lemma map_of_sort_key:
  assumes "distinct (map fst xs)"
  shows "map_of (sort_key fst xs) = map_of xs"
  by (rule map_of_eqI) (use assms in \<open>auto simp: map_of_eq_Some_iff distinct_map\<close>)

text \<open>The operations of a report are sorted by name without repetition, and the figures of each are the sums of its figures
  over all the summaries of the capture.\<close>

theorem operation_totals:
  assumes "analyze e d x = Inr r"
  shows "\<exists>ss. load_summaries e d = Inr ss \<and> sorted (map fst (an_operations r)) \<and> distinct (map fst (an_operations r))
    \<and> an_aggregate_runtime_ns r = sum_list (map rk_runtime_ns ss)
    \<and> (\<forall>name. map_of (an_operations r) name = (if stats_named name (all_operations ss) = [] then None
         else Some (total_stats (stats_named name (all_operations ss)))))"
  using assms
proof (rule analyze_Inr)
  fix t ss stragglers
  assume *: "load_summaries e d = Inr ss" "an_operations r = aggregate_operations ss"
    "an_aggregate_runtime_ns r = sum_list (map rk_runtime_ns ss)"
  have d: "distinct (map fst (fold add_operation (all_operations ss) []))" by (simp add: fold_operations_distinct)
  then have "sorted (map fst (an_operations r)) \<and> distinct (map fst (an_operations r))"
    by (simp add: *(2) aggregate_all distinct_map)
  moreover have "map_of (an_operations r) name = (if stats_named name (all_operations ss) = [] then None
      else Some (total_stats (stats_named name (all_operations ss))))" for name
    by (simp add: *(2) aggregate_all map_of_sort_key [OF d] fold_operations_map)
  ultimately show ?thesis using * by blast
qed

section \<open>The order of a directory\<close>

lemma sort_key_mset:
  assumes "mset xs = mset ys" "distinct (map f xs)"
  shows "sort_key f xs = sort_key f ys"
proof (rule map_sorted_distinct_set_unique)
  have set: "set xs = set ys" using assms(1) by (metis set_mset_mset)
  have ys: "distinct (map f ys)" using assms by (metis mset_map distinct_count_atmost_1 set_map set)
  show "inj_on f (set (sort_key f xs) \<union> set (sort_key f ys))" using assms(2) by (simp add: set distinct_map)
  show "distinct (map f (sort_key f xs))" "distinct (map f (sort_key f ys))" using assms(2) ys by (simp_all add: distinct_map)
  show "set (sort_key f xs) = set (sort_key f ys)" by (simp add: set)
qed simp_all

lemma glob_rank_order:
  assumes "mset entries = mset (cd_entries d)" "distinct (map fst (cd_entries d))"
  shows "glob_rank suffix (d\<lparr>cd_entries := entries\<rparr>) = glob_rank suffix d"
proof -
  have "distinct (map fst entries)" using assms by (metis mset_eq_imp_distinct_iff mset_map)
  then have "distinct (map fst (filter P entries))" for P by (rule distinct_map_filter)
  then show ?thesis unfolding glob_rank_def using assms(1) by (intro sort_key_mset) simp_all
qed

text \<open>A report does not depend on the order in which the file system lists the files of the capture.\<close>

theorem directory_order_is_irrelevant:
  assumes "mset entries = mset (cd_entries d)" "distinct (map fst (cd_entries d))"
  shows "analyze e (d\<lparr>cd_entries := entries\<rparr>) x = analyze e d x"
proof -
  let ?d = "d\<lparr>cd_entries := entries\<rparr>"
  have g: "glob_rank suffix ?d = glob_rank suffix d" for suffix by (rule glob_rank_order [OF assms])
  have "distinct (map fst entries)" using assms by (metis mset_eq_imp_distinct_iff mset_map)
  then have m: "map_of entries = map_of (cd_entries d)"
    using assms by (metis map_of_inject_set set_mset_mset)
  have p: "cd_path ?d = cd_path d" by simp
  have l: "load_summaries e ?d = load_summaries e d" unfolding load_summaries_def g path_of_def p ..
  moreover have "read_metadata e ?d = read_metadata e d" by (simp add: read_metadata_def m)
  moreover have "flags_of e ?d = flags_of e d" by (simp add: flags_of_def g fun_eq_iff)
  moreover have "load_communication_edges e ?d = load_communication_edges e d"
    by (simp add: load_communication_edges_def g fun_eq_iff)
  ultimately have a: "analyze_summaries e ?d = analyze_summaries e d"
    unfolding analyze_summaries_def p fun_eq_iff by simp
  show ?thesis unfolding analyze_def l a ..
qed

section \<open>Witnesses\<close>

text \<open>A capture of three ranks, the last of which is slow, with one event file: a send, then a line that is not an object.\<close>

definition demo_rank_json :: "int \<Rightarrow> int \<Rightarrow> json" where
  "demo_rank_json rank runtime_ns = JObj [(''schema_version'', JInt 2), (''complete'', JBool True), (''capture_state'', JStr ''finalized''),
     (''finalize_return_code'', JInt 0), (''request_completions'', JInt 0), (''failed_calls'', JInt 0),
     (''operations'', JObj [(''MPI_Send'', JObj [(''record_kind'', JStr ''api_call''), (''calls'', JInt 4),
        (''duration_ns'', JInt 10), (''payload_bytes'', JInt 64)])]),
     (''hostname'', JStr ''n''), (''rank'', JInt rank), (''world_size'', JInt 3), (''pid'', JInt 7), (''runtime_ns'', JInt runtime_ns),
     (''mpi_time_ns'', JInt 0), (''mpi_calls'', JInt 4), (''bytes_sent'', JInt 64), (''bytes_received'', JInt 64)]"

definition demo_send_event :: json where
  "demo_send_event = JObj [(''schema_version'', JInt 1), (''rank'', JInt 0), (''operation'', JStr ''MPI_Send''), (''peer'', JInt 1),
     (''payload_bytes'', JInt 192), (''timestamp_ns'', JInt 150), (''duration_ns'', JInt 5)]"

definition demo_analysis :: analysis_environment where
  "demo_analysis = \<lparr>ae_runtime = \<lparr>rt_sha256 = id, rt_hmac_sha256 = (\<lambda>_ _. []), rt_b64decode = (\<lambda>_. None),
       rt_json_loads = (\<lambda>b. if b = ''0'' then Some (demo_rank_json 0 100) else if b = ''1'' then Some (demo_rank_json 1 100)
         else if b = ''2'' then Some (demo_rank_json 2 200) else if take 1 b = ''e'' then Some demo_send_event
         else if b = ''{}'' then Some (JObj []) else None)\<rparr>,
     ae_float = (\<lambda>_. NotANumber), ae_json_error = (\<lambda>_. ''Expecting value'')\<rparr>"

definition demo_capture :: "string \<Rightarrow> capture_directory" where
  "demo_capture events = \<lparr>cd_path = ''c'', cd_entries = [(''rank-2-summary.json'', Text ''2''), (''rank-0-summary.json'', Text ''0''),
     (''rank-1-summary.json'', Text ''1''), (''rank-0-events.jsonl'', Text events), (''run.json'', Text ''{}'')]\<rparr>"

definition demo_rank :: "int \<Rightarrow> int \<Rightarrow> RankSummary" where
  "demo_rank i n = \<lparr>rk_rank = i, rk_world_size = 3, rk_hostname = ''n'', rk_pid = 7, rk_runtime_ns = n, rk_mpi_time_ns = 0,
     rk_mpi_calls = 4, rk_bytes_sent = 64, rk_bytes_received = 64,
     rk_operations = [(''MPI_Send'', \<lparr>os_calls = 4, os_duration_ns = 10, os_payload_bytes = 64\<rparr>)],
     rk_synthetic = False, rk_complete = True, rk_context = []\<rparr>"

definition demo_ranks :: "RankSummary list" where
  "demo_ranks = [demo_rank 0 100, demo_rank 1 100, demo_rank 2 200]"

definition demo_events :: string where
  "demo_events = [CHR ''e'', LF, CHR ''x'']"

lemma demo_parse_rank:
  "0 \<le> i \<Longrightarrow> i < 3 \<Longrightarrow> 0 \<le> n \<Longrightarrow> demo_rank_json i n = JObj data \<Longrightarrow> parse_summary data p = Inr (demo_rank i n)"
  by (drule sym) (simp add: demo_rank_json_def parse_summary_def check_schema_def check_version_two_def in_set_def required_int_def
      jget_def parse_operations.simps kind_calls_def parse_stats_def check_accounting_def optional_bool_def read_context_def
      demo_rank_def bindE_def)

lemma demo_load:
  "load_summary demo_analysis p (Text ''0'') = Inr (demo_rank 0 100)"
  "load_summary demo_analysis p (Text ''1'') = Inr (demo_rank 1 100)"
  "load_summary demo_analysis p (Text ''2'') = Inr (demo_rank 2 200)"
  using demo_parse_rank [of 0 100 _ p] demo_parse_rank [of 1 100 _ p] demo_parse_rank [of 2 200 _ p]
  by (simp_all add: load_summary_def loads_def demo_analysis_def utf8_def utf8_char_def demo_rank_json_def)

lemma demo_summaries: "load_summaries demo_analysis (demo_capture events) = Inr demo_ranks"
proof -
  have g: "glob_rank ''-summary.json'' (demo_capture events)
      = [(''rank-0-summary.json'', Text ''0''), (''rank-1-summary.json'', Text ''1''), (''rank-2-summary.json'', Text ''2'')]"
    by (simp add: glob_rank_def demo_capture_def starts_with_def ends_with_def)
  show ?thesis by (simp add: load_summaries_def g demo_load bindE_def demo_ranks_def) (simp add: demo_rank_def)
qed

lemma demo_median: "int_median (map rk_runtime_ns demo_ranks) = Inr 100"
  by (simp add: int_median_def Let_def demo_ranks_def demo_rank_def)

lemma demo_quotients: "true_div 100 100 = Inr 1" "true_div 200 100 = Inr 2" "true_div 192 192 = Inr 1" "true_div 0 400 = Inr 0"
  using round_double_exact [of 1] round_double_exact [of 2] round_double_exact [of 0]
  by (simp_all add: true_div_def double_limit_def Let_def)

lemma demo_stragglers: "stragglers_of 100 (6 / 5) demo_ranks = Inr [2]"
  by (simp add: demo_ranks_def demo_rank_def demo_quotients bindE_def)

lemma demo_metadata: "read_metadata demo_analysis (demo_capture events) = Inr []"
  by (simp add: read_metadata_def demo_capture_def loads_def demo_analysis_def utf8_def utf8_char_def)

lemma demo_identities: "check_identities demo_analysis demo_ranks [] = Inr ()"
  by (simp add: check_identities_def Let_def run_ids_def context_value_def demo_ranks_def demo_rank_def)

lemma demo_event_file: "glob_rank ''-events.jsonl'' (demo_capture events) = [(''rank-0-events.jsonl'', Text events)]"
  by (simp add: glob_rank_def demo_capture_def starts_with_def ends_with_def)

lemma demo_lines: "rank_of_name ''rank-0-events.jsonl'' = Some 0" "text_lines demo_events = [[CHR ''e'', LF], [CHR ''x'']]"
  by code_simp+

lemma demo_checks:
  "check_event demo_analysis 0 (- 1) [CHR ''e'', LF] = (case demo_send_event of JObj event \<Rightarrow> (Accepted event, - 1) | _ \<Rightarrow> undefined)"
  "check_event demo_analysis 0 (- 1) [CHR ''x''] = (Rejected ''malformed'', - 1)"
  by (simp_all add: check_event_def loads_def demo_analysis_def utf8_def utf8_char_def demo_send_event_def jget_def equals_int_def)

lemma demo_judgements: "directory_judgements demo_analysis (demo_capture demo_events)
    = [Accepted (case demo_send_event of JObj event \<Rightarrow> event | _ \<Rightarrow> undefined), Rejected ''malformed'']"
  by (simp add: directory_judgements_def demo_event_file file_judgements_def demo_lines demo_checks demo_send_event_def)

lemma demo_edges: "\<exists>edges warnings' buckets. load_communication_edges demo_analysis (demo_capture demo_events) 192 warnings 3
    (empty_timeline 200) 200 = Inr (edges, warnings', buckets)"
  by (simp add: load_communication_edges_def demo_event_file scan_file_def demo_lines demo_checks demo_send_event_def record_event_def
    equals_int_def get_default_def jget_def in_set_def send_of_def add_message_def bindE_def edge_of_def warn_def demo_quotients
    Let_def del: upt_rec_numeral)

lemma demo_flags: "flags_of demo_analysis (demo_capture events) demo_ranks []
    = \<lparr>cf_complete = True, cf_launcher_failed = False, cf_has_events = True, cf_events_dropped = False, cf_overflow_known = False,
       cf_overflow = False, cf_writer_failed = False\<rparr>"
  by (simp add: flags_of_def demo_event_file get_default_def equals_int_def context_value_def demo_ranks_def demo_rank_def)

lemma demo_operations: "map_of (aggregate_operations demo_ranks) ''MPI_Allreduce'' = None"
  "map_of (aggregate_operations demo_ranks) ''MPI_Barrier'' = None"
  by (simp_all add: aggregate_operations_def add_operation_def add_stats_def demo_ranks_def demo_rank_def)

lemma demo_report: "\<exists>r. analyze demo_analysis (demo_capture demo_events) (Finite (6 / 5)) = Inr r \<and> an_complete r
    \<and> an_runtime_median_ns r = 100 \<and> an_straggler_ranks r = [2] \<and> an_world_size r = 3"
proof -
  have s: "sum_list (map rk_bytes_sent demo_ranks) = 192" "sum_list (map rk_runtime_ns demo_ranks) = 400"
    "sum_list (map rk_mpi_time_ns demo_ranks) = 0" "Max (set (map rk_runtime_ns demo_ranks)) = 200"
    "rk_world_size (hd demo_ranks) = 3"
    by (simp_all add: demo_ranks_def demo_rank_def)
  obtain edges warnings' buckets where edges: "load_communication_edges demo_analysis (demo_capture demo_events) 192
      (capture_warnings demo_ranks (flags_of demo_analysis (demo_capture demo_events) demo_ranks []) @ overlap_warnings demo_ranks) 3
      (empty_timeline 200) 200 = Inr (edges, warnings', buckets)"
    using demo_edges by blast
  have q: "ratio_or_zero 0 400 = Inr 0" "ratio_or_zero 200 100 = Inr 2" by (simp_all add: ratio_or_zero_def demo_quotients)
  have f: "\<exists>r. bindE (make_findings r0) (\<lambda>fs. Inr (r0\<lparr>an_findings := fs\<rparr>)) = Inr r \<and> an_complete r
    \<and> an_runtime_median_ns r = 100 \<and> an_straggler_ranks r = [2] \<and> an_world_size r = 3"
    if "an_operations r0 = aggregate_operations demo_ranks" "an_complete r0" "an_runtime_median_ns r0 = 100"
      "an_straggler_ranks r0 = [2]" "an_world_size r0 = 3" for r0
    using that by (simp add: make_findings_def share_findings_def demo_operations bindE_def Let_def)
  have "\<exists>r. analyze_summaries demo_analysis (demo_capture demo_events) (6 / 5) demo_ranks = Inr r \<and> an_complete r
    \<and> an_runtime_median_ns r = 100 \<and> an_straggler_ranks r = [2] \<and> an_world_size r = 3"
    unfolding analyze_summaries_def Let_def demo_median bindE_simps demo_stragglers demo_metadata demo_identities s edges prod.case q
    by (rule f) (simp_all add: demo_flags capture_complete_def)
  then show ?thesis by (simp add: analyze_def demo_summaries bindE_def)
qed

lemma demo_sends: "directory_sends demo_analysis 3 (demo_capture demo_events) = [((0, 1), 192)]"
  by (simp add: directory_sends_def demo_judgements demo_send_event_def succeeded_def is_send_def equals_int_def get_default_def
      jget_def send_of_def)

theorem loaded_summary_valid_witness:
  "load_summary demo_analysis ''s'' (Text ''2'') = Inr (demo_rank 2 200) \<and> rk_rank (demo_rank 2 200) < rk_world_size (demo_rank 2 200)"
proof -
  obtain data where "loads demo_analysis ''2'' = Some (JObj data)"
    by (simp add: loads_def demo_analysis_def utf8_def utf8_char_def demo_rank_json_def)
  from loaded_summary_valid [OF demo_load(3) this] show ?thesis by (simp add: summary_valid_def demo_load)
qed

theorem edges_are_the_sends_witness:
  "\<exists>r. analyze demo_analysis (demo_capture demo_events) (Finite (6 / 5)) = Inr r
     \<and> edge_pair ` set (an_communication_edges r) = {(0, 1)}"
proof -
  obtain r where r: "analyze demo_analysis (demo_capture demo_events) (Finite (6 / 5)) = Inr r" "an_world_size r = 3"
    using demo_report by blast
  show ?thesis using r edges_are_the_sends [OF r(1)] by (auto simp: demo_sends)
qed

theorem timeline_counts_every_event_witness:
  "\<exists>r. analyze demo_analysis (demo_capture demo_events) (Finite (6 / 5)) = Inr r
     \<and> timeline_calls (an_timeline r) = 1 \<and> timeline_duration (an_timeline r) = 5"
proof -
  obtain r where r: "analyze demo_analysis (demo_capture demo_events) (Finite (6 / 5)) = Inr r"
    using demo_report by blast
  show ?thesis using r timeline_counts_every_event [OF r]
    by (simp add: demo_judgements demo_send_event_def succeeded_def equals_int_def get_default_def jget_def)
qed


theorem complete_report_covers_ranks_witness:
  "\<exists>r. analyze demo_analysis (demo_capture demo_events) (Finite (6 / 5)) = Inr r \<and> map rv_rank (an_ranks r) = [0, 1, 2]"
proof -
  obtain r where r: "analyze demo_analysis (demo_capture demo_events) (Finite (6 / 5)) = Inr r" "an_complete r" "an_world_size r = 3"
    using demo_report by blast
  show ?thesis using r complete_report_covers_ranks [OF r(1, 2)] by (simp add: upt_rec)
qed

theorem stragglers_match_imbalance_witness:
  "\<exists>r. analyze demo_analysis (demo_capture demo_events) (Finite (6 / 5)) = Inr r
     \<and> an_straggler_threshold r \<le> an_imbalance_ratio r \<and> an_straggler_ranks r = [2]"
proof -
  obtain r where r: "analyze demo_analysis (demo_capture demo_events) (Finite (6 / 5)) = Inr r" "an_runtime_median_ns r = 100"
    "an_straggler_ranks r = [2]"
    using demo_report by blast
  show ?thesis using r stragglers_match_imbalance [OF r(1)] by simp
qed

theorem findings_are_crossed_rules_witness:
  "\<exists>r. analyze demo_analysis (demo_capture demo_events) (Finite (6 / 5)) = Inr r \<and> ''imbalance'' \<in> set (map fi_category (an_findings r))"
proof -
  obtain r where r: "analyze demo_analysis (demo_capture demo_events) (Finite (6 / 5)) = Inr r" "an_straggler_ranks r = [2]"
    using demo_report by blast
  have "''imbalance'' \<in> set (crossed_rules r)" "crossed_rules r \<noteq> []" using r(2) by (simp_all add: crossed_rules_def)
  with r(1) findings_are_crossed_rules [OF r(1)] show ?thesis by (intro exI [of _ r]) (simp del: set_map)
qed

theorem operation_totals_witness:
  "\<exists>r. analyze demo_analysis (demo_capture demo_events) (Finite (6 / 5)) = Inr r
     \<and> map_of (an_operations r) ''MPI_Send'' = Some \<lparr>os_calls = 12, os_duration_ns = 30, os_payload_bytes = 192\<rparr>"
proof -
  obtain r where r: "analyze demo_analysis (demo_capture demo_events) (Finite (6 / 5)) = Inr r"
    using demo_report by blast
  show ?thesis using r operation_totals [OF r]
    by (simp add: demo_summaries demo_ranks_def demo_rank_def all_operations_def stats_named_def total_stats_def)
qed

theorem directory_order_is_irrelevant_witness:
  "\<exists>r. analyze demo_analysis ((demo_capture demo_events)\<lparr>cd_entries := rev (cd_entries (demo_capture demo_events))\<rparr>) (Finite (6 / 5))
     = Inr r"
proof -
  have "distinct (map fst (cd_entries (demo_capture demo_events)))" by (simp add: demo_capture_def)
  then show ?thesis
    using demo_report directory_order_is_irrelevant [of "rev (cd_entries (demo_capture demo_events))" "demo_capture demo_events"]
    by auto
qed

end
