(* ===== verification/Spec2Isabelle.thy ===== *)
theory Spec2Isabelle
  imports System Slurm Analytics Api_Isolation Scheduler_Service Diagnosis
begin

text \<open>
  \<^bold>\<open>RankLens: a model of the enterprise evidence services\<close>

  RankLens collects telemetry of MPI jobs.  Agents upload \<^emph>\<open>segments\<close> (ranges of records of a stream of an attempt of a job)
  to an ingestion service, which stores the payload as an immutable object and a manifest row in a transactional catalogue;
  background workers normalise admitted segments, build versioned reports, erase attempts on request or when their
  retention ends, collect orphaned objects, deliver integrity notifications and poll the batch scheduler.  The library
  models the Python package \<^verbatim>\<open>src/python/ranklens_enterprise\<close> and the offline analyser of \<^verbatim>\<open>src/python/ranklens\<close>.

  \<^bold>\<open>Conventions\<close> (\<open>Prelude\<close>, \<open>Python_Base\<close>, \<open>Catalog\<close>).  A table of the catalogue is the list of its rows; every class of
  \<^verbatim>\<open>database.py\<close> is a record with the columns of the source, and \<open>catalog\<close> is the record of all tables.  \<open>add_row\<close> checks the
  primary key and the unique constraints an insertion can violate.  \<open>begin_txn\<close> is \<open>with sessions.begin()\<close>: it keeps the new
  catalogue on a normal exit and the old one when the block raises.  An exception is a value of \<open>py_error\<close> on the left of a
  \<open>result\<close>.  Python integers are \<open>int\<close>, text and bytes are lists of 8-bit characters, a timestamp is an instant in
  microseconds.  Random identifiers, clocks, temporary file names, the network, the scheduler process, SHA-256, HMAC,
  \<open>json.loads\<close>, \<open>isoformat\<close> and \<open>fromisoformat\<close> are arguments of the definitions that use them; what a theorem needs of
  them is a named hypothesis (\<open>hex_digests\<close>: digests are 64 hexadecimal digits; \<open>tmp_fresh\<close>, \<open>report_tmp_fresh\<close>: temporary
  names are unused; \<open>iso_roundtrip\<close>: a written time is read back; \<open>hmac_ascii\<close>; \<open>decodes_to_dict\<close>: decoded objects have
  distinct keys), and each has a witness.

  \<^bold>\<open>Theories and sources\<close>

  \<^item> \<open>Object_Store\<close> (\<^verbatim>\<open>storage.py\<close>): \<open>LocalObjectStore\<close> on an explicit file system with symbolic links, temporary files and
    a crash trace of \<open>put_verified\<close>; the locale \<open>object_store\<close> states the contract of the protocol and is interpreted on
    the file system.
  \<^item> \<open>Contracts\<close> (\<^verbatim>\<open>contracts.py\<close>): segment uploads and receipts with the constraints pydantic enforces.
  \<^item> \<open>Admission\<close> (\<^verbatim>\<open>ingestion.py\<close>): payload preparation, the reservation transaction, the object write, the commit
    transaction and receipts.  Shown: a receipt is durable, admission is idempotent, an error changes nothing that matters,
    fenced attempts are refused.
  \<^item> \<open>Retention\<close> (\<^verbatim>\<open>ingestion.py\<close>): policy revisions, cancellation, backfill preview and application.
  \<^item> \<open>Lifecycle\<close> (\<^verbatim>\<open>ingestion.py\<close>): holds and deletion requests, with the invariant that ties holds, deletions and
    generations together.
  \<^item> \<open>Leases\<close>: the locale of the lease protocol shared by the workers, interpreted on the deletion, outbox, notification and
    poll rows: a superseded lease is never honoured again.
  \<^item> \<open>Integrity\<close> (\<^verbatim>\<open>integrity.py\<close>), \<open>Deletion_Worker\<close>, \<open>Garbage_Collection\<close>, \<open>Outbox\<close>, \<open>Reports\<close> (\<^verbatim>\<open>worker.py\<close>), \<open>Parquet\<close>
    (\<^verbatim>\<open>parquet.py\<close>), \<open>Notifications\<close> (\<^verbatim>\<open>notifications.py\<close>), \<open>Recovery\<close> (\<^verbatim>\<open>recovery.py\<close>): one theory per worker or service, each
    with its claim, execution and failure operations and what they guarantee (complete and confined erasure, collection of
    unreferenced objects only, exactly-once publication, consistent report histories, bounded retries, tombstones that
    survive a restore).
  \<^item> \<open>Scheduler\<close> (\<^verbatim>\<open>scheduler.py\<close>), \<open>Slurm\<close> (\<^verbatim>\<open>slurm.py\<close>): observations, allocation timelines, the leased poller with its
    backoff, and the accounting adapter.
  \<^item> \<open>Service_Settings\<close> (\<^verbatim>\<open>settings.py\<close>), \<open>Auth\<close> (\<^verbatim>\<open>auth.py\<close>): the fail-closed configuration, bearer authentication and
    revocation.
  \<^item> \<open>System\<close>: every transaction of the services as one step of an inductive relation, in any order.  Shown by rule induction:
    the evidence of undeleted attempts stays intact in every reachable state, deletion is final, the services implement an
    abstract ledger of admitted segments and deleted attempts, and the composed operations are runs of the atomic steps.
  \<^item> \<open>Api_Read\<close> (\<^verbatim>\<open>api.py\<close>): every \<open>GET\<close> handler that reads the catalogue, with its parameter constraints and views.  Shown:
    an answer depends only on the rows of the principal's tenant and clusters, paging lists every attempt once, a deleted
    attempt is hidden, the active policy shown is the one admission applies.
  \<^item> \<open>Analytics\<close> (\<^verbatim>\<open>analytics.py\<close>): the latest summary of every rank read back from the stored projection, and its coverage.
  \<^item> \<open>Api_Commands\<close> (\<^verbatim>\<open>api.py\<close>, \<^verbatim>\<open>contracts.py\<close>): the request models, the middleware, every \<open>POST\<close>, \<open>PUT\<close> and \<open>DELETE\<close>
    handler, artifact downloads and rank aggregates; \<open>command_endpoint\<close> is one request.  Shown: requests are runs of
    \<open>System\<close>, downloads are verified and audited, what the report worker publishes can be downloaded, and the answers of the
    hold and policy handlers are exact.
  \<^item> \<open>Api_Isolation\<close>: no command changes a row outside the tenant and the clusters of its principal (\<open>foreign\<close> keeps exactly
    those rows), hence no tenant can change what another reads.
  \<^item> \<open>Worker_Process\<close> (\<^verbatim>\<open>worker.py\<close>, \<open>main\<close>): the workers built from the settings, one turn of the loop with the timers of the
    sweeps, and the loop with other services between the turns.  Shown: the whole process is a run of \<open>System\<close>, an idle turn
    leaves nothing claimable, accepted settings start.
  \<^item> \<open>Scheduler_Service\<close> (\<^verbatim>\<open>scheduler_service.py\<close>): its settings, the adapters of the configured clusters, registration and
    the polling loop.  Shown: start-up registers exactly what is configured, and the service is a run of \<open>System\<close>.
  \<^item> \<open>Py_Float\<close>: Python's \<open>float\<close> as exact rationals rounded to binary64, with monotonicity of rounding and of integer
    division and the rendering of fixed-point and percent formats.
  \<^item> \<open>Analyzer\<close>, \<open>Diagnosis\<close> (\<^verbatim>\<open>ranklens/analyzer.py\<close>, \<^verbatim>\<open>ranklens/models.py\<close>): the offline analysis of a capture directory.
    Shown: loaded summaries are well formed, the edges, the timeline and the operation totals count exactly what the files
    say, rejected evidence is reported, a complete report covers every rank, and the findings are the rules it crosses.

  \<^bold>\<open>Fuel and bounds\<close>.  No definition uses fuel: loops are structural recursions over tables, payload lines or batches, and the
  chunked read of \<open>read_verified_bounded\<close> has a termination proof.

  \<^bold>\<open>Not modelled\<close>.  SQLAlchemy sessions beyond the atomicity of transactions (advisory locks are the atomicity of the steps
  that take them), schema migrations, connection handling, the encoding of Arrow tables, process start-up and signal handling,
  command-line parsing, the HTML report, the Go agent, the C++ interceptor and the web client.
\<close>

end
